(* ===== verification/Prelude.thy ===== *)
theory Prelude
  imports
    Main
    "HOL-Library.Word"
    "HOL-Library.Product_Lexorder"
    "HOL-Library.List_Lexorder"
    "HOL-Library.Option_ord"
    "HOL-Library.Char_ord"
begin

text \<open>
  Shared vocabulary of the development: the machine integers of the Rust code as words of
  their width, byte strings, the result type of fallible operations, and the arithmetic
  facts about 64-bit timestamps and counters that every component uses.

  Conventions. A Rust \<open>Result\<close> is the sum \<open>'e + 'a\<close> with \<open>Inl\<close> the error. A canister
  message that may trap returns an \<open>option\<close>; \<open>None\<close> is the trap, on which the Internet
  Computer discards every state change of the message, so no state is returned with it. A
  Rust \<open>String\<close> is a list of HOL characters read as its UTF-8 bytes, so that \<open>length\<close> is
  what \<open>str::len\<close> counts. \<open>usize\<close> lengths of in-memory vectors are natural numbers. The
  release profile of the workspace does not enable overflow checks, so \<open>+\<close>, \<open>-\<close> and \<open>*\<close>
  on the machine integers wrap around exactly as they do on words.
\<close>

section \<open>Machine integers and byte strings\<close>

type_synonym u8 = "8 word"
type_synonym u16 = "16 word"
type_synonym u32 = "32 word"
type_synonym u64 = "64 word"

type_synonym bytes = "u8 list"

type_synonym timestamp = u64
type_synonym anchor_number = u64
type_synonym account_number = u64
type_synonym application_number = u64

named_theorems unat_simps \<open>moving 64-bit arithmetic to natural numbers\<close>

lemma word64_less_unat [unat_simps]: "(a :: u64) < b \<longleftrightarrow> unat a < unat b"
  by (rule word_less_nat_alt)

lemma word64_le_unat [unat_simps]: "(a :: u64) \<le> b \<longleftrightarrow> unat a \<le> unat b"
  by (rule word_le_nat_alt)

lemma unat64_bound: "unat (a :: u64) < 18446744073709551616"
  using unsigned_less [of a] by simp

lemma unat32_bound: "unat (a :: u32) < 4294967296"
  using unsigned_less [of a] by simp

lemma unat64_add: "unat a + unat b < 18446744073709551616 \<Longrightarrow> unat (a + b :: u64) = unat a + unat b"
  by (simp add: unat_word_ariths)

lemma unat32_add: "unat a + unat b < 4294967296 \<Longrightarrow> unat (a + b :: u32) = unat a + unat b"
  by (simp add: unat_word_ariths)

lemma unat64_sub: "b \<le> a \<Longrightarrow> unat (a - b :: u64) = unat a - unat b"
  by (rule unat_sub)

lemma unat64_mult: "unat a * unat b < 18446744073709551616 \<Longrightarrow> unat (a * b :: u64) = unat a * unat b"
  by (simp add: unat_word_ariths)

lemma unat64_eqI: "unat a = unat b \<Longrightarrow> (a :: u64) = b"
  by (simp add: word_unat_eq_iff)

lemma unat_of_nat64: "n < 18446744073709551616 \<Longrightarrow> unat (of_nat n :: u64) = n"
  by (simp add: unat_of_nat take_bit_eq_mod)

text \<open>\<open>u64::saturating_add\<close> and \<open>u64::saturating_sub\<close>.\<close>

definition saturating_add64 :: "u64 \<Rightarrow> u64 \<Rightarrow> u64" where
  "saturating_add64 a b = (if unat a + unat b < 2 ^ 64 then a + b else - 1)"

definition saturating_sub64 :: "u64 \<Rightarrow> u64 \<Rightarrow> u64" where
  "saturating_sub64 a b = (if b \<le> a then a - b else 0)"

lemma saturating_add64_exact:
  "unat a + unat b < 18446744073709551616 \<Longrightarrow> saturating_add64 a b = a + b"
  by (simp add: saturating_add64_def)

lemma unat_saturating_add64:
  "unat (saturating_add64 a b) = min (unat a + unat b) 18446744073709551615"
proof (cases "unat a + unat b < 18446744073709551616")
  case True
  then show ?thesis by (simp add: saturating_add64_def unat64_add)
next
  case False
  have "unat (- 1 :: u64) = 18446744073709551615"
    by (simp add: unsigned_minus_1_eq_mask mask_eq_exp_minus_1)
  with False show ?thesis by (simp add: saturating_add64_def)
qed

lemma unat_saturating_sub64: "unat (saturating_sub64 a b) = unat a - unat b"
  by (simp add: saturating_sub64_def unat64_sub unat_simps)

section \<open>Time constants\<close>

text \<open>\<open>secs_to_nanos\<close> and the constants derived from it.\<close>

definition secs_to_nanos :: "u64 \<Rightarrow> u64" where
  "secs_to_nanos s = s * 1000000000"

definition MINUTE_NS :: u64 where "MINUTE_NS = secs_to_nanos 60"
definition HOUR_NS :: u64 where "HOUR_NS = 60 * MINUTE_NS"
definition DAY_NS :: u64 where "DAY_NS = 24 * HOUR_NS"

lemma MINUTE_NS_value [simp]: "MINUTE_NS = 60000000000"
  by (simp add: MINUTE_NS_def secs_to_nanos_def)

lemma DAY_NS_value [simp]: "DAY_NS = 86400000000000"
  by (simp add: DAY_NS_def HOUR_NS_def)

section \<open>Lists\<close>

text \<open>\<open>Vec::remove\<close> and the position of the first match of \<open>Iterator::position\<close>.\<close>

definition remove_nth :: "nat \<Rightarrow> 'a list \<Rightarrow> 'a list" where
  "remove_nth i xs = take i xs @ drop (Suc i) xs"

fun position :: "('a \<Rightarrow> bool) \<Rightarrow> 'a list \<Rightarrow> nat option" where
  "position P [] = None"
| "position P (x # xs) = (if P x then Some 0 else map_option Suc (position P xs))"

lemma position_None_iff: "position P xs = None \<longleftrightarrow> (\<forall>x \<in> set xs. \<not> P x)"
  by (induction xs) auto

lemma position_SomeD:
  "position P xs = Some i \<Longrightarrow> i < length xs \<and> P (xs ! i) \<and> (\<forall>j < i. \<not> P (xs ! j))"
proof (induction xs arbitrary: i)
  case Nil
  then show ?case by simp
next
  case (Cons x xs)
  show ?case
  proof (cases "P x")
    case True
    with Cons.prems show ?thesis by simp
  next
    case False
    with Cons.prems obtain j where j: "position P xs = Some j" and i: "i = Suc j" by auto
    from Cons.IH [OF j] False show ?thesis
      by (auto simp: i nth_Cons split: nat.splits)
  qed
qed

lemma find_position: "find P xs = map_option (nth xs) (position P xs)"
  by (induction xs) (auto simp: option.map_comp comp_def)

lemma length_remove_nth: "i < length xs \<Longrightarrow> length (remove_nth i xs) = length xs - 1"
  by (simp add: remove_nth_def)

lemma set_remove_nth_subset: "set (remove_nth i xs) \<subseteq> set xs"
  by (auto simp: remove_nth_def dest: in_set_takeD in_set_dropD)

lemma map_remove_nth: "map f (remove_nth i xs) = remove_nth i (map f xs)"
  by (simp add: remove_nth_def take_map drop_map)

lemma filter_remove_nth_le:
  "length (filter P (remove_nth i xs)) \<le> length (filter P xs)"
proof -
  have "length (filter P xs) = length (filter P (take i xs)) + length (filter P (drop i xs))"
    by (metis append_take_drop_id filter_append length_append)
  moreover have "length (filter P (drop (Suc i) xs)) \<le> length (filter P (drop i xs))"
    by (cases "i < length xs") (simp_all add: Cons_nth_drop_Suc [symmetric])
  ultimately show ?thesis by (simp add: remove_nth_def)
qed

lemma sum_list_remove_nth_le: "sum_list (map (f :: 'a \<Rightarrow> nat) (remove_nth i xs)) \<le> sum_list (map f xs)"
proof (cases "i < length xs")
  case True
  then have "xs = take i xs @ xs ! i # drop (Suc i) xs"
    by (rule id_take_nth_drop)
  then have "sum_list (map f xs) = sum_list (map f (take i xs)) + f (xs ! i) + sum_list (map f (drop (Suc i) xs))"
    by (metis (no_types) add.assoc list.simps(9) map_append sum_list.Cons sum_list_append)
  then show ?thesis by (simp add: remove_nth_def)
next
  case False
  then show ?thesis by (simp add: remove_nth_def)
qed

lemma distinct_remove_nth: "distinct xs \<Longrightarrow> distinct (remove_nth i xs)"
  by (auto simp: remove_nth_def set_take_disj_set_drop_if_distinct)

lemma remove_nth_notin:
  "distinct xs \<Longrightarrow> i < length xs \<Longrightarrow> xs ! i \<notin> set (remove_nth i xs)"
proof -
  assume d: "distinct xs" and i: "i < length xs"
  from i have "xs = take i xs @ xs ! i # drop (Suc i) xs" by (rule id_take_nth_drop)
  with d have "distinct (take i xs @ xs ! i # drop (Suc i) xs)" by simp
  then show ?thesis by (simp add: remove_nth_def)
qed

lemma set_remove_nth_distinct:
  "distinct xs \<Longrightarrow> i < length xs \<Longrightarrow> set (remove_nth i xs) = set xs - {xs ! i}"
proof -
  assume d: "distinct xs" and i: "i < length xs"
  from i have eq: "xs = take i xs @ xs ! i # drop (Suc i) xs" by (rule id_take_nth_drop)
  then have "set xs = insert (xs ! i) (set (remove_nth i xs))"
    by (metis list.set(2) remove_nth_def set_append Un_insert_right)
  with remove_nth_notin [OF d i] show ?thesis by auto
qed

end
