(* ===== verification/Ordered_Map.thy ===== *)
theory Ordered_Map
  imports Prelude
begin

text \<open>
  The finite maps of the program. Two kinds occur: the \<open>StableBTreeMap\<close>s of the stable memory
  (iterated and range-scanned in key order) and the \<open>HashMap\<close>s of the heap (their iteration
  order is never relied on). Both are modelled by one type of finite maps, represented by the
  list of entries in strictly increasing key order, with the operations the program calls:
  \<open>get\<close>, \<open>insert\<close>, \<open>remove\<close>, \<open>retain\<close>, \<open>len\<close>, \<open>iter\<close> and \<open>range\<close>.

  What the program relies on is stated once as the locale \<open>finite_map\<close>; the lemmas clients use
  are proved inside it and reach them through the interpretation at the end.
\<close>

section \<open>Entry lists\<close>

fun ins_entry :: "'k::linorder \<Rightarrow> 'v \<Rightarrow> ('k \<times> 'v) list \<Rightarrow> ('k \<times> 'v) list" where
  "ins_entry k v [] = [(k, v)]"
| "ins_entry k v ((a, b) # xs) =
     (if k < a then (k, v) # (a, b) # xs
      else if k = a then (k, v) # xs
      else (a, b) # ins_entry k v xs)"

abbreviation sorted_entries :: "('k::linorder \<times> 'v) list \<Rightarrow> bool" where
  "sorted_entries xs \<equiv> sorted_wrt (<) (map fst xs)"

lemma set_ins_entry: "set (map fst (ins_entry k v xs)) = insert k (set (map fst xs))"
  by (induction k v xs rule: ins_entry.induct) auto

lemma sorted_ins_entry: "sorted_entries xs \<Longrightarrow> sorted_entries (ins_entry k v xs)"
proof (induction k v xs rule: ins_entry.induct)
  case (1 k v)
  then show ?case by simp
next
  case (2 k v a b xs)
  have "\<forall>x \<in> set (map fst (ins_entry k v xs)). a < x" if "a < k"
    using 2(2) that by (auto simp: set_ins_entry simp del: set_map)
  with 2 show ?case by (auto simp: not_less dest: order.strict_trans)
qed

lemma map_of_ins_entry: "map_of (ins_entry k v xs) = (map_of xs)(k \<mapsto> v)"
  by (induction k v xs rule: ins_entry.induct) auto

lemma sorted_filter_entries: "sorted_entries xs \<Longrightarrow> sorted_entries (filter P xs)"
  by (induction xs) auto

lemma map_of_filter_entries:
  "sorted_entries xs \<Longrightarrow>
   map_of (filter P xs) k = (case map_of xs k of None \<Rightarrow> None | Some v \<Rightarrow> if P (k, v) then Some v else None)"
proof (induction xs)
  case Nil
  then show ?case by simp
next
  case (Cons x xs)
  have "map_of xs (fst x) = None"
    using Cons.prems by (auto simp: map_of_eq_None_iff)
  with Cons show ?case by (cases x) (auto split: option.splits)
qed

lemma sorted_distinct_entries: "sorted_entries xs \<Longrightarrow> distinct (map fst xs)"
  by (induction xs) auto

lemma sorted_entries_unique:
  "sorted_entries xs \<Longrightarrow> sorted_entries ys \<Longrightarrow> map_of xs = map_of ys \<Longrightarrow> xs = ys"
proof -
  assume s: "sorted_entries xs" "sorted_entries ys" and eq: "map_of xs = map_of ys"
  have d: "distinct (map fst xs)" "distinct (map fst ys)"
    using s by (simp_all add: sorted_distinct_entries)
  have "set xs = set ys"
    using map_of_eq_Some_iff [OF d(1)] map_of_eq_Some_iff [OF d(2)] eq by (metis subrelI subset_antisym)
  then have keys: "map fst xs = map fst ys"
    using s by (intro strict_sorted_equal) simp_all
  moreover have "inj_on fst (set xs \<union> set ys)"
    using d(1) \<open>set xs = set ys\<close> by (simp add: distinct_map)
  ultimately show ?thesis by (rule map_inj_on)
qed

section \<open>The type of finite maps\<close>

typedef (overloaded) ('k::linorder, 'v) omap = "{xs :: ('k \<times> 'v) list. sorted_entries xs}"
  morphisms om_entries Abs_omap
  by (rule exI [of _ "[]"]) simp

setup_lifting type_definition_omap

lemma sorted_om_entries [simp]: "sorted_entries (om_entries m)"
  using om_entries by blast

lift_definition om_empty :: "('k::linorder, 'v) omap" is "[]" by simp

lift_definition om_get :: "('k::linorder, 'v) omap \<Rightarrow> 'k \<Rightarrow> 'v option" is "\<lambda>xs k. map_of xs k" .

lift_definition om_insert :: "'k::linorder \<Rightarrow> 'v \<Rightarrow> ('k, 'v) omap \<Rightarrow> ('k, 'v) omap" is ins_entry
  by (rule sorted_ins_entry)

lift_definition om_remove :: "'k::linorder \<Rightarrow> ('k, 'v) omap \<Rightarrow> ('k, 'v) omap" is
  "\<lambda>k xs. filter (\<lambda>e. fst e \<noteq> k) xs"
  by (rule sorted_filter_entries)

text \<open>\<open>HashMap::retain\<close>.\<close>

lift_definition om_retain :: "('k::linorder \<Rightarrow> 'v \<Rightarrow> bool) \<Rightarrow> ('k, 'v) omap \<Rightarrow> ('k, 'v) omap" is
  "\<lambda>P xs. filter (\<lambda>(k, v). P k v) xs"
  by (rule sorted_filter_entries)

definition om_len :: "('k::linorder, 'v) omap \<Rightarrow> nat" where
  "om_len m = length (om_entries m)"

definition om_contains :: "('k::linorder, 'v) omap \<Rightarrow> 'k \<Rightarrow> bool" where
  "om_contains m k \<longleftrightarrow> om_get m k \<noteq> None"

definition om_keys :: "('k::linorder, 'v) omap \<Rightarrow> 'k list" where
  "om_keys m = map fst (om_entries m)"

text \<open>
  \<open>range\<close> over the keys that satisfy a predicate (the bounds of the call), in key order.
\<close>

definition om_range :: "('k::linorder \<Rightarrow> bool) \<Rightarrow> ('k, 'v) omap \<Rightarrow> ('k \<times> 'v) list" where
  "om_range P m = filter (\<lambda>e. P (fst e)) (om_entries m)"

lemma om_entries_empty [simp]: "om_entries om_empty = []"
  by transfer simp

lemma om_entries_insert: "om_entries (om_insert k v m) = ins_entry k v (om_entries m)"
  by transfer simp

lemma om_entries_remove: "om_entries (om_remove k m) = filter (\<lambda>e. fst e \<noteq> k) (om_entries m)"
  by transfer simp

lemma om_entries_retain: "om_entries (om_retain P m) = filter (\<lambda>(k, v). P k v) (om_entries m)"
  by transfer simp

lemma om_get_entries: "om_get m k = map_of (om_entries m) k"
  by transfer simp

lemmas om_eval = om_entries_insert om_entries_remove om_entries_retain om_len_def om_keys_def
  om_range_def

lemma om_get_empty [simp]: "om_get om_empty k = None"
  by transfer simp

lemma om_get_insert [simp]: "om_get (om_insert k v m) k' = (if k' = k then Some v else om_get m k')"
  by transfer (simp add: map_of_ins_entry)

lemma om_get_retain:
  "om_get (om_retain P m) k =
     (case om_get m k of None \<Rightarrow> None | Some v \<Rightarrow> if P k v then Some v else None)"
  by transfer (auto simp: map_of_filter_entries split: option.splits)

lemma om_get_remove [simp]: "om_get (om_remove k m) k' = (if k' = k then None else om_get m k')"
  by transfer (auto simp: map_of_filter_entries split: option.splits)

lemma om_eqI: "(\<And>k. om_get m k = om_get m' k) \<Longrightarrow> m = m'"
  by transfer (rule sorted_entries_unique, auto)

lemma om_in_entries: "(k, v) \<in> set (om_entries m) \<longleftrightarrow> om_get m k = Some v"
  by (simp add: om_get_entries sorted_distinct_entries)

lemma om_distinct_keys [simp]: "distinct (om_keys m)"
  by (simp add: om_keys_def sorted_distinct_entries)

lemma om_in_keys: "k \<in> set (om_keys m) \<longleftrightarrow> om_get m k \<noteq> None"
  by (simp add: om_keys_def om_get_entries map_of_eq_None_iff)

lemma om_contains_insert [simp]: "om_contains (om_insert k v m) k' \<longleftrightarrow> k' = k \<or> om_contains m k'"
  by (simp add: om_contains_def)

lemma om_contains_remove [simp]: "om_contains (om_remove k m) k' \<longleftrightarrow> k' \<noteq> k \<and> om_contains m k'"
  by (simp add: om_contains_def)

lemma om_contains_empty [simp]: "\<not> om_contains om_empty k"
  by (simp add: om_contains_def)

lemma om_len_empty [simp]: "om_len om_empty = 0"
  by (simp add: om_len_def)

lemma om_len_card: "om_len m = card {k. om_contains m k}"
proof -
  have "om_len m = card (set (om_keys m))"
    by (simp only: distinct_card [OF om_distinct_keys]) (simp add: om_len_def om_keys_def)
  moreover have "set (om_keys m) = {k. om_contains m k}"
    by (auto simp: om_in_keys om_contains_def)
  ultimately show ?thesis by simp
qed

lemma finite_om_contains [simp]: "finite {k. om_contains m k}"
proof -
  have "{k. om_contains m k} = set (om_keys m)"
    by (auto simp: om_in_keys om_contains_def)
  then show ?thesis by simp
qed

section \<open>The interface clients rely on\<close>

locale finite_map =
  fixes empty :: "'m"
    and get :: "'m \<Rightarrow> 'k \<Rightarrow> 'v option"
    and insert :: "'k \<Rightarrow> 'v \<Rightarrow> 'm \<Rightarrow> 'm"
    and remove :: "'k \<Rightarrow> 'm \<Rightarrow> 'm"
    and len :: "'m \<Rightarrow> nat"
  assumes get_empty: "get empty k = None"
    and get_insert: "get (insert k v m) = (get m)(k \<mapsto> v)"
    and get_remove: "get (remove k m) = (get m)(k := None)"
    and extensional: "get m = get m' \<Longrightarrow> m = m'"
    and finite_dom: "finite (dom (get m))"
    and len_card: "len m = card (dom (get m))"
begin

lemma insert_insert: "insert k v (insert k w m) = insert k v m"
  by (rule extensional) (simp add: get_insert)

lemma insert_commute: "k \<noteq> k' \<Longrightarrow> insert k v (insert k' w m) = insert k' w (insert k v m)"
  by (rule extensional) (simp add: get_insert fun_upd_twist)

lemma remove_insert: "get m k = None \<Longrightarrow> remove k (insert k v m) = m"
  by (rule extensional) (auto simp: get_insert get_remove fun_eq_iff)

lemma insert_same: "get m k = Some v \<Longrightarrow> insert k v m = m"
  by (rule extensional) (auto simp: get_insert fun_eq_iff)

lemma remove_absent: "get m k = None \<Longrightarrow> remove k m = m"
  by (rule extensional) (auto simp: get_remove fun_eq_iff)

lemma remove_remove: "remove k (remove k' m) = remove k' (remove k m)"
  by (rule extensional) (auto simp: get_remove fun_eq_iff)

lemma len_empty: "len empty = 0"
  using get_empty by (simp add: len_card dom_def)

lemma len_insert: "len (insert k v m) = (if get m k = None then Suc (len m) else len m)"
  by (auto simp: len_card get_insert domIff finite_dom insert_absorb)

lemma len_remove: "len (remove k m) = (if get m k = None then len m else len m - 1)"
  by (auto simp: len_card get_remove domIff finite_dom)

lemma len_0_iff: "len m = 0 \<longleftrightarrow> (\<forall>k. get m k = None)"
  using finite_dom [of m] by (auto simp: len_card card_0_eq domIff dest: equals0D)

end

interpretation om: finite_map om_empty om_get om_insert om_remove om_len
proof (unfold_locales, goal_cases)
  case (4 m m')
  then show ?case by (intro om_eqI) simp
next
  case (5 m)
  have "dom (om_get m) = {k. om_contains m k}" by (auto simp: om_contains_def)
  then show ?case by simp
next
  case (6 m)
  have "dom (om_get m) = {k. om_contains m k}" by (auto simp: om_contains_def)
  then show ?case by (simp add: om_len_card)
qed (auto simp: fun_eq_iff)

text \<open>Induction over the insertions that build a map, and folding removals over a key list.\<close>

definition om_remove_all :: "'k::linorder list \<Rightarrow> ('k, 'v) omap \<Rightarrow> ('k, 'v) omap" where
  "om_remove_all ks m = fold om_remove ks m"

lemma om_get_remove_all: "om_get (om_remove_all ks m) k = (if k \<in> set ks then None else om_get m k)"
  unfolding om_remove_all_def by (induction ks arbitrary: m) auto

lemma om_entries_remove_all:
  "om_entries (om_remove_all ks m) = filter (\<lambda>e. fst e \<notin> set ks) (om_entries m)"
  unfolding om_remove_all_def
  by (induction ks arbitrary: m) (auto simp: om_entries_remove intro: filter_cong)

end
