(* ===== verification/Interface_Types.thy ===== *)
theory Interface_Types
  imports Ordered_Map
begin

text \<open>
  The data types of the canister interface and of the internal anchor module that the
  components share (\<open>internet_identity_interface/.../types.rs\<close>, \<open>ii_domain.rs\<close>,
  \<open>openid.rs\<close>, \<open>storage/anchor.rs\<close>).

  Record fields carry a prefix (\<open>dev_\<close>, \<open>oc_\<close>) because HOL has one name space for the
  selectors of all records. \<open>Device\<close> has the fields of \<open>DeviceData\<close> and one more, so it is
  an extension of that record. \<open>Principal\<close> is its byte string. \<open>HashMap\<close>s nested inside
  metadata are association lists with distinct keys in increasing order, the canonical
  representation of such a map; no operation depends on the order.
\<close>

type_synonym principal = bytes
type_synonym device_key = bytes
type_synonym credential_id = bytes
type_synonym frontend_hostname = string

datatype purpose = Recovery | Authentication

datatype key_type = Unknown | Platform | CrossPlatform | SeedPhrase | BrowserStorageKey

datatype device_protection = Protected | Unprotected

datatype metadata_entry =
    MetadataString string
  | MetadataBytes bytes
  | MetadataMap "(string \<times> metadata_entry) list"

type_synonym metadata = "(string \<times> metadata_entry) list"

datatype metadata_entry_v2 =
    StringV2 string
  | BytesV2 bytes
  | MapV2 "(string \<times> metadata_entry_v2) list"

type_synonym metadata_v2 = "(string \<times> metadata_entry_v2) list"

record device_data =
  dev_pubkey :: device_key
  dev_alias :: string
  dev_credential_id :: "credential_id option"
  dev_aaguid :: "bytes option"
  dev_purpose :: purpose
  dev_key_type :: key_type
  dev_protection :: device_protection
  dev_origin :: "string option"
  dev_metadata :: "metadata option"

record device = device_data +
  dev_last_usage :: "timestamp option"

section \<open>OpenID credentials\<close>

type_synonym iss = string
type_synonym sub = string
type_synonym aud = string
type_synonym openid_credential_key = "iss \<times> sub \<times> aud"

record openid_credential =
  oc_iss :: iss
  oc_sub :: sub
  oc_aud :: aud
  oc_last_usage :: "timestamp option"
  oc_metadata :: metadata_v2

text \<open>\<open>OpenIdCredential::key\<close>.\<close>

definition oc_key :: "openid_credential \<Rightarrow> openid_credential_key" where
  "oc_key c = (oc_iss c, oc_sub c, oc_aud c)"

datatype authorization_key =
    DeviceKey device_key
  | OpenIdCredentialKey openid_credential_key "string option"

section \<open>The domains Internet Identity is served from\<close>

definition IC0_APP_ORIGIN :: string where
  "IC0_APP_ORIGIN = ''https://identity.ic0.app''"

definition INTERNETCOMPUTER_ORG_ORIGIN :: string where
  "INTERNETCOMPUTER_ORG_ORIGIN = ''https://identity.internetcomputer.org''"

definition ID_AI_ORIGIN :: string where
  "ID_AI_ORIGIN = ''https://id.ai''"

datatype ii_domain = Ic0App | InternetComputerOrg | IdAi

definition ii_domain_try_from :: "string \<Rightarrow> ii_domain option" where
  "ii_domain_try_from origin =
     (if origin = IC0_APP_ORIGIN then Some Ic0App
      else if origin = INTERNETCOMPUTER_ORG_ORIGIN then Some InternetComputerOrg
      else if origin = ID_AI_ORIGIN then Some IdAi
      else None)"

datatype domain_activity =
    NoActivity
  | NonIIDomain
  | OnlyIc0App
  | OnlyInternetComputerOrg
  | OnlyIdAi
  | BothIIDomains

fun is_same_domain :: "ii_domain \<Rightarrow> domain_activity \<Rightarrow> bool" where
  "is_same_domain Ic0App a = (a = OnlyIc0App)"
| "is_same_domain InternetComputerOrg a = (a = OnlyInternetComputerOrg)"
| "is_same_domain IdAi a = (a = OnlyIdAi)"

lemma ii_origins_distinct [simp]:
  "IC0_APP_ORIGIN \<noteq> INTERNETCOMPUTER_ORG_ORIGIN"
  "INTERNETCOMPUTER_ORG_ORIGIN \<noteq> IC0_APP_ORIGIN"
  "IC0_APP_ORIGIN \<noteq> ID_AI_ORIGIN"
  "ID_AI_ORIGIN \<noteq> IC0_APP_ORIGIN"
  "INTERNETCOMPUTER_ORG_ORIGIN \<noteq> ID_AI_ORIGIN"
  "ID_AI_ORIGIN \<noteq> INTERNETCOMPUTER_ORG_ORIGIN"
  by (simp_all add: IC0_APP_ORIGIN_def INTERNETCOMPUTER_ORG_ORIGIN_def ID_AI_ORIGIN_def)

text \<open>The domain names are ordered as the enum declares them (derived \<open>Ord\<close>).\<close>

fun ii_domain_index :: "ii_domain \<Rightarrow> nat" where
  "ii_domain_index Ic0App = 0"
| "ii_domain_index InternetComputerOrg = 1"
| "ii_domain_index IdAi = 2"

lemma ii_domain_index_inj: "ii_domain_index a = ii_domain_index b \<Longrightarrow> a = b"
  by (cases a; cases b) simp_all

instantiation ii_domain :: linorder
begin

definition less_eq_ii_domain :: "ii_domain \<Rightarrow> ii_domain \<Rightarrow> bool" where
  "less_eq_ii_domain a b \<longleftrightarrow> ii_domain_index a \<le> ii_domain_index b"

definition less_ii_domain :: "ii_domain \<Rightarrow> ii_domain \<Rightarrow> bool" where
  "less_ii_domain a b \<longleftrightarrow> ii_domain_index a < ii_domain_index b"

instance
  by standard (auto simp: less_eq_ii_domain_def less_ii_domain_def intro: ii_domain_index_inj)

end

section \<open>Operations recorded in the archive\<close>

record device_data_without_alias =
  dwa_pubkey :: device_key
  dwa_credential_id :: "credential_id option"
  dwa_purpose :: purpose
  dwa_key_type :: key_type
  dwa_protection :: device_protection
  dwa_origin :: "string option"
  dwa_metadata_keys :: "string list option"

text \<open>\<open>Private::Redacted\<close> is the only constructor of \<open>Private\<close>, so it is \<open>unit\<close>.\<close>

record device_data_update =
  upd_alias :: "unit option"
  upd_credential_id :: "credential_id option"
  upd_purpose :: "purpose option"
  upd_key_type :: "key_type option"
  upd_protection :: "device_protection option"
  upd_origin :: "string option option"
  upd_metadata_keys :: "string list option"

datatype operation =
    RegisterAnchor device_data_without_alias
  | AddDevice device_data_without_alias
  | UpdateDevice device_key device_data_update
  | ReplaceDevice device_key device_data_without_alias
  | RemoveDevice device_key
  | IdentityMetadataReplace "string list"
  | AddOpenIdCredential iss
  | RemoveOpenIdCredential iss
  | RegisterAnchorWithOpenIdCredential iss
  | AddName
  | UpdateName
  | RemoveName
  | CreateAccount
  | UpdateAccount "unit option"
  | DeleteAccount
  | SetDefaultAccount

end
