(* ===== verification/Anchor.thy ===== *)
theory Anchor
  imports Interface_Types
begin

text \<open>
  \<open>src/internet_identity/src/storage/anchor.rs\<close>: the in-memory anchor, its invariants and
  every operation that mutates it. An operation takes the anchor and returns either an
  \<open>AnchorError\<close> (in which case the Rust method leaves \<open>self\<close> unchanged) or the new anchor.

  \<open>Principal::self_authenticating\<close> belongs to the \<open>candid\<close> crate and is the parameter \<open>sa\<close>;
  \<open>ic_cdk::caller()\<close> and \<open>ic_cdk::api::time()\<close> are arguments. Log output is not modelled.
\<close>

section \<open>Anchors and devices\<close>

record anchor =
  a_number :: anchor_number
  a_devices :: "device list"
  a_openid_credentials :: "openid_credential list"
  a_metadata :: "metadata option"
  a_name :: "string option"
  a_created_at :: "timestamp option"

datatype anchor_error =
    TooManyDevices nat nat
  | DeviceLimitExceeded string nat nat
  | CumulativeDataLimitExceeded nat nat
  | InvalidDeviceProtection key_type
  | RecoveryPhraseCredentialIdMismatch
  | MutationNotAllowed principal principal
  | MultipleRecoveryPhrases
  | CannotModifyDeviceKey
  | DeviceNotFound device_key
  | DuplicateDevice device_key
  | OpenIdCredentialAlreadyRegistered
  | OpenIdCredentialNotFound
  | ReservedMetadataKey string
  | NameTooLong nat
  | TooManyOpenIdCredentials nat nat

definition anchor_new :: "anchor_number \<Rightarrow> timestamp \<Rightarrow> anchor" where
  "anchor_new n created_at =
     \<lparr>a_number = n, a_devices = [], a_openid_credentials = [], a_metadata = None,
      a_name = None, a_created_at = Some created_at\<rparr>"

text \<open>\<open>From<DeviceData> for Device\<close>, \<open>From<Device> for DeviceData\<close>, \<open>apply_device_data\<close>.\<close>

definition device_from_data :: "device_data \<Rightarrow> device" where
  "device_from_data dd = device_data.extend dd (device.fields None)"

definition device_data_from :: "device \<Rightarrow> device_data" where
  "device_data_from d = device_data.truncate d"

definition apply_device_data :: "device \<Rightarrow> device_data \<Rightarrow> device" where
  "apply_device_data d dd =
     d\<lparr>dev_pubkey := dev_pubkey dd, dev_alias := dev_alias dd,
       dev_credential_id := dev_credential_id dd, dev_aaguid := dev_aaguid dd,
       dev_purpose := dev_purpose dd, dev_key_type := dev_key_type dd,
       dev_protection := dev_protection dd, dev_origin := dev_origin dd,
       dev_metadata := dev_metadata dd\<rparr>"

definition device_without_alias :: "device \<Rightarrow> device_data_without_alias" where
  "device_without_alias d =
     \<lparr>dwa_pubkey = dev_pubkey d, dwa_credential_id = dev_credential_id d,
      dwa_purpose = dev_purpose d, dwa_key_type = dev_key_type d,
      dwa_protection = dev_protection d, dwa_origin = dev_origin d,
      dwa_metadata_keys = map_option (map fst) (dev_metadata d)\<rparr>"

section \<open>Sizes\<close>

fun metadata_entry_len :: "metadata_entry \<Rightarrow> nat" where
  "metadata_entry_len (MetadataString v) = length v"
| "metadata_entry_len (MetadataBytes v) = length v"
| "metadata_entry_len (MetadataMap data) =
     sum_list (map (\<lambda>e. length (fst e) + metadata_entry_len (snd e)) data)"

definition metadata_len :: "metadata \<Rightarrow> nat" where
  "metadata_len m = sum_list (map (\<lambda>e. length (fst e) + metadata_entry_len (snd e)) m)"

definition opt_len :: "'a list option \<Rightarrow> nat" where
  "opt_len x = (case x of None \<Rightarrow> 0 | Some l \<Rightarrow> length l)"

definition opt_metadata_len :: "metadata option \<Rightarrow> nat" where
  "opt_metadata_len x = (case x of None \<Rightarrow> 0 | Some m \<Rightarrow> metadata_len m)"

definition variable_fields_len :: "device \<Rightarrow> nat" where
  "variable_fields_len d =
     length (dev_alias d) + length (dev_pubkey d) + opt_len (dev_credential_id d)
     + opt_len (dev_origin d) + opt_metadata_len (dev_metadata d)"

definition device_ii_domain :: "device \<Rightarrow> ii_domain option" where
  "device_ii_domain d = Option.bind (dev_origin d) ii_domain_try_from"

definition is_recovery_phrase :: "device \<Rightarrow> bool" where
  "is_recovery_phrase d \<longleftrightarrow> dev_purpose d = Recovery \<and> dev_key_type d = SeedPhrase"

section \<open>Invariant checks\<close>

definition MAX_DEVICES_PER_ANCHOR :: nat where "MAX_DEVICES_PER_ANCHOR = 20"
definition VARIABLE_FIELDS_LIMIT :: nat where "VARIABLE_FIELDS_LIMIT = 5000"

definition variable_fields_size :: "device list \<Rightarrow> metadata option \<Rightarrow> nat" where
  "variable_fields_size devices md =
     sum_list (map variable_fields_len devices) + opt_metadata_len md"

definition check_anchor_invariants :: "device list \<Rightarrow> metadata option \<Rightarrow> anchor_error + unit" where
  "check_anchor_invariants devices md =
     (if length devices > MAX_DEVICES_PER_ANCHOR
      then Inl (TooManyDevices MAX_DEVICES_PER_ANCHOR (length devices))
      else if variable_fields_size devices md > VARIABLE_FIELDS_LIMIT
      then Inl (CumulativeDataLimitExceeded (variable_fields_size devices md) VARIABLE_FIELDS_LIMIT)
      else if length (filter (\<lambda>d. dev_key_type d = SeedPhrase) devices) > 1
      then Inl MultipleRecoveryPhrases
      else Inr ())"

definition RESERVED_KEYS :: "string list" where
  "RESERVED_KEYS =
     [''pubkey'', ''alias'', ''credential_id'', ''purpose'', ''key_type'', ''protection'',
      ''origin'', ''last_usage_timestamp'', ''metadata'', ''usage'', ''authenticator_attachment'']"

definition check_device_limits :: "device \<Rightarrow> anchor_error + unit" where
  "check_device_limits d =
     (if length (dev_alias d) > 64
      then Inl (DeviceLimitExceeded ''alias'' (length (dev_alias d)) 64)
      else if length (dev_pubkey d) > 300
      then Inl (DeviceLimitExceeded ''pubkey'' (length (dev_pubkey d)) 300)
      else if opt_len (dev_credential_id d) > 350
      then Inl (DeviceLimitExceeded ''credential_id'' (opt_len (dev_credential_id d)) 350)
      else if opt_len (dev_origin d) > 100
      then Inl (DeviceLimitExceeded ''origin'' (opt_len (dev_origin d)) 100)
      else Inr ())"

definition reserved_metadata_key :: "device \<Rightarrow> string option" where
  "reserved_metadata_key d =
     (case dev_metadata d of
        None \<Rightarrow> None
      | Some md \<Rightarrow> find (\<lambda>key. key \<in> set (map fst md)) RESERVED_KEYS)"

definition check_device_invariants :: "device \<Rightarrow> anchor_error + unit" where
  "check_device_invariants d =
     (case reserved_metadata_key d of
        Some key \<Rightarrow> Inl (ReservedMetadataKey key)
      | None \<Rightarrow>
          (case check_device_limits d of
             Inl e \<Rightarrow> Inl e
           | Inr _ \<Rightarrow>
               if dev_key_type d = SeedPhrase \<and> dev_credential_id d \<noteq> None
               then Inl RecoveryPhraseCredentialIdMismatch
               else if dev_protection d = Protected \<and> dev_key_type d \<noteq> SeedPhrase
               then Inl (InvalidDeviceProtection (dev_key_type d))
               else Inr ()))"

definition check_mutation_allowed ::
  "(bytes \<Rightarrow> principal) \<Rightarrow> principal \<Rightarrow> device \<Rightarrow> anchor_error + unit" where
  "check_mutation_allowed sa caller d =
     (case dev_protection d of
        Unprotected \<Rightarrow> Inr ()
      | Protected \<Rightarrow>
          if caller \<noteq> sa (dev_pubkey d)
          then Inl (MutationNotAllowed (sa (dev_pubkey d)) caller)
          else Inr ())"

section \<open>Device operations\<close>

definition device_index :: "anchor \<Rightarrow> device_key \<Rightarrow> anchor_error + nat" where
  "device_index a k =
     (case position (\<lambda>d. dev_pubkey d = k) (a_devices a) of
        None \<Rightarrow> Inl (DeviceNotFound k)
      | Some i \<Rightarrow> Inr i)"

definition anchor_device :: "anchor \<Rightarrow> device_key \<Rightarrow> device option" where
  "anchor_device a k = find (\<lambda>d. dev_pubkey d = k) (a_devices a)"

definition add_device :: "anchor \<Rightarrow> device \<Rightarrow> anchor_error + anchor" where
  "add_device a d =
     (if \<exists>e \<in> set (a_devices a). dev_pubkey e = dev_pubkey d
      then Inl (DuplicateDevice (dev_pubkey d))
      else
        (case check_device_invariants d of
           Inl e \<Rightarrow> Inl e
         | Inr _ \<Rightarrow>
             (case check_anchor_invariants (a_devices a @ [d]) (a_metadata a) of
                Inl e \<Rightarrow> Inl e
              | Inr _ \<Rightarrow> Inr (a\<lparr>a_devices := a_devices a @ [d]\<rparr>))))"

definition remove_device ::
  "(bytes \<Rightarrow> principal) \<Rightarrow> principal \<Rightarrow> anchor \<Rightarrow> device_key \<Rightarrow> anchor_error + anchor" where
  "remove_device sa caller a k =
     (case device_index a k of
        Inl e \<Rightarrow> Inl e
      | Inr i \<Rightarrow>
          (case check_mutation_allowed sa caller (a_devices a ! i) of
             Inl e \<Rightarrow> Inl e
           | Inr _ \<Rightarrow> Inr (a\<lparr>a_devices := remove_nth i (a_devices a)\<rparr>)))"

definition modify_device ::
  "(bytes \<Rightarrow> principal) \<Rightarrow> principal \<Rightarrow> anchor \<Rightarrow> device_key \<Rightarrow> device \<Rightarrow> anchor_error + anchor" where
  "modify_device sa caller a k d =
     (if k \<noteq> dev_pubkey d then Inl CannotModifyDeviceKey
      else
        (case check_device_invariants d of
           Inl e \<Rightarrow> Inl e
         | Inr _ \<Rightarrow>
             (case device_index a k of
                Inl e \<Rightarrow> Inl e
              | Inr i \<Rightarrow>
                  (case check_mutation_allowed sa caller (a_devices a ! i) of
                     Inl e \<Rightarrow> Inl e
                   | Inr _ \<Rightarrow>
                       (case check_anchor_invariants ((a_devices a)[i := d]) (a_metadata a) of
                          Inl e \<Rightarrow> Inl e
                        | Inr _ \<Rightarrow> Inr (a\<lparr>a_devices := (a_devices a)[i := d]\<rparr>))))))"

definition set_device_usage_timestamp ::
  "anchor \<Rightarrow> device_key \<Rightarrow> timestamp \<Rightarrow> anchor_error + anchor" where
  "set_device_usage_timestamp a k now =
     (case device_index a k of
        Inl e \<Rightarrow> Inl e
      | Inr i \<Rightarrow>
          Inr (a\<lparr>a_devices := (a_devices a)[i := (a_devices a ! i)\<lparr>dev_last_usage := Some now\<rparr>]\<rparr>))"

section \<open>OpenID credential operations\<close>

definition MAX_LINKED_CREDENTIALS :: nat where "MAX_LINKED_CREDENTIALS = 100"

definition openid_credential_index :: "anchor \<Rightarrow> openid_credential_key \<Rightarrow> anchor_error + nat" where
  "openid_credential_index a key =
     (case position (\<lambda>c. oc_key c = key) (a_openid_credentials a) of
        None \<Rightarrow> Inl OpenIdCredentialNotFound
      | Some i \<Rightarrow> Inr i)"

definition anchor_openid_credential :: "anchor \<Rightarrow> openid_credential_key \<Rightarrow> openid_credential option" where
  "anchor_openid_credential a key = find (\<lambda>c. oc_key c = key) (a_openid_credentials a)"

definition add_openid_credential :: "anchor \<Rightarrow> openid_credential \<Rightarrow> anchor_error + anchor" where
  "add_openid_credential a c =
     (case openid_credential_index a (oc_key c) of
        Inr _ \<Rightarrow> Inl OpenIdCredentialAlreadyRegistered
      | Inl _ \<Rightarrow>
          if length (a_openid_credentials a) \<ge> MAX_LINKED_CREDENTIALS
          then Inl (TooManyOpenIdCredentials MAX_LINKED_CREDENTIALS (length (a_openid_credentials a)))
          else Inr (a\<lparr>a_openid_credentials := a_openid_credentials a @ [c]\<rparr>))"

definition remove_openid_credential :: "anchor \<Rightarrow> openid_credential_key \<Rightarrow> anchor_error + anchor" where
  "remove_openid_credential a key =
     (case openid_credential_index a key of
        Inl e \<Rightarrow> Inl e
      | Inr i \<Rightarrow> Inr (a\<lparr>a_openid_credentials := remove_nth i (a_openid_credentials a)\<rparr>))"

definition update_openid_credential :: "anchor \<Rightarrow> openid_credential \<Rightarrow> anchor_error + anchor" where
  "update_openid_credential a c =
     (case openid_credential_index a (oc_key c) of
        Inl e \<Rightarrow> Inl e
      | Inr i \<Rightarrow>
          Inr (a\<lparr>a_openid_credentials :=
                  (a_openid_credentials a)[i := c\<lparr>oc_last_usage := oc_last_usage (a_openid_credentials a ! i)\<rparr>]\<rparr>))"

definition set_openid_credential_usage_timestamp ::
  "anchor \<Rightarrow> openid_credential_key \<Rightarrow> timestamp \<Rightarrow> anchor_error + anchor" where
  "set_openid_credential_usage_timestamp a key now =
     (case openid_credential_index a key of
        Inl _ \<Rightarrow> Inl OpenIdCredentialNotFound
      | Inr i \<Rightarrow>
          Inr (a\<lparr>a_openid_credentials :=
                  (a_openid_credentials a)[i := (a_openid_credentials a ! i)\<lparr>oc_last_usage := Some now\<rparr>]\<rparr>))"

section \<open>Metadata and name\<close>

definition replace_identity_metadata :: "anchor \<Rightarrow> metadata \<Rightarrow> anchor_error + anchor" where
  "replace_identity_metadata a md =
     (case check_anchor_invariants (a_devices a) (Some md) of
        Inl e \<Rightarrow> Inl e
      | Inr _ \<Rightarrow> Inr (a\<lparr>a_metadata := Some md\<rparr>))"

definition MAX_NAME_LENGTH :: nat where "MAX_NAME_LENGTH = 128"

definition anchor_set_name :: "anchor \<Rightarrow> string option \<Rightarrow> anchor_error + anchor" where
  "anchor_set_name a name =
     (if (case name of None \<Rightarrow> False | Some n \<Rightarrow> length n > MAX_NAME_LENGTH)
      then Inl (NameTooLong MAX_NAME_LENGTH)
      else Inr (a\<lparr>a_name := name\<rparr>))"

section \<open>Activity\<close>

text \<open>\<open>Iterator::max\<close> on timestamps.\<close>

fun iter_max :: "u64 list \<Rightarrow> u64 option" where
  "iter_max [] = None"
| "iter_max (x # xs) = Some (fold max xs x)"

definition last_activity :: "anchor \<Rightarrow> timestamp option" where
  "last_activity a =
     iter_max (List.map_filter dev_last_usage (a_devices a)
               @ List.map_filter oc_last_usage (a_openid_credentials a))"

record accumulator =
  acc_ic0_app :: bool
  acc_internet_computer_org :: bool
  acc_id_ai :: bool
  acc_non_ii :: bool

definition accumulate_domain :: "device \<Rightarrow> accumulator \<Rightarrow> accumulator" where
  "accumulate_domain d acc =
     (case dev_origin d of
        None \<Rightarrow> acc\<lparr>acc_non_ii := True\<rparr>
      | Some origin \<Rightarrow>
          if origin = IC0_APP_ORIGIN then acc\<lparr>acc_ic0_app := True\<rparr>
          else if origin = INTERNETCOMPUTER_ORG_ORIGIN then acc\<lparr>acc_internet_computer_org := True\<rparr>
          else if origin = ID_AI_ORIGIN then acc\<lparr>acc_id_ai := True\<rparr>
          else acc\<lparr>acc_non_ii := True\<rparr>)"

definition active_since :: "timestamp \<Rightarrow> device \<Rightarrow> bool" where
  "active_since t d = (case dev_last_usage d of None \<Rightarrow> False | Some u \<Rightarrow> u \<ge> t)"

fun classify_activity :: "bool \<times> bool \<times> bool \<times> bool \<Rightarrow> domain_activity" where
  "classify_activity (True, True, _, _) = BothIIDomains"
| "classify_activity (_, True, True, _) = BothIIDomains"
| "classify_activity (True, _, True, _) = BothIIDomains"
| "classify_activity (True, False, False, _) = OnlyIc0App"
| "classify_activity (False, True, False, _) = OnlyInternetComputerOrg"
| "classify_activity (False, False, True, _) = OnlyIdAi"
| "classify_activity (False, False, False, True) = NonIIDomain"
| "classify_activity (False, False, False, False) = NoActivity"

definition domain_activity_since :: "anchor \<Rightarrow> timestamp \<Rightarrow> domain_activity" where
  "domain_activity_since a t =
     (let result =
        fold accumulate_domain (filter (active_since t) (a_devices a))
          \<lparr>acc_ic0_app = False, acc_internet_computer_org = False, acc_id_ai = False,
           acc_non_ii = False\<rparr>
      in classify_activity (acc_ic0_app result, acc_internet_computer_org result,
           acc_id_ai result, acc_non_ii result))"


section \<open>What the checks decide\<close>

lemma check_anchor_invariants_ok:
  "check_anchor_invariants devices md = Inr () \<longleftrightarrow>
     length devices \<le> 20 \<and> variable_fields_size devices md \<le> 5000
     \<and> length (filter (\<lambda>d. dev_key_type d = SeedPhrase) devices) \<le> 1"
  by (auto simp: check_anchor_invariants_def MAX_DEVICES_PER_ANCHOR_def VARIABLE_FIELDS_LIMIT_def)

lemma check_device_limits_ok:
  "check_device_limits d = Inr () \<longleftrightarrow>
     length (dev_alias d) \<le> 64 \<and> length (dev_pubkey d) \<le> 300
     \<and> opt_len (dev_credential_id d) \<le> 350 \<and> opt_len (dev_origin d) \<le> 100"
  by (auto simp: check_device_limits_def)

lemma check_device_invariants_ok:
  "check_device_invariants d = Inr () \<longleftrightarrow>
     reserved_metadata_key d = None \<and> check_device_limits d = Inr ()
     \<and> (dev_key_type d = SeedPhrase \<longrightarrow> dev_credential_id d = None)
     \<and> (dev_protection d = Protected \<longrightarrow> dev_key_type d = SeedPhrase)"
  by (auto simp: check_device_invariants_def split: option.splits sum.splits)

lemma check_mutation_allowed_ok:
  "check_mutation_allowed sa caller d = Inr () \<longleftrightarrow>
     (dev_protection d = Protected \<longrightarrow> caller = sa (dev_pubkey d))"
  by (auto simp: check_mutation_allowed_def split: device_protection.splits)

lemma device_index_Inr:
  "device_index a k = Inr i \<Longrightarrow>
     i < length (a_devices a) \<and> dev_pubkey (a_devices a ! i) = k"
  by (auto simp: device_index_def split: option.splits dest: position_SomeD)

lemma device_index_absent:
  "k \<notin> set (map dev_pubkey (a_devices a)) \<Longrightarrow> device_index a k = Inl (DeviceNotFound k)"
  by (auto simp: device_index_def position_None_iff split: option.splits dest!: position_SomeD)

lemma device_index_present:
  "k \<in> set (map dev_pubkey (a_devices a)) \<Longrightarrow> \<exists>i. device_index a k = Inr i"
  by (auto simp: device_index_def position_None_iff split: option.splits)

lemma openid_credential_index_Inr:
  "openid_credential_index a key = Inr i \<Longrightarrow>
     i < length (a_openid_credentials a) \<and> oc_key (a_openid_credentials a ! i) = key"
  by (auto simp: openid_credential_index_def split: option.splits dest: position_SomeD)

lemma openid_credential_index_absent:
  "key \<notin> set (map oc_key (a_openid_credentials a)) \<Longrightarrow>
   openid_credential_index a key = Inl OpenIdCredentialNotFound"
  by (auto simp: openid_credential_index_def position_None_iff split: option.splits
      dest!: position_SomeD)

lemma openid_credential_index_present:
  "key \<in> set (map oc_key (a_openid_credentials a)) \<Longrightarrow> \<exists>i. openid_credential_index a key = Inr i"
  by (auto simp: openid_credential_index_def position_None_iff split: option.splits)

section \<open>The anchor invariant\<close>

definition anchor_ok :: "anchor \<Rightarrow> bool" where
  "anchor_ok a \<longleftrightarrow>
     check_anchor_invariants (a_devices a) (a_metadata a) = Inr ()
     \<and> list_all (\<lambda>d. check_device_invariants d = Inr ()) (a_devices a)
     \<and> distinct (map dev_pubkey (a_devices a))
     \<and> distinct (map oc_key (a_openid_credentials a))
     \<and> length (a_openid_credentials a) \<le> MAX_LINKED_CREDENTIALS
     \<and> opt_len (a_name a) \<le> MAX_NAME_LENGTH"

lemma anchor_ok_new [simp]: "anchor_ok (anchor_new n t)"
  by (simp add: anchor_ok_def anchor_new_def check_anchor_invariants_ok variable_fields_size_def
      opt_metadata_len_def opt_len_def)

lemma add_device_Inr:
  "add_device a d = Inr a' \<longleftrightarrow>
     dev_pubkey d \<notin> set (map dev_pubkey (a_devices a))
     \<and> check_device_invariants d = Inr ()
     \<and> check_anchor_invariants (a_devices a @ [d]) (a_metadata a) = Inr ()
     \<and> a' = a\<lparr>a_devices := a_devices a @ [d]\<rparr>"
  by (auto simp: add_device_def image_iff eq_commute [of "dev_pubkey d"] split: sum.splits)

lemma remove_device_Inr:
  "remove_device sa caller a k = Inr a' \<longleftrightarrow>
     (\<exists>i. device_index a k = Inr i \<and> check_mutation_allowed sa caller (a_devices a ! i) = Inr ()
          \<and> a' = a\<lparr>a_devices := remove_nth i (a_devices a)\<rparr>)"
  by (auto simp: remove_device_def split: sum.splits)

lemma modify_device_Inr:
  "modify_device sa caller a k d = Inr a' \<longleftrightarrow>
     (\<exists>i. k = dev_pubkey d \<and> check_device_invariants d = Inr () \<and> device_index a k = Inr i
          \<and> check_mutation_allowed sa caller (a_devices a ! i) = Inr ()
          \<and> check_anchor_invariants ((a_devices a)[i := d]) (a_metadata a) = Inr ()
          \<and> a' = a\<lparr>a_devices := (a_devices a)[i := d]\<rparr>)"
  by (auto simp: modify_device_def split: sum.splits)

lemma set_device_usage_timestamp_Inr:
  "set_device_usage_timestamp a k now = Inr a' \<longleftrightarrow>
     (\<exists>i. device_index a k = Inr i
          \<and> a' = a\<lparr>a_devices := (a_devices a)[i := (a_devices a ! i)\<lparr>dev_last_usage := Some now\<rparr>]\<rparr>)"
  by (auto simp: set_device_usage_timestamp_def split: sum.splits)

lemma reserved_metadata_key_usage [simp]:
  "reserved_metadata_key (d\<lparr>dev_last_usage := t\<rparr>) = reserved_metadata_key d"
  by (simp add: reserved_metadata_key_def)

lemma check_device_limits_usage [simp]:
  "check_device_limits (d\<lparr>dev_last_usage := t\<rparr>) = check_device_limits d"
  by (simp add: check_device_limits_def)

lemma check_device_invariants_usage [simp]:
  "check_device_invariants (d\<lparr>dev_last_usage := t\<rparr>) = check_device_invariants d"
  by (simp add: check_device_invariants_def split: option.split sum.split)

lemma variable_fields_len_usage [simp]:
  "variable_fields_len (d\<lparr>dev_last_usage := t\<rparr>) = variable_fields_len d"
  by (simp add: variable_fields_len_def)

text \<open>Replacing a device by one with the same key, size and kind keeps every list-wide check.\<close>

lemma map_update_same: "i < length xs \<Longrightarrow> f y = f (xs ! i) \<Longrightarrow> map f (xs[i := y]) = map f xs"
  by (simp add: map_update list_update_same_conv)

lemma filter_length_map: "length (filter P xs) = length (filter id (map P xs))"
  by (simp add: filter_map comp_def)

lemma check_anchor_invariants_update_usage:
  assumes "i < length devices"
  shows "check_anchor_invariants (devices[i := (devices ! i)\<lparr>dev_last_usage := t\<rparr>]) md =
         check_anchor_invariants devices md"
proof -
  let ?ds = "devices[i := (devices ! i)\<lparr>dev_last_usage := t\<rparr>]"
  have "map variable_fields_len ?ds = map variable_fields_len devices"
    using assms by (intro map_update_same) simp_all
  moreover have "length (filter (\<lambda>d. dev_key_type d = SeedPhrase) ?ds)
      = length (filter (\<lambda>d. dev_key_type d = SeedPhrase) devices)"
    unfolding filter_length_map [of "\<lambda>d. dev_key_type d = SeedPhrase"]
    using assms by (subst map_update_same) simp_all
  ultimately show ?thesis
    by (simp add: check_anchor_invariants_def variable_fields_size_def)
qed

lemma check_anchor_invariants_remove_nth:
  "check_anchor_invariants devices md = Inr () \<Longrightarrow>
   check_anchor_invariants (remove_nth i devices) md = Inr ()"
proof -
  assume ok: "check_anchor_invariants devices md = Inr ()"
  have "length (remove_nth i devices) \<le> length devices"
    by (simp add: remove_nth_def)
  with ok show ?thesis
    using filter_remove_nth_le [of "\<lambda>d. dev_key_type d = SeedPhrase" i devices]
      sum_list_remove_nth_le [of variable_fields_len i devices]
    by (simp add: check_anchor_invariants_ok variable_fields_size_def)
qed

lemma list_all_remove_nth: "list_all P xs \<Longrightarrow> list_all P (remove_nth i xs)"
  using set_remove_nth_subset [of i xs] by (auto simp: list_all_iff)

lemma list_all_update: "list_all P xs \<Longrightarrow> P y \<Longrightarrow> list_all P (xs[i := y])"
  using set_update_subset_insert [of xs i y] by (auto simp: list_all_iff)

section \<open>Every operation keeps the invariant\<close>

lemma add_device_ok: "anchor_ok a \<Longrightarrow> add_device a d = Inr a' \<Longrightarrow> anchor_ok a'"
  by (auto simp: anchor_ok_def add_device_Inr)

lemma remove_device_ok: "anchor_ok a \<Longrightarrow> remove_device sa caller a k = Inr a' \<Longrightarrow> anchor_ok a'"
  by (auto simp: anchor_ok_def remove_device_Inr check_anchor_invariants_remove_nth
      list_all_remove_nth map_remove_nth distinct_remove_nth)

lemma modify_device_ok: "anchor_ok a \<Longrightarrow> modify_device sa caller a k d = Inr a' \<Longrightarrow> anchor_ok a'"
  by (auto simp: anchor_ok_def modify_device_Inr list_all_update map_update_same
      dest!: device_index_Inr)

lemma set_device_usage_timestamp_ok:
  "anchor_ok a \<Longrightarrow> set_device_usage_timestamp a k now = Inr a' \<Longrightarrow> anchor_ok a'"
proof -
  assume ok: "anchor_ok a" and "set_device_usage_timestamp a k now = Inr a'"
  then obtain i where i: "device_index a k = Inr i"
    and a': "a' = a\<lparr>a_devices := (a_devices a)[i := (a_devices a ! i)\<lparr>dev_last_usage := Some now\<rparr>]\<rparr>"
    by (auto simp: set_device_usage_timestamp_Inr)
  from i have lt: "i < length (a_devices a)" by (auto dest: device_index_Inr)
  have "map dev_pubkey ((a_devices a)[i := (a_devices a ! i)\<lparr>dev_last_usage := Some now\<rparr>])
      = map dev_pubkey (a_devices a)"
    using lt by (intro map_update_same) simp_all
  with ok lt show ?thesis
    by (auto simp: a' anchor_ok_def check_anchor_invariants_update_usage list_all_length nth_list_update)
qed

lemma add_openid_credential_Inr:
  "add_openid_credential a c = Inr a' \<longleftrightarrow>
     oc_key c \<notin> set (map oc_key (a_openid_credentials a))
     \<and> length (a_openid_credentials a) < 100
     \<and> a' = a\<lparr>a_openid_credentials := a_openid_credentials a @ [c]\<rparr>"
proof (cases "oc_key c \<in> set (map oc_key (a_openid_credentials a))")
  case True
  then obtain i where "openid_credential_index a (oc_key c) = Inr i"
    using openid_credential_index_present by blast
  with True show ?thesis by (simp add: add_openid_credential_def)
next
  case False
  then show ?thesis
    by (auto simp: add_openid_credential_def openid_credential_index_absent MAX_LINKED_CREDENTIALS_def)
qed

lemma add_openid_credential_ok:
  "anchor_ok a \<Longrightarrow> add_openid_credential a c = Inr a' \<Longrightarrow> anchor_ok a'"
  by (auto simp: anchor_ok_def add_openid_credential_Inr MAX_LINKED_CREDENTIALS_def)

lemma remove_openid_credential_ok:
  "anchor_ok a \<Longrightarrow> remove_openid_credential a key = Inr a' \<Longrightarrow> anchor_ok a'"
  by (auto simp: anchor_ok_def remove_openid_credential_def map_remove_nth distinct_remove_nth
      length_remove_nth split: sum.splits dest!: openid_credential_index_Inr)

lemma update_openid_credential_ok:
  "anchor_ok a \<Longrightarrow> update_openid_credential a c = Inr a' \<Longrightarrow> anchor_ok a'"
  by (auto simp: anchor_ok_def update_openid_credential_def map_update_same oc_key_def
      split: sum.splits dest!: openid_credential_index_Inr)

lemma set_openid_credential_usage_timestamp_ok:
  "anchor_ok a \<Longrightarrow> set_openid_credential_usage_timestamp a key now = Inr a' \<Longrightarrow> anchor_ok a'"
  by (auto simp: anchor_ok_def set_openid_credential_usage_timestamp_def map_update_same oc_key_def
      split: sum.splits dest!: openid_credential_index_Inr)

lemma replace_identity_metadata_ok:
  "anchor_ok a \<Longrightarrow> replace_identity_metadata a md = Inr a' \<Longrightarrow> anchor_ok a'"
  by (auto simp: anchor_ok_def replace_identity_metadata_def split: sum.splits)

lemma anchor_set_name_ok: "anchor_ok a \<Longrightarrow> anchor_set_name a nm = Inr a' \<Longrightarrow> anchor_ok a'"
  by (auto simp: anchor_ok_def anchor_set_name_def opt_len_def split: if_splits option.splits)


lemmas anchor_op_ok =
  add_device_ok remove_device_ok modify_device_ok set_device_usage_timestamp_ok
  add_openid_credential_ok remove_openid_credential_ok update_openid_credential_ok
  set_openid_credential_usage_timestamp_ok replace_identity_metadata_ok anchor_set_name_ok

section \<open>Histories of an anchor\<close>

text \<open>
  One successful operation by a caller, and the anchors reachable from a freshly allocated
  one by any sequence of operations (with the list of their callers).
\<close>

inductive anchor_step :: "(bytes \<Rightarrow> principal) \<Rightarrow> principal \<Rightarrow> anchor \<Rightarrow> anchor \<Rightarrow> bool"
  for sa caller where
  add_device: "add_device a d = Inr a' \<Longrightarrow> anchor_step sa caller a a'"
| remove_device: "remove_device sa caller a k = Inr a' \<Longrightarrow> anchor_step sa caller a a'"
| modify_device: "modify_device sa caller a k d = Inr a' \<Longrightarrow> anchor_step sa caller a a'"
| use_device: "set_device_usage_timestamp a k now = Inr a' \<Longrightarrow> anchor_step sa caller a a'"
| add_openid: "add_openid_credential a c = Inr a' \<Longrightarrow> anchor_step sa caller a a'"
| remove_openid: "remove_openid_credential a key = Inr a' \<Longrightarrow> anchor_step sa caller a a'"
| update_openid: "update_openid_credential a c = Inr a' \<Longrightarrow> anchor_step sa caller a a'"
| use_openid: "set_openid_credential_usage_timestamp a key now = Inr a' \<Longrightarrow> anchor_step sa caller a a'"
| replace_metadata: "replace_identity_metadata a md = Inr a' \<Longrightarrow> anchor_step sa caller a a'"
| set_name: "anchor_set_name a nm = Inr a' \<Longrightarrow> anchor_step sa caller a a'"

inductive anchor_run :: "(bytes \<Rightarrow> principal) \<Rightarrow> anchor \<Rightarrow> principal list \<Rightarrow> anchor \<Rightarrow> bool"
  for sa where
  run_nil: "anchor_run sa a [] a"
| run_snoc: "anchor_run sa a callers b \<Longrightarrow> anchor_step sa caller b c \<Longrightarrow>
     anchor_run sa a (callers @ [caller]) c"

lemma anchor_step_ok: "anchor_step sa caller a a' \<Longrightarrow> anchor_ok a \<Longrightarrow> anchor_ok a'"
  by (induction rule: anchor_step.induct) (auto intro: anchor_op_ok)

lemma anchor_run_ok: "anchor_run sa a callers b \<Longrightarrow> anchor_ok a \<Longrightarrow> anchor_ok b"
  by (induction rule: anchor_run.induct) (auto intro: anchor_step_ok)

lemma anchor_run_single: "anchor_step sa caller a b \<Longrightarrow> anchor_run sa a [caller] b"
  using run_snoc [OF run_nil] by fastforce

text \<open>
  Property C13. Whatever sequence of operations, by whatever callers, a fresh anchor goes
  through: it has at most 20 devices, their variable-length fields and the metadata stay
  within 5000 bytes, at most one device is a seed phrase, device keys and OpenID credential
  keys are unique, there are at most 100 OpenID credentials, only seed phrases are
  protected, seed phrases have no credential id, and the name is at most 128 bytes.
\<close>

theorem reachable_anchor_within_limits:
  assumes "anchor_run sa (anchor_new n t) callers a"
  shows "length (a_devices a) \<le> 20
    \<and> variable_fields_size (a_devices a) (a_metadata a) \<le> 5000
    \<and> length (filter (\<lambda>d. dev_key_type d = SeedPhrase) (a_devices a)) \<le> 1
    \<and> distinct (map dev_pubkey (a_devices a))
    \<and> distinct (map oc_key (a_openid_credentials a))
    \<and> length (a_openid_credentials a) \<le> 100
    \<and> (\<forall>d \<in> set (a_devices a).
          (dev_protection d = Protected \<longrightarrow> dev_key_type d = SeedPhrase)
          \<and> (dev_key_type d = SeedPhrase \<longrightarrow> dev_credential_id d = None))
    \<and> opt_len (a_name a) \<le> 128"
proof -
  have "anchor_ok a"
    using assms anchor_ok_new by (rule anchor_run_ok)
  then show ?thesis
    by (auto simp: anchor_ok_def check_anchor_invariants_ok check_device_invariants_ok
        MAX_LINKED_CREDENTIALS_def MAX_NAME_LENGTH_def list_all_iff)
qed

text \<open>A concrete recovery phrase and the one-step history that adds it.\<close>

definition sample_phrase :: device where
  "sample_phrase =
     \<lparr>dev_pubkey = [1, 2, 3], dev_alias = ''phrase'', dev_credential_id = None, dev_aaguid = None,
      dev_purpose = Recovery, dev_key_type = SeedPhrase, dev_protection = Protected,
      dev_origin = None, dev_metadata = None, dev_last_usage = None\<rparr>"

definition sample_passkey :: device where
  "sample_passkey =
     \<lparr>dev_pubkey = [4, 5], dev_alias = ''key'', dev_credential_id = Some [9], dev_aaguid = None,
      dev_purpose = Authentication, dev_key_type = CrossPlatform, dev_protection = Unprotected,
      dev_origin = Some ID_AI_ORIGIN, dev_metadata = None, dev_last_usage = Some 5\<rparr>"

lemmas sample_device_simps =
  sample_phrase_def sample_passkey_def check_device_invariants_ok check_anchor_invariants_ok
  reserved_metadata_key_def check_device_limits_def variable_fields_size_def
  variable_fields_len_def opt_len_def opt_metadata_len_def ID_AI_ORIGIN_def

lemma add_sample_phrase:
  "add_device (anchor_new 10000 7) sample_phrase
     = Inr ((anchor_new 10000 7)\<lparr>a_devices := [sample_phrase]\<rparr>)"
  by (simp add: add_device_Inr anchor_new_def sample_device_simps)

lemma add_sample_passkey:
  "add_device ((anchor_new 10000 7)\<lparr>a_devices := [sample_phrase]\<rparr>) sample_passkey
     = Inr ((anchor_new 10000 7)\<lparr>a_devices := [sample_phrase, sample_passkey]\<rparr>)"
  by (simp add: add_device_Inr anchor_new_def sample_device_simps)

lemma sample_run:
  "anchor_run (\<lambda>k. k) (anchor_new 10000 7) [[1, 2, 3], [4, 5]]
     ((anchor_new 10000 7)\<lparr>a_devices := [sample_phrase, sample_passkey]\<rparr>)"
  using run_snoc [OF anchor_run_single [OF anchor_step.add_device [OF add_sample_phrase]]
      anchor_step.add_device [OF add_sample_passkey]]
  by simp

theorem reachable_anchor_within_limits_witness:
  "anchor_run (\<lambda>k. k) (anchor_new 10000 7) [[1, 2, 3], [4, 5]]
     ((anchor_new 10000 7)\<lparr>a_devices := [sample_phrase, sample_passkey]\<rparr>)
   \<and> length (a_devices ((anchor_new 10000 7)\<lparr>a_devices := [sample_phrase, sample_passkey]\<rparr>)) \<le> 20"
  using sample_run reachable_anchor_within_limits [OF sample_run] by simp


section \<open>Locked recovery phrases\<close>

lemma guarded_index_is_other:
  assumes "d \<in> set (a_devices a)" "dev_protection d = Protected" "caller \<noteq> sa (dev_pubkey d)"
    and "check_mutation_allowed sa caller (a_devices a ! i) = Inr ()"
  shows "a_devices a ! i \<noteq> d"
  using assms by (auto simp: check_mutation_allowed_ok)

lemma in_set_update_other: "x \<in> set xs \<Longrightarrow> xs ! i \<noteq> x \<Longrightarrow> x \<in> set (xs[i := y])"
  by (metis in_set_conv_nth length_list_update nth_list_update_neq)

lemma in_set_remove_nth_other: "x \<in> set xs \<Longrightarrow> xs ! i \<noteq> x \<Longrightarrow> x \<in> set (remove_nth i xs)"
proof -
  assume x: "x \<in> set xs" and ne: "xs ! i \<noteq> x"
  show "x \<in> set (remove_nth i xs)"
  proof (cases "i < length xs")
    case True
    then have "xs = take i xs @ xs ! i # drop (Suc i) xs" by (rule id_take_nth_drop)
    with x have "x \<in> set (take i xs @ xs ! i # drop (Suc i) xs)" by simp
    with ne show ?thesis by (auto simp: remove_nth_def)
  next
    case False
    with x show ?thesis by (simp add: remove_nth_def)
  qed
qed

lemma anchor_step_keeps_locked_device:
  assumes "anchor_step sa caller a b" and "d \<in> set (a_devices a)"
    and "dev_protection d = Protected" and "caller \<noteq> sa (dev_pubkey d)"
  shows "\<exists>t. d\<lparr>dev_last_usage := t\<rparr> \<in> set (a_devices b)"
proof -
  have same: "\<exists>t. d\<lparr>dev_last_usage := t\<rparr> \<in> S" if "d \<in> S" for S
    using that by (intro exI [of _ "dev_last_usage d"]) simp
  have guard: "check_mutation_allowed sa caller (a_devices a ! i) = Inr () \<Longrightarrow> a_devices a ! i \<noteq> d" for i
    by (rule guarded_index_is_other [OF assms(2,3)]) (rule assms(4))
  from assms(1) show ?thesis
  proof cases
    case (use_device k now)
    then obtain i where i: "device_index a k = Inr i"
      and b: "a_devices b = (a_devices a)[i := (a_devices a ! i)\<lparr>dev_last_usage := Some now\<rparr>]"
      by (auto simp: set_device_usage_timestamp_Inr)
    have lt: "i < length (a_devices a)" using i by (auto dest: device_index_Inr)
    show ?thesis
    proof (cases "a_devices a ! i = d")
      case True
      with lt have "d\<lparr>dev_last_usage := Some now\<rparr> \<in> set (a_devices b)"
        by (simp add: b set_update_memI)
      then show ?thesis ..
    next
      case False
      with assms(2) have "d \<in> set (a_devices b)"
        by (simp add: b in_set_update_other)
      then show ?thesis by (rule same)
    qed
  qed ((rule same, use assms(2) in
      \<open>(auto simp: add_device_Inr remove_device_Inr modify_device_Inr add_openid_credential_Inr
        remove_openid_credential_def update_openid_credential_def
        set_openid_credential_usage_timestamp_def replace_identity_metadata_def anchor_set_name_def
        intro!: in_set_update_other [OF assms(2) guard] in_set_remove_nth_other [OF assms(2) guard]
        split: sum.splits if_splits)[1]\<close>)+)
qed

text \<open>
  Property C10. A locked (protected) recovery phrase can be removed or changed only by a
  caller that authenticates with that very phrase: after any sequence of operations none of
  whose callers is the phrase's own principal, the device is still there, with every field
  but its last-usage timestamp unchanged.
\<close>

theorem locked_phrase_survives_foreign_callers:
  assumes "anchor_run sa a callers b"
    and "d \<in> set (a_devices a)" and "dev_protection d = Protected"
    and "sa (dev_pubkey d) \<notin> set callers"
  shows "\<exists>t. d\<lparr>dev_last_usage := t\<rparr> \<in> set (a_devices b)"
  using assms
proof (induction rule: anchor_run.induct)
  case (run_nil a)
  then show ?case by (intro exI [of _ "dev_last_usage d"]) simp
next
  case (run_snoc a callers b caller c)
  then obtain t where t: "d\<lparr>dev_last_usage := t\<rparr> \<in> set (a_devices b)" by auto
  have "\<exists>u. d\<lparr>dev_last_usage := t\<rparr>\<lparr>dev_last_usage := u\<rparr> \<in> set (a_devices c)"
    by (rule anchor_step_keeps_locked_device [OF run_snoc.hyps(2) t]) (use run_snoc.prems in auto)
  then show ?case by simp
qed

theorem locked_phrase_survives_foreign_callers_witness:
  "anchor_run (\<lambda>k. k) ((anchor_new 10000 7)\<lparr>a_devices := [sample_phrase]\<rparr>) [[4, 5]]
     ((anchor_new 10000 7)\<lparr>a_devices := [sample_phrase, sample_passkey]\<rparr>)
   \<and> (\<exists>t. sample_phrase\<lparr>dev_last_usage := t\<rparr> \<in> set [sample_phrase, sample_passkey])"
proof -
  have run: "anchor_run (\<lambda>k. k) ((anchor_new 10000 7)\<lparr>a_devices := [sample_phrase]\<rparr>) [[4, 5]]
     ((anchor_new 10000 7)\<lparr>a_devices := [sample_phrase, sample_passkey]\<rparr>)"
    by (rule anchor_run_single) (rule anchor_step.add_device [OF add_sample_passkey])
  show ?thesis
    using run locked_phrase_survives_foreign_callers [OF run, of sample_phrase]
    by (simp add: sample_phrase_def)
qed

section \<open>Removing a device\<close>

text \<open>
  \<open>remove_device\<close> works on any anchor, also one that violates the limits: it
  succeeds as soon as the key is present and the first device with it may be mutated, takes
  exactly that device out and keeps the order of the others, and no limit gets worse, so
  that an anchor can always be brought back within the limits by removing devices.
\<close>

theorem remove_device_never_worse:
  assumes present: "position (\<lambda>d. dev_pubkey d = k) (a_devices a) = Some i"
    and allowed: "dev_protection (a_devices a ! i) = Protected \<Longrightarrow> caller = sa k"
  shows "\<exists>a'. remove_device sa caller a k = Inr a'
    \<and> a_devices a' = take i (a_devices a) @ drop (Suc i) (a_devices a)
    \<and> Suc (length (a_devices a')) = length (a_devices a)
    \<and> variable_fields_size (a_devices a') (a_metadata a') \<le> variable_fields_size (a_devices a) (a_metadata a)
    \<and> length (filter (\<lambda>d. dev_key_type d = SeedPhrase) (a_devices a'))
        \<le> length (filter (\<lambda>d. dev_key_type d = SeedPhrase) (a_devices a))
    \<and> a_openid_credentials a' = a_openid_credentials a \<and> a_metadata a' = a_metadata a
    \<and> a_name a' = a_name a"
proof -
  from present have i: "device_index a k = Inr i"
    by (simp add: device_index_def)
  then have lt: "i < length (a_devices a)" and key: "dev_pubkey (a_devices a ! i) = k"
    by (auto dest: device_index_Inr)
  have "check_mutation_allowed sa caller (a_devices a ! i) = Inr ()"
    using allowed key by (auto simp: check_mutation_allowed_ok)
  with i have "remove_device sa caller a k = Inr (a\<lparr>a_devices := remove_nth i (a_devices a)\<rparr>)"
    by (simp add: remove_device_Inr)
  with lt show ?thesis
    by (simp add: variable_fields_size_def sum_list_remove_nth_le filter_remove_nth_le length_remove_nth)
       (simp add: remove_nth_def)
qed

theorem remove_device_never_worse_witness:
  "\<exists>a'. remove_device (\<lambda>k. k) [1, 2, 3]
     ((anchor_new 10000 7)\<lparr>a_devices := [sample_phrase, sample_phrase]\<rparr>) [1, 2, 3] = Inr a'
     \<and> Suc (length (a_devices a')) = 2"
  using remove_device_never_worse
    [of "[1, 2, 3]" "(anchor_new 10000 7)\<lparr>a_devices := [sample_phrase, sample_phrase]\<rparr>" 0
        "[1, 2, 3]" "\<lambda>k. k"]
  by (auto simp: sample_phrase_def)

section \<open>OpenID credentials\<close>

text \<open>
  Updating an OpenID credential replaces its data and nothing else: the keys
  and every last-usage timestamp stay as they were (a JWT refresh is not counted as usage),
  the other credentials are untouched, and the credential then read back under its key
  carries the new metadata.
\<close>

theorem update_openid_credential_keeps_usage:
  assumes "update_openid_credential a c = Inr a'"
  shows "map oc_key (a_openid_credentials a') = map oc_key (a_openid_credentials a)
    \<and> map oc_last_usage (a_openid_credentials a') = map oc_last_usage (a_openid_credentials a)
    \<and> (\<forall>key. key \<noteq> oc_key c \<longrightarrow> anchor_openid_credential a' key = anchor_openid_credential a key)
    \<and> (\<exists>old. anchor_openid_credential a (oc_key c) = Some old
         \<and> anchor_openid_credential a' (oc_key c) = Some (c\<lparr>oc_last_usage := oc_last_usage old\<rparr>))
    \<and> a_devices a' = a_devices a"
proof -
  let ?cs = "a_openid_credentials a"
  from assms obtain i where pos: "position (\<lambda>e. oc_key e = oc_key c) ?cs = Some i"
    and a': "a' = a\<lparr>a_openid_credentials := ?cs[i := c\<lparr>oc_last_usage := oc_last_usage (?cs ! i)\<rparr>]\<rparr>"
    by (auto simp: update_openid_credential_def openid_credential_index_def split: option.splits)
  let ?new = "c\<lparr>oc_last_usage := oc_last_usage (?cs ! i)\<rparr>"
  from position_SomeD [OF pos] have lt: "i < length ?cs" and key: "oc_key (?cs ! i) = oc_key c"
    and before: "\<And>j. j < i \<Longrightarrow> oc_key (?cs ! j) \<noteq> oc_key c" by auto
  have new_key: "oc_key ?new = oc_key c" by (simp add: oc_key_def)
  have find_update: "find (\<lambda>e. oc_key e = q) (xs[j := y]) =
      (if position (\<lambda>e. oc_key e = q) xs = Some j then Some y else find (\<lambda>e. oc_key e = q) xs)"
    if "j < length xs" "oc_key y = oc_key (xs ! j)" for q xs j y
    using that
  proof (induction xs arbitrary: j)
    case (Cons x xs)
    then show ?case by (cases j) auto
  qed simp
  have other: "position (\<lambda>e. oc_key e = q) ?cs \<noteq> Some i" if "q \<noteq> oc_key c" for q
    using that key by (auto dest: position_SomeD)
  have old: "anchor_openid_credential a (oc_key c) = Some (?cs ! i)"
    by (simp add: anchor_openid_credential_def find_position pos)
  have lookup: "anchor_openid_credential a' q =
      (if q = oc_key c then Some ?new else anchor_openid_credential a q)" for q
    using lt key new_key pos other [of q]
    by (simp add: a' anchor_openid_credential_def find_update)
  have maps: "map oc_key (?cs[i := ?new]) = map oc_key ?cs"
    "map oc_last_usage (?cs[i := ?new]) = map oc_last_usage ?cs"
    using lt key new_key by (simp_all add: map_update_same)
  show ?thesis
    using maps by (simp add: lookup old) (simp add: a')
qed

definition sample_credential :: openid_credential where
  "sample_credential =
     \<lparr>oc_iss = ''https://accounts.google.com'', oc_sub = ''s'', oc_aud = ''a'',
      oc_last_usage = Some 12, oc_metadata = []\<rparr>"

theorem update_openid_credential_keeps_usage_witness:
  "\<exists>a'. update_openid_credential
      ((anchor_new 10000 7)\<lparr>a_openid_credentials := [sample_credential]\<rparr>)
      (sample_credential\<lparr>oc_last_usage := None, oc_metadata := [(''name'', StringV2 ''n'')]\<rparr>) = Inr a'
    \<and> map oc_last_usage (a_openid_credentials a') = [Some 12]"
proof -
  let ?a = "(anchor_new 10000 7)\<lparr>a_openid_credentials := [sample_credential]\<rparr>"
  let ?c = "sample_credential\<lparr>oc_last_usage := None, oc_metadata := [(''name'', StringV2 ''n'')]\<rparr>"
  obtain a' where a': "update_openid_credential ?a ?c = Inr a'"
    by (simp add: update_openid_credential_def openid_credential_index_def oc_key_def)
  with update_openid_credential_keeps_usage [OF a'] show ?thesis
    by (intro exI [of _ a']) (simp add: sample_credential_def)
qed

end
