(* ===== verification/Storable_Anchor.thy ===== *)
theory Storable_Anchor
  imports Anchor "HOL-Library.Multiset"
begin

text \<open>
  The stable-memory representation of an anchor and the two conversions between it and the
  in-memory \<open>Anchor\<close>: \<open>storage/anchor.rs\<close> (the \<open>From\<close> instances) and
  \<open>storage/storable/{anchor,passkey_credential,recovery_key,openid_credential,metadata_v2,
  special_device_migration,fixed_anchor}.rs\<close>. The CBOR encoding of these structs belongs to
  the \<open>minicbor\<close> crate and is not modelled: a stable map stores the struct itself.
\<close>

section \<open>The storable structs\<close>

datatype storable_purpose = SRecovery | SAuthentication

datatype storable_key_type = SUnknown | SPlatform | SCrossPlatform | SSeedPhrase | SBrowserStorageKey

fun storable_purpose_from :: "purpose \<Rightarrow> storable_purpose" where
  "storable_purpose_from Recovery = SRecovery"
| "storable_purpose_from Authentication = SAuthentication"

fun storable_key_type_from :: "key_type \<Rightarrow> storable_key_type" where
  "storable_key_type_from Unknown = SUnknown"
| "storable_key_type_from Platform = SPlatform"
| "storable_key_type_from CrossPlatform = SCrossPlatform"
| "storable_key_type_from SeedPhrase = SSeedPhrase"
| "storable_key_type_from BrowserStorageKey = SBrowserStorageKey"

fun purpose_from_storable :: "storable_purpose \<Rightarrow> purpose" where
  "purpose_from_storable SRecovery = Recovery"
| "purpose_from_storable SAuthentication = Authentication"

fun key_type_from_storable :: "storable_key_type \<Rightarrow> key_type" where
  "key_type_from_storable SUnknown = Unknown"
| "key_type_from_storable SPlatform = Platform"
| "key_type_from_storable SCrossPlatform = CrossPlatform"
| "key_type_from_storable SSeedPhrase = SeedPhrase"
| "key_type_from_storable SBrowserStorageKey = BrowserStorageKey"

lemma purpose_round_trip [simp]: "purpose_from_storable (storable_purpose_from p) = p"
  by (cases p) simp_all

lemma key_type_round_trip [simp]: "key_type_from_storable (storable_key_type_from k) = k"
  by (cases k) simp_all

record special_device_migration =
  sdm_credential_id :: "bytes option"
  sdm_purpose :: storable_purpose
  sdm_key_type :: storable_key_type
  sdm_origin :: "string option"

definition special_device_migration_from ::
  "bytes option \<Rightarrow> purpose \<Rightarrow> key_type \<Rightarrow> string option \<Rightarrow> special_device_migration" where
  "special_device_migration_from cid p k origin =
     \<lparr>sdm_credential_id = cid, sdm_purpose = storable_purpose_from p,
      sdm_key_type = storable_key_type_from k, sdm_origin = origin\<rparr>"

definition special_device_migration_into ::
  "special_device_migration \<Rightarrow> bytes option \<times> purpose \<times> key_type \<times> string option" where
  "special_device_migration_into m =
     (sdm_credential_id m, purpose_from_storable (sdm_purpose m),
      key_type_from_storable (sdm_key_type m), sdm_origin m)"

lemma special_device_migration_round_trip [simp]:
  "special_device_migration_into (special_device_migration_from cid p k origin) = (cid, p, k, origin)"
  by (simp add: special_device_migration_into_def special_device_migration_from_def)

record storable_passkey_credential =
  pk_pubkey :: bytes
  pk_credential_id :: bytes
  pk_origin :: string
  pk_created_at_ns :: "u64 option"
  pk_last_usage_timestamp_ns :: "u64 option"
  pk_alias :: "string option"
  pk_aaguid :: "bytes option"
  pk_special :: "special_device_migration option"

record storable_recovery_key =
  rk_pubkey :: bytes
  rk_created_at_ns :: "u64 option"
  rk_last_usage_timestamp_ns :: "u64 option"
  rk_is_protected :: "bool option"
  rk_special :: "special_device_migration option"

datatype storable_metadata_entry_v2 =
    SStringV2 string
  | SBytesV2 bytes
  | SMapV2 "(string \<times> storable_metadata_entry_v2) list"

record storable_openid_credential =
  soc_iss :: iss
  soc_sub :: sub
  soc_aud :: aud
  soc_last_usage :: "timestamp option"
  soc_metadata :: "(string \<times> storable_metadata_entry_v2) list"

record storable_anchor =
  sa_name :: "string option"
  sa_openid_credentials :: "storable_openid_credential list"
  sa_created_at_ns :: "u64 option"
  sa_passkey_credentials :: "storable_passkey_credential list option"
  sa_recovery_keys :: "storable_recovery_key list option"

record storable_fixed_anchor =
  sfa_devices :: "device list"
  sfa_metadata :: "metadata option"
  sfa_created_at :: "timestamp option"

section \<open>OpenID credentials and their metadata\<close>

fun storable_metadata_entry_from :: "metadata_entry_v2 \<Rightarrow> storable_metadata_entry_v2" where
  "storable_metadata_entry_from (StringV2 s) = SStringV2 s"
| "storable_metadata_entry_from (BytesV2 b) = SBytesV2 b"
| "storable_metadata_entry_from (MapV2 m) =
     SMapV2 (map (\<lambda>e. (fst e, storable_metadata_entry_from (snd e))) m)"

fun metadata_entry_from_storable :: "storable_metadata_entry_v2 \<Rightarrow> metadata_entry_v2" where
  "metadata_entry_from_storable (SStringV2 s) = StringV2 s"
| "metadata_entry_from_storable (SBytesV2 b) = BytesV2 b"
| "metadata_entry_from_storable (SMapV2 m) =
     MapV2 (map (\<lambda>e. (fst e, metadata_entry_from_storable (snd e))) m)"

lemma metadata_entry_round_trip [simp]:
  "metadata_entry_from_storable (storable_metadata_entry_from e) = e"
proof (induction e rule: storable_metadata_entry_from.induct)
  case (3 m)
  then have "map (\<lambda>e. (fst e, metadata_entry_from_storable (storable_metadata_entry_from (snd e)))) m = m"
    by (intro map_idI) simp
  then show ?case by (simp add: comp_def)
qed simp_all

definition storable_openid_credential_from :: "openid_credential \<Rightarrow> storable_openid_credential" where
  "storable_openid_credential_from c =
     \<lparr>soc_iss = oc_iss c, soc_sub = oc_sub c, soc_aud = oc_aud c,
      soc_last_usage = oc_last_usage c,
      soc_metadata = map (\<lambda>e. (fst e, storable_metadata_entry_from (snd e))) (oc_metadata c)\<rparr>"

definition openid_credential_from_storable :: "storable_openid_credential \<Rightarrow> openid_credential" where
  "openid_credential_from_storable c =
     \<lparr>oc_iss = soc_iss c, oc_sub = soc_sub c, oc_aud = soc_aud c,
      oc_last_usage = soc_last_usage c,
      oc_metadata = map (\<lambda>e. (fst e, metadata_entry_from_storable (snd e))) (soc_metadata c)\<rparr>"

text \<open>\<open>StorableOpenIdCredential::key\<close> and \<open>StorableOpenIdCredentialKey::is_legacy\<close>.\<close>

definition soc_key :: "storable_openid_credential \<Rightarrow> openid_credential_key" where
  "soc_key c = (soc_iss c, soc_sub c, soc_aud c)"

fun is_legacy :: "openid_credential_key \<Rightarrow> bool" where
  "is_legacy (iss, sub, aud) = (aud = [])"

lemma openid_credential_round_trip [simp]:
  "openid_credential_from_storable (storable_openid_credential_from c) = c"
  by (simp add: openid_credential_from_storable_def storable_openid_credential_from_def comp_def)

lemma soc_key_from [simp]: "soc_key (storable_openid_credential_from c) = oc_key c"
  by (simp add: soc_key_def oc_key_def storable_openid_credential_from_def)

lemma openid_credentials_round_trip [simp]:
  "map (openid_credential_from_storable \<circ> storable_openid_credential_from) cs = cs"
  by (simp add: comp_def)

section \<open>From the anchor to stable memory\<close>

text \<open>
  The big \<open>match\<close> on \<open>(credential_id, purpose, key_type, origin)\<close>: the credential id to store
  and the auxiliary data that lets the read direction restore a special device.
\<close>

definition passkey_key_type :: "key_type \<Rightarrow> bool" where
  "passkey_key_type k \<longleftrightarrow> k = Platform \<or> k = CrossPlatform \<or> k = Unknown"

definition DUMMY_CREDENTIAL_ID :: bytes where
  "DUMMY_CREDENTIAL_ID = [0xde, 0xad, 0xbe, 0xef]"

definition marshal_credential :: "device \<Rightarrow> bytes option \<times> special_device_migration option" where
  "marshal_credential d =
     (let cid = dev_credential_id d; p = dev_purpose d; k = dev_key_type d; origin = dev_origin d in
      if cid = None \<and> p = Recovery \<and> k = SeedPhrase \<and> origin = None then (None, None)
      else if cid \<noteq> None \<and> p = Authentication \<and> passkey_key_type k \<and> origin \<noteq> None then (cid, None)
      else if cid \<noteq> None \<and> p = Authentication \<and> passkey_key_type k \<and> origin = None
      then (cid, Some (special_device_migration_from cid Authentication k None))
      else if cid \<noteq> None \<and> p = Recovery \<and> passkey_key_type k
      then (cid, Some (special_device_migration_from cid p k origin))
      else if cid = None \<and> k = BrowserStorageKey
      then (Some DUMMY_CREDENTIAL_ID, Some (special_device_migration_from None p k origin))
      else (cid, Some (special_device_migration_from cid p k origin)))"

definition storable_passkey_from ::
  "device \<Rightarrow> bytes \<Rightarrow> special_device_migration option \<Rightarrow> storable_passkey_credential" where
  "storable_passkey_from d cid special =
     \<lparr>pk_pubkey = dev_pubkey d, pk_credential_id = cid,
      pk_origin = (case dev_origin d of None \<Rightarrow> ''https://identity.ic0.app'' | Some o' \<Rightarrow> o'),
      pk_created_at_ns = None, pk_last_usage_timestamp_ns = dev_last_usage d,
      pk_alias = (if dev_alias d = [] then None else Some (dev_alias d)),
      pk_aaguid = dev_aaguid d, pk_special = special\<rparr>"

definition storable_recovery_key_from ::
  "device \<Rightarrow> special_device_migration option \<Rightarrow> storable_recovery_key" where
  "storable_recovery_key_from d special =
     \<lparr>rk_pubkey = dev_pubkey d, rk_created_at_ns = None, rk_last_usage_timestamp_ns = dev_last_usage d,
      rk_is_protected = (if dev_protection d = Protected then Some True else None),
      rk_special = special\<rparr>"

text \<open>The body of the loop over the devices: three vectors are filled in parallel.\<close>

type_synonym marshalled =
  "storable_passkey_credential list \<times> storable_recovery_key list \<times> storable_passkey_credential list"

definition marshal_device :: "device \<Rightarrow> marshalled \<Rightarrow> marshalled" where
  "marshal_device d acc =
     (case acc of (passkeys, recovery_keys, recovery_devices) \<Rightarrow>
       (case marshal_credential d of
          (Some cid, special) \<Rightarrow>
            if dev_purpose d = Recovery
            then (passkeys, recovery_keys, recovery_devices @ [storable_passkey_from d cid special])
            else (passkeys @ [storable_passkey_from d cid special], recovery_keys, recovery_devices)
        | (None, special) \<Rightarrow>
            (passkeys, recovery_keys @ [storable_recovery_key_from d special], recovery_devices)))"

definition anchor_to_storable :: "anchor \<Rightarrow> storable_fixed_anchor \<times> storable_anchor" where
  "anchor_to_storable a =
     (case fold marshal_device (a_devices a) ([], [], []) of
        (passkeys, recovery_keys, recovery_devices) \<Rightarrow>
          (\<lparr>sfa_devices = a_devices a, sfa_metadata = a_metadata a, sfa_created_at = a_created_at a\<rparr>,
           \<lparr>sa_name = a_name a,
            sa_openid_credentials = map storable_openid_credential_from (a_openid_credentials a),
            sa_created_at_ns = a_created_at a,
            sa_passkey_credentials = Some (passkeys @ recovery_devices),
            sa_recovery_keys = Some recovery_keys\<rparr>))"

section \<open>From stable memory to the anchor\<close>

definition device_from_passkey :: "storable_passkey_credential \<Rightarrow> device" where
  "device_from_passkey p =
     (case (case pk_special p of
              Some m \<Rightarrow> special_device_migration_into m
            | None \<Rightarrow> (Some (pk_credential_id p), Authentication, CrossPlatform, Some (pk_origin p))) of
        (cid, purpose, key_type, origin) \<Rightarrow>
          \<lparr>dev_pubkey = pk_pubkey p,
           dev_alias = (case pk_alias p of None \<Rightarrow> [] | Some n \<Rightarrow> n),
           dev_credential_id = cid, dev_aaguid = pk_aaguid p, dev_purpose = purpose,
           dev_key_type = key_type, dev_protection = Unprotected, dev_origin = origin,
           dev_metadata = None, dev_last_usage = pk_last_usage_timestamp_ns p\<rparr>)"

definition device_from_recovery_key :: "storable_recovery_key \<Rightarrow> device" where
  "device_from_recovery_key r =
     (case (case rk_special r of
              Some m \<Rightarrow> special_device_migration_into m
            | None \<Rightarrow> (None, Recovery, SeedPhrase, None)) of
        (cid, purpose, key_type, origin) \<Rightarrow>
          \<lparr>dev_pubkey = rk_pubkey r, dev_alias = ''Recovery Key'',
           dev_credential_id = cid, dev_aaguid = None, dev_purpose = purpose,
           dev_key_type = key_type,
           dev_protection = (if rk_is_protected r = Some True then Protected else Unprotected),
           dev_origin = origin, dev_metadata = None, dev_last_usage = rk_last_usage_timestamp_ns r\<rparr>)"

text \<open>
  \<open>copy_from_slice\<close> into the 16-byte array traps on any other length, which is the \<open>None\<close> of
  the conversion.
\<close>

definition aaguid_ok :: "bytes option \<Rightarrow> bool" where
  "aaguid_ok g = (case g of None \<Rightarrow> True | Some b \<Rightarrow> length b = 16)"

definition or_default :: "'a list option \<Rightarrow> 'a list" where
  "or_default x = (case x of None \<Rightarrow> [] | Some l \<Rightarrow> l)"

definition anchor_from_storable :: "anchor_number \<Rightarrow> storable_anchor \<Rightarrow> anchor option" where
  "anchor_from_storable n s =
     (if list_all (\<lambda>p. aaguid_ok (pk_aaguid p)) (or_default (sa_passkey_credentials s))
      then Some
        \<lparr>a_number = n,
         a_devices = map device_from_passkey (or_default (sa_passkey_credentials s))
                     @ map device_from_recovery_key (or_default (sa_recovery_keys s)),
         a_openid_credentials = map openid_credential_from_storable (sa_openid_credentials s),
         a_metadata = None, a_name = sa_name s, a_created_at = sa_created_at_ns s\<rparr>
      else None)"

text \<open>The superseded conversion that also reads the fixed-size record.\<close>

definition anchor_from_fixed ::
  "anchor_number \<Rightarrow> storable_fixed_anchor \<Rightarrow> storable_anchor option \<Rightarrow> anchor" where
  "anchor_from_fixed n f s =
     (case s of
        None \<Rightarrow>
          \<lparr>a_number = n, a_devices = sfa_devices f, a_openid_credentials = [],
           a_metadata = sfa_metadata f, a_name = None, a_created_at = sfa_created_at f\<rparr>
      | Some s \<Rightarrow>
          \<lparr>a_number = n, a_devices = sfa_devices f,
           a_openid_credentials = map openid_credential_from_storable (sa_openid_credentials s),
           a_metadata = sfa_metadata f, a_name = sa_name s, a_created_at = sfa_created_at f\<rparr>)"


section \<open>What a round trip through stable memory does to a device\<close>

definition stored_as_recovery_key :: "device \<Rightarrow> bool" where
  "stored_as_recovery_key d \<longleftrightarrow> fst (marshal_credential d) = None"

definition stored_as_recovery_device :: "device \<Rightarrow> bool" where
  "stored_as_recovery_device d \<longleftrightarrow> \<not> stored_as_recovery_key d \<and> dev_purpose d = Recovery"

definition stored_as_passkey :: "device \<Rightarrow> bool" where
  "stored_as_passkey d \<longleftrightarrow> \<not> stored_as_recovery_key d \<and> dev_purpose d \<noteq> Recovery"

definition device_after_storage :: "device \<Rightarrow> device" where
  "device_after_storage d =
     (case marshal_credential d of
        (Some cid, special) \<Rightarrow> device_from_passkey (storable_passkey_from d cid special)
      | (None, special) \<Rightarrow> device_from_recovery_key (storable_recovery_key_from d special))"

definition storable_passkey_of :: "device \<Rightarrow> storable_passkey_credential" where
  "storable_passkey_of d =
     storable_passkey_from d (the (fst (marshal_credential d))) (snd (marshal_credential d))"

definition storable_recovery_key_of :: "device \<Rightarrow> storable_recovery_key" where
  "storable_recovery_key_of d = storable_recovery_key_from d (snd (marshal_credential d))"

lemmas stored_as_defs = stored_as_recovery_key_def stored_as_recovery_device_def stored_as_passkey_def

lemma fold_marshal_device:
  "fold marshal_device ds (ps, rs, vs) =
     (ps @ map storable_passkey_of (filter stored_as_passkey ds),
      rs @ map storable_recovery_key_of (filter stored_as_recovery_key ds),
      vs @ map storable_passkey_of (filter stored_as_recovery_device ds))"
  by (induction ds arbitrary: ps rs vs)
     (auto simp: marshal_device_def storable_passkey_of_def storable_recovery_key_of_def stored_as_defs
        split: prod.splits option.splits)

lemma anchor_to_storable_eq:
  "anchor_to_storable a =
     (\<lparr>sfa_devices = a_devices a, sfa_metadata = a_metadata a, sfa_created_at = a_created_at a\<rparr>,
      \<lparr>sa_name = a_name a,
       sa_openid_credentials = map storable_openid_credential_from (a_openid_credentials a),
       sa_created_at_ns = a_created_at a,
       sa_passkey_credentials =
         Some (map storable_passkey_of (filter stored_as_passkey (a_devices a)
                                        @ filter stored_as_recovery_device (a_devices a))),
       sa_recovery_keys =
         Some (map storable_recovery_key_of (filter stored_as_recovery_key (a_devices a)))\<rparr>)"
  by (simp add: anchor_to_storable_def fold_marshal_device)

text \<open>
  The net effect on one device: everything that identifies it and decides what it may do is
  kept; a complete passkey becomes \<open>CrossPlatform\<close>, metadata is dropped, recovery keys lose
  their alias and AAGUID, and only recovery keys keep their protection.
\<close>

definition complete_passkey :: "device \<Rightarrow> bool" where
  "complete_passkey d \<longleftrightarrow> dev_credential_id d \<noteq> None \<and> dev_purpose d = Authentication
     \<and> passkey_key_type (dev_key_type d) \<and> dev_origin d \<noteq> None"

lemma stored_as_recovery_key_iff:
  "stored_as_recovery_key d \<longleftrightarrow> dev_credential_id d = None \<and> dev_key_type d \<noteq> BrowserStorageKey"
  by (auto simp: stored_as_recovery_key_def marshal_credential_def Let_def passkey_key_type_def)

lemma device_after_storage_eq:
  "device_after_storage d =
     d\<lparr>dev_alias := (if stored_as_recovery_key d then ''Recovery Key'' else dev_alias d),
       dev_aaguid := (if stored_as_recovery_key d then None else dev_aaguid d),
       dev_key_type := (if complete_passkey d then CrossPlatform else dev_key_type d),
       dev_protection := (if stored_as_recovery_key d then dev_protection d else Unprotected),
       dev_metadata := None\<rparr>"
  by (cases "dev_protection d"; cases "dev_purpose d"; cases "dev_key_type d";
      cases "dev_credential_id d"; cases "dev_origin d";
      simp add: device_after_storage_def device_from_passkey_def device_from_recovery_key_def
        storable_passkey_from_def storable_recovery_key_from_def marshal_credential_def Let_def
        passkey_key_type_def complete_passkey_def stored_as_recovery_key_iff)

lemma device_after_storage_fields [simp]:
  "dev_pubkey (device_after_storage d) = dev_pubkey d"
  "dev_credential_id (device_after_storage d) = dev_credential_id d"
  "dev_purpose (device_after_storage d) = dev_purpose d"
  "dev_origin (device_after_storage d) = dev_origin d"
  "dev_last_usage (device_after_storage d) = dev_last_usage d"
  by (simp_all add: device_after_storage_eq)

lemma stored_as_after_storage [simp]:
  "stored_as_recovery_key (device_after_storage d) = stored_as_recovery_key d"
  "stored_as_recovery_device (device_after_storage d) = stored_as_recovery_device d"
  "stored_as_passkey (device_after_storage d) = stored_as_passkey d"
  by (auto simp: stored_as_recovery_device_def stored_as_passkey_def stored_as_recovery_key_iff
      device_after_storage_eq complete_passkey_def)

lemma device_after_storage_idem [simp]:
  "device_after_storage (device_after_storage d) = device_after_storage d"
  by (simp add: device_after_storage_eq [of "device_after_storage d"])
     (auto simp: device_after_storage_eq complete_passkey_def passkey_key_type_def)

lemma device_from_stored:
  "\<not> stored_as_recovery_key d \<Longrightarrow> device_from_passkey (storable_passkey_of d) = device_after_storage d"
  "stored_as_recovery_key d \<Longrightarrow> device_from_recovery_key (storable_recovery_key_of d) = device_after_storage d"
  by (auto simp: device_after_storage_def storable_passkey_of_def storable_recovery_key_of_def
      stored_as_recovery_key_def split: prod.splits option.splits)

lemma pk_aaguid_storable [simp]: "pk_aaguid (storable_passkey_of d) = dev_aaguid d"
  by (simp add: storable_passkey_of_def storable_passkey_from_def)

text \<open>The order of the devices after a round trip: passkeys, recovery devices, recovery keys.\<close>

definition storage_order :: "device list \<Rightarrow> device list" where
  "storage_order ds = filter stored_as_passkey ds @ filter stored_as_recovery_device ds
                      @ filter stored_as_recovery_key ds"

lemma storage_order_idem [simp]: "storage_order (storage_order ds) = storage_order ds"
  by (simp add: storage_order_def stored_as_recovery_device_def [abs_def]
      stored_as_passkey_def [abs_def] cong: conj_cong)

lemma mset_storage_order [simp]: "mset (storage_order ds) = mset ds"
  by (induction ds) (auto simp: storage_order_def stored_as_recovery_device_def stored_as_passkey_def)

lemma storage_order_map [simp]:
  "storage_order (map device_after_storage ds) = map device_after_storage (storage_order ds)"
  by (simp add: storage_order_def filter_map comp_def)

definition anchor_after_storage :: "anchor \<Rightarrow> anchor" where
  "anchor_after_storage a =
     a\<lparr>a_devices := map device_after_storage (storage_order (a_devices a)), a_metadata := None\<rparr>"

lemma anchor_after_storage_idem: "anchor_after_storage (anchor_after_storage a) = anchor_after_storage a"
  by (simp add: anchor_after_storage_def comp_def)

definition aaguids_ok :: "anchor \<Rightarrow> bool" where
  "aaguids_ok a \<longleftrightarrow> list_all (\<lambda>d. aaguid_ok (dev_aaguid d)) (a_devices a)"

lemma map_device_from_stored:
  "map (device_from_passkey \<circ> storable_passkey_of) (filter stored_as_passkey ds)
     = map device_after_storage (filter stored_as_passkey ds)"
  "map (device_from_passkey \<circ> storable_passkey_of) (filter stored_as_recovery_device ds)
     = map device_after_storage (filter stored_as_recovery_device ds)"
  "map (device_from_recovery_key \<circ> storable_recovery_key_of) (filter stored_as_recovery_key ds)
     = map device_after_storage (filter stored_as_recovery_key ds)"
  by (auto simp: device_from_stored stored_as_recovery_device_def stored_as_passkey_def)

lemma anchor_round_trip:
  assumes "aaguids_ok a"
  shows "anchor_from_storable (a_number a) (snd (anchor_to_storable a)) = Some (anchor_after_storage a)"
proof -
  have ok: "list_all (\<lambda>p. aaguid_ok (pk_aaguid p))
      (map storable_passkey_of (filter stored_as_passkey (a_devices a)
                                @ filter stored_as_recovery_device (a_devices a)))"
    using assms by (auto simp: aaguids_ok_def list_all_iff)
  show ?thesis
    using ok
    by (simp add: anchor_to_storable_eq anchor_from_storable_def or_default_def
        map_device_from_stored del: map_eq_conv)
       (simp add: anchor_after_storage_def storage_order_def)
qed

lemma aaguids_ok_after_storage: "aaguids_ok a \<Longrightarrow> aaguids_ok (anchor_after_storage a)"
  by (auto simp: aaguids_ok_def anchor_after_storage_def list_all_iff device_after_storage_eq
      aaguid_ok_def storage_order_def)


section \<open>Properties\<close>


lemma anchor_ok_sample:
  "anchor_ok ((anchor_new 10000 7)\<lparr>a_devices := [sample_phrase, sample_passkey]\<rparr>)"
  using sample_run anchor_ok_new by (rule anchor_run_ok)

lemma aaguids_ok_sample:
  "aaguids_ok ((anchor_new 10000 7)\<lparr>a_devices := [sample_phrase, sample_passkey]\<rparr>)"
  by (simp add: aaguids_ok_def aaguid_ok_def sample_phrase_def sample_passkey_def)


text \<open>
  Reading and writing back an anchor changes the stored representation at most
  once: after the first round trip the anchor is in normal form, and every further
  write-read cycle returns exactly the same anchor, device order included.
\<close>

theorem storage_round_trip_idempotent:
  assumes "aaguids_ok a"
    and "anchor_from_storable (a_number a) (snd (anchor_to_storable a)) = Some a'"
  shows "anchor_from_storable (a_number a) (snd (anchor_to_storable a')) = Some a'"
proof -
  have a': "a' = anchor_after_storage a"
    using assms anchor_round_trip by simp
  have "a_number a' = a_number a" by (simp add: a' anchor_after_storage_def)
  then show ?thesis
    using anchor_round_trip [OF aaguids_ok_after_storage [OF assms(1)]]
    by (simp add: a' anchor_after_storage_idem)
qed

theorem storage_round_trip_idempotent_witness:
  "anchor_from_storable 10000 (snd (anchor_to_storable
      (anchor_after_storage ((anchor_new 10000 7)\<lparr>a_devices := [sample_phrase, sample_passkey]\<rparr>))))
   = Some (anchor_after_storage ((anchor_new 10000 7)\<lparr>a_devices := [sample_phrase, sample_passkey]\<rparr>))"
  using storage_round_trip_idempotent [OF aaguids_ok_sample anchor_round_trip [OF aaguids_ok_sample]]
  by (simp add: anchor_new_def)

end
