(* ===== verification/Storage_State.thy ===== *)
theory Storage_State
  imports Storable_Anchor
begin

text \<open>
  The state of \<open>storage.rs\<close>: the header page, the stable maps and cells, and the constants
  that size them (\<open>storage.rs\<close> lines 150-330, \<open>storage/storable/*.rs\<close>). One HOL record
  stands for the Rust struct \<open>Storage\<close>; its maps are the stable maps that hold anchors, accounts,
  the archive buffer and the lookup indices. Event data, event aggregations, registration rates and
  the persistent state are separate components and not fields here; memory wrappers only
  report sizes. The header is also kept as the bytes \<open>flush\<close> writes to the first page of the
  stable memory, because an upgrade reads it back from there.
\<close>

section \<open>Little-endian integers\<close>

primrec le_bytes :: "nat \<Rightarrow> nat \<Rightarrow> bytes" where
  "le_bytes 0 x = []"
| "le_bytes (Suc n) x = of_nat (x mod 256) # le_bytes n (x div 256)"

fun le_value :: "bytes \<Rightarrow> nat" where
  "le_value [] = 0"
| "le_value (b # bs) = unat b + 256 * le_value bs"

lemma length_le_bytes [simp]: "length (le_bytes n x) = n"
  by (induction n arbitrary: x) simp_all

lemma unat_of_nat_byte [simp]: "unat (of_nat (x mod 256) :: u8) = x mod 256"
  by (simp add: unat_of_nat take_bit_eq_mod)

lemma le_value_le_bytes: "le_value (le_bytes n x) = x mod 256 ^ n"
proof (induction n arbitrary: x)
  case 0
  then show ?case by simp
next
  case (Suc n)
  have "x mod (256 * 256 ^ n) = 256 * (x div 256 mod 256 ^ n) + x mod 256"
    by (rule mod_mult2_eq)
  with Suc show ?case by simp
qed

lemma le_round_trip_u64 [simp]: "of_nat (le_value (le_bytes 8 (unat (x :: u64)))) = x"
  using unat64_bound [of x] by (simp add: le_value_le_bytes)

lemma le_round_trip_u32 [simp]: "of_nat (le_value (le_bytes 4 (unat (x :: u32)))) = x"
  using unat32_bound [of x] by (simp add: le_value_le_bytes)

lemma le_round_trip_u16 [simp]: "of_nat (le_value (le_bytes 2 (unat (x :: u16)))) = x"
  using unsigned_less [of x, where 'a = nat] by (simp add: le_value_le_bytes)

section \<open>Constants\<close>

definition DEFAULT_ENTRY_SIZE :: u16 where "DEFAULT_ENTRY_SIZE = 4096"
definition EMPTY_SALT :: bytes where "EMPTY_SALT = replicate 32 0"
definition WASM_PAGE_SIZE :: u64 where "WASM_PAGE_SIZE = 65536"
definition BUCKET_SIZE_IN_PAGES :: u64 where "BUCKET_SIZE_IN_PAGES = 128"
definition MAX_MANAGED_MEMORY_SIZE :: u64 where "MAX_MANAGED_MEMORY_SIZE = 256 * 1073741824"
definition MAX_MANAGED_WASM_PAGES :: u64 where
  "MAX_MANAGED_WASM_PAGES = MAX_MANAGED_MEMORY_SIZE div WASM_PAGE_SIZE"
definition MAX_ENTRIES :: u64 where
  "MAX_ENTRIES = (MAX_MANAGED_WASM_PAGES - BUCKET_SIZE_IN_PAGES) * WASM_PAGE_SIZE div ucast DEFAULT_ENTRY_SIZE"

lemma MAX_ENTRIES_value: "MAX_ENTRIES = 67106816"
  by (simp add: MAX_ENTRIES_def MAX_MANAGED_WASM_PAGES_def MAX_MANAGED_MEMORY_SIZE_def
      WASM_PAGE_SIZE_def BUCKET_SIZE_IN_PAGES_def DEFAULT_ENTRY_SIZE_def)

section \<open>The header\<close>

text \<open>\<open>#[repr(C, packed)] struct Header\<close>.\<close>

record header =
  h_magic :: bytes
  h_version :: u8
  h_num_anchors :: u32
  h_id_range_lo :: u64
  h_id_range_hi :: u64
  h_entry_size :: u16
  h_salt :: bytes

definition HEADER_MAGIC :: bytes where "HEADER_MAGIC = [73, 73, 67]"

definition header_to_bytes :: "header \<Rightarrow> bytes" where
  "header_to_bytes h =
     h_magic h @ [h_version h] @ le_bytes 4 (unat (h_num_anchors h))
     @ le_bytes 8 (unat (h_id_range_lo h)) @ le_bytes 8 (unat (h_id_range_hi h))
     @ le_bytes 2 (unat (h_entry_size h)) @ h_salt h"

definition header_from_bytes :: "bytes \<Rightarrow> header" where
  "header_from_bytes b =
     \<lparr>h_magic = take 3 b, h_version = b ! 3,
      h_num_anchors = of_nat (le_value (take 4 (drop 4 b))),
      h_id_range_lo = of_nat (le_value (take 8 (drop 8 b))),
      h_id_range_hi = of_nat (le_value (take 8 (drop 16 b))),
      h_entry_size = of_nat (le_value (take 2 (drop 24 b))),
      h_salt = take 32 (drop 26 b)\<rparr>"

text \<open>The array types of the struct.\<close>

definition header_sized :: "header \<Rightarrow> bool" where
  "header_sized h \<longleftrightarrow> length (h_magic h) = 3 \<and> length (h_salt h) = 32"

lemma header_round_trip: "header_sized h \<Longrightarrow> header_from_bytes (header_to_bytes h) = h"
  by (simp add: header_sized_def header_from_bytes_def header_to_bytes_def nth_append)

section \<open>Accounts and applications\<close>

record account_reference =
  ar_account_number :: "account_number option"
  ar_last_used :: "timestamp option"

record storable_account =
  sac_name :: string
  sac_seed_from_anchor :: "anchor_number option"

record accounts_counter =
  stored_accounts :: u64
  stored_account_references :: u64

record storable_application =
  app_origin :: frontend_hostname
  app_stored_accounts :: u64
  app_stored_account_references :: u64

record anchor_application_config =
  default_account_number :: "account_number option"

section \<open>Archive buffer entries\<close>

record buffered_entry =
  be_anchor_number :: anchor_number
  be_timestamp :: u64
  be_entry :: bytes
  be_sequence_number :: u64

section \<open>The storage\<close>

record storage =
  st_header :: header
  st_header_memory :: bytes
  st_archive_buffer :: "(u64, buffered_entry) omap"
  st_anchors :: "(anchor_number, storable_anchor) omap"
  st_accounts :: "(account_number, storable_account) omap"
  st_applications :: "(application_number, storable_application) omap"
  st_anchor_counters :: "(anchor_number, accounts_counter) omap"
  st_account_refs :: "(anchor_number \<times> application_number, account_reference list) omap"
  st_app_configs :: "(anchor_number \<times> application_number, anchor_application_config) omap"
  st_account_counter :: accounts_counter
  st_discrepancies :: u64
  st_by_openid :: "(openid_credential_key, anchor_number list) omap"
  st_by_credential :: "(credential_id, anchor_number) omap"
  st_application_by_origin :: "(bytes, application_number) omap"
  st_by_recovery_principal :: "(principal, anchor_number) omap"
  st_by_passkey_principal :: "(principal, anchor_number) omap"

text \<open>A stable memory in which nothing has been stored yet.\<close>

definition empty_storage :: storage where
  "empty_storage =
     \<lparr>st_header = \<lparr>h_magic = [0, 0, 0], h_version = 0, h_num_anchors = 0, h_id_range_lo = 0,
                   h_id_range_hi = 0, h_entry_size = 0, h_salt = EMPTY_SALT\<rparr>,
      st_header_memory = [], st_archive_buffer = om_empty, st_anchors = om_empty,
      st_accounts = om_empty, st_applications = om_empty, st_anchor_counters = om_empty,
      st_account_refs = om_empty, st_app_configs = om_empty,
      st_account_counter = \<lparr>stored_accounts = 0, stored_account_references = 0\<rparr>,
      st_discrepancies = 0, st_by_openid = om_empty, st_by_credential = om_empty,
      st_application_by_origin = om_empty, st_by_recovery_principal = om_empty,
      st_by_passkey_principal = om_empty\<rparr>"

text \<open>
  \<open>DeserializationError\<close> and \<open>SerializationError\<close> carry an error of the \<open>candid\<close> crate; no
  operation of the model raises them, so they are left out.
\<close>

datatype storage_error =
    AnchorNumberOutOfRange anchor_number "anchor_number \<times> anchor_number"
  | BadAnchorNumber u64
  | EntrySizeLimitExceeded u64 u64
  | AnchorNotFound anchor_number
  | ApplicationNotFound frontend_hostname
  | MissingAccountName
  | MissingAccount anchor_number string
  | AccountNotFound account_number
  | OriginNotFoundForApplicationNumber application_number
  | ErrorUpdatingAccountCounter

end
