(* ===== verification/Storage.thy ===== *)
theory Storage
  imports Storage_State
begin

text \<open>
  \<open>storage.rs\<close>: creation and upgrade of the storage, allocation of anchors, writing and
  reading anchors with the synchronisation of the lookup indices, the migration of the
  OpenID index keys, the anchor range and the archive buffer. \<open>sa\<close> is
  \<open>Principal::self_authenticating\<close>. A Rust \<open>BTreeSet\<close> built from a list is the list of its
  elements in increasing order.
\<close>

section \<open>Creation, header and upgrade\<close>

definition flush :: "storage \<Rightarrow> storage" where
  "flush s = s\<lparr>st_header_memory := header_to_bytes (st_header s)\<rparr>"

definition init_with_header :: "storage \<Rightarrow> header \<Rightarrow> storage" where
  "init_with_header memory h = memory\<lparr>st_header := h\<rparr>"

definition storage_new :: "u64 \<times> u64 \<Rightarrow> storage \<Rightarrow> storage option" where
  "storage_new id_range memory =
     (case id_range of (lo, hi) \<Rightarrow>
        if hi < lo then None
        else if hi - lo > MAX_ENTRIES then None
        else Some (flush (init_with_header memory
               \<lparr>h_magic = HEADER_MAGIC, h_version = 9, h_num_anchors = 0, h_id_range_lo = lo,
                h_id_range_hi = hi, h_entry_size = DEFAULT_ENTRY_SIZE, h_salt = EMPTY_SALT\<rparr>)))"

definition storage_salt :: "storage \<Rightarrow> bytes option" where
  "storage_salt s = (if h_salt (st_header s) = EMPTY_SALT then None else Some (h_salt (st_header s)))"

definition update_salt :: "storage \<Rightarrow> bytes \<Rightarrow> storage option" where
  "update_salt s salt =
     (if storage_salt s \<noteq> None then None
      else Some (flush (s\<lparr>st_header := (st_header s)\<lparr>h_salt := salt\<rparr>\<rparr>)))"

text \<open>
  \<open>from_memory\<close> on a memory of \<open>pages\<close> pages: the header is decoded from the first page and the
  stable structures are the ones the memory holds.
\<close>

definition from_memory :: "u64 \<Rightarrow> storage \<Rightarrow> storage option" where
  "from_memory pages memory =
     (if pages < 1 then None
      else
        (let h = header_from_bytes (st_header_memory memory) in
         if h_magic h \<noteq> HEADER_MAGIC then None
         else if h_version h < 9 then None
         else if \<not> (9 \<le> h_version h \<and> h_version h \<le> 9) then None
         else Some (init_with_header memory h)))"

definition anchor_count :: "storage \<Rightarrow> nat" where
  "anchor_count s = unat (h_num_anchors (st_header s))"

definition assigned_anchor_number_range :: "storage \<Rightarrow> anchor_number \<times> anchor_number" where
  "assigned_anchor_number_range s = (h_id_range_lo (st_header s), h_id_range_hi (st_header s))"

definition set_anchor_number_range :: "storage \<Rightarrow> anchor_number \<times> anchor_number \<Rightarrow> storage option" where
  "set_anchor_number_range s id_range =
     (case id_range of (lo, hi) \<Rightarrow>
        if hi < lo then None
        else if hi - lo > MAX_ENTRIES then None
        else if h_num_anchors (st_header s) > 0 \<and> h_id_range_lo (st_header s) \<noteq> lo then None
        else if h_num_anchors (st_header s) > 0 \<and> hi - lo < ucast (h_num_anchors (st_header s)) then None
        else Some (flush (s\<lparr>st_header := (st_header s)\<lparr>h_id_range_lo := lo, h_id_range_hi := hi\<rparr>\<rparr>)))"

definition anchor_number_to_record_number :: "storage \<Rightarrow> u64 \<Rightarrow> storage_error + u32" where
  "anchor_number_to_record_number s n =
     (if n < h_id_range_lo (st_header s) \<or> n \<ge> h_id_range_hi (st_header s)
      then Inl (AnchorNumberOutOfRange n (assigned_anchor_number_range s))
      else Inr (ucast (n - h_id_range_lo (st_header s))))"

section \<open>Lookup indices\<close>

definition btree_set :: "'k::linorder list \<Rightarrow> 'k list" where
  "btree_set xs = sort (remdups xs)"

definition btree_difference :: "'k::linorder list \<Rightarrow> 'k list \<Rightarrow> 'k list" where
  "btree_difference xs ys = filter (\<lambda>x. x \<notin> set ys) xs"

text \<open>The steps the three owner-respecting indices share: drop one's own key, claim a free one.\<close>

definition drop_own_key ::
  "anchor_number \<Rightarrow> 'k::linorder \<Rightarrow> ('k, anchor_number) omap \<Rightarrow> ('k, anchor_number) omap" where
  "drop_own_key n k m =
     (case om_get m k of
        None \<Rightarrow> m
      | Some existing \<Rightarrow> if existing \<noteq> n then m else om_remove k m)"

definition claim_free_key ::
  "anchor_number \<Rightarrow> 'k::linorder \<Rightarrow> ('k, anchor_number) omap \<Rightarrow> ('k, anchor_number) omap" where
  "claim_free_key n k m = (if om_contains m k then m else om_insert k n m)"

definition sync_passkey_pubkey_index ::
  "(bytes \<Rightarrow> principal) \<Rightarrow> anchor_number \<Rightarrow> storable_passkey_credential list
     \<Rightarrow> storable_passkey_credential list
     \<Rightarrow> (principal, anchor_number) omap \<Rightarrow> (principal, anchor_number) omap" where
  "sync_passkey_pubkey_index sa n previous current m =
     (let prev = btree_set (map (sa \<circ> pk_pubkey) previous);
          cur = btree_set (map (sa \<circ> pk_pubkey) current)
      in fold (claim_free_key n) (btree_difference cur prev)
           (fold (drop_own_key n) (btree_difference prev cur) m))"

definition sync_recovery_phrase_principal_index ::
  "(bytes \<Rightarrow> principal) \<Rightarrow> anchor_number \<Rightarrow> storable_recovery_key list \<Rightarrow> storable_recovery_key list
     \<Rightarrow> (principal, anchor_number) omap \<Rightarrow> (principal, anchor_number) omap" where
  "sync_recovery_phrase_principal_index sa n previous current m =
     (let prev = btree_set (map (sa \<circ> rk_pubkey) previous);
          cur = btree_set (map (sa \<circ> rk_pubkey) current)
      in fold (claim_free_key n) cur (fold (drop_own_key n) (btree_difference prev cur) m))"

definition sync_passkey_credential_index ::
  "anchor_number \<Rightarrow> storable_passkey_credential list \<Rightarrow> storable_passkey_credential list
     \<Rightarrow> (credential_id, anchor_number) omap \<Rightarrow> (credential_id, anchor_number) omap" where
  "sync_passkey_credential_index n previous current m =
     (let prev = btree_set (map pk_credential_id previous);
          cur = btree_set (map pk_credential_id current)
      in fold (claim_free_key n) cur (fold (drop_own_key n) (btree_difference prev cur) m))"

definition sync_openid_credential_index ::
  "anchor_number \<Rightarrow> storable_openid_credential list \<Rightarrow> storable_openid_credential list
     \<Rightarrow> (openid_credential_key, anchor_number list) omap
     \<Rightarrow> (openid_credential_key, anchor_number list) omap" where
  "sync_openid_credential_index n previous current m =
     (let prev = btree_set (map soc_key previous);
          cur = btree_set (map soc_key current)
      in fold (\<lambda>k. om_insert k [n]) (btree_difference cur prev)
           (fold om_remove (btree_difference prev cur) m))"

definition lookup_anchor_with_openid_credential ::
  "storage \<Rightarrow> openid_credential_key \<Rightarrow> anchor_number option" where
  "lookup_anchor_with_openid_credential s key =
     (case om_get (st_by_openid s) key of
        None \<Rightarrow> None
      | Some [] \<Rightarrow> None
      | Some (n # _) \<Rightarrow> Some n)"

definition lookup_anchor_with_recovery_phrase_principal :: "storage \<Rightarrow> principal \<Rightarrow> anchor_number option" where
  "lookup_anchor_with_recovery_phrase_principal s p = om_get (st_by_recovery_principal s) p"

definition lookup_anchor_with_passkey_pubkey ::
  "(bytes \<Rightarrow> principal) \<Rightarrow> storage \<Rightarrow> bytes \<Rightarrow> anchor_number option" where
  "lookup_anchor_with_passkey_pubkey sa s pubkey = om_get (st_by_passkey_principal s) (sa pubkey)"

definition lookup_anchor_with_device_credential :: "storage \<Rightarrow> credential_id \<Rightarrow> anchor_number option" where
  "lookup_anchor_with_device_credential s cid = om_get (st_by_credential s) cid"

section \<open>Writing and reading anchors\<close>

text \<open>The credentials and keys of the anchor stored before, empty when there was none.\<close>

definition previous_parts ::
  "storable_anchor option \<Rightarrow> storable_openid_credential list \<times> storable_passkey_credential list
     \<times> storable_recovery_key list" where
  "previous_parts p =
     (case p of
        None \<Rightarrow> ([], [], [])
      | Some a \<Rightarrow> (sa_openid_credentials a, or_default (sa_passkey_credentials a),
                  or_default (sa_recovery_keys a)))"

definition storage_write ::
  "(bytes \<Rightarrow> principal) \<Rightarrow> storage \<Rightarrow> anchor \<Rightarrow> storage_error + storage" where
  "storage_write sa s data =
     (let n = a_number data; storable = snd (anchor_to_storable data) in
      case anchor_number_to_record_number s n of
        Inl e \<Rightarrow> Inl e
      | Inr record_number \<Rightarrow>
          if record_number > h_num_anchors (st_header s) then Inl (BadAnchorNumber n)
          else
            (case previous_parts (om_get (st_anchors s) n) of
               (prev_openid, prev_passkeys, prev_recovery) \<Rightarrow>
                 Inr (s\<lparr>st_anchors := om_insert n storable (st_anchors s),
                        st_by_openid := sync_openid_credential_index n prev_openid
                          (sa_openid_credentials storable) (st_by_openid s),
                        st_by_recovery_principal := sync_recovery_phrase_principal_index sa n prev_recovery
                          (or_default (sa_recovery_keys storable)) (st_by_recovery_principal s),
                        st_by_credential := sync_passkey_credential_index n prev_passkeys
                          (or_default (sa_passkey_credentials storable)) (st_by_credential s),
                        st_by_passkey_principal := sync_passkey_pubkey_index sa n prev_passkeys
                          (or_default (sa_passkey_credentials storable)) (st_by_passkey_principal s)\<rparr>)))"

text \<open>Reading traps (\<open>None\<close>) when the stored anchor does not decode.\<close>

definition storage_read :: "storage \<Rightarrow> anchor_number \<Rightarrow> (storage_error + anchor) option" where
  "storage_read s n =
     (case anchor_number_to_record_number s n of
        Inl e \<Rightarrow> Some (Inl e)
      | Inr record_number \<Rightarrow>
          if record_number \<ge> h_num_anchors (st_header s) then Some (Inl (BadAnchorNumber n))
          else
            (case om_get (st_anchors s) n of
               None \<Rightarrow> Some (Inl (AnchorNotFound n))
             | Some storable \<Rightarrow> map_option Inr (anchor_from_storable n storable)))"

section \<open>Allocating anchors\<close>

definition allocate_anchor :: "storage \<Rightarrow> timestamp \<Rightarrow> storage \<times> anchor option" where
  "allocate_anchor s now =
     (let h = st_header s; n = h_id_range_lo h + ucast (h_num_anchors h) in
      if n \<ge> h_id_range_hi h then (s, None)
      else (flush (s\<lparr>st_header := h\<lparr>h_num_anchors := h_num_anchors h + 1\<rparr>\<rparr>), Some (anchor_new n now)))"

definition saturating_succ32 :: "u32 \<Rightarrow> u32" where
  "saturating_succ32 x = (if x = - 1 then x else x + 1)"

text \<open>
  The callback \<open>f\<close> gets the fresh anchor and returns either its error or its result with the
  anchor as it left it; \<open>conv\<close> is \<open>E::from\<close> on storage errors.
\<close>

definition allocate_anchor_safe ::
  "(bytes \<Rightarrow> principal) \<Rightarrow> (storage_error \<Rightarrow> 'e) \<Rightarrow> storage \<Rightarrow> timestamp
     \<Rightarrow> (anchor \<Rightarrow> 'e + 't \<times> anchor) \<Rightarrow> storage \<times> ('e + 't)" where
  "allocate_anchor_safe sa conv s now f =
     (let h = st_header s;
          n = saturating_add64 (h_id_range_lo h) (ucast (h_num_anchors h)) in
      if n \<ge> h_id_range_hi h
      then (s, Inl (conv (AnchorNumberOutOfRange n (h_id_range_lo h, h_id_range_hi h))))
      else
        (case f (anchor_new n now) of
           Inl e \<Rightarrow> (s, Inl e)
         | Inr (result, identity) \<Rightarrow>
             (case storage_write sa s identity of
                Inl e \<Rightarrow> (s, Inl (conv e))
              | Inr s' \<Rightarrow>
                  (flush (s'\<lparr>st_header := (st_header s')
                     \<lparr>h_num_anchors := saturating_succ32 (h_num_anchors (st_header s'))\<rparr>\<rparr>),
                   Inr result))))"

section \<open>Migration of the OpenID index keys\<close>

record migration_outcome =
  mo_processed :: u64
  mo_is_done :: bool
  mo_errors :: "(iss \<times> sub) list"

text \<open>
  One legacy key: it is removed, its \<open>aud\<close> looked up in the anchor it points to, and the entry
  put back under the complete key, or dropped as an orphan. The error strings
  \<open>orphan iss=.. sub=..\<close> are kept as the pair they print.
\<close>

definition resolve_aud :: "storage \<Rightarrow> openid_credential_key \<Rightarrow> anchor_number list \<Rightarrow> aud option" where
  "resolve_aud s key anchors =
     (case key of (iss, sub, _) \<Rightarrow>
       (case anchors of
          [] \<Rightarrow> None
        | n # _ \<Rightarrow>
            (case om_get (st_anchors s) n of
               None \<Rightarrow> None
             | Some a \<Rightarrow>
                 map_option soc_aud
                   (find (\<lambda>c. soc_iss c = iss \<and> soc_sub c = sub) (sa_openid_credentials a)))))"

definition migrate_key ::
  "openid_credential_key \<Rightarrow> storage \<times> migration_outcome \<Rightarrow> storage \<times> migration_outcome" where
  "migrate_key key acc =
     (case acc of (s, out) \<Rightarrow>
       (case om_get (st_by_openid s) key of
          None \<Rightarrow> (s, out)
        | Some anchors \<Rightarrow>
            (let s1 = s\<lparr>st_by_openid := om_remove key (st_by_openid s)\<rparr> in
             (case resolve_aud s1 key anchors of
                Some aud \<Rightarrow>
                  (s1\<lparr>st_by_openid := om_insert (fst key, fst (snd key), aud) anchors (st_by_openid s1)\<rparr>,
                   out\<lparr>mo_processed := mo_processed out + 1\<rparr>)
              | None \<Rightarrow>
                  (s1, out\<lparr>mo_errors := mo_errors out @ [(fst key, fst (snd key))]\<rparr>)))))"

text \<open>\<open>batch_size as usize\<close> truncates to the 32 bits of the WebAssembly target.\<close>

definition migrate_openid_credential_keys_batch :: "storage \<Rightarrow> u64 \<Rightarrow> storage \<times> migration_outcome" where
  "migrate_openid_credential_keys_batch s batch_size =
     (if batch_size = 0
      then (s, \<lparr>mo_processed = 0, mo_is_done = True, mo_errors = []\<rparr>)
      else
        (let legacy_keys = take (unat (ucast batch_size :: u32))
                             (filter is_legacy (om_keys (st_by_openid s)));
             (s', out) = fold migrate_key legacy_keys
                           (s, \<lparr>mo_processed = 0, mo_is_done = False, mo_errors = []\<rparr>)
         in (s', if of_nat (length legacy_keys) < batch_size then out\<lparr>mo_is_done := True\<rparr> else out)))"

section \<open>The archive buffer\<close>

definition add_archive_entry :: "storage \<Rightarrow> buffered_entry \<Rightarrow> storage" where
  "add_archive_entry s e =
     s\<lparr>st_archive_buffer := om_insert (be_sequence_number e) e (st_archive_buffer s)\<rparr>"

definition get_archive_entries :: "storage \<Rightarrow> u16 \<Rightarrow> buffered_entry list" where
  "get_archive_entries s max_entries =
     map snd (take (unat max_entries) (om_entries (st_archive_buffer s)))"

definition prune_archive_entries :: "storage \<Rightarrow> u64 \<Rightarrow> storage" where
  "prune_archive_entries s sequence_number =
     (let to_prune = map fst (om_range (\<lambda>k. k \<le> sequence_number) (st_archive_buffer s))
      in s\<lparr>st_archive_buffer := fold om_remove to_prune (st_archive_buffer s)\<rparr>)"

definition archive_entries_count :: "storage \<Rightarrow> nat" where
  "archive_entries_count s = length (om_entries (st_archive_buffer s))"

end
