(* ===== verification/Storage_Index.thy ===== *)
theory Storage_Index
  imports Storage
begin

text \<open>
  The contract of the lookup indices of \<open>storage.rs\<close>. Three of them (recovery phrase principal,
  passkey public key, passkey credential id) respect ownership: an anchor releases only its
  own entries and never overwrites the entry of another. The locale \<open>owner_index\<close> states this
  once and is interpreted on the three synchronisation functions. The OpenID index does not
  check ownership and is characterised separately.
\<close>

section \<open>The building blocks\<close>

lemma set_btree_set [simp]: "set (btree_set xs) = set xs"
  by (simp add: btree_set_def)

lemma set_btree_difference [simp]: "set (btree_difference xs ys) = set xs - set ys"
  by (auto simp: btree_difference_def)

lemma get_drop_own_keys:
  "om_get (fold (drop_own_key n) ks m) k =
     (if k \<in> set ks \<and> om_get m k = Some n then None else om_get m k)"
proof (induction ks arbitrary: m)
  case Nil
  then show ?case by simp
next
  case (Cons x ks)
  have "om_get (drop_own_key n x m) k = (if k = x \<and> om_get m k = Some n then None else om_get m k)"
    by (auto simp: drop_own_key_def split: option.splits)
  with Cons show ?case by auto
qed

lemma get_claim_free_keys:
  "om_get (fold (claim_free_key n) ks m) k =
     (if k \<in> set ks \<and> om_get m k = None then Some n else om_get m k)"
proof (induction ks arbitrary: m)
  case Nil
  then show ?case by simp
next
  case (Cons x ks)
  have "om_get (claim_free_key n x m) k = (if k = x \<and> om_get m k = None then Some n else om_get m k)"
    by (auto simp: claim_free_key_def om_contains_def)
  with Cons show ?case by auto
qed

lemma get_fold_insert:
  "om_get (fold (\<lambda>k. om_insert k v) ks m) k = (if k \<in> set ks then Some v else om_get m k)"
  by (induction ks arbitrary: m) auto

lemma get_fold_remove:
  "om_get (fold om_remove ks m) k = (if k \<in> set ks then None else om_get m k)"
  by (induction ks arbitrary: m) auto

lemmas index_simps = get_drop_own_keys get_claim_free_keys get_fold_insert get_fold_remove Let_def

section \<open>Owner-respecting indices\<close>

locale owner_index =
  fixes sync :: "anchor_number \<Rightarrow> 'c list \<Rightarrow> 'c list \<Rightarrow> ('k::linorder, anchor_number) omap
      \<Rightarrow> ('k, anchor_number) omap"
    and key :: "'c \<Rightarrow> 'k"
  assumes foreign_kept: "om_get m k = Some a \<Longrightarrow> a \<noteq> n \<Longrightarrow> om_get (sync n prev cur m) k = Some a"
    and own_kept: "om_get m k = Some n \<Longrightarrow> k \<in> key ` set cur \<or> k \<notin> key ` set prev \<Longrightarrow>
      om_get (sync n prev cur m) k = Some n"
    and own_released: "om_get m k = Some n \<Longrightarrow> k \<in> key ` set prev - key ` set cur \<Longrightarrow>
      om_get (sync n prev cur m) k = None"
    and free_claimed: "om_get m k = None \<Longrightarrow> k \<in> key ` set cur - key ` set prev \<Longrightarrow>
      om_get (sync n prev cur m) k = Some n"
    and only_claims: "om_get (sync n prev cur m) k = Some a \<Longrightarrow>
      om_get m k = Some a \<or> a = n \<and> k \<in> key ` set cur"
begin

text \<open>If every entry points to an owner of its key, it does so after a synchronisation.\<close>

lemma sync_sound:
  assumes sound: "\<And>k a. om_get m k = Some a \<Longrightarrow> k \<in> owned a"
    and prev: "owned n = key ` set prev"
    and get: "om_get (sync n prev cur m) k = Some a"
  shows "k \<in> (owned(n := key ` set cur)) a"
proof (cases "a = n")
  case True
  show ?thesis
  proof (rule ccontr)
    assume "k \<notin> (owned(n := key ` set cur)) a"
    with True have notin: "k \<notin> key ` set cur" by simp
    with only_claims [OF get] have "om_get m k = Some n" using True by auto
    with sound have "k \<in> key ` set prev" using prev by auto
    with own_released \<open>om_get m k = Some n\<close> notin get show False by fastforce
  qed
next
  case False
  with only_claims [OF get] sound show ?thesis by auto
qed

text \<open>A current key leads to the anchor, unless it was taken when the anchor first used it.\<close>

lemma sync_finds:
  assumes "k \<in> key ` set cur"
    and "om_get m k = Some n \<or> om_get m k = None \<and> k \<notin> key ` set prev"
  shows "om_get (sync n prev cur m) k = Some n"
  using assms own_kept free_claimed by blast

text \<open>No sequence of synchronisations of other anchors takes an entry away.\<close>

lemma foreign_syncs_keep:
  "om_get m k = Some a \<Longrightarrow> \<forall>(n, prev, cur) \<in> set us. n \<noteq> a \<Longrightarrow>
   om_get (fold (\<lambda>(n, prev, cur). sync n prev cur) us m) k = Some a"
proof (induction us arbitrary: m)
  case Nil
  then show ?case by simp
next
  case (Cons u us)
  obtain n prev cur where u: "u = (n, prev, cur)" by (cases u)
  with Cons.prems have "om_get (sync n prev cur m) k = Some a"
    by (intro foreign_kept) auto
  with Cons.IH Cons.prems show ?case by (simp add: u)
qed

end

interpretation pubkey_index: owner_index "sync_passkey_pubkey_index sa" "sa \<circ> pk_pubkey" for sa
  by unfold_locales (auto simp: sync_passkey_pubkey_index_def index_simps split: if_splits)

interpretation recovery_index:
  owner_index "sync_recovery_phrase_principal_index sa" "sa \<circ> rk_pubkey" for sa
  by unfold_locales (auto simp: sync_recovery_phrase_principal_index_def index_simps split: if_splits)

interpretation credential_index: owner_index sync_passkey_credential_index pk_credential_id
  by unfold_locales (auto simp: sync_passkey_credential_index_def index_simps split: if_splits)

text \<open>The OpenID index: removed and added keys are set unconditionally.\<close>

lemma get_sync_openid:
  "om_get (sync_openid_credential_index n prev cur m) k =
     (if k \<in> soc_key ` set cur - soc_key ` set prev then Some [n]
      else if k \<in> soc_key ` set prev - soc_key ` set cur then None
      else om_get m k)"
  by (auto simp: sync_openid_credential_index_def index_simps)

end
