(* ===== verification/Storage_Invariant.thy ===== *)
theory Storage_Invariant
  imports Storage_Index
begin

text \<open>
  The invariant of the storage and its preservation by every operation of \<open>storage.rs\<close> on
  anchors, header, indices and archive buffer, as a step relation with reachability.
\<close>

section \<open>Anchor numbers and record numbers\<close>

definition range_ok :: "storage \<Rightarrow> bool" where
  "range_ok s \<longleftrightarrow>
     h_id_range_lo (st_header s) \<le> h_id_range_hi (st_header s)
     \<and> h_id_range_hi (st_header s) - h_id_range_lo (st_header s) \<le> MAX_ENTRIES
     \<and> unat (h_num_anchors (st_header s))
        \<le> unat (h_id_range_hi (st_header s)) - unat (h_id_range_lo (st_header s))"

lemma range_ok_nat:
  "range_ok s \<longleftrightarrow>
     unat (h_id_range_lo (st_header s)) \<le> unat (h_id_range_hi (st_header s))
     \<and> unat (h_id_range_hi (st_header s)) - unat (h_id_range_lo (st_header s)) \<le> 67106816
     \<and> unat (h_num_anchors (st_header s))
        \<le> unat (h_id_range_hi (st_header s)) - unat (h_id_range_lo (st_header s))"
  unfolding range_ok_def MAX_ENTRIES_value unat_simps
  by (auto simp: unat64_sub unat_simps)

lemma unat_ucast_u32_u64 [simp]: "unat (ucast (x :: u32) :: u64) = unat x"
  by (simp add: unsigned_ucast_eq take_bit_nat_eq_self unat32_bound [THEN less_trans])

lemma unat_ucast_u64_u32: "unat (x :: u64) < 4294967296 \<Longrightarrow> unat (ucast x :: u32) = unat x"
  by (simp add: unsigned_ucast_eq take_bit_nat_eq_self)

text \<open>The truncating cast to 32 bits is exact in every storage of admissible range.\<close>

lemma record_number_Inr:
  assumes "range_ok s"
  shows "anchor_number_to_record_number s n = Inr r \<longleftrightarrow>
    unat (h_id_range_lo (st_header s)) \<le> unat n \<and> unat n < unat (h_id_range_hi (st_header s))
    \<and> unat r = unat n - unat (h_id_range_lo (st_header s))"
proof -
  let ?lo = "h_id_range_lo (st_header s)" and ?hi = "h_id_range_hi (st_header s)"
  have cast: "unat (ucast (n - ?lo) :: u32) = unat n - unat ?lo" if "?lo \<le> n" "n < ?hi"
  proof -
    have "unat (n - ?lo) = unat n - unat ?lo" using that(1) by (rule unat64_sub)
    moreover have "unat n - unat ?lo < 4294967296"
      using assms that by (auto simp: range_ok_nat unat_simps)
    ultimately show ?thesis by (simp add: unat_ucast_u64_u32)
  qed
  show ?thesis
  proof (cases "n < ?lo \<or> n \<ge> ?hi")
    case True
    then show ?thesis by (auto simp: anchor_number_to_record_number_def unat_simps)
  next
    case False
    then have in_range: "?lo \<le> n" "n < ?hi" by auto
    have "ucast (n - ?lo) = r \<longleftrightarrow> unat r = unat n - unat ?lo"
      using cast [OF in_range] by (metis word_unat_eq_iff)
    with in_range show ?thesis
      by (simp add: anchor_number_to_record_number_def unat_simps)
  qed
qed

lemma record_number_cong:
  "h_id_range_lo (st_header s') = h_id_range_lo (st_header s) \<Longrightarrow>
   h_id_range_hi (st_header s') = h_id_range_hi (st_header s) \<Longrightarrow>
   anchor_number_to_record_number s' n = anchor_number_to_record_number s n"
  by (simp add: anchor_number_to_record_number_def assigned_anchor_number_range_def)

section \<open>The invariant\<close>

definition header_ok :: "storage \<Rightarrow> bool" where
  "header_ok s \<longleftrightarrow>
     header_sized (st_header s) \<and> h_magic (st_header s) = HEADER_MAGIC \<and> h_version (st_header s) = 9
     \<and> st_header_memory s = header_to_bytes (st_header s) \<and> range_ok s"

definition anchors_decode :: "storage \<Rightarrow> bool" where
  "anchors_decode s \<longleftrightarrow>
     (\<forall>n a. om_get (st_anchors s) n = Some a \<longrightarrow> anchor_from_storable n a \<noteq> None)"

text \<open>The keys the stored anchor \<open>n\<close> owns in each index.\<close>

definition owned_parts ::
  "storage \<Rightarrow> anchor_number \<Rightarrow> storable_openid_credential list \<times> storable_passkey_credential list
     \<times> storable_recovery_key list" where
  "owned_parts s n = previous_parts (om_get (st_anchors s) n)"

definition openid_keys :: "storage \<Rightarrow> anchor_number \<Rightarrow> openid_credential_key set" where
  "openid_keys s n = soc_key ` set (fst (owned_parts s n))"

definition passkey_principals :: "(bytes \<Rightarrow> principal) \<Rightarrow> storage \<Rightarrow> anchor_number \<Rightarrow> principal set" where
  "passkey_principals sa s n = (sa \<circ> pk_pubkey) ` set (fst (snd (owned_parts s n)))"

definition credential_ids :: "storage \<Rightarrow> anchor_number \<Rightarrow> credential_id set" where
  "credential_ids s n = pk_credential_id ` set (fst (snd (owned_parts s n)))"

definition recovery_principals :: "(bytes \<Rightarrow> principal) \<Rightarrow> storage \<Rightarrow> anchor_number \<Rightarrow> principal set" where
  "recovery_principals sa s n = (sa \<circ> rk_pubkey) ` set (snd (snd (owned_parts s n)))"

definition indices_sound :: "(bytes \<Rightarrow> principal) \<Rightarrow> storage \<Rightarrow> bool" where
  "indices_sound sa s \<longleftrightarrow>
     (\<forall>k a. om_get (st_by_recovery_principal s) k = Some a \<longrightarrow> k \<in> recovery_principals sa s a)
     \<and> (\<forall>k a. om_get (st_by_passkey_principal s) k = Some a \<longrightarrow> k \<in> passkey_principals sa s a)
     \<and> (\<forall>k a. om_get (st_by_credential s) k = Some a \<longrightarrow> k \<in> credential_ids s a)
     \<and> (\<forall>k a l. om_get (st_by_openid s) k = Some (a # l) \<longrightarrow> \<not> is_legacy k \<longrightarrow> k \<in> openid_keys s a)"

definition storage_ok :: "(bytes \<Rightarrow> principal) \<Rightarrow> storage \<Rightarrow> bool" where
  "storage_ok sa s \<longleftrightarrow> header_ok s \<and> anchors_decode s \<and> indices_sound sa s"

lemmas owned_defs = openid_keys_def passkey_principals_def credential_ids_def recovery_principals_def
  owned_parts_def

text \<open>Operations that leave anchors and indices alone keep their part of the invariant.\<close>

definition same_anchors :: "storage \<Rightarrow> storage \<Rightarrow> bool" where
  "same_anchors s t \<longleftrightarrow>
     st_anchors t = st_anchors s \<and> st_by_openid t = st_by_openid s
     \<and> st_by_credential t = st_by_credential s
     \<and> st_by_recovery_principal t = st_by_recovery_principal s
     \<and> st_by_passkey_principal t = st_by_passkey_principal s"

lemma same_anchors_sound:
  "same_anchors s t \<Longrightarrow> anchors_decode s \<and> indices_sound sa s \<Longrightarrow> anchors_decode t \<and> indices_sound sa t"
  by (simp add: same_anchors_def anchors_decode_def indices_sound_def owned_defs)

lemma storage_ok_intro:
  "header_ok t \<Longrightarrow> same_anchors s t \<Longrightarrow> storage_ok sa s \<Longrightarrow> storage_ok sa t"
  using same_anchors_sound by (auto simp: storage_ok_def)

section \<open>Header operations\<close>

lemma length_HEADER_MAGIC [simp]: "length HEADER_MAGIC = 3"
  by (simp add: HEADER_MAGIC_def)

lemma flush_fields [simp]:
  "st_header (flush s) = st_header s"
  "st_header_memory (flush s) = header_to_bytes (st_header s)"
  "st_anchors (flush s) = st_anchors s"
  "st_archive_buffer (flush s) = st_archive_buffer s"
  by (simp_all add: flush_def)

lemma same_anchors_flush [simp]: "same_anchors s (flush t) = same_anchors s t"
  by (simp add: same_anchors_def flush_def)

lemma header_ok_flush [simp]:
  "header_ok (flush s) \<longleftrightarrow> header_sized (st_header s) \<and> h_magic (st_header s) = HEADER_MAGIC
     \<and> h_version (st_header s) = 9 \<and> range_ok s"
  by (simp add: header_ok_def range_ok_def)

lemma storage_new_ok: "storage_new r empty_storage = Some s \<Longrightarrow> storage_ok sa s"
  by (auto simp: storage_new_def storage_ok_def init_with_header_def range_ok_def header_sized_def
      HEADER_MAGIC_def EMPTY_SALT_def anchors_decode_def indices_sound_def flush_def empty_storage_def
      header_ok_def not_less split: prod.splits if_splits)

lemma update_salt_ok:
  "update_salt s salt = Some s' \<Longrightarrow> length salt = 32 \<Longrightarrow> storage_ok sa s \<Longrightarrow> storage_ok sa s'"
  by (rule storage_ok_intro [of _ s])
     (auto simp: update_salt_def storage_ok_def header_ok_def header_sized_def same_anchors_def
        range_ok_def flush_def split: if_splits)

lemma from_memory_same: "header_ok s \<Longrightarrow> 1 \<le> pages \<Longrightarrow> from_memory pages s = Some s"
  by (auto simp: from_memory_def header_ok_def header_round_trip init_with_header_def Let_def not_less)

lemma from_memory_ok: "from_memory pages s = Some s' \<Longrightarrow> storage_ok sa s \<Longrightarrow> storage_ok sa s'"
  using from_memory_same [of s pages]
  by (cases "1 \<le> pages") (auto simp: storage_ok_def from_memory_def not_le)

lemma set_anchor_number_range_ok:
  assumes "set_anchor_number_range s r = Some s'" and "storage_ok sa s"
  shows "storage_ok sa s'"
proof (rule storage_ok_intro [OF _ _ assms(2)])
  obtain lo hi where r: "r = (lo, hi)" by (cases r)
  from assms(1) have le: "lo \<le> hi" "hi - lo \<le> MAX_ENTRIES"
    and keep: "h_num_anchors (st_header s) > 0 \<Longrightarrow> ucast (h_num_anchors (st_header s)) \<le> hi - lo"
    and s': "s' = flush (s\<lparr>st_header := (st_header s)\<lparr>h_id_range_lo := lo, h_id_range_hi := hi\<rparr>\<rparr>)"
    by (auto simp: r set_anchor_number_range_def not_less split: if_splits)
  have "unat (h_num_anchors (st_header s)) \<le> unat hi - unat lo"
  proof (cases "h_num_anchors (st_header s) = 0")
    case False
    then have "h_num_anchors (st_header s) > 0" by (simp add: word_gt_0)
    from keep [OF this] have "unat (h_num_anchors (st_header s)) \<le> unat (hi - lo)"
      by (simp add: unat_simps)
    with le(1) show ?thesis by (simp add: unat64_sub)
  qed simp
  with le assms(2) show "header_ok s'"
    by (simp add: s' storage_ok_def header_ok_def header_sized_def range_ok_def)
  show "same_anchors s s'" by (simp add: s' same_anchors_def flush_def)
qed

text \<open>One more anchor, when the range still has room for it.\<close>

definition bump_num_anchors :: "storage \<Rightarrow> storage" where
  "bump_num_anchors s =
     flush (s\<lparr>st_header := (st_header s)\<lparr>h_num_anchors := h_num_anchors (st_header s) + 1\<rparr>\<rparr>)"

lemma unat_num_anchors_succ:
  assumes "range_ok s"
    and "unat (h_id_range_lo (st_header s)) + unat (h_num_anchors (st_header s)) < unat (h_id_range_hi (st_header s))"
  shows "unat (h_num_anchors (st_header s) + 1) = unat (h_num_anchors (st_header s)) + 1"
proof -
  have "unat (h_num_anchors (st_header s)) + 1 < 4294967296"
    using assms unfolding range_ok_nat by linarith
  then show ?thesis by (simp add: unat32_add)
qed

lemma bump_num_anchors_ok:
  assumes "storage_ok sa s"
    and lt: "unat (h_id_range_lo (st_header s)) + unat (h_num_anchors (st_header s)) < unat (h_id_range_hi (st_header s))"
  shows "storage_ok sa (bump_num_anchors s)"
proof (rule storage_ok_intro [OF _ _ assms(1)])
  have ok: "range_ok s" and h: "header_ok s" using assms(1) by (simp_all add: storage_ok_def header_ok_def)
  have "range_ok (s\<lparr>st_header := (st_header s)\<lparr>h_num_anchors := h_num_anchors (st_header s) + 1\<rparr>\<rparr>)"
    using ok lt unat_num_anchors_succ [OF ok lt] by (auto simp: range_ok_nat)
  with h show "header_ok (bump_num_anchors s)"
    unfolding bump_num_anchors_def header_ok_flush by (simp add: header_ok_def header_sized_def)
  show "same_anchors s (bump_num_anchors s)"
    by (simp add: bump_num_anchors_def) (simp add: same_anchors_def)
qed

lemma next_anchor_number_exact:
  assumes "range_ok s"
  shows "unat (h_id_range_lo (st_header s) + ucast (h_num_anchors (st_header s)))
      = unat (h_id_range_lo (st_header s)) + unat (h_num_anchors (st_header s))"
    and "saturating_add64 (h_id_range_lo (st_header s)) (ucast (h_num_anchors (st_header s)))
      = h_id_range_lo (st_header s) + ucast (h_num_anchors (st_header s))"
proof -
  have "unat (h_id_range_lo (st_header s)) + unat (h_num_anchors (st_header s)) < 18446744073709551616"
    using assms unat64_bound [of "h_id_range_hi (st_header s)"] unfolding range_ok_nat by linarith
  then show "unat (h_id_range_lo (st_header s) + ucast (h_num_anchors (st_header s)))
      = unat (h_id_range_lo (st_header s)) + unat (h_num_anchors (st_header s))"
    and "saturating_add64 (h_id_range_lo (st_header s)) (ucast (h_num_anchors (st_header s)))
      = h_id_range_lo (st_header s) + ucast (h_num_anchors (st_header s))"
    by (simp_all add: unat64_add saturating_add64_exact)
qed

lemma allocate_anchor_cases:
  assumes "allocate_anchor s now = (s', r)" and "range_ok s"
  obtains "s' = s" "r = None"
  | "s' = bump_num_anchors s"
    "r = Some (anchor_new (h_id_range_lo (st_header s) + ucast (h_num_anchors (st_header s))) now)"
    "unat (h_id_range_lo (st_header s)) + unat (h_num_anchors (st_header s)) < unat (h_id_range_hi (st_header s))"
proof (cases "h_id_range_lo (st_header s) + ucast (h_num_anchors (st_header s)) \<ge> h_id_range_hi (st_header s)")
  case True
  with assms that(1) show ?thesis by (simp add: allocate_anchor_def Let_def)
next
  case False
  with assms that(2) show ?thesis
    by (simp add: allocate_anchor_def Let_def bump_num_anchors_def unat_simps
        next_anchor_number_exact(1) [OF assms(2)])
qed

lemma allocate_anchor_ok:
  assumes "allocate_anchor s now = (s', r)" and "storage_ok sa s"
  shows "storage_ok sa s'"
proof -
  have "range_ok s" using assms(2) by (simp add: storage_ok_def header_ok_def)
  with assms show ?thesis
    by (elim allocate_anchor_cases) (auto intro: bump_num_anchors_ok)
qed

section \<open>Writing anchors\<close>

lemma storage_write_Inr:
  "storage_write sa s data = Inr s' \<longleftrightarrow>
     (\<exists>r. anchor_number_to_record_number s (a_number data) = Inr r
        \<and> r \<le> h_num_anchors (st_header s)
        \<and> s' = (let n = a_number data; storable = snd (anchor_to_storable data);
                   prev = owned_parts s n in
              s\<lparr>st_anchors := om_insert n storable (st_anchors s),
                st_by_openid := sync_openid_credential_index n (fst prev)
                  (sa_openid_credentials storable) (st_by_openid s),
                st_by_recovery_principal := sync_recovery_phrase_principal_index sa n (snd (snd prev))
                  (or_default (sa_recovery_keys storable)) (st_by_recovery_principal s),
                st_by_credential := sync_passkey_credential_index n (fst (snd prev))
                  (or_default (sa_passkey_credentials storable)) (st_by_credential s),
                st_by_passkey_principal := sync_passkey_pubkey_index sa n (fst (snd prev))
                  (or_default (sa_passkey_credentials storable)) (st_by_passkey_principal s)\<rparr>))"
  by (auto simp: storage_write_def Let_def owned_parts_def not_less split: sum.splits prod.splits)

lemma storage_write_fields:
  assumes "storage_write sa s data = Inr s'"
  shows "st_header s' = st_header s" "st_header_memory s' = st_header_memory s"
    "st_archive_buffer s' = st_archive_buffer s"
    "st_anchors s' = om_insert (a_number data) (snd (anchor_to_storable data)) (st_anchors s)"
  using assms by (auto simp: storage_write_Inr Let_def)

lemma owned_after_write:
  assumes "storage_write sa s data = Inr s'"
  defines "parts \<equiv> previous_parts (Some (snd (anchor_to_storable data)))"
  shows "openid_keys s' = (openid_keys s)(a_number data := soc_key ` set (fst parts))"
    "passkey_principals sa s' = (passkey_principals sa s)(a_number data := (sa \<circ> pk_pubkey) ` set (fst (snd parts)))"
    "credential_ids s' = (credential_ids s)(a_number data := pk_credential_id ` set (fst (snd parts)))"
    "recovery_principals sa s' = (recovery_principals sa s)(a_number data := (sa \<circ> rk_pubkey) ` set (snd (snd parts)))"
  by (auto simp: fun_eq_iff owned_defs storage_write_fields [OF assms(1)] parts_def)

lemma storage_write_ok:
  assumes w: "storage_write sa s data = Inr s'" and ok: "storage_ok sa s" and "aaguids_ok data"
  shows "storage_ok sa s'"
  unfolding storage_ok_def
proof (intro conjI)
  let ?n = "a_number data" and ?new = "snd (anchor_to_storable data)"
  let ?prev = "owned_parts s ?n" and ?parts = "previous_parts (Some ?new)"
  have sound: "indices_sound sa s" using ok by (simp add: storage_ok_def)
  have maps: "st_by_openid s' = sync_openid_credential_index ?n (fst ?prev) (fst ?parts) (st_by_openid s)"
    "st_by_recovery_principal s' = sync_recovery_phrase_principal_index sa ?n (snd (snd ?prev))
       (snd (snd ?parts)) (st_by_recovery_principal s)"
    "st_by_credential s' = sync_passkey_credential_index ?n (fst (snd ?prev)) (fst (snd ?parts))
       (st_by_credential s)"
    "st_by_passkey_principal s' = sync_passkey_pubkey_index sa ?n (fst (snd ?prev)) (fst (snd ?parts))
       (st_by_passkey_principal s)"
    using w by (auto simp: storage_write_Inr Let_def previous_parts_def)
  show "header_ok s'"
    using ok by (simp add: storage_ok_def header_ok_def range_ok_def storage_write_fields [OF w])
  show "anchors_decode s'"
    using ok anchor_round_trip [OF assms(3)]
    by (auto simp: storage_ok_def anchors_decode_def storage_write_fields(4) [OF w])
  show "indices_sound sa s'"
    unfolding indices_sound_def
  proof (intro conjI allI impI)
    fix k a
    assume "om_get (st_by_recovery_principal s') k = Some a"
    then show "k \<in> recovery_principals sa s' a"
      unfolding owned_after_write(4) [OF w] maps
      by (rule recovery_index.sync_sound [rotated 2])
        (use sound in \<open>auto simp: indices_sound_def recovery_principals_def\<close>)
  next
    fix k a
    assume "om_get (st_by_passkey_principal s') k = Some a"
    then show "k \<in> passkey_principals sa s' a"
      unfolding owned_after_write(2) [OF w] maps
      by (rule pubkey_index.sync_sound [rotated 2])
        (use sound in \<open>auto simp: indices_sound_def passkey_principals_def\<close>)
  next
    fix k a
    assume "om_get (st_by_credential s') k = Some a"
    then show "k \<in> credential_ids s' a"
      unfolding owned_after_write(3) [OF w] maps
      by (rule credential_index.sync_sound [rotated 2])
        (use sound in \<open>auto simp: indices_sound_def credential_ids_def\<close>)
  next
    fix k a l
    assume "om_get (st_by_openid s') k = Some (a # l)" and "\<not> is_legacy k"
    moreover have "k \<in> openid_keys s a" if "om_get (st_by_openid s) k = Some (a # l)"
      using sound that \<open>\<not> is_legacy k\<close> unfolding indices_sound_def by blast
    ultimately show "k \<in> openid_keys s' a"
      unfolding owned_after_write(1) [OF w] maps
      by (auto simp: get_sync_openid openid_keys_def split: if_splits)
  qed
qed

end
