(* ===== verification/Storage_Properties.thy ===== *)
theory Storage_Properties
  imports Storage_Invariant
begin

text \<open>
  What the storage promises: reachability of its invariant, round trip of write and read,
  atomic allocation, safe changes of the anchor range, the OpenID key migration and the
  archive buffer.
\<close>

section \<open>Allocation with a callback\<close>

text \<open>
  The callbacks of the program edit the devices and credentials of the anchor they are given.
  They cannot change its number (a private field without setter), and AAGUIDs are 16-byte
  arrays by type.
\<close>

definition callback_ok :: "(anchor \<Rightarrow> 'e + 't \<times> anchor) \<Rightarrow> bool" where
  "callback_ok f \<longleftrightarrow>
     (\<forall>a r a'. f a = Inr (r, a') \<longrightarrow> a_number a' = a_number a \<and> aaguids_ok a')"

lemma storage_write_next:
  assumes "range_ok s" and "a_number a = h_id_range_lo (st_header s) + ucast (h_num_anchors (st_header s))"
    and "unat (h_id_range_lo (st_header s)) + unat (h_num_anchors (st_header s)) < unat (h_id_range_hi (st_header s))"
  shows "\<exists>s'. storage_write sa s a = Inr s'"
proof -
  have "anchor_number_to_record_number s (a_number a) = Inr (h_num_anchors (st_header s))"
    using assms by (simp add: record_number_Inr next_anchor_number_exact)
  then show ?thesis by (simp add: storage_write_Inr)
qed

lemma allocate_anchor_safe_cases:
  assumes run: "allocate_anchor_safe sa conv s now f = (s', r)" and ok: "range_ok s" and f: "callback_ok f"
  obtains (exhausted) "s' = s" "r = Inl (conv (AnchorNumberOutOfRange
      (h_id_range_lo (st_header s) + ucast (h_num_anchors (st_header s)))
      (h_id_range_lo (st_header s), h_id_range_hi (st_header s))))"
    "unat (h_id_range_lo (st_header s)) + unat (h_num_anchors (st_header s)) \<ge> unat (h_id_range_hi (st_header s))"
  | (failed) e where "s' = s" "r = Inl e"
    "f (anchor_new (h_id_range_lo (st_header s) + ucast (h_num_anchors (st_header s))) now) = Inl e"
  | (allocated) res a s1 where "r = Inr res"
    "f (anchor_new (h_id_range_lo (st_header s) + ucast (h_num_anchors (st_header s))) now) = Inr (res, a)"
    "a_number a = h_id_range_lo (st_header s) + ucast (h_num_anchors (st_header s))" "aaguids_ok a"
    "storage_write sa s a = Inr s1" "s' = bump_num_anchors s1"
    "unat (h_id_range_lo (st_header s)) + unat (h_num_anchors (st_header s)) < unat (h_id_range_hi (st_header s))"
proof (cases "h_id_range_lo (st_header s) + ucast (h_num_anchors (st_header s)) \<ge> h_id_range_hi (st_header s)")
  case True
  show ?thesis
    by (rule exhausted)
      (use run True in \<open>auto simp: allocate_anchor_safe_def Let_def next_anchor_number_exact [OF ok] unat_simps\<close>)
next
  case False
  let ?n = "h_id_range_lo (st_header s) + ucast (h_num_anchors (st_header s))"
  have lt: "unat (h_id_range_lo (st_header s)) + unat (h_num_anchors (st_header s)) < unat (h_id_range_hi (st_header s))"
    using False by (simp add: unat_simps next_anchor_number_exact [OF ok])
  show ?thesis
  proof (cases "f (anchor_new ?n now)")
    case (Inl e)
    show ?thesis
      by (rule failed [of e])
        (use run False Inl in \<open>auto simp: allocate_anchor_safe_def Let_def next_anchor_number_exact [OF ok]\<close>)
  next
    case (Inr p)
    obtain res a where p: "p = (res, a)" by (cases p)
    with Inr f have a: "a_number a = ?n" "aaguids_ok a"
      by (auto simp: callback_ok_def anchor_new_def)
    obtain s1 where s1: "storage_write sa s a = Inr s1"
      using storage_write_next [OF ok a(1) lt] by blast
    have "h_num_anchors (st_header s) \<noteq> - 1"
      using unat_num_anchors_succ [OF ok lt] by auto
    with run False Inr s1 have "s' = bump_num_anchors s1" "r = Inr res"
      by (simp_all add: allocate_anchor_safe_def Let_def next_anchor_number_exact [OF ok] p
          storage_write_fields [OF s1] bump_num_anchors_def saturating_succ32_def)
    with allocated Inr p a s1 lt show ?thesis by blast
  qed
qed

lemma allocate_anchor_safe_ok:
  assumes run: "allocate_anchor_safe sa conv s now f = (s', r)" and ok: "storage_ok sa s" and f: "callback_ok f"
  shows "storage_ok sa s'"
proof -
  have "range_ok s" using ok by (simp add: storage_ok_def header_ok_def)
  from run this f show ?thesis
  proof (cases rule: allocate_anchor_safe_cases)
    case (allocated res a s1)
    have "storage_ok sa s1" by (rule storage_write_ok) fact+
    then show ?thesis
      using allocated by (auto intro: bump_num_anchors_ok simp: storage_write_fields)
  qed (use ok in auto)
qed

section \<open>Migration\<close>

lemma migrate_key_fields:
  "migrate_key k (s, out) = (s', out') \<Longrightarrow>
     st_anchors s' = st_anchors s \<and> st_header s' = st_header s \<and> st_header_memory s' = st_header_memory s
     \<and> st_by_credential s' = st_by_credential s
     \<and> st_by_recovery_principal s' = st_by_recovery_principal s
     \<and> st_by_passkey_principal s' = st_by_passkey_principal s"
  by (auto simp: migrate_key_def Let_def split: option.splits)

lemma resolve_aud_cong: "st_anchors s = st_anchors t \<Longrightarrow> resolve_aud s = resolve_aud t"
  by (simp add: fun_eq_iff resolve_aud_def split: prod.splits list.splits option.splits)

lemma resolve_aud_owned:
  assumes "resolve_aud s (iss, sub, x) (n # l) = Some aud"
  shows "(iss, sub, aud) \<in> openid_keys s n"
proof -
  from assms obtain a c where a: "om_get (st_anchors s) n = Some a"
    and c: "find (\<lambda>c. soc_iss c = iss \<and> soc_sub c = sub) (sa_openid_credentials a) = Some c"
    and aud: "soc_aud c = aud"
    by (auto simp: resolve_aud_def split: option.splits)
  from c have "c \<in> set (sa_openid_credentials a)" "soc_iss c = iss" "soc_sub c = sub"
    by (auto simp: find_Some_iff)
  with a aud show ?thesis
    by (auto simp: owned_defs previous_parts_def soc_key_def image_iff intro!: bexI [of _ c])
qed

lemma migrate_key_ok:
  assumes m: "migrate_key k (s, out) = (s', out')" and ok: "storage_ok sa s"
  shows "storage_ok sa s'"
proof -
  obtain iss sub x where k: "k = (iss, sub, x)" by (cases k)
  have fields: "st_anchors s' = st_anchors s" "st_header s' = st_header s"
    "st_header_memory s' = st_header_memory s" "st_by_credential s' = st_by_credential s"
    "st_by_recovery_principal s' = st_by_recovery_principal s"
    "st_by_passkey_principal s' = st_by_passkey_principal s"
    using migrate_key_fields [OF m] by auto
  have sound: "om_get (st_by_openid s) q = Some (a # l) \<Longrightarrow> \<not> is_legacy q \<Longrightarrow> q \<in> openid_keys s a" for q a l
    using ok unfolding storage_ok_def indices_sound_def by blast
  have own: "openid_keys s' = openid_keys s"
    by (simp add: fun_eq_iff owned_defs fields)
  have "q \<in> openid_keys s a"
    if get: "om_get (st_by_openid s') q = Some (a # l)" and "\<not> is_legacy q" for q a l
  proof (cases "om_get (st_by_openid s) q = Some (a # l)")
    case True
    then show ?thesis using sound that by blast
  next
    case False
    with m get obtain aud where res: "resolve_aud (s\<lparr>st_by_openid := om_remove k (st_by_openid s)\<rparr>) k (a # l) = Some aud"
      and q: "q = (iss, sub, aud)"
      by (auto simp: migrate_key_def Let_def k split: option.splits if_splits)
    have "resolve_aud s k (a # l) = Some aud"
      using res by (subst resolve_aud_cong [of s "s\<lparr>st_by_openid := om_remove k (st_by_openid s)\<rparr>"]) simp_all
    then show ?thesis
      using resolve_aud_owned by (simp add: k q)
  qed
  moreover have "owned_parts s' = owned_parts s" by (simp add: owned_parts_def fun_eq_iff fields)
  ultimately show ?thesis
    using ok
    by (simp add: storage_ok_def header_ok_def range_ok_def anchors_decode_def indices_sound_def
        fields own passkey_principals_def credential_ids_def recovery_principals_def)
qed

lemma migrate_fold_ok:
  "fold migrate_key ks (s, out) = (s', out') \<Longrightarrow> storage_ok sa s \<Longrightarrow> storage_ok sa s'"
proof (induction ks arbitrary: s out)
  case (Cons k ks)
  obtain s1 out1 where "migrate_key k (s, out) = (s1, out1)" by fastforce
  with Cons migrate_key_ok show ?case by fastforce
qed simp

lemma migrate_batch_ok:
  "migrate_openid_credential_keys_batch s b = (s', out) \<Longrightarrow> storage_ok sa s \<Longrightarrow> storage_ok sa s'"
  by (auto simp: migrate_openid_credential_keys_batch_def Let_def split: if_splits prod.splits
      intro: migrate_fold_ok)


section \<open>Reachable storages\<close>

text \<open>
  One operation on the storage: any of the public mutators on anchors, header, indices and
  archive buffer, and the upgrade of the canister. Operations that trap or fail leave the
  state unchanged and are no step.
\<close>

inductive storage_step :: "(bytes \<Rightarrow> principal) \<Rightarrow> storage \<Rightarrow> storage \<Rightarrow> bool" for sa where
  step_allocate: "allocate_anchor s now = (s', Some a) \<Longrightarrow> storage_step sa s s'"
| step_allocate_safe: "allocate_anchor_safe sa (\<lambda>e. e) s now f = (s', Inr ()) \<Longrightarrow> callback_ok f \<Longrightarrow>
     storage_step sa s s'"
| step_write: "storage_write sa s a = Inr s' \<Longrightarrow> aaguids_ok a \<Longrightarrow> storage_step sa s s'"
| step_salt: "update_salt s salt = Some s' \<Longrightarrow> length salt = 32 \<Longrightarrow> storage_step sa s s'"
| step_range: "set_anchor_number_range s r = Some s' \<Longrightarrow> storage_step sa s s'"
| step_upgrade: "from_memory pages s = Some s' \<Longrightarrow> storage_step sa s s'"
| step_migrate: "migrate_openid_credential_keys_batch s b = (s', out) \<Longrightarrow> storage_step sa s s'"
| step_add_entry: "storage_step sa s (add_archive_entry s e)"
| step_prune: "storage_step sa s (prune_archive_entries s q)"

definition storage_reachable :: "(bytes \<Rightarrow> principal) \<Rightarrow> storage \<Rightarrow> storage \<Rightarrow> bool" where
  "storage_reachable sa = (storage_step sa)\<^sup>*\<^sup>*"

lemma storage_step_ok: "storage_step sa s s' \<Longrightarrow> storage_ok sa s \<Longrightarrow> storage_ok sa s'"
proof (induction rule: storage_step.induct)
  case (step_add_entry s e)
  show ?case
    by (rule storage_ok_intro [OF _ _ step_add_entry])
      (use step_add_entry in \<open>simp_all add: storage_ok_def header_ok_def range_ok_def same_anchors_def add_archive_entry_def\<close>)
next
  case (step_prune s q)
  show ?case
    by (rule storage_ok_intro [OF _ _ step_prune])
      (use step_prune in \<open>simp_all add: storage_ok_def header_ok_def range_ok_def same_anchors_def
        prune_archive_entries_def Let_def\<close>)
qed (auto intro: allocate_anchor_ok allocate_anchor_safe_ok storage_write_ok update_salt_ok
    set_anchor_number_range_ok from_memory_ok migrate_batch_ok)

lemma storage_reachable_ok:
  "storage_reachable sa s s' \<Longrightarrow> storage_ok sa s \<Longrightarrow> storage_ok sa s'"
  unfolding storage_reachable_def
  by (induction rule: rtranclp_induct) (auto intro: storage_step_ok)

text \<open>A concrete storage, and one with an anchor in it.\<close>

definition sample_storage :: storage where
  "sample_storage = the (storage_new (10000, 20000) empty_storage)"

lemma sample_storage_new: "storage_new (10000, 20000) empty_storage = Some sample_storage"
  by (simp add: sample_storage_def storage_new_def MAX_ENTRIES_value)

lemma sample_storage_header:
  "st_header sample_storage =
     \<lparr>h_magic = HEADER_MAGIC, h_version = 9, h_num_anchors = 0, h_id_range_lo = 10000,
      h_id_range_hi = 20000, h_entry_size = DEFAULT_ENTRY_SIZE, h_salt = EMPTY_SALT\<rparr>"
  by (simp add: sample_storage_def storage_new_def MAX_ENTRIES_value init_with_header_def)

lemma sample_storage_ok: "storage_ok sa sample_storage"
  by (rule storage_new_ok [OF sample_storage_new])

definition sample_anchor :: anchor where
  "sample_anchor = (anchor_new 10000 7)\<lparr>a_devices := [sample_phrase, sample_passkey]\<rparr>"

definition sample_callback :: "anchor \<Rightarrow> storage_error + unit \<times> anchor" where
  "sample_callback a = Inr ((), a\<lparr>a_devices := [sample_phrase, sample_passkey]\<rparr>)"

lemma sample_callback_ok: "callback_ok sample_callback"
  by (auto simp: callback_ok_def sample_callback_def aaguids_ok_def aaguid_ok_def
      sample_phrase_def sample_passkey_def)

definition sample_stored :: storage where
  "sample_stored = fst (allocate_anchor_safe (\<lambda>k. k) (\<lambda>e. e) sample_storage 7 sample_callback)"

lemma sample_stored_run:
  "allocate_anchor_safe (\<lambda>k. k) (\<lambda>e. e) sample_storage 7 sample_callback = (sample_stored, Inr ())"
proof -
  obtain s r where run: "allocate_anchor_safe (\<lambda>k. k) (\<lambda>e. e) sample_storage 7 sample_callback = (s, r)"
    by fastforce
  have "range_ok sample_storage"
    using sample_storage_ok [of "\<lambda>k. k"] by (simp add: storage_ok_def header_ok_def)
  from run this sample_callback_ok have "r = Inr ()"
    by (cases rule: allocate_anchor_safe_cases) (simp_all add: sample_storage_header sample_callback_def)
  with run show ?thesis by (simp add: sample_stored_def)
qed

lemma sample_reachable: "storage_reachable (\<lambda>k. k) sample_storage sample_stored"
  unfolding storage_reachable_def
  by (rule r_into_rtranclp) (rule step_allocate_safe [OF sample_stored_run sample_callback_ok])

text \<open>
  Property C6. Lookups never name the wrong identity. After any sequence of operations on a
  freshly created storage (several anchors may try to register the same key, credentials may
  be added, removed and re-registered, index keys may be migrated), an anchor number found by
  recovery phrase, passkey public key, passkey credential id or complete OpenID key is that
  of a stored anchor that currently has a credential with this key.
\<close>

theorem reachable_lookups_sound:
  assumes "storage_new r empty_storage = Some s0" and "storage_reachable sa s0 s"
  shows "(lookup_anchor_with_recovery_phrase_principal s p = Some n \<longrightarrow>
      (\<exists>a. om_get (st_anchors s) n = Some a
         \<and> p \<in> (sa \<circ> rk_pubkey) ` set (or_default (sa_recovery_keys a))))
    \<and> (lookup_anchor_with_passkey_pubkey sa s pubkey = Some n \<longrightarrow>
      (\<exists>a. om_get (st_anchors s) n = Some a
         \<and> sa pubkey \<in> (sa \<circ> pk_pubkey) ` set (or_default (sa_passkey_credentials a))))
    \<and> (lookup_anchor_with_device_credential s cid = Some n \<longrightarrow>
      (\<exists>a. om_get (st_anchors s) n = Some a
         \<and> cid \<in> pk_credential_id ` set (or_default (sa_passkey_credentials a))))
    \<and> (lookup_anchor_with_openid_credential s key = Some n \<and> \<not> is_legacy key \<longrightarrow>
      (\<exists>a. om_get (st_anchors s) n = Some a \<and> key \<in> soc_key ` set (sa_openid_credentials a)))"
proof -
  have "storage_ok sa s"
    using assms(2) storage_new_ok [OF assms(1)] by (rule storage_reachable_ok)
  then have sound: "indices_sound sa s" by (simp add: storage_ok_def)
  have parts: "\<exists>a. om_get (st_anchors s) n = Some a \<and> Q (previous_parts (Some a))"
    if "Q (owned_parts s n)" and "\<not> Q ([], [], [])" for Q
    using that by (cases "om_get (st_anchors s) n") (auto simp: owned_parts_def previous_parts_def)
  show ?thesis
  proof (intro conjI impI)
    assume "lookup_anchor_with_recovery_phrase_principal s p = Some n"
    with sound have "p \<in> recovery_principals sa s n"
      unfolding indices_sound_def lookup_anchor_with_recovery_phrase_principal_def by blast
    then show "\<exists>a. om_get (st_anchors s) n = Some a
         \<and> p \<in> (sa \<circ> rk_pubkey) ` set (or_default (sa_recovery_keys a))"
      using parts [of "\<lambda>q. p \<in> (sa \<circ> rk_pubkey) ` set (snd (snd q))"]
      by (simp add: recovery_principals_def previous_parts_def)
  next
    assume "lookup_anchor_with_passkey_pubkey sa s pubkey = Some n"
    with sound have "sa pubkey \<in> passkey_principals sa s n"
      unfolding indices_sound_def lookup_anchor_with_passkey_pubkey_def by blast
    then show "\<exists>a. om_get (st_anchors s) n = Some a
         \<and> sa pubkey \<in> (sa \<circ> pk_pubkey) ` set (or_default (sa_passkey_credentials a))"
      using parts [of "\<lambda>q. sa pubkey \<in> (sa \<circ> pk_pubkey) ` set (fst (snd q))"]
      by (simp add: passkey_principals_def previous_parts_def)
  next
    assume "lookup_anchor_with_device_credential s cid = Some n"
    with sound have "cid \<in> credential_ids s n"
      unfolding indices_sound_def lookup_anchor_with_device_credential_def by blast
    then show "\<exists>a. om_get (st_anchors s) n = Some a
         \<and> cid \<in> pk_credential_id ` set (or_default (sa_passkey_credentials a))"
      using parts [of "\<lambda>q. cid \<in> pk_credential_id ` set (fst (snd q))"]
      by (simp add: credential_ids_def previous_parts_def)
  next
    assume k: "lookup_anchor_with_openid_credential s key = Some n \<and> \<not> is_legacy key"
    then obtain l where "om_get (st_by_openid s) key = Some (n # l)"
      by (auto simp: lookup_anchor_with_openid_credential_def split: option.splits list.splits)
    with sound k have "key \<in> openid_keys s n" unfolding indices_sound_def by blast
    then show "\<exists>a. om_get (st_anchors s) n = Some a \<and> key \<in> soc_key ` set (sa_openid_credentials a)"
      using parts [of "\<lambda>q. key \<in> soc_key ` set (fst q)"]
      by (simp add: openid_keys_def previous_parts_def)
  qed
qed


section \<open>Write and read\<close>

lemma storage_read_after_write:
  assumes w: "storage_write sa s a = Inr s'"
  shows "storage_read s' n =
    (if n = a_number a \<and> storage_read s n \<noteq> Some (Inl (BadAnchorNumber n))
     then map_option Inr (anchor_from_storable n (snd (anchor_to_storable a)))
     else storage_read s n)"
proof -
  have rec: "anchor_number_to_record_number s' m = anchor_number_to_record_number s m" for m
    by (rule record_number_cong) (simp_all add: storage_write_fields [OF w])
  from w obtain r where "anchor_number_to_record_number s (a_number a) = Inr r"
    by (auto simp: storage_write_Inr)
  then show ?thesis
    by (auto simp: storage_read_def rec storage_write_fields [OF w] split: sum.splits option.splits)
qed

lemma storage_read_bump:
  assumes ok: "range_ok s"
    and lt: "unat (h_id_range_lo (st_header s)) + unat (h_num_anchors (st_header s)) < unat (h_id_range_hi (st_header s))"
    and n: "n \<noteq> h_id_range_lo (st_header s) + ucast (h_num_anchors (st_header s))"
  shows "storage_read (bump_num_anchors s) n = storage_read s n"
proof -
  let ?h = "st_header s"
  have rec: "anchor_number_to_record_number (bump_num_anchors s) n = anchor_number_to_record_number s n"
    by (rule record_number_cong) (simp_all add: bump_num_anchors_def)
  have "h_num_anchors ?h + 1 \<le> r \<longleftrightarrow> h_num_anchors ?h \<le> r"
    if "anchor_number_to_record_number s n = Inr r" for r
  proof -
    have "unat (h_id_range_lo ?h) \<le> unat n" "unat r = unat n - unat (h_id_range_lo ?h)"
      using that ok by (simp_all add: record_number_Inr)
    moreover have "unat n \<noteq> unat (h_id_range_lo ?h) + unat (h_num_anchors ?h)"
      using n by (metis next_anchor_number_exact(1) [OF ok] unat64_eqI)
    ultimately have "unat r \<noteq> unat (h_num_anchors ?h)" by linarith
    then show ?thesis
      using unat_num_anchors_succ [OF ok lt] by (auto simp: word_le_nat_alt)
  qed
  moreover have "st_anchors (bump_num_anchors s) = st_anchors s"
    "h_num_anchors (st_header (bump_num_anchors s)) = h_num_anchors ?h + 1"
    by (simp_all add: bump_num_anchors_def)
  ultimately show ?thesis
    by (cases "anchor_number_to_record_number s n") (simp_all add: storage_read_def rec)
qed

text \<open>
  Property C12. A successful write of an allocated anchor is what the next read returns, up to
  the normal form of the stored representation, and no other anchor number reads differently
  afterwards, whether it held an anchor or an error before.
\<close>

theorem write_then_read:
  assumes "storage_write sa s a = Inr s'" and "aaguids_ok a"
    and "storage_read s (a_number a) \<noteq> Some (Inl (BadAnchorNumber (a_number a)))"
  shows "storage_read s' (a_number a) = Some (Inr (anchor_after_storage a))
    \<and> (\<forall>n. n \<noteq> a_number a \<longrightarrow> storage_read s' n = storage_read s n)"
  using assms by (simp add: storage_read_after_write [OF assms(1)] anchor_round_trip)

text \<open>
  Property C8. \<open>allocate_anchor_safe\<close> is atomic. If the range is exhausted or the callback
  fails, the storage is untouched. Otherwise exactly one anchor number becomes readable, it
  was not readable before, it reads as the anchor the callback left, the anchor count grows by
  one, and every other number reads as before.
\<close>

theorem allocate_anchor_safe_atomic:
  assumes run: "allocate_anchor_safe sa conv s now f = (s', r)"
    and ok: "storage_ok sa s" and f: "callback_ok f"
  shows "case r of
      Inl e \<Rightarrow> s' = s
    | Inr res \<Rightarrow> \<exists>n a. f (anchor_new n now) = Inr (res, a)
        \<and> storage_read s n = Some (Inl (BadAnchorNumber n))
        \<and> storage_read s' n = Some (Inr (anchor_after_storage a))
        \<and> anchor_count s' = anchor_count s + 1
        \<and> (\<forall>m. m \<noteq> n \<longrightarrow> storage_read s' m = storage_read s m)"
proof -
  have rng: "range_ok s" using ok by (simp add: storage_ok_def header_ok_def)
  from run rng f show ?thesis
  proof (cases rule: allocate_anchor_safe_cases)
    case (allocated res a s1)
    let ?n = "h_id_range_lo (st_header s) + ucast (h_num_anchors (st_header s))"
    have h: "st_header s1 = st_header s" by (rule storage_write_fields(1)) fact
    have rng1: "range_ok s1" using rng by (simp add: range_ok_def h)
    have lt1: "unat (h_id_range_lo (st_header s1)) + unat (h_num_anchors (st_header s1)) < unat (h_id_range_hi (st_header s1))"
      using allocated by (simp add: h)
    have rec: "anchor_number_to_record_number s ?n = Inr (h_num_anchors (st_header s))"
      using rng allocated by (simp add: record_number_Inr next_anchor_number_exact)
    then have unread: "storage_read s ?n = Some (Inl (BadAnchorNumber ?n))"
      by (simp add: storage_read_def)
    have others: "storage_read s' m = storage_read s m" if "m \<noteq> ?n" for m
      using that allocated storage_read_bump [OF rng1 lt1, of m]
        storage_read_after_write [OF \<open>storage_write sa s a = Inr s1\<close>]
      by (simp add: h)
    have count: "anchor_count s' = anchor_count s + 1"
      using allocated unat_num_anchors_succ [OF rng] by (simp add: anchor_count_def bump_num_anchors_def h)
    have "anchor_number_to_record_number s' ?n = Inr (h_num_anchors (st_header s))"
      using rec by (subst record_number_cong [of s' s]) (simp_all add: allocated bump_num_anchors_def h)
    moreover have "\<not> h_num_anchors (st_header s') \<le> h_num_anchors (st_header s)"
      using count by (simp add: anchor_count_def word_le_nat_alt)
    moreover have "om_get (st_anchors s') ?n = Some (snd (anchor_to_storable a))"
      using allocated by (simp add: bump_num_anchors_def storage_write_fields(4) [OF \<open>storage_write sa s a = Inr s1\<close>])
    ultimately have "storage_read s' ?n = Some (Inr (anchor_after_storage a))"
      using anchor_round_trip [of a] allocated by (simp add: storage_read_def)
    with unread others count allocated show ?thesis by auto
  qed auto
qed

text \<open>
  Changing the anchor range never orphans an identity: whatever range the
  operation accepts, every anchor that could be read before reads the same afterwards.
\<close>

theorem range_change_keeps_anchors:
  assumes "set_anchor_number_range s r = Some s'" and "storage_ok sa s"
    and "storage_read s n = Some (Inr a)"
  shows "storage_read s' n = Some (Inr a)"
proof -
  obtain lo hi where r: "r = (lo, hi)" by (cases r)
  have ok: "range_ok s" "range_ok s'"
    using assms(2) set_anchor_number_range_ok [OF assms(1,2)] by (auto simp: storage_ok_def header_ok_def)
  from assms(3) obtain rec where rec: "anchor_number_to_record_number s n = Inr rec"
    and lt: "rec < h_num_anchors (st_header s)"
    by (auto simp: storage_read_def not_le split: sum.splits if_splits)
  have "h_num_anchors (st_header s) \<noteq> 0" using lt by auto
  then have pos: "h_num_anchors (st_header s) > 0" by (simp add: word_gt_0)
  from pos assms(1) have lo: "h_id_range_lo (st_header s) = lo" and hi: "ucast (h_num_anchors (st_header s)) \<le> hi - lo"
    and le: "lo \<le> hi"
    and s': "s' = flush (s\<lparr>st_header := (st_header s)\<lparr>h_id_range_lo := lo, h_id_range_hi := hi\<rparr>\<rparr>)"
    by (auto simp: r set_anchor_number_range_def not_less split: if_splits)
  have "unat (h_num_anchors (st_header s)) \<le> unat hi - unat lo"
    using hi le by (simp add: unat_simps unat64_sub)
  with rec lt ok have "anchor_number_to_record_number s' n = Inr rec"
    by (auto simp: record_number_Inr s' lo word_less_nat_alt)
  moreover have "\<not> h_num_anchors (st_header s) \<le> rec" using lt by simp
  ultimately show ?thesis
    using rec assms(3) by (simp add: storage_read_def s')
qed

text \<open>
  Property C36. The state survives an upgrade: in every reachable storage the header page
  holds exactly the header in memory, so reading a non-empty stable memory back succeeds and
  yields the same storage.
\<close>

theorem upgrade_restores_storage:
  assumes "storage_new r empty_storage = Some s0" and "storage_reachable sa s0 s" and "1 \<le> pages"
  shows "from_memory pages s = Some s"
  using storage_reachable_ok [OF assms(2) storage_new_ok [OF assms(1)]] assms(3)
  by (simp add: storage_ok_def from_memory_same)

theorem upgrade_restores_storage_witness:
  "from_memory 5 sample_stored = Some sample_stored"
  using upgrade_restores_storage [OF sample_storage_new sample_reachable, of 5] by simp

theorem allocate_anchor_safe_atomic_witness:
  "anchor_count sample_stored = 1
   \<and> (\<exists>n a. storage_read sample_stored n = Some (Inr (anchor_after_storage a)))"
  using allocate_anchor_safe_atomic [OF sample_stored_run sample_storage_ok sample_callback_ok]
  by (auto simp: anchor_count_def sample_storage_header)


text \<open>The remaining witnesses run on the sample storage and on its anchor 10000.\<close>

lemma sample_stored_ok: "storage_ok (\<lambda>k. k) sample_stored"
  by (rule allocate_anchor_safe_ok [OF sample_stored_run sample_storage_ok sample_callback_ok])

lemma sample_stored_state:
  obtains s1 where "storage_write (\<lambda>k. k) sample_storage sample_anchor = Inr s1"
    and "sample_stored = bump_num_anchors s1"
proof -
  have "range_ok sample_storage"
    using sample_storage_ok [of "\<lambda>k. k"] by (simp add: storage_ok_def header_ok_def)
  from sample_stored_run this sample_callback_ok show ?thesis
  proof (cases rule: allocate_anchor_safe_cases)
    case (allocated res a s1)
    then have "a = sample_anchor"
      by (simp add: sample_callback_def sample_anchor_def sample_storage_header)
    with allocated that show ?thesis by simp
  qed simp_all
qed

lemma a_number_sample_anchor [simp]: "a_number sample_anchor = 10000"
  by (simp add: sample_anchor_def anchor_new_def)

lemma sample_stored_header_eq: "st_header sample_stored = (st_header sample_storage)\<lparr>h_num_anchors := 1\<rparr>"
proof (rule sample_stored_state)
  fix s1
  assume s1: "storage_write (\<lambda>k. k) sample_storage sample_anchor = Inr s1"
    and st: "sample_stored = bump_num_anchors s1"
  show ?thesis
    by (simp add: st bump_num_anchors_def storage_write_fields(1) [OF s1] sample_storage_header)
qed

lemma sample_stored_header:
  "h_num_anchors (st_header sample_stored) = 1" "h_id_range_lo (st_header sample_stored) = 10000"
  "h_id_range_hi (st_header sample_stored) = 20000" "h_salt (st_header sample_stored) = EMPTY_SALT"
  by (simp_all add: sample_stored_header_eq) (simp_all add: sample_storage_header)

lemma sample_record_number: "anchor_number_to_record_number sample_stored 10000 = Inr 0"
  by (simp add: anchor_number_to_record_number_def sample_stored_header)

lemma sample_stored_read:
  "storage_read sample_stored 10000 = Some (Inr (anchor_after_storage sample_anchor))"
proof (rule sample_stored_state)
  fix s1
  assume s1: "storage_write (\<lambda>k. k) sample_storage sample_anchor = Inr s1"
    and st: "sample_stored = bump_num_anchors s1"
  have "om_get (st_anchors sample_stored) 10000 = Some (snd (anchor_to_storable sample_anchor))"
    by (simp add: st bump_num_anchors_def storage_write_fields(4) [OF s1])
  moreover have "anchor_from_storable 10000 (snd (anchor_to_storable sample_anchor))
      = Some (anchor_after_storage sample_anchor)"
    using anchor_round_trip [of sample_anchor] aaguids_ok_sample by (simp add: sample_anchor_def [symmetric])
  ultimately show ?thesis
    by (simp add: storage_read_def sample_record_number sample_stored_header)
qed

lemma sample_stored_recovery_lookup:
  "lookup_anchor_with_recovery_phrase_principal sample_stored [1, 2, 3] = Some 10000"
proof (rule sample_stored_state)
  fix s1
  assume s1: "storage_write (\<lambda>k. k) sample_storage sample_anchor = Inr s1"
    and st: "sample_stored = bump_num_anchors s1"
  have "om_get (st_by_recovery_principal sample_storage) p = None" for p
    by (simp add: sample_storage_def storage_new_def MAX_ENTRIES_value init_with_header_def flush_def
        empty_storage_def)
  moreover have "om_get (st_anchors sample_storage) n = None" for n
    by (simp add: sample_storage_def storage_new_def MAX_ENTRIES_value init_with_header_def flush_def
        empty_storage_def)
  moreover have "st_by_recovery_principal sample_stored = sync_recovery_phrase_principal_index (\<lambda>k. k) 10000
      (snd (snd (owned_parts sample_storage 10000)))
      (or_default (sa_recovery_keys (snd (anchor_to_storable sample_anchor))))
      (st_by_recovery_principal sample_storage)"
    using s1 by (auto simp: storage_write_Inr Let_def st bump_num_anchors_def flush_def)
  moreover have "[1, 2, 3] \<in> ((\<lambda>k. k) \<circ> rk_pubkey)
      ` set (or_default (sa_recovery_keys (snd (anchor_to_storable sample_anchor))))"
    by (simp add: anchor_to_storable_eq or_default_def sample_anchor_def sample_phrase_def
        stored_as_recovery_key_iff storable_recovery_key_of_def storable_recovery_key_from_def)
  ultimately show ?thesis
    by (simp add: lookup_anchor_with_recovery_phrase_principal_def recovery_index.sync_finds
        owned_parts_def previous_parts_def)
qed

theorem reachable_lookups_sound_witness:
  "\<exists>a. om_get (st_anchors sample_stored) 10000 = Some a
     \<and> [1, 2, 3] \<in> rk_pubkey ` set (or_default (sa_recovery_keys a))"
  using reachable_lookups_sound [OF sample_storage_new sample_reachable, of "[1, 2, 3]" 10000]
    sample_stored_recovery_lookup
  by simp

definition renamed_anchor :: anchor where
  "renamed_anchor = sample_anchor\<lparr>a_name := Some ''n''\<rparr>"

lemma write_renamed_anchor: "\<exists>s'. storage_write (\<lambda>k. k) sample_stored renamed_anchor = Inr s'"
  by (simp add: storage_write_Inr renamed_anchor_def sample_record_number)

theorem write_then_read_witness:
  "\<exists>s'. storage_write (\<lambda>k. k) sample_stored renamed_anchor = Inr s'
     \<and> storage_read s' 10000 = Some (Inr (anchor_after_storage renamed_anchor))"
proof -
  obtain s' where s': "storage_write (\<lambda>k. k) sample_stored renamed_anchor = Inr s'"
    using write_renamed_anchor by blast
  have n: "a_number renamed_anchor = 10000"
    by (simp add: renamed_anchor_def)
  have "aaguids_ok renamed_anchor"
    using aaguids_ok_sample by (simp add: renamed_anchor_def sample_anchor_def aaguids_ok_def)
  with write_then_read [OF s'] show ?thesis
    using s' by (simp add: n sample_stored_read)
qed

theorem range_change_keeps_anchors_witness:
  "\<exists>s'. set_anchor_number_range sample_stored (10000, 10005) = Some s'
     \<and> storage_read s' 10000 = Some (Inr (anchor_after_storage sample_anchor))"
proof -
  obtain s' where s': "set_anchor_number_range sample_stored (10000, 10005) = Some s'"
    by (simp add: set_anchor_number_range_def MAX_ENTRIES_value sample_stored_header)
  with range_change_keeps_anchors [OF s' sample_stored_ok sample_stored_read] show ?thesis by simp
qed

end
