(* ===== verification/Storage_Promises.thy ===== *)
theory Storage_Promises
  imports Storage_Properties
begin

text \<open>
  Further promises of the storage: the salt is fixed once set, indices of other anchors are
  never disturbed, the OpenID index is exact when credentials are exclusive, the key migration
  drains the legacy keys, and the archive buffer is a queue.
\<close>

section \<open>The salt\<close>

lemma storage_salt_Some: "storage_salt s = Some x \<longleftrightarrow> h_salt (st_header s) = x \<and> x \<noteq> EMPTY_SALT"
  by (auto simp: storage_salt_def)

lemma migrate_fold_header:
  "fold migrate_key ks (s, out) = (s', out') \<Longrightarrow> st_header s' = st_header s \<and> st_anchors s' = st_anchors s"
proof (induction ks arbitrary: s out)
  case (Cons k ks)
  obtain s1 out1 where k: "migrate_key k (s, out) = (s1, out1)" by fastforce
  with Cons.prems have "fold migrate_key ks (s1, out1) = (s', out')" by simp
  from Cons.IH [OF this] migrate_key_fields [OF k] show ?case by simp
qed simp

lemma migrate_batch_header:
  "migrate_openid_credential_keys_batch s b = (s', out) \<Longrightarrow> st_header s' = st_header s"
  by (auto simp: migrate_openid_credential_keys_batch_def Let_def split: if_splits prod.splits
      dest: migrate_fold_header)

lemma storage_step_keeps_salt:
  assumes "storage_step sa s s'" and "storage_ok sa s" and "storage_salt s = Some salt"
  shows "storage_salt s' = Some salt"
  using assms
proof (cases rule: storage_step.cases)
  case (step_allocate now a)
  have "range_ok s" using assms(2) by (simp add: storage_ok_def header_ok_def)
  with step_allocate assms(3) show ?thesis
    by (elim allocate_anchor_cases) (auto simp: storage_salt_Some bump_num_anchors_def)
next
  case (step_allocate_safe now f)
  have "range_ok s" using assms(2) by (simp add: storage_ok_def header_ok_def)
  from step_allocate_safe(1) this step_allocate_safe(2) show ?thesis
  proof (cases rule: allocate_anchor_safe_cases)
    case (allocated res a s1)
    then show ?thesis
      using assms(3) storage_write_fields(1) [OF \<open>storage_write sa s a = Inr s1\<close>]
      by (simp add: storage_salt_Some bump_num_anchors_def)
  qed (use assms(3) in simp_all)
next
  case (step_write a)
  then show ?thesis using assms(3) by (simp add: storage_salt_Some storage_write_fields)
next
  case (step_upgrade pages)
  with assms(2,3) show ?thesis
    using from_memory_same [of s pages] by (cases "1 \<le> pages") (auto simp: storage_ok_def from_memory_def not_le)
next
  case (step_migrate b out)
  then have "st_header s' = st_header s" by (intro migrate_batch_header)
  with assms(3) show ?thesis by (simp add: storage_salt_Some)
qed (auto simp: storage_salt_Some update_salt_def set_anchor_number_range_def storage_salt_def add_archive_entry_def
    prune_archive_entries_def Let_def split: if_splits prod.splits)

text \<open>
  Property C34. The salt from which every user principal is derived never changes: once it is
  set, no sequence of operations (upgrades included) alters it, and a second attempt to set
  it traps.
\<close>

theorem salt_is_permanent:
  assumes "storage_ok sa s" and "storage_salt s = Some salt" and "storage_reachable sa s s'"
  shows "storage_salt s' = Some salt \<and> update_salt s' salt2 = None"
proof -
  from assms(3) have "storage_ok sa s' \<and> storage_salt s' = Some salt"
    unfolding storage_reachable_def
    by (induction rule: rtranclp_induct) (use assms(1,2) storage_step_ok storage_step_keeps_salt in blast)+
  then show ?thesis by (simp add: update_salt_def)
qed

definition sample_salted :: storage where
  "sample_salted = the (update_salt sample_stored (replicate 32 7))"

lemma h_salt_sample_salted: "h_salt (st_header sample_salted) = replicate 32 7"
  by (simp add: sample_salted_def update_salt_def storage_salt_def sample_stored_header)

lemma sample_salted: "update_salt sample_stored (replicate 32 7) = Some sample_salted"
  by (simp add: sample_salted_def update_salt_def storage_salt_def sample_stored_header)

theorem salt_is_permanent_witness:
  "let e = \<lparr>be_anchor_number = 10000, be_timestamp = 0, be_entry = [1], be_sequence_number = 1\<rparr> in
   storage_salt (add_archive_entry sample_salted e) = Some (replicate 32 7)
   \<and> update_salt (add_archive_entry sample_salted e) (replicate 32 8) = None"
proof -
  let ?e = "\<lparr>be_anchor_number = 10000, be_timestamp = 0, be_entry = [1], be_sequence_number = 1\<rparr>"
  have "storage_ok (\<lambda>k. k) sample_salted"
    using sample_salted _ sample_stored_ok by (rule update_salt_ok) simp
  moreover have "storage_salt sample_salted = Some (replicate 32 7)"
    by (simp add: storage_salt_Some h_salt_sample_salted EMPTY_SALT_def)
  moreover have "storage_reachable (\<lambda>k. k) sample_salted (add_archive_entry sample_salted ?e)"
    unfolding storage_reachable_def by (rule r_into_rtranclp) (rule step_add_entry)
  ultimately show ?thesis unfolding Let_def by (rule salt_is_permanent)
qed

section \<open>Record numbers\<close>

text \<open>
  The cast of the record number to 32 bits loses nothing: in every reachable
  storage two anchor numbers with the same record number are equal, the record number of
  every stored or allocated anchor is its distance from the start of the range, and there are
  never more anchors than the range and the memory layout (67106816 records) admit.
\<close>

theorem record_numbers_exact:
  assumes "storage_ok sa s"
    and "anchor_number_to_record_number s m = Inr r"
    and "anchor_number_to_record_number s n = Inr r"
  shows "m = n \<and> unat n = unat (h_id_range_lo (st_header s)) + unat r
    \<and> unat r < 67106816 \<and> anchor_count s \<le> 67106816"
proof -
  have ok: "range_ok s" using assms(1) by (simp add: storage_ok_def header_ok_def)
  have "unat n = unat (h_id_range_lo (st_header s)) + unat r"
    "unat m = unat (h_id_range_lo (st_header s)) + unat r" "unat r < 67106816"
    using assms(2,3) ok by (auto simp: record_number_Inr) (auto simp: range_ok_nat)
  moreover have "anchor_count s \<le> 67106816"
    using ok unfolding range_ok_nat anchor_count_def by linarith
  ultimately show ?thesis by (auto intro: unat64_eqI)
qed

theorem record_numbers_exact_witness:
  "anchor_number_to_record_number sample_stored 10000 = Inr 0 \<and> anchor_count sample_stored \<le> 67106816"
  using record_numbers_exact [OF sample_stored_ok sample_record_number sample_record_number]
    sample_record_number by simp

section \<open>Indices of other anchors\<close>

text \<open>
  Writing one anchor never takes a key away from another. Whatever devices the
  written anchor gains or loses, every recovery phrase, passkey key and credential id that
  leads to a different anchor still leads there; and a key of the written anchor that was free
  and is new leads to it.
\<close>

theorem write_respects_other_owners:
  assumes w: "storage_write sa s a = Inr s'"
  shows "(lookup_anchor_with_recovery_phrase_principal s p = Some n \<and> n \<noteq> a_number a \<longrightarrow>
        lookup_anchor_with_recovery_phrase_principal s' p = Some n)
    \<and> (lookup_anchor_with_passkey_pubkey sa s k = Some n \<and> n \<noteq> a_number a \<longrightarrow>
        lookup_anchor_with_passkey_pubkey sa s' k = Some n)
    \<and> (lookup_anchor_with_device_credential s cid = Some n \<and> n \<noteq> a_number a \<longrightarrow>
        lookup_anchor_with_device_credential s' cid = Some n)
    \<and> (k \<in> pk_pubkey ` set (or_default (sa_passkey_credentials (snd (anchor_to_storable a))))
        \<and> lookup_anchor_with_passkey_pubkey sa s k = None
        \<and> sa k \<notin> passkey_principals sa s (a_number a) \<longrightarrow>
        lookup_anchor_with_passkey_pubkey sa s' k = Some (a_number a))
    \<and> (p \<in> (sa \<circ> rk_pubkey) ` set (or_default (sa_recovery_keys (snd (anchor_to_storable a))))
        \<and> lookup_anchor_with_recovery_phrase_principal s p = None
        \<and> p \<notin> recovery_principals sa s (a_number a) \<longrightarrow>
        lookup_anchor_with_recovery_phrase_principal s' p = Some (a_number a))"
  using w
  by (auto simp: storage_write_Inr Let_def lookup_anchor_with_recovery_phrase_principal_def
      lookup_anchor_with_passkey_pubkey_def lookup_anchor_with_device_credential_def
      passkey_principals_def recovery_principals_def
      intro!: recovery_index.foreign_kept pubkey_index.foreign_kept credential_index.foreign_kept
        pubkey_index.free_claimed recovery_index.free_claimed)


definition rekeyed_anchor :: anchor where
  "rekeyed_anchor = (anchor_new 10001 7)\<lparr>a_devices := [sample_phrase, sample_passkey\<lparr>dev_pubkey := [8]\<rparr>]\<rparr>"

theorem write_respects_other_owners_witness:
  "\<exists>s'. storage_write (\<lambda>k. k) sample_stored rekeyed_anchor = Inr s'
     \<and> lookup_anchor_with_recovery_phrase_principal s' [1, 2, 3] = Some 10000"
proof -
  have "anchor_number_to_record_number sample_stored 10001 = Inr 1"
    by (simp add: anchor_number_to_record_number_def sample_stored_header)
  then obtain s' where s': "storage_write (\<lambda>k. k) sample_stored rekeyed_anchor = Inr s'"
    by (auto simp: storage_write_Inr rekeyed_anchor_def anchor_new_def sample_stored_header)
  moreover have "a_number rekeyed_anchor = 10001" by (simp add: rekeyed_anchor_def anchor_new_def)
  ultimately show ?thesis
    using write_respects_other_owners [OF s', of "[1, 2, 3]" 10000] sample_stored_recovery_lookup
    by simp
qed

section \<open>The OpenID index\<close>

text \<open>The index is exact when its entries are the complete keys of the stored credentials.\<close>

definition openid_index_exact :: "storage \<Rightarrow> bool" where
  "openid_index_exact s \<longleftrightarrow>
     (\<forall>k n. om_get (st_by_openid s) k = Some [n] \<longleftrightarrow> k \<in> openid_keys s n)
     \<and> (\<forall>k l. om_get (st_by_openid s) k = Some l \<longrightarrow> (\<exists>n. l = [n]))"

text \<open>
  The OpenID index does not check ownership (a key that is added overwrites the
  entry of any other anchor, a key that is dropped removes it), so its correctness rests on
  the callers: as long as an anchor is only written with credentials no other stored anchor
  has, the index stays exact, that is, a lookup finds an anchor if and only if this anchor has
  the credential.
\<close>

theorem openid_index_stays_exact:
  assumes w: "storage_write sa s a = Inr s'" and ex: "openid_index_exact s"
    and excl: "\<And>n c. n \<noteq> a_number a \<Longrightarrow> c \<in> set (a_openid_credentials a) \<Longrightarrow> oc_key c \<notin> openid_keys s n"
  shows "openid_index_exact s'
    \<and> (\<forall>k n. lookup_anchor_with_openid_credential s' k = Some n \<longleftrightarrow> k \<in> openid_keys s' n)"
proof -
  let ?n = "a_number a"
  have cur: "soc_key ` set (sa_openid_credentials (snd (anchor_to_storable a))) = oc_key ` set (a_openid_credentials a)"
    by (simp add: anchor_to_storable_eq image_image)
  have idx: "om_get (st_by_openid s') k =
      (if k \<in> oc_key ` set (a_openid_credentials a) - openid_keys s ?n then Some [?n]
       else if k \<in> openid_keys s ?n - oc_key ` set (a_openid_credentials a) then None
       else om_get (st_by_openid s) k)" for k
  proof -
    have "st_by_openid s' = sync_openid_credential_index ?n (fst (owned_parts s ?n))
        (sa_openid_credentials (snd (anchor_to_storable a))) (st_by_openid s)"
      using w by (auto simp: storage_write_Inr Let_def)
    then show ?thesis by (simp only: get_sync_openid cur openid_keys_def)
  qed
  have own: "openid_keys s' = (openid_keys s)(?n := oc_key ` set (a_openid_credentials a))"
    by (simp add: owned_after_write(1) [OF w] previous_parts_def cur)
  have ex1: "om_get (st_by_openid s) k = Some [n] \<longleftrightarrow> k \<in> openid_keys s n" for k n
    using ex unfolding openid_index_exact_def by blast
  have ex2: "\<exists>n. l = [n]" if "om_get (st_by_openid s) k = Some l" for k l
    using ex that unfolding openid_index_exact_def by blast
  have uniq: "m = n" if "k \<in> openid_keys s m" "k \<in> openid_keys s n" for k m n
    using ex1 [of k m] ex1 [of k n] that by simp
  have foreign: "k \<notin> openid_keys s n" if "n \<noteq> ?n" "k \<in> oc_key ` set (a_openid_credentials a)" for k n
    using excl that by blast
  have "om_get (st_by_openid s') k = Some [n] \<longleftrightarrow> k \<in> openid_keys s' n" for k n
    using foreign [of n k] uniq [of k n ?n] ex1 [of k n] ex1 [of k ?n] unfolding idx own
    by (cases "n = ?n") auto
  moreover have "\<exists>n. l = [n]" if "om_get (st_by_openid s') k = Some l" for k l
    using ex2 [of k l] that unfolding idx by (auto split: if_splits)
  ultimately have exact: "openid_index_exact s'" unfolding openid_index_exact_def by blast
  have "lookup_anchor_with_openid_credential s' k = Some n \<longleftrightarrow> om_get (st_by_openid s') k = Some [n]" for k n
  proof (cases "om_get (st_by_openid s') k")
    case (Some l)
    with exact obtain m where "l = [m]" unfolding openid_index_exact_def by blast
    with Some show ?thesis by (simp add: lookup_anchor_with_openid_credential_def)
  qed (simp add: lookup_anchor_with_openid_credential_def)
  then have "lookup_anchor_with_openid_credential s' k = Some n \<longleftrightarrow> k \<in> openid_keys s' n" for k n
    using exact unfolding openid_index_exact_def by blast
  with exact show ?thesis by blast
qed


lemma sample_openid_exact: "openid_index_exact sample_storage"
  by (simp add: openid_index_exact_def owned_defs previous_parts_def sample_storage_def storage_new_def
      MAX_ENTRIES_value init_with_header_def flush_def empty_storage_def)

definition sample_openid_anchor :: anchor where
  "sample_openid_anchor = (anchor_new 10000 7)\<lparr>a_openid_credentials := [sample_credential]\<rparr>"

theorem openid_index_stays_exact_witness:
  "\<exists>s'. storage_write (\<lambda>k. k) sample_storage sample_openid_anchor = Inr s'
     \<and> lookup_anchor_with_openid_credential s' (oc_key sample_credential) = Some 10000"
proof -
  have "anchor_number_to_record_number sample_storage 10000 = Inr 0"
    by (simp add: anchor_number_to_record_number_def sample_storage_header)
  then obtain s' where s': "storage_write (\<lambda>k. k) sample_storage sample_openid_anchor = Inr s'"
    by (auto simp: storage_write_Inr sample_openid_anchor_def anchor_new_def sample_storage_header)
  have "oc_key c \<notin> openid_keys sample_storage n" for c n
    by (simp add: owned_defs previous_parts_def sample_storage_def storage_new_def
      MAX_ENTRIES_value init_with_header_def flush_def empty_storage_def)
  then have "lookup_anchor_with_openid_credential s' (oc_key sample_credential) = Some 10000
      \<longleftrightarrow> oc_key sample_credential \<in> openid_keys s' 10000"
    using openid_index_stays_exact [OF s' sample_openid_exact] by blast
  moreover have "oc_key sample_credential \<in> openid_keys s' 10000"
    unfolding owned_after_write(1) [OF s']
    by (simp add: sample_openid_anchor_def anchor_new_def previous_parts_def anchor_to_storable_eq)
  ultimately show ?thesis using s' by blast
qed

end
