(* ===== verification/Storage_Migration.thy ===== *)
theory Storage_Migration
  imports Storage_Promises
begin

text \<open>
  The batched migration of the OpenID index keys (\<open>migrate_openid_credential_keys_batch\<close>) and
  the archive buffer of \<open>storage.rs\<close>.
\<close>

section \<open>Effect of a batch on the index\<close>

definition legacy_keys :: "storage \<Rightarrow> openid_credential_key list" where
  "legacy_keys s = filter is_legacy (om_keys (st_by_openid s))"

text \<open>No stored credential has an empty audience (the \<open>aud\<close> of a verified JWT).\<close>

definition audiences_nonempty :: "storage \<Rightarrow> bool" where
  "audiences_nonempty s \<longleftrightarrow>
     (\<forall>n a. om_get (st_anchors s) n = Some a \<longrightarrow> (\<forall>c \<in> set (sa_openid_credentials a). soc_aud c \<noteq> []))"

text \<open>What becomes of the key \<open>q\<close> when the legacy key of the same issuer and subject is migrated.\<close>

definition migrated_from :: "openid_credential_key \<Rightarrow> openid_credential_key" where
  "migrated_from q = (fst q, fst (snd q), [])"

definition migrates_to :: "storage \<Rightarrow> openid_credential_key \<Rightarrow> anchor_number list option" where
  "migrates_to s q =
     (case om_get (st_by_openid s) (migrated_from q) of
        None \<Rightarrow> None
      | Some anchors \<Rightarrow>
          if resolve_aud s (migrated_from q) anchors = Some (snd (snd q)) then Some anchors else None)"

lemma legacy_iff: "is_legacy q \<longleftrightarrow> snd (snd q) = []"
  by (cases q) auto

lemma legacy_eq: "is_legacy q \<Longrightarrow> migrated_from q = q"
  by (cases q) (simp add: migrated_from_def)

lemma resolve_aud_nonempty:
  "audiences_nonempty s \<Longrightarrow> resolve_aud s k anchors = Some aud \<Longrightarrow> aud \<noteq> []"
  by (auto simp: resolve_aud_def audiences_nonempty_def find_Some_iff
      split: prod.splits list.splits option.splits)

lemma migrate_key_get:
  assumes m: "migrate_key k (s, out) = (s', out')" and k: "is_legacy k" and aud: "audiences_nonempty s"
  shows "om_get (st_by_openid s') q =
    (if q = k then None
     else if \<not> is_legacy q \<and> migrated_from q = k \<and> migrates_to s q \<noteq> None then migrates_to s q
     else om_get (st_by_openid s) q)"
proof -
  obtain iss sub where kk: "k = (iss, sub, [])" using k by (cases k) auto
  obtain i sb au where q: "q = (i, sb, au)" by (cases q)
  have res: "resolve_aud (s\<lparr>st_by_openid := om_remove (iss, sub, []) (st_by_openid s)\<rparr>) = resolve_aud s"
    by (rule resolve_aud_cong) simp
  show ?thesis
  proof (cases "om_get (st_by_openid s) (iss, sub, [])")
    case None
    then show ?thesis
      using m by (auto simp: migrate_key_def migrates_to_def kk)
  next
    case (Some anchors)
    note entry = Some
    show ?thesis
    proof (cases "resolve_aud s (iss, sub, []) anchors")
      case None
      then have "st_by_openid s' = om_remove (iss, sub, []) (st_by_openid s)"
        using m entry by (auto simp: migrate_key_def Let_def kk res)
      with None entry show ?thesis
        by (auto simp: migrates_to_def migrated_from_def kk q)
    next
      case (Some aud')
      then have "aud' \<noteq> []" using resolve_aud_nonempty [OF aud] by blast
      moreover have "st_by_openid s' = om_insert (iss, sub, aud') anchors (om_remove (iss, sub, []) (st_by_openid s))"
        using m entry Some by (auto simp: migrate_key_def Let_def kk res)
      ultimately show ?thesis
        using entry Some by (auto simp: migrates_to_def migrated_from_def kk q)
    qed
  qed
qed

lemma migrate_fold_get:
  assumes "fold migrate_key ks (s, out) = (s', out')" and "list_all is_legacy ks" and "distinct ks"
    and "audiences_nonempty s"
  shows "om_get (st_by_openid s') q =
    (if q \<in> set ks then None
     else if \<not> is_legacy q \<and> migrated_from q \<in> set ks \<and> migrates_to s q \<noteq> None then migrates_to s q
     else om_get (st_by_openid s) q)"
  using assms
proof (induction ks arbitrary: s out)
  case Nil
  then show ?case by simp
next
  case (Cons k ks)
  obtain s1 out1 where k: "migrate_key k (s, out) = (s1, out1)" by fastforce
  have step: "om_get (st_by_openid s1) p =
    (if p = k then None
     else if \<not> is_legacy p \<and> migrated_from p = k \<and> migrates_to s p \<noteq> None then migrates_to s p
     else om_get (st_by_openid s) p)" for p
    using migrate_key_get [OF k] Cons.prems by simp
  have anchors: "st_anchors s1 = st_anchors s" using migrate_key_fields [OF k] by simp
  then have aud: "audiences_nonempty s1" using Cons.prems by (simp add: audiences_nonempty_def)
  have to: "migrates_to s1 q = migrates_to s q" if "migrated_from q \<noteq> k"
    using that step [of "migrated_from q"] resolve_aud_cong [OF anchors]
    by (simp add: migrates_to_def legacy_iff migrated_from_def split: option.splits)
  have "fold migrate_key ks (s1, out1) = (s', out')" using Cons.prems k by simp
  from Cons.IH [OF this _ _ aud] Cons.prems have
    "om_get (st_by_openid s') q =
      (if q \<in> set ks then None
       else if \<not> is_legacy q \<and> migrated_from q \<in> set ks \<and> migrates_to s1 q \<noteq> None then migrates_to s1 q
       else om_get (st_by_openid s1) q)" by simp
  then show ?case
    using to step [of q] Cons.prems by (auto simp: legacy_eq)
qed

section \<open>Progress and correctness of a batch\<close>

lemma take_len_min: "length (take n xs) = min n (length xs)"
  by simp

lemma legacy_keys_distinct: "distinct (legacy_keys s)"
  by (simp add: legacy_keys_def)

lemma set_legacy_keys: "set (legacy_keys s) = {q. is_legacy q \<and> om_get (st_by_openid s) q \<noteq> None}"
  by (auto simp: legacy_keys_def om_in_keys)

text \<open>
  Property C35. The migration of the OpenID index makes progress and is correct. A batch of
  size \<open>b\<close> (below 2^32, credentials having an audience) removes exactly
  \<open>min b L\<close> of the \<open>L\<close> legacy keys, reports completion if and only if fewer than \<open>b\<close> were left,
  and then no legacy key remains. A legacy entry whose anchor still has a matching credential
  reappears under the complete key with the same anchors, and complete keys without a legacy
  counterpart keep their entry.
\<close>

theorem migration_batch_progress:
  assumes run: "migrate_openid_credential_keys_batch s b = (s', out)"
    and aud: "audiences_nonempty s" and b: "0 < unat b" "unat b < 2 ^ 32"
  shows "length (legacy_keys s') = length (legacy_keys s) - min (unat b) (length (legacy_keys s))
    \<and> (mo_is_done out \<longleftrightarrow> length (legacy_keys s) < unat b)
    \<and> (mo_is_done out \<longrightarrow> legacy_keys s' = [])
    \<and> (\<forall>q. \<not> is_legacy q \<longrightarrow> om_get (st_by_openid s) (migrated_from q) = None \<longrightarrow>
          om_get (st_by_openid s') q = om_get (st_by_openid s) q)
    \<and> (\<forall>q. \<not> is_legacy q \<longrightarrow> migrates_to s q \<noteq> None \<longrightarrow>
          om_get (st_by_openid s') (migrated_from q) = None \<longrightarrow>
          om_get (st_by_openid s') q = migrates_to s q)
    \<and> audiences_nonempty s'"
proof -
  let ?ks = "take (unat b) (legacy_keys s)"
  let ?out0 = "\<lparr>mo_processed = 0, mo_is_done = False, mo_errors = []\<rparr>"
  have cast: "unat (ucast b :: u32) = unat b"
    using b(2) by (simp add: unsigned_ucast_eq take_bit_nat_eq_self)
  have nz: "b \<noteq> 0" using b(1) by auto
  obtain out1 where fold: "fold migrate_key ?ks (s, ?out0) = (s', out1)"
    and out: "out = (if of_nat (length ?ks) < b then out1\<lparr>mo_is_done := True\<rparr> else out1)"
    using run nz
    by (auto simp: migrate_openid_credential_keys_batch_def Let_def cast legacy_keys_def
        split: prod.splits if_splits)
  have legacy: "list_all is_legacy ?ks"
    by (auto simp: list_all_iff legacy_keys_def dest!: in_set_takeD)
  have dist: "distinct ?ks" using legacy_keys_distinct by (rule distinct_take)
  note get = migrate_fold_get [OF fold legacy dist aud]
  have sub: "set ?ks \<subseteq> set (legacy_keys s)" by (auto dest: in_set_takeD)
  have set': "set (legacy_keys s') = set (legacy_keys s) - set ?ks"
    by (auto simp: set_legacy_keys [of s'] set_legacy_keys [of s] get)
  have "length (legacy_keys s') = card (set (legacy_keys s'))"
    using distinct_card [OF legacy_keys_distinct] by metis
  also have "\<dots> = card (set (legacy_keys s)) - card (set ?ks)"
    unfolding set' using sub by (intro card_Diff_subset) auto
  also have "\<dots> = length (legacy_keys s) - min (unat b) (length (legacy_keys s))"
    using distinct_card [OF legacy_keys_distinct [of s]] distinct_card [OF dist] by simp
  finally have len: "length (legacy_keys s') = length (legacy_keys s) - min (unat b) (length (legacy_keys s))" .
  have small: "length ?ks \<le> unat b" by simp
  have not_done: "\<not> mo_is_done out1"
  proof -
    have "mo_is_done (snd (fold migrate_key ks (t, o0))) = mo_is_done o0" for ks t o0
      by (induction ks arbitrary: t o0)
        (auto simp: migrate_key_def Let_def split: option.splits)
    from this [of ?ks s ?out0] show ?thesis by (simp add: fold)
  qed
  have fin: "mo_is_done out \<longleftrightarrow> length (legacy_keys s) < unat b"
    using not_done small b(2) by (auto simp: out word_less_nat_alt unat_of_nat64)
  have "st_anchors s' = st_anchors s" using migrate_fold_header [OF fold] by simp
  then have aud': "audiences_nonempty s'" using aud by (simp add: audiences_nonempty_def)
  have mig: "is_legacy (migrated_from q)" for q by (simp add: migrated_from_def)
  have keep: "om_get (st_by_openid s') q = om_get (st_by_openid s) q"
    if "\<not> is_legacy q" "om_get (st_by_openid s) (migrated_from q) = None" for q
    using that get [of q] by (auto simp: migrates_to_def dest: legacy [unfolded list_all_iff, rule_format])
  have moved: "om_get (st_by_openid s') q = migrates_to s q"
    if "\<not> is_legacy q" "migrates_to s q \<noteq> None" "om_get (st_by_openid s') (migrated_from q) = None" for q
  proof -
    have "om_get (st_by_openid s) (migrated_from q) \<noteq> None"
      using that(2) by (auto simp: migrates_to_def split: option.splits)
    with that(3) get [of "migrated_from q"] have "migrated_from q \<in> set ?ks"
      by (auto simp: mig split: if_splits)
    then show ?thesis
      using that get [of q] legacy by (auto simp: list_all_iff)
  qed
  show ?thesis
    using len fin aud' keep moved by auto
qed


definition sample_legacy :: storage where
  "sample_legacy = sample_storage\<lparr>
     st_anchors := om_insert 10000 (snd (anchor_to_storable sample_openid_anchor)) om_empty,
     st_by_openid := om_insert (migrated_from (oc_key sample_credential)) [10000] om_empty\<rparr>"

theorem migration_batch_progress_witness:
  "\<exists>s' out. migrate_openid_credential_keys_batch sample_legacy 10 = (s', out)
     \<and> mo_is_done out \<and> legacy_keys s' = []
     \<and> om_get (st_by_openid s') (oc_key sample_credential) = Some [10000]"
proof -
  obtain s' out where run: "migrate_openid_credential_keys_batch sample_legacy 10 = (s', out)"
    by fastforce
  have aud: "audiences_nonempty sample_legacy"
    by (auto simp: audiences_nonempty_def sample_legacy_def anchor_to_storable_eq sample_openid_anchor_def
        anchor_new_def storable_openid_credential_from_def sample_credential_def split: if_splits)
  have "length (legacy_keys sample_legacy) = 1"
    by (simp add: legacy_keys_def sample_legacy_def om_keys_def om_entries_insert migrated_from_def)
  moreover have "migrates_to sample_legacy (oc_key sample_credential) = Some [10000]"
    by (simp add: migrates_to_def sample_legacy_def resolve_aud_def migrated_from_def oc_key_def
        sample_credential_def anchor_to_storable_eq sample_openid_anchor_def anchor_new_def
        storable_openid_credential_from_def)
  moreover have "\<not> is_legacy (oc_key sample_credential)"
    by (simp add: legacy_iff oc_key_def sample_credential_def)
  moreover have b: "0 < unat (10 :: u64)" "unat (10 :: u64) < 2 ^ 32" by simp_all
  moreover note prog = migration_batch_progress [OF run aud b]
  ultimately have "mo_is_done out" "legacy_keys s' = []"
    and moved: "om_get (st_by_openid s') (migrated_from (oc_key sample_credential)) = None \<Longrightarrow>
      om_get (st_by_openid s') (oc_key sample_credential) = Some [10000]"
    using prog [THEN conjunct2, THEN conjunct2, THEN conjunct2, THEN conjunct2, THEN conjunct1,
      THEN spec, of "oc_key sample_credential"] by simp_all
  moreover have "om_get (st_by_openid s') (migrated_from (oc_key sample_credential)) = None"
    using \<open>legacy_keys s' = []\<close> set_legacy_keys [of s'] by (auto simp: migrated_from_def)
  ultimately show ?thesis using run by blast
qed

section \<open>The archive buffer\<close>

text \<open>Every entry is stored under its own sequence number.\<close>

definition archive_buffer_ok :: "storage \<Rightarrow> bool" where
  "archive_buffer_ok s \<longleftrightarrow>
     (\<forall>k e. om_get (st_archive_buffer s) k = Some e \<longrightarrow> be_sequence_number e = k)"

definition buffered_entries :: "storage \<Rightarrow> buffered_entry list" where
  "buffered_entries s = map snd (om_entries (st_archive_buffer s))"

lemma fold_remove_entries:
  "om_entries (fold om_remove ks m) = filter (\<lambda>e. fst e \<notin> set ks) (om_entries m)"
  using om_entries_remove_all by (metis om_remove_all_def)

lemma prune_entries:
  "om_entries (st_archive_buffer (prune_archive_entries s q))
     = filter (\<lambda>e. q < fst e) (om_entries (st_archive_buffer s))"
  by (auto simp: prune_archive_entries_def Let_def fold_remove_entries om_range_def not_le
      intro!: filter_cong)

lemma archive_buffer_ok_entries:
  "archive_buffer_ok s \<longleftrightarrow> (\<forall>p \<in> set (om_entries (st_archive_buffer s)). be_sequence_number (snd p) = fst p)"
  unfolding archive_buffer_ok_def by (auto simp: om_in_entries [symmetric])

lemma archive_buffer_ok_add: "archive_buffer_ok s \<Longrightarrow> archive_buffer_ok (add_archive_entry s e)"
  by (simp add: archive_buffer_ok_def add_archive_entry_def)

lemma archive_buffer_ok_prune: "archive_buffer_ok s \<Longrightarrow> archive_buffer_ok (prune_archive_entries s q)"
  by (auto simp: archive_buffer_ok_entries prune_entries)

lemma filter_above_nth:
  fixes xs :: "('k::linorder \<times> 'v) list"
  assumes "sorted_entries xs" and "i < length xs"
  shows "filter (\<lambda>e. fst (xs ! i) < fst e) xs = drop (Suc i) xs"
proof -
  have split: "xs = take (Suc i) xs @ drop (Suc i) xs" by simp
  have less: "fst (xs ! j) < fst (xs ! k)" if "j < k" "k < length xs" for j k
    using sorted_wrt_nth_less [OF assms(1) that(1)] that by simp
  have "filter (\<lambda>e. fst (xs ! i) < fst e) (take (Suc i) xs) = []"
  proof (rule filter_False, rule ballI)
    fix e
    assume "e \<in> set (take (Suc i) xs)"
    then obtain j where "j < Suc i" "e = xs ! j" using assms(2) by (auto simp: in_set_conv_nth)
    then show "\<not> fst (xs ! i) < fst e"
      using less [of j i] assms(2) by (cases "j = i") auto
  qed
  moreover have "filter (\<lambda>e. fst (xs ! i) < fst e) (drop (Suc i) xs) = drop (Suc i) xs"
  proof (rule filter_True, rule ballI)
    fix e
    assume "e \<in> set (drop (Suc i) xs)"
    then obtain j where "j < length xs - Suc i" "e = xs ! Suc (i + j)"
      by (auto simp: in_set_conv_nth)
    then show "fst (xs ! i) < fst e" using less [of i "Suc (i + j)"] by simp
  qed
  ultimately show ?thesis
    by (metis append_Nil filter_append split)
qed

lemma last_map_take_nth: "0 < n \<Longrightarrow> n \<le> length xs \<Longrightarrow> last (map f (take n xs)) = f (xs ! (n - 1))"
  by (cases n) (simp_all add: take_Suc_conv_app_nth)

text \<open>
  The archive buffer is a queue. Fetching up to \<open>m\<close> entries yields the oldest
  ones in strictly increasing sequence order, and pruning up to the sequence number of the
  last fetched entry removes exactly the fetched ones: fetched and remaining entries together
  are the buffer as it was, so an acknowledged transfer neither loses nor repeats an entry.
\<close>

theorem archive_buffer_fetch_then_prune:
  assumes ok: "archive_buffer_ok s"
    and fetched: "get_archive_entries s m = es" "es \<noteq> []"
  shows "buffered_entries s = es @ buffered_entries (prune_archive_entries s (be_sequence_number (last es)))
    \<and> sorted_wrt (\<lambda>e f. be_sequence_number e < be_sequence_number f) (buffered_entries s)
    \<and> length es = min (unat m) (archive_entries_count s)"
proof -
  let ?xs = "om_entries (st_archive_buffer s)"
  let ?n = "min (unat m) (length ?xs)"
  have es: "es = map snd (take ?n ?xs)"
    using fetched(1) by (auto simp: get_archive_entries_def min_def)
  then have pos: "0 < ?n" using fetched(2) by auto
  then have lt: "?n - 1 < length ?xs" using min.cobounded2 [of "unat m" "length ?xs"] by linarith
  have keys: "map be_sequence_number (buffered_entries s) = map fst ?xs"
    using ok by (simp add: buffered_entries_def archive_buffer_ok_entries)
  have "last es = snd (?xs ! (?n - 1))"
    unfolding es by (rule last_map_take_nth) (use pos in simp_all)
  then have last: "be_sequence_number (last es) = fst (?xs ! (?n - 1))"
    using ok lt by (simp add: archive_buffer_ok_entries)
  have "filter (\<lambda>e. fst (?xs ! (?n - 1)) < fst e) ?xs = drop ?n ?xs"
    using filter_above_nth [OF sorted_om_entries lt] pos by simp
  then have "buffered_entries (prune_archive_entries s (be_sequence_number (last es))) = map snd (drop ?n ?xs)"
    by (simp add: buffered_entries_def prune_entries last)
  then have "buffered_entries s = es @ buffered_entries (prune_archive_entries s (be_sequence_number (last es)))"
    by (simp add: buffered_entries_def es flip: map_append)
  moreover have "sorted_wrt (\<lambda>e f. be_sequence_number e < be_sequence_number f) (buffered_entries s)"
    using sorted_om_entries [of "st_archive_buffer s"]
    unfolding keys [symmetric] by (simp add: sorted_wrt_map)
  moreover have "length es = min (unat m) (archive_entries_count s)"
    by (simp add: es archive_entries_count_def)
  ultimately show ?thesis by blast
qed

definition sample_entry :: "u64 \<Rightarrow> buffered_entry" where
  "sample_entry q = \<lparr>be_anchor_number = 10000, be_timestamp = 3, be_entry = [1], be_sequence_number = q\<rparr>"

definition sample_buffer :: storage where
  "sample_buffer = fold (\<lambda>q s. add_archive_entry s (sample_entry q)) [7, 5, 9] sample_storage"

lemma sample_buffer_ok: "archive_buffer_ok sample_buffer"
proof -
  have "archive_buffer_ok sample_storage"
    by (simp add: archive_buffer_ok_def sample_storage_def storage_new_def MAX_ENTRIES_value
        init_with_header_def flush_def empty_storage_def)
  then show ?thesis by (simp add: sample_buffer_def archive_buffer_ok_add)
qed

lemma sample_buffer_entries:
  "om_entries (st_archive_buffer sample_buffer) = [(5, sample_entry 5), (7, sample_entry 7), (9, sample_entry 9)]"
  by (simp add: sample_buffer_def add_archive_entry_def sample_entry_def om_entries_insert
      sample_storage_def storage_new_def MAX_ENTRIES_value init_with_header_def empty_storage_def)

theorem archive_buffer_fetch_then_prune_witness:
  "buffered_entries (prune_archive_entries sample_buffer 7) = [sample_entry 9]"
proof -
  have "get_archive_entries sample_buffer 2 = [sample_entry 5, sample_entry 7]"
    by (simp add: get_archive_entries_def sample_buffer_entries)
  from archive_buffer_fetch_then_prune [OF sample_buffer_ok this]
  show ?thesis
    by (simp add: buffered_entries_def [of sample_buffer] sample_buffer_entries sample_entry_def)
qed

end
