(* ===== verification/Delegation.thy ===== *)
theory Delegation
  imports Storage_State
begin

text \<open>
  \<open>delegation.rs\<close> and \<open>Account::calculate_seed\<close> of \<open>storage/account.rs\<close>: the blob that is
  hashed into the seed of a user's key, and the lifetime of delegations. SHA-256 (\<open>h\<close>), the
  DER encoding of canister signature keys (\<open>der\<close>) and \<open>Principal::self_authenticating\<close> (\<open>sa\<close>)
  belong to external crates and are parameters; the salt is an argument.
\<close>

section \<open>Decimal numbers and strings as bytes\<close>

text \<open>\<open>u64::to_string().bytes()\<close>.\<close>

fun decimal :: "nat \<Rightarrow> bytes" where
  "decimal n = (if n < 10 then [of_nat (48 + n)] else decimal (n div 10) @ [of_nat (48 + n mod 10)])"

declare decimal.simps [simp del]

fun decimal_value :: "bytes \<Rightarrow> nat" where
  "decimal_value bs = fold (\<lambda>b acc. acc * 10 + (unat b - 48)) bs 0"

lemma unat_digit: "d < 10 \<Longrightarrow> unat (of_nat (48 + d) :: u8) = 48 + d"
  by (simp add: unat_of_nat take_bit_eq_mod del: of_nat_add)

lemma decimal_value_decimal: "decimal_value (decimal n) = n"
proof (induction n rule: decimal.induct)
  case (1 n)
  show ?case
  proof (cases "n < 10")
    case True
    then show ?thesis by (subst decimal.simps) (simp add: unat_digit del: of_nat_add)
  next
    case False
    then show ?thesis
      using 1 by (subst decimal.simps) (simp add: unat_digit del: of_nat_add)
  qed
qed

lemma decimal_inj: "decimal m = decimal n \<longleftrightarrow> m = n"
  by (metis decimal_value_decimal)

lemma length_decimal: "n < 10 ^ Suc k \<Longrightarrow> length (decimal n) \<le> Suc k"
proof (induction k arbitrary: n)
  case 0
  then show ?case by (subst decimal.simps) simp
next
  case (Suc k)
  have "n div 10 < 10 ^ Suc k" using Suc.prems by (simp add: less_mult_imp_div_less)
  from Suc.IH [OF this] show ?case by (subst decimal.simps) simp
qed

lemma length_decimal_u64: "length (decimal (unat (x :: u64))) \<le> 20"
proof -
  have "unat x < 10 ^ Suc 19" using unat64_bound [of x] by simp
  from length_decimal [OF this] show ?thesis by simp
qed

lemma decimal_digits: "b \<in> set (decimal n) \<Longrightarrow> 48 \<le> unat b \<and> unat b \<le> 57"
proof (induction n rule: decimal.induct)
  case (1 n)
  then show ?case
    by (subst (asm) (2) decimal.simps) (auto simp: unat_digit simp del: of_nat_add split: if_splits)
qed

lemma decimal_nonempty [simp]: "decimal n \<noteq> []"
  by (subst decimal.simps) simp

text \<open>\<open>str::bytes\<close>.\<close>

definition string_bytes :: "string \<Rightarrow> bytes" where
  "string_bytes s = map (\<lambda>c. of_nat (of_char c)) s"

lemma string_bytes_inj: "string_bytes s = string_bytes t \<longleftrightarrow> s = t"
proof -
  have "inj (\<lambda>c :: char. of_nat (of_char c) :: u8)"
  proof (rule injI)
    fix c d :: char
    assume "(of_nat (of_char c) :: u8) = of_nat (of_char d)"
    then have "unat (of_nat (of_char c) :: u8) = unat (of_nat (of_char d) :: u8)" by simp
    then have "(of_char c :: nat) = of_char d"
      by (simp add: unat_of_nat take_bit_eq_mod)
    then show "c = d" by simp
  qed
  then show ?thesis by (simp add: string_bytes_def inj_map_eq_map)
qed

lemma length_string_bytes [simp]: "length (string_bytes s) = length s"
  by (simp add: string_bytes_def)

section \<open>Seeds\<close>

definition FRONTEND_HOSTNAME_LIMIT :: nat where "FRONTEND_HOSTNAME_LIMIT = 255"

text \<open>\<open>check_frontend_length\<close> traps on a longer hostname.\<close>

definition check_frontend_length :: "frontend_hostname \<Rightarrow> unit option" where
  "check_frontend_length frontend = (if length frontend > FRONTEND_HOSTNAME_LIMIT then None else Some ())"

definition ACCOUNT_SEED_PREFIX :: bytes where
  "ACCOUNT_SEED_PREFIX = string_bytes ''<account>''"

text \<open>A length byte (\<open>len() as u8\<close>, truncated) followed by the bytes.\<close>

definition length_prefixed :: "bytes \<Rightarrow> bytes" where
  "length_prefixed bs = of_nat (length bs) # bs"

definition anchor_seed_blob :: "bytes \<Rightarrow> anchor_number \<Rightarrow> frontend_hostname \<Rightarrow> bytes" where
  "anchor_seed_blob salt n frontend =
     length_prefixed salt @ length_prefixed (decimal (unat n)) @ length_prefixed (string_bytes frontend)"

definition account_seed_blob :: "bytes \<Rightarrow> account_number \<Rightarrow> frontend_hostname \<Rightarrow> bytes" where
  "account_seed_blob salt n frontend =
     length_prefixed salt @ length_prefixed ACCOUNT_SEED_PREFIX @ length_prefixed (decimal (unat n))
     @ length_prefixed (string_bytes frontend)"

definition calculate_anchor_seed ::
  "(bytes \<Rightarrow> bytes) \<Rightarrow> bytes \<Rightarrow> anchor_number \<Rightarrow> frontend_hostname \<Rightarrow> bytes" where
  "calculate_anchor_seed h salt n frontend = h (anchor_seed_blob salt n frontend)"

definition calculate_account_seed ::
  "(bytes \<Rightarrow> bytes) \<Rightarrow> bytes \<Rightarrow> account_number \<Rightarrow> frontend_hostname \<Rightarrow> bytes" where
  "calculate_account_seed h salt n frontend = h (account_seed_blob salt n frontend)"

definition get_principal ::
  "(bytes \<Rightarrow> bytes) \<Rightarrow> (bytes \<Rightarrow> bytes) \<Rightarrow> (bytes \<Rightarrow> principal) \<Rightarrow> bytes \<Rightarrow> anchor_number
     \<Rightarrow> frontend_hostname \<Rightarrow> principal option" where
  "get_principal h der sa salt n frontend =
     (case check_frontend_length frontend of
        None \<Rightarrow> None
      | Some _ \<Rightarrow> Some (sa (der (calculate_anchor_seed h salt n frontend))))"

section \<open>Lifetime of a delegation\<close>

definition DEFAULT_EXPIRATION_PERIOD_NS :: u64 where "DEFAULT_EXPIRATION_PERIOD_NS = 30 * MINUTE_NS"
definition MAX_EXPIRATION_PERIOD_NS :: u64 where "MAX_EXPIRATION_PERIOD_NS = 30 * DAY_NS"

definition session_duration_ns :: "u64 option \<Rightarrow> u64" where
  "session_duration_ns max_ttl =
     min (case max_ttl of None \<Rightarrow> DEFAULT_EXPIRATION_PERIOD_NS | Some t \<Rightarrow> t) MAX_EXPIRATION_PERIOD_NS"

definition delegation_expiration :: "timestamp \<Rightarrow> u64 option \<Rightarrow> timestamp" where
  "delegation_expiration now max_ttl = saturating_add64 now (session_duration_ns max_ttl)"

section \<open>Properties\<close>

lemma length_prefixed_append:
  assumes "length_prefixed a @ x = length_prefixed b @ y" and "length a < 256" and "length b < 256"
  shows "a = b \<and> x = y"
proof -
  have "(of_nat (length a) :: u8) = of_nat (length b)" "a @ x = b @ y"
    using assms(1) by (auto simp: length_prefixed_def)
  then have "unat (of_nat (length a) :: u8) = unat (of_nat (length b) :: u8)" by simp
  then have "length a = length b"
    using assms(2,3) by (simp add: unat_of_nat take_bit_eq_mod)
  with \<open>a @ x = b @ y\<close> show ?thesis by simp
qed

lemma length_decimal_byte: "length (decimal (unat (x :: u64))) < 256"
  using length_decimal_u64 [of x] by simp

lemma anchor_seed_blob_inj:
  assumes "anchor_seed_blob salt m f = anchor_seed_blob salt n g"
    and "length salt < 256" and "length f < 256" and "length g < 256"
  shows "m = n \<and> f = g"
proof -
  from assms(1) have rest: "length_prefixed (decimal (unat m)) @ length_prefixed (string_bytes f)
      = length_prefixed (decimal (unat n)) @ length_prefixed (string_bytes g)"
    by (simp add: anchor_seed_blob_def)
  from length_prefixed_append [OF this length_decimal_byte length_decimal_byte]
  have "unat m = unat n" and "length_prefixed (string_bytes f) = length_prefixed (string_bytes g)"
    by (simp_all add: decimal_inj)
  then show ?thesis
    by (auto simp: length_prefixed_def string_bytes_inj intro: unat64_eqI)
qed

lemma account_seed_blob_inj:
  assumes "account_seed_blob salt m f = account_seed_blob salt n g"
    and "length f < 256" and "length g < 256"
  shows "m = n \<and> f = g"
proof -
  from assms(1) have rest: "length_prefixed (decimal (unat m)) @ length_prefixed (string_bytes f)
      = length_prefixed (decimal (unat n)) @ length_prefixed (string_bytes g)"
    by (simp add: account_seed_blob_def)
  from length_prefixed_append [OF this length_decimal_byte length_decimal_byte]
  have "unat m = unat n" and "length_prefixed (string_bytes f) = length_prefixed (string_bytes g)"
    by (simp_all add: decimal_inj)
  then show ?thesis
    by (auto simp: length_prefixed_def string_bytes_inj intro: unat64_eqI)
qed

lemma anchor_account_blobs_differ: "anchor_seed_blob salt m f \<noteq> account_seed_blob salt n g"
proof
  assume "anchor_seed_blob salt m f = account_seed_blob salt n g"
  then have "length_prefixed (decimal (unat m)) @ length_prefixed (string_bytes f)
      = length_prefixed ACCOUNT_SEED_PREFIX @ length_prefixed (decimal (unat n)) @ length_prefixed (string_bytes g)"
    by (simp add: anchor_seed_blob_def account_seed_blob_def)
  from length_prefixed_append [OF this length_decimal_byte] have "decimal (unat m) = ACCOUNT_SEED_PREFIX"
    by (simp add: ACCOUNT_SEED_PREFIX_def)
  then have "(60 :: u8) \<in> set (decimal (unat m))"
    by (simp add: ACCOUNT_SEED_PREFIX_def string_bytes_def)
  from decimal_digits [OF this] show False by simp
qed

text \<open>
  Property C14. The byte strings hashed into key seeds are injective and domain separated:
  for hostnames within the limit, two anchor blobs are equal only for the same anchor and
  hostname, two account blobs only for the same account number and hostname, and an anchor
  blob never equals an account blob. So principals of different users, accounts or
  applications can only coincide through a collision of SHA-256.
\<close>

theorem seed_blobs_separate:
  assumes "length salt < 256"
    and "check_frontend_length f = Some ()" and "check_frontend_length g = Some ()"
  shows "(anchor_seed_blob salt m f = anchor_seed_blob salt n g \<longleftrightarrow> m = n \<and> f = g)
    \<and> (account_seed_blob salt m f = account_seed_blob salt n g \<longleftrightarrow> m = n \<and> f = g)
    \<and> anchor_seed_blob salt m f \<noteq> account_seed_blob salt n g"
proof -
  have "length f < 256" "length g < 256"
    using assms(2,3) by (auto simp: check_frontend_length_def FRONTEND_HOSTNAME_LIMIT_def split: if_splits)
  then show ?thesis
    using assms(1) anchor_seed_blob_inj account_seed_blob_inj anchor_account_blobs_differ by blast
qed

theorem seed_blobs_separate_witness:
  "anchor_seed_blob (replicate 32 7) 10000 ''a'' \<noteq> anchor_seed_blob (replicate 32 7) 10000 ''b''"
  using seed_blobs_separate [of "replicate 32 7" "''a''" "''b''" 10000 10000]
  by (simp add: check_frontend_length_def FRONTEND_HOSTNAME_LIMIT_def)

text \<open>
  Property C15. A delegation never outlives 30 days and never expires before it is issued,
  whatever lifetime the client asks for, also when the clock is close to the end of the 64-bit
  range; without a request it lasts 30 minutes, and a request below the maximum is honoured.
\<close>

theorem delegation_lifetime_bounded:
  "unat (delegation_expiration now max_ttl) \<le> unat now + 2592000000000000
   \<and> unat now \<le> unat (delegation_expiration now max_ttl)
   \<and> (unat now + 2592000000000000 < 2 ^ 64 \<longrightarrow>
        unat (delegation_expiration now None) = unat now + 1800000000000)
   \<and> (unat t \<le> 2592000000000000 \<and> unat now + unat t < 2 ^ 64 \<longrightarrow>
        unat (delegation_expiration now (Some t)) = unat now + unat t)"
proof -
  have dur: "unat (session_duration_ns r) =
      min (unat (case r of None \<Rightarrow> DEFAULT_EXPIRATION_PERIOD_NS | Some t \<Rightarrow> t)) 2592000000000000" for r
    by (simp add: session_duration_ns_def MAX_EXPIRATION_PERIOD_NS_def min_def word_le_nat_alt)
  have default: "unat DEFAULT_EXPIRATION_PERIOD_NS = 1800000000000"
    by (simp add: DEFAULT_EXPIRATION_PERIOD_NS_def)
  show ?thesis
    using unat64_bound [of now]
    by (simp add: delegation_expiration_def unat_saturating_add64 dur default)
qed

theorem delegation_lifetime_bounded_witness:
  "unat (delegation_expiration 5 (Some 7)) = 12"
  using delegation_lifetime_bounded [of 5 None 7] by simp

end
