(* ===== verification/Accounts.thy ===== *)
theory Accounts
  imports Storage_Properties Delegation
begin

text \<open>
  Accounts and applications: \<open>storage/account.rs\<close>, the account operations of \<open>storage.rs\<close>
  (lines 1078-1812) and \<open>account_management.rs\<close> (lines 39-421).

  An operation takes the storage and returns \<open>None\<close> when it traps; otherwise the new storage
  and the \<open>Result\<close>. An operation that returns an error keeps the changes it made before, as a
  canister message does. \<open>sha\<close> is SHA-256; \<open>fits\<close> and \<open>fits_d\<close> say for which values the two stable
  cells can be written (\<open>StableCell::set\<close> fails only when the memory cannot grow).
\<close>

section \<open>Operations with state and errors\<close>

type_synonym ('s, 'e, 'a) op_result = "('s \<times> ('e + 'a)) option"

definition op_bind ::
  "('s, 'e, 'a) op_result \<Rightarrow> ('a \<Rightarrow> 's \<Rightarrow> ('s, 'e, 'b) op_result) \<Rightarrow> ('s, 'e, 'b) op_result" where
  "op_bind m f =
     (case m of
        None \<Rightarrow> None
      | Some (s, Inl e) \<Rightarrow> Some (s, Inl e)
      | Some (s, Inr x) \<Rightarrow> f x s)"

definition op_map_err :: "('e \<Rightarrow> 'f) \<Rightarrow> ('s, 'e, 'a) op_result \<Rightarrow> ('s, 'f, 'a) op_result" where
  "op_map_err g m =
     (case m of
        None \<Rightarrow> None
      | Some (s, Inl e) \<Rightarrow> Some (s, Inl (g e))
      | Some (s, Inr x) \<Rightarrow> Some (s, Inr x))"

lemma op_bind_Inr:
  "op_bind m f = Some (s', Inr y) \<longleftrightarrow> (\<exists>s x. m = Some (s, Inr x) \<and> f x s = Some (s', Inr y))"
  by (auto simp: op_bind_def split: option.splits sum.splits)

lemma op_bind_Some:
  "op_bind m f = Some (s', r) \<longleftrightarrow>
     (\<exists>e. m = Some (s', Inl e) \<and> r = Inl e) \<or> (\<exists>s x. m = Some (s, Inr x) \<and> f x s = Some (s', r))"
  by (auto simp: op_bind_def split: option.splits sum.splits)

section \<open>Accounts\<close>

record account =
  acc_account_number :: "account_number option"
  acc_anchor_number :: anchor_number
  acc_origin :: frontend_hostname
  acc_last_used :: "timestamp option"
  acc_name :: "string option"
  acc_seed_from_anchor :: "anchor_number option"

record account_info =
  ai_account_number :: "account_number option"
  ai_origin :: frontend_hostname
  ai_last_used :: "timestamp option"
  ai_name :: "string option"

definition account_new_full ::
  "anchor_number \<Rightarrow> frontend_hostname \<Rightarrow> string option \<Rightarrow> account_number option
     \<Rightarrow> timestamp option \<Rightarrow> anchor_number option \<Rightarrow> account" where
  "account_new_full n origin name k last_used seed =
     \<lparr>acc_account_number = k, acc_anchor_number = n, acc_origin = origin, acc_last_used = last_used,
      acc_name = name, acc_seed_from_anchor = seed\<rparr>"

definition account_new_with_last_used ::
  "anchor_number \<Rightarrow> frontend_hostname \<Rightarrow> string option \<Rightarrow> account_number option
     \<Rightarrow> timestamp option \<Rightarrow> account" where
  "account_new_with_last_used n origin name k last_used = account_new_full n origin name k last_used None"

definition account_new ::
  "anchor_number \<Rightarrow> frontend_hostname \<Rightarrow> string option \<Rightarrow> account_number option \<Rightarrow> account" where
  "account_new n origin name k = account_new_full n origin name k None None"

definition account_synthetic :: "anchor_number \<Rightarrow> frontend_hostname \<Rightarrow> account" where
  "account_synthetic n origin = account_new_full n origin None None None None"

definition account_to_info :: "account \<Rightarrow> account_info" where
  "account_to_info a =
     \<lparr>ai_account_number = acc_account_number a, ai_origin = acc_origin a,
      ai_last_used = acc_last_used a, ai_name = acc_name a\<rparr>"

text \<open>
  \<open>calculate_seed\<close>; the blob before hashing is kept as a definition of its own. The trapping
  last branch is unreachable and yields \<open>None\<close>.
\<close>

definition account_blob :: "bytes \<Rightarrow> account \<Rightarrow> bytes option" where
  "account_blob salt a =
     (if acc_account_number a = None
      then Some (anchor_seed_blob salt (acc_anchor_number a) (acc_origin a))
      else
        (case (acc_seed_from_anchor a, acc_account_number a) of
           (Some seed_from_anchor, _) \<Rightarrow> Some (anchor_seed_blob salt seed_from_anchor (acc_origin a))
         | (None, Some k) \<Rightarrow> Some (account_seed_blob salt k (acc_origin a))
         | (None, None) \<Rightarrow> None))"

definition calculate_seed :: "(bytes \<Rightarrow> bytes) \<Rightarrow> bytes \<Rightarrow> account \<Rightarrow> bytes option" where
  "calculate_seed h salt a = map_option h (account_blob salt a)"

definition ACCOUNT_NAME_LIMIT :: nat where "ACCOUNT_NAME_LIMIT = 255"

definition validate_account_name :: "string \<Rightarrow> bool" where
  "validate_account_name name \<longleftrightarrow> \<not> length name > ACCOUNT_NAME_LIMIT"

section \<open>Counters\<close>

datatype account_type = TypeAccountReference | TypeAccount

text \<open>\<open>StorableAccountsCounter::increment\<close> traps on overflow (\<open>checked_add .. expect\<close>).\<close>

fun counter_increment :: "account_type \<Rightarrow> accounts_counter \<Rightarrow> accounts_counter option" where
  "counter_increment TypeAccountReference c =
     (if stored_account_references c = - 1 then None
      else Some (c\<lparr>stored_account_references := stored_account_references c + 1\<rparr>))"
| "counter_increment TypeAccount c =
     (if stored_accounts c = - 1 then None
      else Some (c\<lparr>stored_accounts := stored_accounts c + 1\<rparr>))"

definition zero_counter :: accounts_counter where
  "zero_counter = \<lparr>stored_accounts = 0, stored_account_references = 0\<rparr>"

definition get_account_counter :: "storage \<Rightarrow> anchor_number \<Rightarrow> accounts_counter" where
  "get_account_counter s n =
     (case om_get (st_anchor_counters s) n of None \<Rightarrow> zero_counter | Some c \<Rightarrow> c)"

definition get_total_accounts_counter :: "storage \<Rightarrow> accounts_counter" where
  "get_total_accounts_counter s = st_account_counter s"

definition get_total_application_count :: "storage \<Rightarrow> u64" where
  "get_total_application_count s = of_nat (om_len (st_applications s))"

definition allocate_account_number ::
  "(accounts_counter \<Rightarrow> bool) \<Rightarrow> storage \<Rightarrow> (storage, storage_error, account_number) op_result" where
  "allocate_account_number fits s =
     (case counter_increment TypeAccount (st_account_counter s) of
        None \<Rightarrow> None
      | Some c \<Rightarrow>
          if fits c then Some (s\<lparr>st_account_counter := c\<rparr>, Inr (stored_accounts c))
          else Some (s, Inl ErrorUpdatingAccountCounter))"

fun application_increment :: "account_type \<Rightarrow> storable_application \<Rightarrow> storable_application" where
  "application_increment TypeAccount a = a\<lparr>app_stored_accounts := app_stored_accounts a + 1\<rparr>"
| "application_increment TypeAccountReference a =
     a\<lparr>app_stored_account_references := app_stored_account_references a + 1\<rparr>"

definition update_counters ::
  "(accounts_counter \<Rightarrow> bool) \<Rightarrow> application_number \<Rightarrow> anchor_number \<Rightarrow> account_type \<Rightarrow> storage
     \<Rightarrow> (storage, storage_error, unit) op_result" where
  "update_counters fits app n ty s =
     (case counter_increment ty (get_account_counter s n) of
        None \<Rightarrow> None
      | Some c \<Rightarrow>
          (let s1 = s\<lparr>st_anchor_counters := om_insert n c (st_anchor_counters s)\<rparr>;
               bump_app = (\<lambda>t. case om_get (st_applications t) app of
                   None \<Rightarrow> Some (t, Inr ())
                 | Some a \<Rightarrow> Some (t\<lparr>st_applications :=
                     om_insert app (application_increment ty a) (st_applications t)\<rparr>, Inr ()))
           in
           if ty = TypeAccountReference
           then
             (case counter_increment ty (st_account_counter s1) of
                None \<Rightarrow> None
              | Some g \<Rightarrow>
                  if fits g then bump_app (s1\<lparr>st_account_counter := g\<rparr>)
                  else Some (s1, Inl ErrorUpdatingAccountCounter))
           else bump_app s1))"

section \<open>Applications and account references\<close>

definition lookup_application_number_with_origin ::
  "(bytes \<Rightarrow> bytes) \<Rightarrow> storage \<Rightarrow> frontend_hostname \<Rightarrow> application_number option" where
  "lookup_application_number_with_origin sha s origin =
     om_get (st_application_by_origin s) (sha (string_bytes origin))"

definition lookup_or_insert_application_number_with_origin ::
  "(bytes \<Rightarrow> bytes) \<Rightarrow> storage \<Rightarrow> frontend_hostname \<Rightarrow> storage \<times> application_number" where
  "lookup_or_insert_application_number_with_origin sha s origin =
     (case om_get (st_application_by_origin s) (sha (string_bytes origin)) of
        Some existing_number \<Rightarrow> (s, existing_number)
      | None \<Rightarrow>
          (let new_number = of_nat (om_len (st_application_by_origin s)) in
           (s\<lparr>st_application_by_origin :=
                om_insert (sha (string_bytes origin)) new_number (st_application_by_origin s),
              st_applications :=
                om_insert new_number
                  \<lparr>app_origin = origin, app_stored_accounts = 0, app_stored_account_references = 0\<rparr>
                  (st_applications s)\<rparr>, new_number)))"

definition lookup_account_references ::
  "storage \<Rightarrow> anchor_number \<Rightarrow> application_number \<Rightarrow> account_reference list option" where
  "lookup_account_references s n app = om_get (st_account_refs s) (n, app)"

definition find_account_references ::
  "storage \<Rightarrow> anchor_number \<Rightarrow> application_number option
     \<Rightarrow> ((anchor_number \<times> application_number) \<times> account_reference list) option" where
  "find_account_references s n app =
     (case app of
        None \<Rightarrow> None
      | Some app \<Rightarrow> map_option (Pair (n, app)) (om_get (st_account_refs s) (n, app)))"

definition find_account_reference ::
  "storage \<Rightarrow> anchor_number \<Rightarrow> application_number option \<Rightarrow> account_number option
     \<Rightarrow> account_reference option" where
  "find_account_reference s n app k =
     (case find_account_references s n app of
        None \<Rightarrow> None
      | Some (_, refs) \<Rightarrow> find (\<lambda>r. ar_account_number r = k) refs)"

text \<open>
  \<open>with_account_mut\<close>: the callback returns its result with the reference and the account as it
  left them. The first matching reference is used; the list (and the account) is written back
  even when none matches.
\<close>

definition with_account_mut ::
  "storage \<Rightarrow> anchor_number \<Rightarrow> application_number option \<Rightarrow> account_number option
     \<Rightarrow> (account_reference \<Rightarrow> storable_account option
          \<Rightarrow> 't \<times> account_reference \<times> storable_account option)
     \<Rightarrow> storage \<times> 't option" where
  "with_account_mut s n app maybe_number f =
     (case maybe_number of
        None \<Rightarrow>
          (case find_account_references s n app of
             None \<Rightarrow> (s, None)
           | Some (key, refs) \<Rightarrow>
               (case position (\<lambda>r. ar_account_number r = None) refs of
                  None \<Rightarrow> (s\<lparr>st_account_refs := om_insert key refs (st_account_refs s)\<rparr>, None)
                | Some i \<Rightarrow>
                    (case f (refs ! i) None of
                       (result, r, _) \<Rightarrow>
                         (s\<lparr>st_account_refs := om_insert key (refs[i := r]) (st_account_refs s)\<rparr>,
                          Some result))))
      | Some number \<Rightarrow>
          (case om_get (st_accounts s) number of
             None \<Rightarrow> (s, None)
           | Some stored \<Rightarrow>
               (case find_account_references s n app of
                  None \<Rightarrow> (s, None)
                | Some (key, refs) \<Rightarrow>
                    (case position (\<lambda>r. ar_account_number r = Some number) refs of
                       None \<Rightarrow>
                         (s\<lparr>st_account_refs := om_insert key refs (st_account_refs s),
                            st_accounts := om_insert number stored (st_accounts s)\<rparr>, None)
                     | Some i \<Rightarrow>
                         (case f (refs ! i) (Some stored) of
                            (result, r, a) \<Rightarrow>
                              (s\<lparr>st_account_refs := om_insert key (refs[i := r]) (st_account_refs s),
                                 st_accounts := om_insert number
                                   (case a of None \<Rightarrow> stored | Some a' \<Rightarrow> a') (st_accounts s)\<rparr>,
                               Some result))))))"

definition set_account_last_used ::
  "(bytes \<Rightarrow> bytes) \<Rightarrow> storage \<Rightarrow> anchor_number \<Rightarrow> frontend_hostname \<Rightarrow> account_number option
     \<Rightarrow> timestamp \<Rightarrow> storage \<times> unit option" where
  "set_account_last_used sha s n origin k now =
     with_account_mut s n (lookup_application_number_with_origin sha s origin) k
       (\<lambda>r a. ((), r\<lparr>ar_last_used := Some now\<rparr>, a))"

definition lookup_anchor_application_config ::
  "storage \<Rightarrow> anchor_number \<Rightarrow> application_number \<Rightarrow> anchor_application_config" where
  "lookup_anchor_application_config s n app =
     (case om_get (st_app_configs s) (n, app) of
        Some config \<Rightarrow> config
      | None \<Rightarrow> \<lparr>default_account_number = None\<rparr>)"

definition set_anchor_application_config ::
  "storage \<Rightarrow> anchor_number \<Rightarrow> application_number \<Rightarrow> anchor_application_config \<Rightarrow> storage" where
  "set_anchor_application_config s n app config =
     s\<lparr>st_app_configs := om_insert (n, app) config (st_app_configs s)\<rparr>"

text \<open>The inclusive range from \<open>(anchor, u64::MIN)\<close> to \<open>(anchor, u64::MAX)\<close>.\<close>

definition list_identity_account_references :: "storage \<Rightarrow> anchor_number \<Rightarrow> account_reference list" where
  "list_identity_account_references s n =
     concat (map snd (om_range (\<lambda>k. (n, 0) \<le> k \<and> k \<le> (n, - 1)) (st_account_refs s)))"

definition increment_discrepancy_counter :: "(u64 \<Rightarrow> bool) \<Rightarrow> storage \<Rightarrow> storage option" where
  "increment_discrepancy_counter fits_d s =
     (if st_discrepancies s = - 1 then None
      else if fits_d (st_discrepancies s + 1) then Some (s\<lparr>st_discrepancies := st_discrepancies s + 1\<rparr>)
      else Some s)"

definition rebuild_identity_account_counters ::
  "(u64 \<Rightarrow> bool) \<Rightarrow> storage \<Rightarrow> anchor_number \<Rightarrow> storage option" where
  "rebuild_identity_account_counters fits_d s n =
     (case increment_discrepancy_counter fits_d s of
        None \<Rightarrow> None
      | Some s1 \<Rightarrow>
          (let refs = list_identity_account_references s1 n in
           Some (s1\<lparr>st_anchor_counters := om_insert n
             \<lparr>stored_accounts = of_nat (length (filter (\<lambda>r. ar_account_number r \<noteq> None) refs)),
              stored_account_references = of_nat (length refs)\<rparr> (st_anchor_counters s1)\<rparr>)))"

section \<open>Creating and updating accounts\<close>

definition new_reference :: "account_number option \<Rightarrow> account_reference" where
  "new_reference k = \<lparr>ar_account_number = k, ar_last_used = None\<rparr>"

definition create_additional_account ::
  "(bytes \<Rightarrow> bytes) \<Rightarrow> (accounts_counter \<Rightarrow> bool) \<Rightarrow> storage \<Rightarrow> anchor_number
     \<Rightarrow> frontend_hostname \<Rightarrow> string \<Rightarrow> (storage, storage_error, account) op_result" where
  "create_additional_account sha fits s n origin name =
     (case check_frontend_length origin of
        None \<Rightarrow> None
      | Some _ \<Rightarrow>
          op_bind (allocate_account_number fits s) (\<lambda>k s.
          (case lookup_or_insert_application_number_with_origin sha
                 (s\<lparr>st_accounts := om_insert k \<lparr>sac_name = name, sac_seed_from_anchor = None\<rparr> (st_accounts s)\<rparr>)
                 origin of (s, app) \<Rightarrow>
           op_bind (update_counters fits app n TypeAccount s) (\<lambda>_ s.
           op_bind
             (case om_get (st_account_refs s) (n, app) of
                None \<Rightarrow>
                  op_bind (update_counters fits app n TypeAccountReference s) (\<lambda>_ s.
                  op_bind (update_counters fits app n TypeAccountReference s) (\<lambda>_ s.
                  Some (s\<lparr>st_account_refs := om_insert (n, app)
                    [new_reference None, new_reference (Some k)] (st_account_refs s)\<rparr>, Inr ())))
              | Some refs \<Rightarrow>
                  op_bind (update_counters fits app n TypeAccountReference s) (\<lambda>_ s.
                  Some (s\<lparr>st_account_refs := om_insert (n, app)
                    (refs @ [new_reference (Some k)]) (st_account_refs s)\<rparr>, Inr ())))
             (\<lambda>_ s. Some (s, Inr (account_new n origin (Some name) (Some k))))))))"

definition create_default_account ::
  "(bytes \<Rightarrow> bytes) \<Rightarrow> (accounts_counter \<Rightarrow> bool) \<Rightarrow> storage \<Rightarrow> anchor_number
     \<Rightarrow> frontend_hostname \<Rightarrow> string \<Rightarrow> (storage, storage_error, account) op_result" where
  "create_default_account sha fits s n origin name =
     op_bind (allocate_account_number fits s) (\<lambda>k s.
     (case lookup_or_insert_application_number_with_origin sha
            (s\<lparr>st_accounts := om_insert k \<lparr>sac_name = name, sac_seed_from_anchor = Some n\<rparr> (st_accounts s)\<rparr>)
            origin of (s, app) \<Rightarrow>
      (let config = (lookup_anchor_application_config s n app)\<lparr>default_account_number := Some k\<rparr> in
       op_bind (update_counters fits app n TypeAccount (set_anchor_application_config s n app config)) (\<lambda>_ s.
       op_bind
         (case om_get (st_account_refs s) (n, app) of
            None \<Rightarrow>
              update_counters fits app n TypeAccountReference
                (s\<lparr>st_account_refs := om_insert (n, app) [new_reference (Some k)] (st_account_refs s)\<rparr>)
          | Some refs \<Rightarrow>
              (case position (\<lambda>r. ar_account_number r = None) refs of
                 None \<Rightarrow> Some (s, Inl (MissingAccount n name))
               | Some i \<Rightarrow>
                   Some (s\<lparr>st_account_refs := om_insert (n, app)
                     (refs[i := (refs ! i)\<lparr>ar_account_number := Some k\<rparr>]) (st_account_refs s)\<rparr>, Inr ())))
         (\<lambda>_ s. Some (s, Inr (account_new_full n origin (Some name) (Some k) None (Some n))))))))"

definition update_existing_account ::
  "(bytes \<Rightarrow> bytes) \<Rightarrow> storage \<Rightarrow> account_number \<Rightarrow> anchor_number \<Rightarrow> string \<Rightarrow> frontend_hostname
     \<Rightarrow> storage \<times> (storage_error + account)" where
  "update_existing_account sha s k n name origin =
     (case with_account_mut s n (lookup_application_number_with_origin sha s origin) (Some k)
             (\<lambda>r a. case (ar_account_number r, a) of
                (Some number, Some stored) \<Rightarrow>
                  (Some (account_new_full n origin (Some name) (Some number) (ar_last_used r)
                           (sac_seed_from_anchor stored)),
                   r, Some (stored\<lparr>sac_name := name\<rparr>))
              | _ \<Rightarrow> (None, r, a)) of
        (s', Some (Some account)) \<Rightarrow> (s', Inr account)
      | (s', _) \<Rightarrow> (s', Inl (AccountNotFound k)))"

definition update_account ::
  "(bytes \<Rightarrow> bytes) \<Rightarrow> (accounts_counter \<Rightarrow> bool) \<Rightarrow> storage \<Rightarrow> account_number option
     \<Rightarrow> anchor_number \<Rightarrow> string \<Rightarrow> frontend_hostname \<Rightarrow> (storage, storage_error, account) op_result" where
  "update_account sha fits s k n name origin =
     (case check_frontend_length origin of
        None \<Rightarrow> None
      | Some _ \<Rightarrow>
          (case k of
             Some k \<Rightarrow> Some (update_existing_account sha s k n name origin)
           | None \<Rightarrow> create_default_account sha fits s n origin name))"

section \<open>Reading accounts\<close>

definition read_account ::
  "(bytes \<Rightarrow> bytes) \<Rightarrow> storage \<Rightarrow> account_number option \<Rightarrow> anchor_number \<Rightarrow> frontend_hostname
     \<Rightarrow> application_number option \<Rightarrow> account option option" where
  "read_account sha s k n origin known_app =
     (case check_frontend_length origin of
        None \<Rightarrow> None
      | Some _ \<Rightarrow>
          (let app = (case known_app of
                        Some app \<Rightarrow> Some app
                      | None \<Rightarrow> lookup_application_number_with_origin sha s origin) in
           Some (case k of
             None \<Rightarrow>
               (case app of
                  None \<Rightarrow> Some (account_new n origin None None)
                | Some app \<Rightarrow>
                    (case lookup_account_references s n app of
                       None \<Rightarrow> Some (account_new n origin None None)
                     | Some refs \<Rightarrow>
                         if refs = [] then Some (account_new n origin None None)
                         else map_option
                           (\<lambda>r. account_new_with_last_used n origin None (ar_account_number r) (ar_last_used r))
                           (find (\<lambda>r. ar_account_number r = None) refs)))
           | Some number \<Rightarrow>
               (case om_get (st_accounts s) number of
                  None \<Rightarrow> None
                | Some stored \<Rightarrow>
                    map_option
                      (\<lambda>r. account_new_full n origin (Some (sac_name stored)) (Some number)
                             (ar_last_used r) (sac_seed_from_anchor stored))
                      (find_account_reference s n app k)))))"

definition list_accounts ::
  "(bytes \<Rightarrow> bytes) \<Rightarrow> storage \<Rightarrow> anchor_number \<Rightarrow> frontend_hostname \<Rightarrow> account list option" where
  "list_accounts sha s n origin =
     (case check_frontend_length origin of
        None \<Rightarrow> None
      | Some _ \<Rightarrow>
          (case lookup_application_number_with_origin sha s origin of
             None \<Rightarrow> Some [account_synthetic n origin]
           | Some app \<Rightarrow>
               (case lookup_account_references s n app of
                  None \<Rightarrow> Some [account_synthetic n origin]
                | Some refs \<Rightarrow>
                    map_option (List.map_filter id)
                      (those (map (\<lambda>r. read_account sha s (ar_account_number r) n origin (Some app)) refs)))))"

end
