(* ===== verification/Account_Management.thy ===== *)
theory Account_Management
  imports Accounts
begin

text \<open>
  \<open>account_management.rs\<close> (lines 39-421): the operations on accounts the canister offers. The
  operations to be archived are part of the result of a successful call (\<open>post_operation_bookkeeping\<close>
  hands them to the archive). Error messages that only carry a formatted storage error keep that
  error instead of its text; messages built from fixed text are kept as the constructor alone.
\<close>

section \<open>Errors\<close>

datatype create_account_error =
    CreateInternalCanisterError storage_error
  | CreateAccountLimitReached
  | CreateNameTooLong

datatype update_account_error =
    UpdateInternalCanisterError storage_error
  | UpdateNoNameProvided
  | UpdateAccountLimitReached
  | UpdateNameTooLong

datatype get_account_error =
    GetNoSuchOrigin anchor_number
  | GetNoSuchAccount anchor_number frontend_hostname

datatype get_default_account_error = GetDefaultInternalCanisterError

datatype set_default_account_error = SetDefaultNoSuchAccount anchor_number frontend_hostname

definition MAX_ANCHOR_ACCOUNTS :: u64 where "MAX_ANCHOR_ACCOUNTS = 500"

section \<open>The account limit\<close>

text \<open>\<open>check_or_rebuild_max_anchor_accounts\<close>; the flag makes the recursion at most one deep.\<close>

function check_or_rebuild_max_anchor_accounts ::
  "(u64 \<Rightarrow> bool) \<Rightarrow> storage \<Rightarrow> anchor_number \<Rightarrow> u64 \<Rightarrow> bool \<Rightarrow> (storage \<times> bool) option" where
  "check_or_rebuild_max_anchor_accounts fits_d s n max_accounts first_time =
     (if stored_accounts (get_account_counter s n) \<ge> max_accounts
      then
        if first_time
        then (case rebuild_identity_account_counters fits_d s n of
                None \<Rightarrow> None
              | Some s1 \<Rightarrow> check_or_rebuild_max_anchor_accounts fits_d s1 n max_accounts False)
        else Some (s, False)
      else Some (s, True))"
  by pat_completeness auto
termination
  by (relation "measure (\<lambda>(_, _, _, _, first_time). if first_time then 1 else 0)") auto

declare check_or_rebuild_max_anchor_accounts.simps [simp del]

section \<open>Reading accounts\<close>

definition get_accounts_for_origin ::
  "(bytes \<Rightarrow> bytes) \<Rightarrow> storage \<Rightarrow> anchor_number \<Rightarrow> frontend_hostname \<Rightarrow> account list option" where
  "get_accounts_for_origin sha s n origin = list_accounts sha s n origin"

text \<open>The error of \<open>try_read_account\<close> is a fixed message, here \<open>None\<close> inside the trap option.\<close>

definition try_read_account ::
  "(bytes \<Rightarrow> bytes) \<Rightarrow> storage \<Rightarrow> anchor_number \<Rightarrow> frontend_hostname \<Rightarrow> application_number
     \<Rightarrow> account_number \<Rightarrow> account option option" where
  "try_read_account sha s n origin app k = read_account sha s (Some k) n origin (Some app)"

definition try_read_account_info ::
  "(bytes \<Rightarrow> bytes) \<Rightarrow> storage \<Rightarrow> anchor_number \<Rightarrow> frontend_hostname \<Rightarrow> application_number
     \<Rightarrow> account_number \<Rightarrow> account_info option option" where
  "try_read_account_info sha s n origin app k =
     map_option (map_option account_to_info) (try_read_account sha s n origin app k)"

definition get_account_for_origin ::
  "(bytes \<Rightarrow> bytes) \<Rightarrow> storage \<Rightarrow> anchor_number \<Rightarrow> frontend_hostname \<Rightarrow> account_number option
     \<Rightarrow> (get_account_error + account) option" where
  "get_account_for_origin sha s n origin k =
     (case k of
        None \<Rightarrow> Some (Inr (account_synthetic n origin))
      | Some k \<Rightarrow>
          (case lookup_application_number_with_origin sha s origin of
             None \<Rightarrow> Some (Inl (GetNoSuchOrigin n))
           | Some app \<Rightarrow>
               (case try_read_account sha s n origin app k of
                  None \<Rightarrow> None
                | Some None \<Rightarrow> Some (Inl (GetNoSuchAccount n origin))
                | Some (Some account) \<Rightarrow> Some (Inr account))))"

definition get_default_account_for_origin ::
  "(bytes \<Rightarrow> bytes) \<Rightarrow> storage \<Rightarrow> anchor_number \<Rightarrow> frontend_hostname
     \<Rightarrow> (get_default_account_error + account_info) option" where
  "get_default_account_for_origin sha s n origin =
     (case lookup_application_number_with_origin sha s origin of
        None \<Rightarrow> Some (Inr (account_to_info (account_synthetic n origin)))
      | Some app \<Rightarrow>
          (case default_account_number (lookup_anchor_application_config s n app) of
             None \<Rightarrow> Some (Inr (account_to_info (account_synthetic n origin)))
           | Some k \<Rightarrow>
               (case try_read_account_info sha s n origin app k of
                  None \<Rightarrow> None
                | Some None \<Rightarrow> Some (Inl GetDefaultInternalCanisterError)
                | Some (Some info) \<Rightarrow> Some (Inr info))))"

section \<open>Changing accounts\<close>

definition set_default_account_for_origin ::
  "(bytes \<Rightarrow> bytes) \<Rightarrow> storage \<Rightarrow> anchor_number \<Rightarrow> frontend_hostname \<Rightarrow> account_number option
     \<Rightarrow> (storage, set_default_account_error, account_info) op_result" where
  "set_default_account_for_origin sha s n origin k =
     (case lookup_or_insert_application_number_with_origin sha s origin of
        (s1, app) \<Rightarrow>
          op_bind
            (case k of
               Some k \<Rightarrow>
                 (case try_read_account_info sha s1 n origin app k of
                    None \<Rightarrow> None
                  | Some None \<Rightarrow> Some (s1, Inl (SetDefaultNoSuchAccount n origin))
                  | Some (Some info) \<Rightarrow> Some (s1, Inr info))
             | None \<Rightarrow> Some (s1, Inr (account_to_info (account_synthetic n origin))))
            (\<lambda>info s2. Some (set_anchor_application_config s2 n app \<lparr>default_account_number = k\<rparr>, Inr info)))"

definition create_account_for_origin ::
  "(bytes \<Rightarrow> bytes) \<Rightarrow> (accounts_counter \<Rightarrow> bool) \<Rightarrow> (u64 \<Rightarrow> bool) \<Rightarrow> storage \<Rightarrow> anchor_number
     \<Rightarrow> frontend_hostname \<Rightarrow> string
     \<Rightarrow> (storage, create_account_error, account \<times> operation list) op_result" where
  "create_account_for_origin sha fits fits_d s n origin name =
     (if \<not> validate_account_name name then Some (s, Inl CreateNameTooLong)
      else
        (case check_or_rebuild_max_anchor_accounts fits_d s n MAX_ANCHOR_ACCOUNTS True of
           None \<Rightarrow> None
         | Some (s1, False) \<Rightarrow> Some (s1, Inl CreateAccountLimitReached)
         | Some (s1, True) \<Rightarrow>
             op_bind (op_map_err CreateInternalCanisterError
                        (create_additional_account sha fits s1 n origin name))
               (\<lambda>account s2. Some (s2, Inr (account, [CreateAccount])))))"

definition update_account_for_origin ::
  "(bytes \<Rightarrow> bytes) \<Rightarrow> (accounts_counter \<Rightarrow> bool) \<Rightarrow> (u64 \<Rightarrow> bool) \<Rightarrow> storage \<Rightarrow> anchor_number
     \<Rightarrow> account_number option \<Rightarrow> frontend_hostname \<Rightarrow> string option
     \<Rightarrow> (storage, update_account_error, account \<times> operation list) op_result" where
  "update_account_for_origin sha fits fits_d s n k origin update_name =
     (case update_name of
        None \<Rightarrow> Some (s, Inl UpdateNoNameProvided)
      | Some new_name \<Rightarrow>
          if \<not> validate_account_name new_name then Some (s, Inl UpdateNameTooLong)
          else
            (case (if k = None
                   then check_or_rebuild_max_anchor_accounts fits_d s n MAX_ANCHOR_ACCOUNTS True
                   else Some (s, True)) of
               None \<Rightarrow> None
             | Some (s1, False) \<Rightarrow> Some (s1, Inl UpdateAccountLimitReached)
             | Some (s1, True) \<Rightarrow>
                 (case read_account sha s1 k n origin None of
                    None \<Rightarrow> None
                  | Some None \<Rightarrow> None
                  | Some (Some old_account) \<Rightarrow>
                      op_bind (op_map_err UpdateInternalCanisterError
                                 (update_account sha fits s1 k n new_name origin))
                        (\<lambda>updated s2. Some (s2, Inr (updated,
                           (if k = None then [CreateAccount] else [])
                           @ [UpdateAccount (if acc_name updated = acc_name old_account then None else Some ())]))))))"

section \<open>Account delegations\<close>

text \<open>
  The signature map belongs to \<open>ic_canister_sig_creation\<close>: \<open>add_sig seed session_key expiration\<close>
  adds a signature to it and \<open>get_sig\<close> looks one up. \<open>caller\<close> is reported in the error, \<open>der\<close> encodes
  the user key from the seed. The salt has been set before (\<open>ensure_salt_set\<close>). Updating the usage
  statistics is not part of the model of this function.
\<close>

definition prepare_account_delegation ::
  "(bytes \<Rightarrow> bytes) \<Rightarrow> (bytes \<Rightarrow> bytes) \<Rightarrow> (bytes \<Rightarrow> bytes \<Rightarrow> timestamp \<Rightarrow> 'sigs \<Rightarrow> 'sigs) \<Rightarrow> bytes
     \<Rightarrow> principal \<Rightarrow> timestamp \<Rightarrow> storage \<Rightarrow> 'sigs \<Rightarrow> anchor_number \<Rightarrow> frontend_hostname
     \<Rightarrow> account_number option \<Rightarrow> bytes \<Rightarrow> u64 option
     \<Rightarrow> (storage \<times> 'sigs, principal, bytes \<times> timestamp) op_result" where
  "prepare_account_delegation sha der add_sig salt caller now s sigs n origin k session_key max_ttl =
     (case check_frontend_length origin of
        None \<Rightarrow> None
      | Some _ \<Rightarrow>
          (case read_account sha s k n origin None of
             None \<Rightarrow> None
           | Some None \<Rightarrow> Some ((s, sigs), Inl caller)
           | Some (Some account) \<Rightarrow>
               (case calculate_seed sha salt account of
                  None \<Rightarrow> None
                | Some seed \<Rightarrow>
                    Some ((fst (set_account_last_used sha s n origin k now),
                           add_sig seed session_key (delegation_expiration now max_ttl) sigs),
                          Inr (der seed, delegation_expiration now max_ttl)))))"

datatype account_delegation_error = DelegationUnauthorized principal | NoSuchDelegation

definition get_account_delegation ::
  "(bytes \<Rightarrow> bytes) \<Rightarrow> (bytes \<Rightarrow> bytes \<Rightarrow> timestamp \<Rightarrow> 'sigs \<Rightarrow> bytes option) \<Rightarrow> bytes
     \<Rightarrow> principal \<Rightarrow> storage \<Rightarrow> 'sigs \<Rightarrow> anchor_number \<Rightarrow> frontend_hostname
     \<Rightarrow> account_number option \<Rightarrow> bytes \<Rightarrow> timestamp
     \<Rightarrow> (account_delegation_error + bytes \<times> timestamp \<times> bytes) option" where
  "get_account_delegation sha get_sig salt caller s sigs n origin k session_key expiration =
     (case check_frontend_length origin of
        None \<Rightarrow> None
      | Some _ \<Rightarrow>
          (case read_account sha s k n origin None of
             None \<Rightarrow> None
           | Some None \<Rightarrow> Some (Inl (DelegationUnauthorized caller))
           | Some (Some account) \<Rightarrow>
               (case calculate_seed sha salt account of
                  None \<Rightarrow> None
                | Some seed \<Rightarrow>
                    Some (case get_sig seed session_key expiration sigs of
                       Some signature \<Rightarrow> Inr (session_key, expiration, signature)
                     | None \<Rightarrow> Inl NoSuchDelegation))))"

end
