(* ===== verification/Accounts_Invariant.thy ===== *)
theory Accounts_Invariant
  imports Account_Management
begin

text \<open>
  The invariant of accounts: which references exist, who owns an account number, how many
  accounts an anchor has, and that every operation on accounts preserves it, on its error
  paths too.
\<close>

section \<open>Sums over the entries of a map\<close>

lemma sum_entries_insert:
  fixes f :: "'k::linorder \<times> 'v \<Rightarrow> nat"
  assumes "sorted_entries xs"
  shows "sum_list (map f (filter P (ins_entry k v xs)))
      + (case map_of xs k of None \<Rightarrow> 0 | Some w \<Rightarrow> if P (k, w) then f (k, w) else 0)
    = sum_list (map f (filter P xs)) + (if P (k, v) then f (k, v) else 0)"
  using assms
proof (induction k v xs rule: ins_entry.induct)
  case (1 k v)
  then show ?case by simp
next
  case (2 k v a b xs)
  have "map_of xs k = None" if "k < a"
    using 2(2) that by (auto simp: map_of_eq_None_iff)
  moreover have "map_of xs a = None"
    using 2(2) by (auto simp: map_of_eq_None_iff)
  ultimately show ?case using 2 by (auto split: option.splits)
qed

section \<open>Counting the accounts of an anchor\<close>

definition stored_count :: "account_reference list \<Rightarrow> nat" where
  "stored_count refs = length (filter (\<lambda>r. ar_account_number r \<noteq> None) refs)"

definition account_count :: "storage \<Rightarrow> anchor_number \<Rightarrow> nat" where
  "account_count s n = stored_count (list_identity_account_references s n)"

definition refs_at :: "storage \<Rightarrow> anchor_number \<Rightarrow> application_number \<Rightarrow> account_reference list" where
  "refs_at s n app = or_default (om_get (st_account_refs s) (n, app))"

lemma in_anchor_range: "(n, 0) \<le> k \<and> k \<le> (n, - 1) \<longleftrightarrow> fst k = (n :: u64)" for k :: "u64 \<times> u64"
  by (cases k) (auto simp: less_eq_prod_def)

lemma account_count_sum:
  "account_count s n =
     sum_list (map (\<lambda>e. stored_count (snd e)) (filter (\<lambda>e. fst (fst e) = n) (om_entries (st_account_refs s))))"
  by (simp add: account_count_def list_identity_account_references_def stored_count_def om_range_def
      in_anchor_range filter_concat length_concat comp_def)

lemma account_count_update:
  assumes "st_account_refs t = om_insert (n, app) L (st_account_refs s)"
  shows "account_count t m + (if m = n then stored_count (refs_at s n app) else 0)
    = account_count s m + (if m = n then stored_count L else 0)"
  using sum_entries_insert [OF sorted_om_entries, of "\<lambda>e. stored_count (snd e)" "\<lambda>e. fst (fst e) = m"
      "(n, app)" L "st_account_refs s"]
  by (auto simp: account_count_sum assms om_entries_insert refs_at_def or_default_def stored_count_def
      om_get_entries split: option.splits if_splits)

lemma account_count_cong: "st_account_refs t = st_account_refs s \<Longrightarrow> account_count t = account_count s"
  by (simp add: fun_eq_iff account_count_sum)

section \<open>The invariant\<close>

text \<open>
  A reference stands for the default account of its list when it has no account number yet or
  its account kept the anchor's seed (a default account that was given a name).
\<close>

definition is_default_ref :: "storage \<Rightarrow> account_reference \<Rightarrow> bool" where
  "is_default_ref s r \<longleftrightarrow>
     (case ar_account_number r of
        None \<Rightarrow> True
      | Some k \<Rightarrow>
          (case om_get (st_accounts s) k of
             None \<Rightarrow> False
           | Some a \<Rightarrow> sac_seed_from_anchor a \<noteq> None))"

definition ref_list_ok :: "storage \<Rightarrow> anchor_number \<Rightarrow> account_reference list \<Rightarrow> bool" where
  "ref_list_ok s n refs \<longleftrightarrow>
     distinct (map ar_account_number refs)
     \<and> length (filter (is_default_ref s) refs) = 1
     \<and> (\<forall>r \<in> set refs. \<forall>k. ar_account_number r = Some k \<longrightarrow>
          (\<exists>a. om_get (st_accounts s) k = Some a \<and> sac_seed_from_anchor a \<in> {None, Some n}))"

definition references :: "storage \<Rightarrow> anchor_number \<Rightarrow> application_number \<Rightarrow> account_number \<Rightarrow> bool" where
  "references s n app k \<longleftrightarrow> Some k \<in> ar_account_number ` set (refs_at s n app)"

definition accounts_ok :: "storage \<Rightarrow> bool" where
  "accounts_ok s \<longleftrightarrow>
     (\<forall>n app refs. om_get (st_account_refs s) (n, app) = Some refs \<longrightarrow> ref_list_ok s n refs)
     \<and> (\<forall>n app n' app' k. references s n app k \<longrightarrow> references s n' app' k \<longrightarrow> n = n' \<and> app = app')
     \<and> (\<forall>k. om_get (st_accounts s) k \<noteq> None \<longrightarrow> unat k \<le> unat (stored_accounts (st_account_counter s)))
     \<and> (\<forall>n. account_count s n \<le> unat (stored_accounts (get_account_counter s n)))"

lemma accounts_okD:
  assumes "accounts_ok s"
  shows "om_get (st_account_refs s) (n, app) = Some refs \<Longrightarrow> ref_list_ok s n refs"
    and "references s n app k \<Longrightarrow> references s n' app' k \<Longrightarrow> n = n' \<and> app = app'"
    and "om_get (st_accounts s) k \<noteq> None \<Longrightarrow> unat k \<le> unat (stored_accounts (st_account_counter s))"
    and "account_count s n \<le> unat (stored_accounts (get_account_counter s n))"
  using assms unfolding accounts_ok_def by blast+

lemma accounts_okI:
  assumes "\<And>n app refs. om_get (st_account_refs s) (n, app) = Some refs \<Longrightarrow> ref_list_ok s n refs"
    and "\<And>n app n' app' k. references s n app k \<Longrightarrow> references s n' app' k \<Longrightarrow> n = n' \<and> app = app'"
    and "\<And>k. om_get (st_accounts s) k \<noteq> None \<Longrightarrow> unat k \<le> unat (stored_accounts (st_account_counter s))"
    and "\<And>n. account_count s n \<le> unat (stored_accounts (get_account_counter s n))"
  shows "accounts_ok s"
  using assms unfolding accounts_ok_def by blast

lemma references_iff:
  "references s n app k \<longleftrightarrow>
     (\<exists>refs r. om_get (st_account_refs s) (n, app) = Some refs \<and> r \<in> set refs \<and> ar_account_number r = Some k)"
  by (cases "om_get (st_account_refs s) (n, app)")
    (auto simp: references_def refs_at_def or_default_def image_iff intro: sym)

lemma references_known:
  "accounts_ok s \<Longrightarrow> references s n app k \<Longrightarrow>
   \<exists>a. om_get (st_accounts s) k = Some a \<and> sac_seed_from_anchor a \<in> {None, Some n}"
  using accounts_okD(1) unfolding references_iff ref_list_ok_def by blast

text \<open>Two states with the same references, accounts and, at least, the same counters.\<close>

definition account_frame :: "storage \<Rightarrow> storage \<Rightarrow> bool" where
  "account_frame s t \<longleftrightarrow>
     st_account_refs t = st_account_refs s \<and> st_accounts t = st_accounts s
     \<and> st_application_by_origin t = st_application_by_origin s
     \<and> stored_accounts (st_account_counter t) = stored_accounts (st_account_counter s)"

lemma is_default_ref_cong: "st_accounts t = st_accounts s \<Longrightarrow> is_default_ref t = is_default_ref s"
  by (simp add: fun_eq_iff is_default_ref_def split: option.splits)

lemma ref_list_ok_cong: "st_accounts t = st_accounts s \<Longrightarrow> ref_list_ok t = ref_list_ok s"
  by (simp add: fun_eq_iff ref_list_ok_def is_default_ref_cong [of t s])

lemma account_frame_ok:
  assumes "account_frame s t" and "accounts_ok s"
    and "\<And>n. account_count s n \<le> unat (stored_accounts (get_account_counter t n))"
  shows "accounts_ok t"
proof (rule accounts_okI)
  have f: "st_account_refs t = st_account_refs s" "st_accounts t = st_accounts s"
    "stored_accounts (st_account_counter t) = stored_accounts (st_account_counter s)"
    using assms(1) by (simp_all add: account_frame_def)
  show "ref_list_ok t n refs" if "om_get (st_account_refs t) (n, app) = Some refs" for n app refs
    using that accounts_okD(1) [OF assms(2)] by (simp add: f ref_list_ok_cong [OF f(2)])
  show "n = n' \<and> app = app'" if "references t n app k" "references t n' app' k" for n app n' app' k
    using that accounts_okD(2) [OF assms(2), of n app k n' app']
    by (simp add: references_def refs_at_def f)
  show "unat k \<le> unat (stored_accounts (st_account_counter t))" if "om_get (st_accounts t) k \<noteq> None" for k
    using that accounts_okD(3) [OF assms(2)] by (simp add: f)
  show "account_count t n \<le> unat (stored_accounts (get_account_counter t n))" for n
    using assms(3) by (simp add: account_count_cong [OF f(1)])
qed

section \<open>The counters\<close>

lemma unat_succ64: "(x :: u64) \<noteq> - 1 \<Longrightarrow> unat (x + 1) = unat x + 1"
proof -
  assume "x \<noteq> - 1"
  then have "unat x \<noteq> unat (- 1 :: u64)" by (metis word_unat_eq_iff)
  then have "unat x + 1 < 18446744073709551616"
    using unat64_bound [of x] by (simp add: unsigned_minus_1_eq_mask mask_eq_exp_minus_1)
  then show ?thesis by (simp add: unat64_add)
qed

lemma update_counters_frame:
  assumes "update_counters fits app n ty s = Some (t, r)"
  shows "account_frame s t" and "st_app_configs t = st_app_configs s"
    and "unat (stored_accounts (get_account_counter t m))
      = unat (stored_accounts (get_account_counter s m)) + (if m = n \<and> ty = TypeAccount then 1 else 0)"
    and "ty = TypeAccount \<Longrightarrow> r = Inr ()"
  using assms
  by (auto simp: update_counters_def Let_def account_frame_def get_account_counter_def unat_succ64
      split: option.splits if_splits account_type.splits elim!: counter_increment.elims)

lemma allocate_account_number_cases:
  assumes "allocate_account_number fits s = Some (t, r)"
  obtains (failed) e where "t = s" "r = Inl e"
  | (allocated) k where "r = Inr k" "unat k = unat (stored_accounts (st_account_counter s)) + 1"
    "t = s\<lparr>st_account_counter := (st_account_counter s)\<lparr>stored_accounts := k\<rparr>\<rparr>"
proof -
  let ?c = "st_account_counter s"
  from assms have nz: "stored_accounts ?c \<noteq> - 1"
    by (auto simp: allocate_account_number_def)
  show ?thesis
  proof (cases "fits (?c\<lparr>stored_accounts := stored_accounts ?c + 1\<rparr>)")
    case True
    with assms nz allocated [of "stored_accounts ?c + 1"] show ?thesis
      by (simp add: allocate_account_number_def unat_succ64)
  next
    case False
    show ?thesis
      by (rule failed [of ErrorUpdatingAccountCounter])
        (use assms nz False in \<open>auto simp: allocate_account_number_def\<close>)
  qed
qed

lemma fresh_number:
  assumes "accounts_ok s" and "unat k = unat (stored_accounts (st_account_counter s)) + 1"
  shows "om_get (st_accounts s) k = None" and "\<not> references s n app k"
proof -
  show none: "om_get (st_accounts s) k = None"
    using accounts_okD(3) [OF assms(1), of k] assms(2) by (cases "om_get (st_accounts s) k") auto
  show "\<not> references s n app k"
    using references_known [OF assms(1), of n app k] none by auto
qed

section \<open>Adding an account and its reference\<close>

lemma add_account_ok:
  assumes ok: "accounts_ok s" and k: "unat k = unat (stored_accounts (st_account_counter s)) + 1"
    and t: "st_account_refs t = st_account_refs s" "st_accounts t = om_insert k a (st_accounts s)"
      "stored_accounts (st_account_counter t) = k"
    and counts: "\<And>n. account_count s n \<le> unat (stored_accounts (get_account_counter t n))"
  shows "accounts_ok t"
proof (rule accounts_okI)
  note fresh = fresh_number [OF ok k]
  show "ref_list_ok t n refs" if "om_get (st_account_refs t) (n, app) = Some refs" for n app refs
  proof -
    have get: "om_get (st_account_refs s) (n, app) = Some refs" using that t by simp
    then have not_k: "ar_account_number r \<noteq> Some k" if "r \<in> set refs" for r
      using fresh(2) [of n app] that by (auto simp: references_def refs_at_def or_default_def image_iff)
    then have "filter (is_default_ref t) refs = filter (is_default_ref s) refs"
      by (intro filter_cong) (auto simp: is_default_ref_def t split: option.splits)
    with accounts_okD(1) [OF ok get] not_k show ?thesis
      unfolding ref_list_ok_def by (auto simp: t)
  qed
  show "n = n' \<and> app = app'" if "references t n app j" "references t n' app' j" for n app n' app' j
    using that accounts_okD(2) [OF ok, of n app j n' app'] by (simp add: references_def refs_at_def t)
  show "unat j \<le> unat (stored_accounts (st_account_counter t))" if "om_get (st_accounts t) j \<noteq> None" for j
    using that accounts_okD(3) [OF ok, of j] k by (auto simp: t split: if_splits)
  show "account_count t n \<le> unat (stored_accounts (get_account_counter t n))" for n
    using counts by (simp add: account_count_cong [OF t(1)])
qed

lemma refs_update_ok:
  assumes ok: "accounts_ok s"
    and unreferenced: "\<And>m b. \<not> references s m b k"
    and t: "st_account_refs t = om_insert (n, app) L (st_account_refs s)" "st_accounts t = st_accounts s"
      "stored_accounts (st_account_counter t) = stored_accounts (st_account_counter s)"
    and L: "ref_list_ok s n L"
    and numbers: "\<And>j. Some j \<in> ar_account_number ` set L \<Longrightarrow> j = k \<or> references s n app j"
    and count: "stored_count L \<le> stored_count (refs_at s n app) + 1"
      "account_count s n + 1 \<le> unat (stored_accounts (get_account_counter t n))"
      "\<And>m. m \<noteq> n \<Longrightarrow> account_count s m \<le> unat (stored_accounts (get_account_counter t m))"
  shows "accounts_ok t"
proof (rule accounts_okI)
  have refs_t: "refs_at t m b = (if m = n \<and> b = app then L else refs_at s m b)" for m b
    by (simp add: refs_at_def t or_default_def)
  have ref_t: "references t m b j \<longleftrightarrow>
      (if m = n \<and> b = app then Some j \<in> ar_account_number ` set L else references s m b j)" for m b j
    by (simp add: references_def refs_t)
  show "ref_list_ok t m refs" if "om_get (st_account_refs t) (m, b) = Some refs" for m b refs
    using that L accounts_okD(1) [OF ok] by (auto simp: t ref_list_ok_cong [OF t(2)] split: if_splits)
  show "m = m' \<and> b = b'" if r: "references t m b j" "references t m' b' j" for m b m' b' j
  proof (cases "j = k")
    case True
    with r unreferenced show ?thesis by (auto simp: ref_t split: if_splits)
  next
    case False
    have "references s m b j" "references s m' b' j"
      using r numbers [of j] False by (auto simp: ref_t split: if_splits)
    then show ?thesis by (rule accounts_okD(2) [OF ok])
  qed
  show "unat j \<le> unat (stored_accounts (st_account_counter t))" if "om_get (st_accounts t) j \<noteq> None" for j
    using that accounts_okD(3) [OF ok] by (simp add: t)
  show "account_count t m \<le> unat (stored_accounts (get_account_counter t m))" for m
    using account_count_update [OF t(1), of m] count by (cases "m = n") auto
qed


section \<open>Creating accounts\<close>

lemma lookup_or_insert_fields:
  assumes "lookup_or_insert_application_number_with_origin sha s origin = (t, app)"
  shows "st_account_refs t = st_account_refs s" "st_accounts t = st_accounts s"
    "st_account_counter t = st_account_counter s" "st_anchor_counters t = st_anchor_counters s"
    "st_app_configs t = st_app_configs s"
    "lookup_application_number_with_origin sha t origin = Some app"
  using assms
  by (auto simp: lookup_or_insert_application_number_with_origin_def
      lookup_application_number_with_origin_def Let_def split: option.splits)

lemma lookup_or_insert_ok:
  assumes "lookup_or_insert_application_number_with_origin sha s origin = (t, app)" and "accounts_ok s"
  shows "accounts_ok t"
proof (rule accounts_okI)
  note f = lookup_or_insert_fields [OF assms(1)]
  show "ref_list_ok t n refs" if "om_get (st_account_refs t) (n, app) = Some refs" for n app refs
    using that accounts_okD(1) [OF assms(2)] by (simp add: f ref_list_ok_cong [OF f(2)])
  show "n = n' \<and> app = app'" if "references t n app k" "references t n' app' k" for n app n' app' k
    using that accounts_okD(2) [OF assms(2), of n app k n' app'] by (simp add: references_def refs_at_def f)
  show "unat k \<le> unat (stored_accounts (st_account_counter t))" if "om_get (st_accounts t) k \<noteq> None" for k
    using that accounts_okD(3) [OF assms(2)] by (simp add: f)
  show "account_count t n \<le> unat (stored_accounts (get_account_counter t n))" for n
    using accounts_okD(4) [OF assms(2), of n] account_count_cong [OF f(1)]
    by (simp add: get_account_counter_def f)
qed

text \<open>
  What both creating operations do before they touch the references: a fresh account number
  is allocated, its account stored, the application looked up and the counters bumped.
\<close>

lemma prepared_account_ok:
  assumes ok: "accounts_ok s"
    and alloc: "allocate_account_number fits s = Some (s1, Inr k)"
    and app: "lookup_or_insert_application_number_with_origin sha
      (s1\<lparr>st_accounts := om_insert k a (st_accounts s1)\<rparr>) origin = (s2, app)"
    and s3: "st_account_refs s3 = st_account_refs s2" "st_accounts s3 = st_accounts s2"
      "st_account_counter s3 = st_account_counter s2" "st_anchor_counters s3 = st_anchor_counters s2"
    and bump: "update_counters fits app n TypeAccount s3 = Some (s4, r)"
  shows "accounts_ok s4" and "\<not> references s4 m b k" and "om_get (st_accounts s4) k = Some a"
    and "st_account_refs s4 = st_account_refs s" and "st_accounts s4 = om_insert k a (st_accounts s)"
    and "account_count s4 n + 1 \<le> unat (stored_accounts (get_account_counter s4 n))"
    and "r = Inr ()" and "unat k = unat (stored_accounts (st_account_counter s)) + 1"
proof -
  from alloc obtain k: "unat k = unat (stored_accounts (st_account_counter s)) + 1"
    and s1: "s1 = s\<lparr>st_account_counter := (st_account_counter s)\<lparr>stored_accounts := k\<rparr>\<rparr>"
    by (elim allocate_account_number_cases) auto
  note f2 = lookup_or_insert_fields [OF app]
  note f4 = update_counters_frame [OF bump]
  have refs: "st_account_refs s4 = st_account_refs s" and acc: "st_accounts s4 = om_insert k a (st_accounts s)"
    and cnt: "stored_accounts (st_account_counter s4) = k"
    using f4(1) by (simp_all add: account_frame_def s3 f2 s1)
  have counter: "unat (stored_accounts (get_account_counter s4 m))
      = unat (stored_accounts (get_account_counter s m)) + (if m = n then 1 else 0)" for m
    using f4(3) [of m] by (simp add: get_account_counter_def s3 f2 s1)
  show "accounts_ok s4"
  proof (rule add_account_ok [OF ok k refs acc cnt])
    show "account_count s m \<le> unat (stored_accounts (get_account_counter s4 m))" for m
      using accounts_okD(4) [OF ok, of m] counter [of m] by simp
  qed
  show "\<not> references s4 m b k"
    using fresh_number(2) [OF ok k] by (simp add: references_def refs_at_def refs)
  show "account_count s4 n + 1 \<le> unat (stored_accounts (get_account_counter s4 n))"
    using accounts_okD(4) [OF ok, of n] counter [of n] by (simp add: account_count_cong [OF refs])
  show "om_get (st_accounts s4) k = Some a" "st_account_refs s4 = st_account_refs s"
    "st_accounts s4 = om_insert k a (st_accounts s)" "r = Inr ()"
    "unat k = unat (stored_accounts (st_account_counter s)) + 1"
    by (simp_all add: acc refs k f4(4))
qed

text \<open>A bump of the reference counters does not disturb anything the invariant speaks about.\<close>

lemma bump_references_ok:
  assumes "update_counters fits app n TypeAccountReference s = Some (t, r)" and "accounts_ok s"
  shows "accounts_ok t"
  using account_frame_ok [OF update_counters_frame(1) [OF assms(1)] assms(2)]
    update_counters_frame(3) [OF assms(1)] accounts_okD(4) [OF assms(2)]
  by simp

lemma account_frame_trans: "account_frame s t \<Longrightarrow> account_frame t u \<Longrightarrow> account_frame s u"
  by (simp add: account_frame_def)

lemma account_frame_refl [simp]: "account_frame s s"
  by (simp add: account_frame_def)

text \<open>The reference list of an anchor and application after an account was added to it.\<close>

definition appended_refs :: "storage \<Rightarrow> anchor_number \<Rightarrow> application_number \<Rightarrow> account_number \<Rightarrow> account_reference list" where
  "appended_refs s n app k =
     (case om_get (st_account_refs s) (n, app) of
        None \<Rightarrow> [new_reference None, new_reference (Some k)]
      | Some refs \<Rightarrow> refs @ [new_reference (Some k)])"

lemma create_additional_account_cases:
  assumes run: "create_additional_account sha fits s n origin name = Some (t, r)"
  obtains (unchanged) e where "t = s" "r = Inl e"
  | (prepared) k s1 s2 app s4 where
    "allocate_account_number fits s = Some (s1, Inr k)"
    "lookup_or_insert_application_number_with_origin sha
      (s1\<lparr>st_accounts := om_insert k \<lparr>sac_name = name, sac_seed_from_anchor = None\<rparr> (st_accounts s1)\<rparr>)
      origin = (s2, app)"
    "update_counters fits app n TypeAccount s2 = Some (s4, Inr ())"
    "(\<exists>e. r = Inl e \<and> account_frame s4 t
        \<and> (\<forall>m. unat (stored_accounts (get_account_counter t m)) = unat (stored_accounts (get_account_counter s4 m))))
     \<or> r = Inr (account_new n origin (Some name) (Some k))
       \<and> (\<exists>u. account_frame s4 u
           \<and> (\<forall>m. unat (stored_accounts (get_account_counter u m)) = unat (stored_accounts (get_account_counter s4 m)))
           \<and> t = u\<lparr>st_account_refs := om_insert (n, app) (appended_refs s4 n app k) (st_account_refs u)\<rparr>)"
proof -
  from run obtain s1 ra where alloc: "allocate_account_number fits s = Some (s1, ra)"
    by (auto simp: create_additional_account_def op_bind_def split: option.splits)
  show ?thesis
  proof (cases ra)
    case (Inl e)
    with alloc have "s1 = s" by (elim allocate_account_number_cases) auto
    with run alloc Inl show ?thesis
      by (intro unchanged [of e]) (auto simp: create_additional_account_def op_bind_def split: option.splits)
  next
    case (Inr k)
    obtain s2 app where app: "lookup_or_insert_application_number_with_origin sha
      (s1\<lparr>st_accounts := om_insert k \<lparr>sac_name = name, sac_seed_from_anchor = None\<rparr> (st_accounts s1)\<rparr>)
      origin = (s2, app)" by fastforce
    from run alloc Inr app obtain s4 rb where bump: "update_counters fits app n TypeAccount s2 = Some (s4, rb)"
      by (auto simp: create_additional_account_def op_bind_def split: option.splits)
    have rb: "rb = Inr ()" using update_counters_frame(4) [OF bump] by simp
    let ?tail = "op_bind
             (case om_get (st_account_refs s4) (n, app) of
                None \<Rightarrow>
                  op_bind (update_counters fits app n TypeAccountReference s4) (\<lambda>_ s.
                  op_bind (update_counters fits app n TypeAccountReference s) (\<lambda>_ s.
                  Some (s\<lparr>st_account_refs := om_insert (n, app)
                    [new_reference None, new_reference (Some k)] (st_account_refs s)\<rparr>, Inr ())))
              | Some refs \<Rightarrow>
                  op_bind (update_counters fits app n TypeAccountReference s4) (\<lambda>_ s.
                  Some (s\<lparr>st_account_refs := om_insert (n, app)
                    (refs @ [new_reference (Some k)]) (st_account_refs s)\<rparr>, Inr ())))
             (\<lambda>_ s. Some (s, Inr (account_new n origin (Some name) (Some k))))"
    have tail: "?tail = Some (t, r)"
      using run alloc Inr app bump rb
      by (auto simp: create_additional_account_def op_bind_def [of "Some _"] split: option.splits)
    let ?same = "\<lambda>u. account_frame s4 u
        \<and> (\<forall>m. unat (stored_accounts (get_account_counter u m)) = unat (stored_accounts (get_account_counter s4 m)))"
    have step: "?same v" if "?same u" "update_counters fits app n TypeAccountReference u = Some (v, q)" for u v q
      using that update_counters_frame(1,3) [OF that(2)] by (auto intro: account_frame_trans)
    have base: "?same s4" by simp
    from tail have "(\<exists>e. r = Inl e \<and> ?same t) \<or> r = Inr (account_new n origin (Some name) (Some k))
       \<and> (\<exists>u. ?same u \<and> t = u\<lparr>st_account_refs := om_insert (n, app) (appended_refs s4 n app k) (st_account_refs u)\<rparr>)"
      unfolding op_bind_Some
      by (cases "om_get (st_account_refs s4) (n, app)")
        (auto simp: op_bind_Some appended_refs_def dest: step [OF base] step [OF step [OF base]])
    then show ?thesis
      using prepared [of s1 k s2 app s4] alloc Inr app bump rb by auto
  qed
qed


lemma is_default_new [simp]:
  "is_default_ref s (new_reference None)"
  "is_default_ref s (new_reference (Some k)) \<longleftrightarrow>
     (\<exists>a. om_get (st_accounts s) k = Some a \<and> sac_seed_from_anchor a \<noteq> None)"
  by (auto simp: is_default_ref_def new_reference_def split: option.splits)

lemma new_reference_number [simp]: "ar_account_number (new_reference k) = k"
  by (simp add: new_reference_def)

lemma refs_at_Some: "om_get (st_account_refs s) (n, app) = Some refs \<Longrightarrow> refs_at s n app = refs"
  by (simp add: refs_at_def or_default_def)

lemma refs_at_None: "om_get (st_account_refs s) (n, app) = None \<Longrightarrow> refs_at s n app = []"
  by (simp add: refs_at_def or_default_def)

lemma appended_refs_ok:
  assumes ok: "accounts_ok s" and k: "om_get (st_accounts s) k = Some a" "sac_seed_from_anchor a = None"
    and unref: "\<And>m b. \<not> references s m b k"
  shows "ref_list_ok s n (appended_refs s n app k)"
proof (cases "om_get (st_account_refs s) (n, app)")
  case None
  with k show ?thesis by (simp add: appended_refs_def ref_list_ok_def)
next
  case (Some refs)
  have "Some k \<notin> ar_account_number ` set refs"
    using unref [of n app] by (simp add: references_def refs_at_Some [OF Some])
  with accounts_okD(1) [OF ok Some] k Some show ?thesis
    by (auto simp: appended_refs_def ref_list_ok_def)
qed

lemma appended_refs_numbers:
  "Some j \<in> ar_account_number ` set (appended_refs s n app k) \<Longrightarrow> j = k \<or> references s n app j"
  by (auto simp: appended_refs_def references_def refs_at_def or_default_def split: option.splits)

lemma appended_refs_count: "stored_count (appended_refs s n app k) = stored_count (refs_at s n app) + 1"
  by (auto simp: appended_refs_def refs_at_def or_default_def stored_count_def split: option.splits)

lemma create_additional_account_ok:
  assumes run: "create_additional_account sha fits s n origin name = Some (t, r)" and ok: "accounts_ok s"
  shows "accounts_ok t"
  using run
proof (cases rule: create_additional_account_cases)
  case (prepared k s1 s2 app s4)
  note p = prepared_account_ok [OF ok prepared(1,2) _ _ _ _ prepared(3)]
  have s4: "accounts_ok s4" "om_get (st_accounts s4) k = Some \<lparr>sac_name = name, sac_seed_from_anchor = None\<rparr>"
    "account_count s4 n + 1 \<le> unat (stored_accounts (get_account_counter s4 n))"
    using p(1,3,6) by simp_all
  have unref: "\<not> references s4 m b k" for m b using p(2) by simp
  from prepared(4) show ?thesis
  proof (elim disjE conjE exE)
    fix e
    assume "account_frame s4 t"
      and "\<forall>m. unat (stored_accounts (get_account_counter t m)) = unat (stored_accounts (get_account_counter s4 m))"
    then show ?thesis
      using accounts_okD(4) [OF s4(1)] by (intro account_frame_ok [OF _ s4(1)]) simp_all
  next
    fix u
    assume u: "account_frame s4 u"
      "\<forall>m. unat (stored_accounts (get_account_counter u m)) = unat (stored_accounts (get_account_counter s4 m))"
      and t: "t = u\<lparr>st_account_refs := om_insert (n, app) (appended_refs s4 n app k) (st_account_refs u)\<rparr>"
    show ?thesis
    proof (rule refs_update_ok [OF s4(1) unref])
      show "st_account_refs t = om_insert (n, app) (appended_refs s4 n app k) (st_account_refs s4)"
        "st_accounts t = st_accounts s4"
        "stored_accounts (st_account_counter t) = stored_accounts (st_account_counter s4)"
        using u(1) by (simp_all add: t account_frame_def)
      show "ref_list_ok s4 n (appended_refs s4 n app k)"
        using appended_refs_ok [OF s4(1,2) _ unref] by simp
      show "j = k \<or> references s4 n app j" if "Some j \<in> ar_account_number ` set (appended_refs s4 n app k)" for j
        using that by (rule appended_refs_numbers)
      show "stored_count (appended_refs s4 n app k) \<le> stored_count (refs_at s4 n app) + 1"
        by (simp add: appended_refs_count)
      have "get_account_counter t = get_account_counter u" by (simp add: fun_eq_iff get_account_counter_def t)
      then show "account_count s4 n + 1 \<le> unat (stored_accounts (get_account_counter t n))"
        and "account_count s4 m \<le> unat (stored_accounts (get_account_counter t m))" for m
        using s4(3) u(2) accounts_okD(4) [OF s4(1), of m] by simp_all
    qed
  qed
qed (use ok in simp)

text \<open>The reference list after the default account got a number.\<close>

definition named_refs :: "account_reference list option \<Rightarrow> account_number \<Rightarrow> account_reference list option" where
  "named_refs old k =
     (case old of
        None \<Rightarrow> Some [new_reference (Some k)]
      | Some refs \<Rightarrow>
          (case position (\<lambda>r. ar_account_number r = None) refs of
             None \<Rightarrow> None
           | Some i \<Rightarrow> Some (refs[i := (refs ! i)\<lparr>ar_account_number := Some k\<rparr>])))"

lemma create_default_account_cases:
  assumes run: "create_default_account sha fits s n origin name = Some (t, r)"
  obtains (unchanged) e where "t = s" "r = Inl e"
  | (prepared) k s1 s2 app s4 where
    "allocate_account_number fits s = Some (s1, Inr k)"
    "lookup_or_insert_application_number_with_origin sha
      (s1\<lparr>st_accounts := om_insert k \<lparr>sac_name = name, sac_seed_from_anchor = Some n\<rparr> (st_accounts s1)\<rparr>)
      origin = (s2, app)"
    "update_counters fits app n TypeAccount (set_anchor_application_config s2 n app
       ((lookup_anchor_application_config s2 n app)\<lparr>default_account_number := Some k\<rparr>)) = Some (s4, Inr ())"
    "case named_refs (om_get (st_account_refs s4) (n, app)) k of
       None \<Rightarrow> t = s4 \<and> r = Inl (MissingAccount n name)
     | Some L \<Rightarrow> account_frame (s4\<lparr>st_account_refs := om_insert (n, app) L (st_account_refs s4)\<rparr>) t
         \<and> st_app_configs t = st_app_configs s4
         \<and> (\<forall>m. unat (stored_accounts (get_account_counter t m)) = unat (stored_accounts (get_account_counter s4 m)))
         \<and> ((\<exists>e. r = Inl e) \<or> r = Inr (account_new_full n origin (Some name) (Some k) None (Some n)))"
proof -
  from run obtain s1 ra where alloc: "allocate_account_number fits s = Some (s1, ra)"
    by (auto simp: create_default_account_def op_bind_def split: option.splits)
  show ?thesis
  proof (cases ra)
    case (Inl e)
    with alloc have "s1 = s" by (elim allocate_account_number_cases) auto
    with run alloc Inl show ?thesis
      by (intro unchanged [of e]) (auto simp: create_default_account_def op_bind_def split: option.splits)
  next
    case (Inr k)
    obtain s2 app where app: "lookup_or_insert_application_number_with_origin sha
      (s1\<lparr>st_accounts := om_insert k \<lparr>sac_name = name, sac_seed_from_anchor = Some n\<rparr> (st_accounts s1)\<rparr>)
      origin = (s2, app)" by fastforce
    from run alloc Inr app obtain s4 rb where bump: "update_counters fits app n TypeAccount
        (set_anchor_application_config s2 n app
       ((lookup_anchor_application_config s2 n app)\<lparr>default_account_number := Some k\<rparr>)) = Some (s4, rb)"
      by (auto simp: create_default_account_def op_bind_def Let_def split: option.splits)
    have rb: "rb = Inr ()" using update_counters_frame(4) [OF bump] by simp
    have "case named_refs (om_get (st_account_refs s4) (n, app)) k of
       None \<Rightarrow> t = s4 \<and> r = Inl (MissingAccount n name)
     | Some L \<Rightarrow> account_frame (s4\<lparr>st_account_refs := om_insert (n, app) L (st_account_refs s4)\<rparr>) t
         \<and> st_app_configs t = st_app_configs s4
         \<and> (\<forall>m. unat (stored_accounts (get_account_counter t m)) = unat (stored_accounts (get_account_counter s4 m)))
         \<and> ((\<exists>e. r = Inl e) \<or> r = Inr (account_new_full n origin (Some name) (Some k) None (Some n)))"
    proof (cases "om_get (st_account_refs s4) (n, app)")
      case None
      let ?u = "s4\<lparr>st_account_refs := om_insert (n, app) [new_reference (Some k)] (st_account_refs s4)\<rparr>"
      from run alloc Inr app bump rb None obtain rc where
        u: "update_counters fits app n TypeAccountReference ?u = Some (t, rc)"
        and r: "(\<exists>e. r = Inl e) \<or> r = Inr (account_new_full n origin (Some name) (Some k) None (Some n))"
        by (auto simp: create_default_account_def op_bind_def Let_def split: option.splits sum.splits)
      have "get_account_counter ?u = get_account_counter s4"
        by (simp add: fun_eq_iff get_account_counter_def)
      with None r update_counters_frame(1,2,3) [OF u] show ?thesis by (simp add: named_refs_def)
    next
      case (Some refs)
      with run alloc Inr app bump rb show ?thesis
        by (auto simp: create_default_account_def op_bind_def Let_def named_refs_def get_account_counter_def
            split: option.splits)
    qed
    then show ?thesis
      using prepared [of s1 k s2 app s4] alloc Inr app bump rb by simp
  qed
qed


lemma length_filter_update:
  "i < length xs \<Longrightarrow> P y = P (xs ! i) \<Longrightarrow> length (filter P (xs[i := y])) = length (filter P xs)"
proof (induction xs arbitrary: i)
  case (Cons x xs)
  then show ?case by (cases i) auto
qed simp

lemma length_filter_update_Suc:
  "i < length xs \<Longrightarrow> P y \<Longrightarrow> \<not> P (xs ! i) \<Longrightarrow> length (filter P (xs[i := y])) = Suc (length (filter P xs))"
proof (induction xs arbitrary: i)
  case (Cons x xs)
  then show ?case by (cases i) auto
qed simp

lemma named_refs_ok:
  assumes ok: "accounts_ok s" and k: "om_get (st_accounts s) k = Some a" "sac_seed_from_anchor a = Some n"
    and unref: "\<And>m b. \<not> references s m b k"
    and L: "named_refs (om_get (st_account_refs s) (n, app)) k = Some L"
  shows "ref_list_ok s n L" and "Some j \<in> ar_account_number ` set L \<Longrightarrow> j = k \<or> references s n app j"
    and "stored_count L = stored_count (refs_at s n app) + 1"
proof -
  have "ref_list_ok s n L \<and> (\<forall>j. Some j \<in> ar_account_number ` set L \<longrightarrow> j = k \<or> references s n app j)
      \<and> stored_count L = stored_count (refs_at s n app) + 1"
  proof (cases "om_get (st_account_refs s) (n, app)")
    case None
    with L have "L = [new_reference (Some k)]" by (simp add: named_refs_def)
    with k refs_at_None [OF None] show ?thesis
      by (simp add: ref_list_ok_def stored_count_def)
  next
    case (Some refs)
    with L obtain i where pos: "position (\<lambda>r. ar_account_number r = None) refs = Some i"
      and L': "L = refs[i := (refs ! i)\<lparr>ar_account_number := Some k\<rparr>]"
      by (auto simp: named_refs_def split: option.splits)
    let ?r = "(refs ! i)\<lparr>ar_account_number := Some k\<rparr>"
    from position_SomeD [OF pos] have i: "i < length refs" "ar_account_number (refs ! i) = None" by auto
    have old: "ref_list_ok s n refs" by (rule accounts_okD(1) [OF ok Some])
    have nk: "Some k \<notin> ar_account_number ` set refs"
      using unref [of n app] by (simp add: references_def refs_at_Some [OF Some])
    have sub: "set L \<subseteq> insert ?r (set refs)" by (simp add: L' set_update_subset_insert)
    have "distinct (map ar_account_number L)"
      using old nk by (simp add: L' map_update distinct_list_update ref_list_ok_def)
    moreover have "is_default_ref s ?r = is_default_ref s (refs ! i)"
      using k i by (simp add: is_default_ref_def)
    then have "length (filter (is_default_ref s) L) = 1"
      using old i by (simp add: L' length_filter_update ref_list_ok_def)
    moreover have "\<exists>b. om_get (st_accounts s) j = Some b \<and> sac_seed_from_anchor b \<in> {None, Some n}"
      if "r \<in> set L" "ar_account_number r = Some j" for r j
      using that sub old k unfolding ref_list_ok_def by fastforce
    ultimately have "ref_list_ok s n L" unfolding ref_list_ok_def by blast
    moreover have "j = k \<or> references s n app j" if j: "Some j \<in> ar_account_number ` set L" for j
    proof -
      from j obtain r where "r \<in> set L" "ar_account_number r = Some j" by (auto simp: image_iff)
      with sub show ?thesis unfolding references_iff using Some by fastforce
    qed
    moreover have "stored_count L = stored_count (refs_at s n app) + 1"
      using i by (simp add: L' stored_count_def refs_at_Some [OF Some] length_filter_update_Suc)
    ultimately show ?thesis by blast
  qed
  then show "ref_list_ok s n L" and "Some j \<in> ar_account_number ` set L \<Longrightarrow> j = k \<or> references s n app j"
    and "stored_count L = stored_count (refs_at s n app) + 1" by blast+
qed

lemma create_default_account_ok:
  assumes run: "create_default_account sha fits s n origin name = Some (t, r)" and ok: "accounts_ok s"
  shows "accounts_ok t"
  using run
proof (cases rule: create_default_account_cases)
  case (prepared k s1 s2 app s4)
  note p = prepared_account_ok [OF ok prepared(1,2) _ _ _ _ prepared(3)]
  have s4: "accounts_ok s4" "om_get (st_accounts s4) k = Some \<lparr>sac_name = name, sac_seed_from_anchor = Some n\<rparr>"
    "account_count s4 n + 1 \<le> unat (stored_accounts (get_account_counter s4 n))"
    using p(1,3,6) by (simp_all add: set_anchor_application_config_def)
  have unref: "\<not> references s4 m b k" for m b using p(2) by (simp add: set_anchor_application_config_def)
  show ?thesis
  proof (cases "named_refs (om_get (st_account_refs s4) (n, app)) k")
    case None
    with prepared(4) s4 show ?thesis by simp
  next
    case (Some L)
    note L = named_refs_ok [OF s4(1,2) _ unref Some]
    have t: "st_account_refs t = om_insert (n, app) L (st_account_refs s4)" "st_accounts t = st_accounts s4"
      "stored_accounts (st_account_counter t) = stored_accounts (st_account_counter s4)"
      "\<And>m. unat (stored_accounts (get_account_counter t m)) = unat (stored_accounts (get_account_counter s4 m))"
      using prepared(4) Some by (simp_all add: account_frame_def)
    show ?thesis
      by (rule refs_update_ok [OF s4(1) unref t(1-3)])
        (use L s4(3) accounts_okD(4) [OF s4(1)] in \<open>simp_all add: t(4)\<close>)
  qed
qed (use ok in simp)

section \<open>Updating accounts\<close>

text \<open>
  States that agree on the numbers in every reference list and on the seeds of the accounts:
  what renaming an account and recording its use leave unchanged.
\<close>

definition account_similar :: "storage \<Rightarrow> storage \<Rightarrow> bool" where
  "account_similar s t \<longleftrightarrow>
     (\<forall>key. map_option (map ar_account_number) (om_get (st_account_refs t) key)
        = map_option (map ar_account_number) (om_get (st_account_refs s) key))
     \<and> (\<forall>k. map_option sac_seed_from_anchor (om_get (st_accounts t) k)
        = map_option sac_seed_from_anchor (om_get (st_accounts s) k))
     \<and> st_account_counter t = st_account_counter s
     \<and> st_anchor_counters t = st_anchor_counters s
     \<and> st_application_by_origin t = st_application_by_origin s
     \<and> (\<forall>n. account_count t n = account_count s n)"

lemma ref_list_ok_numbers:
  "ref_list_ok s n refs \<longleftrightarrow>
     (let ks = map ar_account_number refs;
          seed = (\<lambda>k. map_option sac_seed_from_anchor (om_get (st_accounts s) k))
      in distinct ks
         \<and> length (filter (\<lambda>k. case k of None \<Rightarrow> True | Some k \<Rightarrow> seed k \<noteq> None \<and> seed k \<noteq> Some None) ks) = 1
         \<and> (\<forall>k. Some k \<in> set ks \<longrightarrow> seed k \<in> {Some None, Some (Some n)}))"
proof -
  let ?seed = "\<lambda>k. map_option sac_seed_from_anchor (om_get (st_accounts s) k)"
  have "is_default_ref s = (\<lambda>k. case k of None \<Rightarrow> True | Some k \<Rightarrow> ?seed k \<noteq> None \<and> ?seed k \<noteq> Some None)
      \<circ> ar_account_number"
    by (auto simp: fun_eq_iff is_default_ref_def split: option.splits)
  then have "length (filter (is_default_ref s) refs)
      = length (filter (\<lambda>k. case k of None \<Rightarrow> True | Some k \<Rightarrow> ?seed k \<noteq> None \<and> ?seed k \<noteq> Some None)
          (map ar_account_number refs))"
    by (simp only: filter_map length_map)
  moreover have "(\<forall>r \<in> set refs. \<forall>k. ar_account_number r = Some k \<longrightarrow>
        (\<exists>a. om_get (st_accounts s) k = Some a \<and> sac_seed_from_anchor a \<in> {None, Some n}))
      \<longleftrightarrow> (\<forall>k. Some k \<in> set (map ar_account_number refs) \<longrightarrow> ?seed k \<in> {Some None, Some (Some n)})"
    by (auto simp: image_iff) (metis)+
  ultimately show ?thesis unfolding ref_list_ok_def Let_def by (simp only:)
qed

lemma account_similar_ok:
  assumes sim: "account_similar s t" and ok: "accounts_ok s"
  shows "accounts_ok t"
proof (rule accounts_okI)
  have seeds: "map_option sac_seed_from_anchor (om_get (st_accounts t) k)
      = map_option sac_seed_from_anchor (om_get (st_accounts s) k)" for k
    using sim by (simp add: account_similar_def)
  have refs: "map_option (map ar_account_number) (om_get (st_account_refs t) key)
        = map_option (map ar_account_number) (om_get (st_account_refs s) key)" for key
    using sim unfolding account_similar_def by blast
  have numbers: "references t n app k \<longleftrightarrow> references s n app k" for n app k
  proof -
    have "map ar_account_number (refs_at t n app) = map ar_account_number (refs_at s n app)"
      using refs [of "(n, app)"] by (auto simp: refs_at_def or_default_def split: option.splits)
    then have "set (map ar_account_number (refs_at t n app)) = set (map ar_account_number (refs_at s n app))"
      by simp
    then show ?thesis by (simp add: references_def)
  qed
  show "ref_list_ok t n ts" if "om_get (st_account_refs t) (n, app) = Some ts" for n app ts
  proof -
    from that refs [of "(n, app)"] obtain ss where ss: "om_get (st_account_refs s) (n, app) = Some ss"
      and eq: "map ar_account_number ts = map ar_account_number ss" by (auto simp: map_option_case split: option.splits)
    from accounts_okD(1) [OF ok ss] show ?thesis
      unfolding ref_list_ok_numbers eq seeds .
  qed
  show "n = n' \<and> app = app'" if "references t n app k" "references t n' app' k" for n app n' app' k
    using that accounts_okD(2) [OF ok] by (simp add: numbers)
  show "unat k \<le> unat (stored_accounts (st_account_counter t))" if "om_get (st_accounts t) k \<noteq> None" for k
    using that seeds [of k] accounts_okD(3) [OF ok, of k] sim
    by (auto simp: account_similar_def map_option_case split: option.splits)
  show "account_count t n \<le> unat (stored_accounts (get_account_counter t n))" for n
    using accounts_okD(4) [OF ok, of n] sim by (simp add: account_similar_def get_account_counter_def)
qed


text \<open>
  Callbacks of \<open>with_account_mut\<close> that change neither the number in the reference nor the seed of
  the account; both callbacks of the program are of this kind.
\<close>

definition keeps_identity ::
  "(account_reference \<Rightarrow> storable_account option \<Rightarrow> 't \<times> account_reference \<times> storable_account option) \<Rightarrow> bool" where
  "keeps_identity f \<longleftrightarrow>
     (\<forall>r a res r' a'. f r a = (res, r', a') \<longrightarrow>
        ar_account_number r' = ar_account_number r
        \<and> map_option sac_seed_from_anchor a' = map_option sac_seed_from_anchor a)"

lemma find_account_references_Some:
  "find_account_references s n app = Some (key, refs) \<longleftrightarrow>
     (\<exists>b. app = Some b \<and> key = (n, b) \<and> om_get (st_account_refs s) (n, b) = Some refs)"
  by (auto simp: find_account_references_def split: option.splits)

text \<open>What \<open>with_account_mut\<close> may change: one list, in place, and the account asked for.\<close>

lemma with_account_mut_effect:
  assumes run: "with_account_mut s n app k f = (t, res)" and f: "keeps_identity f"
  obtains (unchanged) "t = s"
  | (changed) b refs refs' accs where
    "app = Some b" "om_get (st_account_refs s) (n, b) = Some refs"
    "map ar_account_number refs' = map ar_account_number refs"
    "t = s\<lparr>st_account_refs := om_insert (n, b) refs' (st_account_refs s), st_accounts := accs\<rparr>"
    "\<And>j. map_option sac_seed_from_anchor (om_get accs j) = map_option sac_seed_from_anchor (om_get (st_accounts s) j)"
    "\<And>j. k \<noteq> Some j \<or> \<not> references s n b j \<Longrightarrow> om_get accs j = om_get (st_accounts s) j"
proof (cases "find_account_references s n app")
  case None
  with run unchanged show ?thesis
    by (auto simp: with_account_mut_def split: option.splits)
next
  case (Some p)
  obtain key refs where p: "p = (key, refs)" by (cases p)
  with Some obtain b where b: "app = Some b" "key = (n, b)" "om_get (st_account_refs s) (n, b) = Some refs"
    by (auto simp: find_account_references_Some)
  have keep: "map ar_account_number (refs[i := r]) = map ar_account_number refs"
    if "i < length refs" "f (refs ! i) a = (res', r, a')" for i r a res' a'
    using that f by (auto simp: keeps_identity_def map_update intro!: list_update_same_conv [THEN iffD2])
  show ?thesis
  proof (cases k)
    case None
    show ?thesis
    proof (cases "position (\<lambda>r. ar_account_number r = None) refs")
      case None
      with run \<open>k = None\<close> Some p b show ?thesis
        by (intro changed [of b refs refs "st_accounts s"]) (auto simp: with_account_mut_def)
    next
      case (Some i)
      obtain res' r a' where fr: "f (refs ! i) None = (res', r, a')" by (cases "f (refs ! i) None")
      have lt: "i < length refs" using position_SomeD [OF Some] by simp
      from run \<open>k = None\<close> \<open>find_account_references s n app = Some p\<close> p b Some fr show ?thesis
        by (intro changed [of b refs "refs[i := r]" "st_accounts s"])
          (auto simp: with_account_mut_def keep [OF lt fr])
    qed
  next
    case (Some number)
    note k = Some
    show ?thesis
    proof (cases "om_get (st_accounts s) number")
      case None
      with run k unchanged show ?thesis by (auto simp: with_account_mut_def)
    next
      case (Some stored)
      note stored = Some
      show ?thesis
      proof (cases "position (\<lambda>r. ar_account_number r = Some number) refs")
        case None
        with run k stored \<open>find_account_references s n app = Some p\<close> p b show ?thesis
          by (intro changed [of b refs refs "om_insert number stored (st_accounts s)"])
            (auto simp: with_account_mut_def)
      next
        case (Some i)
        obtain res' r a' where fr: "f (refs ! i) (Some stored) = (res', r, a')"
          by (cases "f (refs ! i) (Some stored)")
        have lt: "i < length refs" and num: "ar_account_number (refs ! i) = Some number"
          using position_SomeD [OF Some] by simp_all
        have "references s n b number"
          unfolding references_iff using b(3) num nth_mem [OF lt] by blast
        have "map_option sac_seed_from_anchor a' = Some (sac_seed_from_anchor stored)"
          using f fr by (auto simp: keeps_identity_def)
        then obtain a where a: "a' = Some a" "sac_seed_from_anchor a = sac_seed_from_anchor stored" by auto
        from run k stored \<open>find_account_references s n app = Some p\<close> p b Some fr a
          \<open>references s n b number\<close> show ?thesis
          by (intro changed [of b refs "refs[i := r]" "om_insert number a (st_accounts s)"])
            (auto simp: with_account_mut_def keep [OF lt fr])
      qed
    qed
  qed
qed

lemma stored_count_numbers: "stored_count refs = length (filter (\<lambda>k. k \<noteq> None) (map ar_account_number refs))"
  by (simp add: stored_count_def filter_map comp_def)

lemma with_account_mut_similar:
  assumes "with_account_mut s n app k f = (t, res)" and "keeps_identity f"
  shows "account_similar s t"
  using assms
proof (cases rule: with_account_mut_effect)
  case unchanged
  then show ?thesis by (simp add: account_similar_def)
next
  case (changed b refs refs' accs)
  have "stored_count refs' = stored_count (refs_at s n b)"
    using changed(3) by (simp add: stored_count_numbers refs_at_Some [OF changed(2)])
  moreover have "st_account_refs t = om_insert (n, b) refs' (st_account_refs s)" by (simp add: changed(4))
  ultimately have "account_count t m = account_count s m" for m
    using account_count_update [of t n b refs' s m] by (simp split: if_splits)
  with changed(2,3,5) show ?thesis
    by (simp add: account_similar_def changed(4))
qed

lemma set_account_last_used_keeps: "keeps_identity (\<lambda>r a. ((), r\<lparr>ar_last_used := Some now\<rparr>, a))"
  by (simp add: keeps_identity_def)

lemma set_account_last_used_ok:
  "set_account_last_used sha s n origin k now = (t, r) \<Longrightarrow> accounts_ok s \<Longrightarrow> accounts_ok t"
  unfolding set_account_last_used_def
  using with_account_mut_similar [OF _ set_account_last_used_keeps] account_similar_ok by blast

end
