(* ===== verification/Account_Properties.thy ===== *)
theory Account_Properties
  imports Accounts_Invariant
begin

text \<open>
  What the account operations promise: at most 500 accounts per identity, distinct seeds for
  distinct accounts, a seed that survives naming the default account, isolation between
  identities, and the round trip of the default account setting.
\<close>

section \<open>Preservation by the remaining operations\<close>

lemma update_existing_keeps:
  "keeps_identity (\<lambda>r a. case (ar_account_number r, a) of
     (Some number, Some stored) \<Rightarrow>
       (Some (account_new_full n origin (Some name) (Some number) (ar_last_used r) (sac_seed_from_anchor stored)),
        r, Some (stored\<lparr>sac_name := name\<rparr>))
   | _ \<Rightarrow> (None, r, a))"
  by (auto simp: keeps_identity_def split: option.splits)

lemma update_existing_account_similar:
  assumes "update_existing_account sha s k n name origin = (t, r)"
  shows "account_similar s t"
proof -
  let ?f = "\<lambda>r a. case (ar_account_number r, a) of
     (Some number, Some stored) \<Rightarrow>
       (Some (account_new_full n origin (Some name) (Some number) (ar_last_used r) (sac_seed_from_anchor stored)),
        r, Some (stored\<lparr>sac_name := name\<rparr>))
   | _ \<Rightarrow> (None, r, a)"
  obtain u res where w: "with_account_mut s n (lookup_application_number_with_origin sha s origin) (Some k) ?f = (u, res)"
    by fastforce
  with assms have "t = u"
    by (auto simp: update_existing_account_def split: option.splits)
  with with_account_mut_similar [OF w update_existing_keeps] show ?thesis by simp
qed

lemma set_default_account_frame:
  assumes "set_default_account_for_origin sha s n origin k = Some (t, r)"
  shows "accounts_ok s \<Longrightarrow> accounts_ok t" and "account_count t = account_count s"
proof -
  obtain s1 app where s1: "lookup_or_insert_application_number_with_origin sha s origin = (s1, app)"
    by fastforce
  note f = lookup_or_insert_fields [OF s1]
  from assms s1 have t: "t = s1 \<or> (\<exists>c. t = set_anchor_application_config s1 n app c)"
    by (auto simp: set_default_account_for_origin_def op_bind_def split: option.splits)
  then have frame: "account_frame s1 t" and counters: "st_anchor_counters t = st_anchor_counters s1"
    by (auto simp: account_frame_def set_anchor_application_config_def)
  show "accounts_ok t" if "accounts_ok s"
  proof (rule account_frame_ok [OF frame lookup_or_insert_ok [OF s1 that]])
    show "account_count s1 m \<le> unat (stored_accounts (get_account_counter t m))" for m
      using accounts_okD(4) [OF lookup_or_insert_ok [OF s1 that], of m] counters
      by (simp add: get_account_counter_def)
  qed
  have "st_account_refs t = st_account_refs s" using frame f(1) by (simp add: account_frame_def)
  then show "account_count t = account_count s" by (rule account_count_cong)
qed

section \<open>The account limit\<close>

lemma rebuild_effect:
  assumes "rebuild_identity_account_counters fits_d s n = Some t" and "accounts_ok s"
  shows "account_frame s t" and "accounts_ok t" and "unat (stored_accounts (get_account_counter t n)) = account_count t n"
    and "st_app_configs t = st_app_configs s"
proof -
  from assms(1) obtain s1 where s1: "increment_discrepancy_counter fits_d s = Some s1"
    and t: "t = s1\<lparr>st_anchor_counters := om_insert n
             \<lparr>stored_accounts = of_nat (account_count s1 n),
              stored_account_references = of_nat (length (list_identity_account_references s1 n))\<rparr> (st_anchor_counters s1)\<rparr>"
    by (auto simp: rebuild_identity_account_counters_def Let_def account_count_def stored_count_def
        split: option.splits)
  have f: "st_account_refs s1 = st_account_refs s" "st_anchor_counters s1 = st_anchor_counters s"
    "st_accounts s1 = st_accounts s" "st_application_by_origin s1 = st_application_by_origin s"
    "st_account_counter s1 = st_account_counter s" "st_app_configs s1 = st_app_configs s"
    using s1 by (auto simp: increment_discrepancy_counter_def split: if_splits)
  show frame: "account_frame s t" by (simp add: account_frame_def t f)
  have count1: "account_count s1 = account_count s" by (rule account_count_cong) (rule f)
  have count: "account_count t = account_count s" by (rule account_count_cong) (simp add: t f)
  have ctr: "stored_accounts (get_account_counter t m)
      = (if m = n then of_nat (account_count s n) else stored_accounts (get_account_counter s m))" for m
    unfolding get_account_counter_def t by (simp add: f count1)
  have "account_count s n < 18446744073709551616"
    using accounts_okD(4) [OF assms(2), of n] unat64_bound [of "stored_accounts (get_account_counter s n)"]
    by linarith
  then have unat_ctr: "unat (stored_accounts (get_account_counter t m))
      = (if m = n then account_count s n else unat (stored_accounts (get_account_counter s m)))" for m
    by (simp add: ctr unat_of_nat64)
  show "unat (stored_accounts (get_account_counter t n)) = account_count t n"
    by (simp add: unat_ctr count)
  show "accounts_ok t"
    using accounts_okD(4) [OF assms(2)] by (intro account_frame_ok [OF frame assms(2)]) (simp add: unat_ctr)
  show "st_app_configs t = st_app_configs s" by (simp add: t f)
qed

lemma check_or_rebuild_effect:
  assumes "check_or_rebuild_max_anchor_accounts fits_d s n max_accounts True = Some (t, within)"
    and "accounts_ok s"
  shows "account_frame s t" and "accounts_ok t" and "st_app_configs t = st_app_configs s"
    and "within \<Longrightarrow> account_count s n < unat max_accounts"
    and "\<not> within \<Longrightarrow> account_count s n \<ge> unat max_accounts"
proof -
  have "account_frame s t \<and> accounts_ok t \<and> st_app_configs t = st_app_configs s
    \<and> (if within then account_count s n < unat max_accounts else account_count s n \<ge> unat max_accounts)"
  proof (cases "max_accounts \<le> stored_accounts (get_account_counter s n)")
    case False
    then have "t = s" "within"
      using assms(1) by (simp_all add: check_or_rebuild_max_anchor_accounts.simps)
    with False assms(2) accounts_okD(4) [OF assms(2), of n] show ?thesis
      by (simp add: word_le_nat_alt)
  next
    case True
    with assms(1) obtain s1 where s1: "rebuild_identity_account_counters fits_d s n = Some s1"
      and rest: "check_or_rebuild_max_anchor_accounts fits_d s1 n max_accounts False = Some (t, within)"
      by (auto simp: check_or_rebuild_max_anchor_accounts.simps [of _ _ _ _ True] split: option.splits)
    have t: "t = s1" "within = (\<not> max_accounts \<le> stored_accounts (get_account_counter s1 n))"
      using rest by (auto simp: check_or_rebuild_max_anchor_accounts.simps split: if_splits)
    note r = rebuild_effect [OF s1 assms(2)]
    have "account_count s1 = account_count s"
      using r(1) by (intro account_count_cong) (simp add: account_frame_def)
    with r t show ?thesis by (auto simp: word_le_nat_alt)
  qed
  then show "account_frame s t" "accounts_ok t" "st_app_configs t = st_app_configs s"
    "within \<Longrightarrow> account_count s n < unat max_accounts"
    "\<not> within \<Longrightarrow> account_count s n \<ge> unat max_accounts"
    by (simp_all split: if_splits)
qed

lemma prepared_count:
  assumes "st_account_refs t = om_insert (n, app) L (st_account_refs s)"
    and "stored_count L = stored_count (refs_at s n app) + 1"
  shows "account_count t m = account_count s m + (if m = n then 1 else 0)"
  using account_count_update [OF assms(1), of m] assms(2) by (simp split: if_splits)

lemma create_additional_account_count:
  assumes run: "create_additional_account sha fits s n origin name = Some (t, r)" and ok: "accounts_ok s"
  shows "account_count t m \<le> account_count s m + (if m = n then 1 else 0)"
  using run
proof (cases rule: create_additional_account_cases)
  case (prepared k s1 s2 app s4)
  have refs: "st_account_refs s4 = st_account_refs s"
    using prepared_account_ok(4) [OF ok prepared(1,2) _ _ _ _ prepared(3)] by simp
  from prepared(4) show ?thesis
  proof (elim disjE conjE exE)
    fix e
    assume "account_frame s4 t"
    then have "st_account_refs t = st_account_refs s" by (simp add: account_frame_def refs)
    then show ?thesis by (simp add: account_count_cong [of t s])
  next
    fix u
    assume "account_frame s4 u"
      and "t = u\<lparr>st_account_refs := om_insert (n, app) (appended_refs s4 n app k) (st_account_refs u)\<rparr>"
    then have "st_account_refs t = om_insert (n, app) (appended_refs s4 n app k) (st_account_refs s4)"
      by (simp add: account_frame_def)
    from prepared_count [OF this appended_refs_count] show ?thesis
      by (simp add: account_count_cong [OF refs])
  qed
qed simp

lemma create_default_account_count:
  assumes run: "create_default_account sha fits s n origin name = Some (t, r)" and ok: "accounts_ok s"
  shows "account_count t m \<le> account_count s m + (if m = n then 1 else 0)"
  using run
proof (cases rule: create_default_account_cases)
  case (prepared k s1 s2 app s4)
  note p = prepared_account_ok [OF ok prepared(1,2) _ _ _ _ prepared(3)]
  have refs: "st_account_refs s4 = st_account_refs s"
    using p(4) by (simp add: set_anchor_application_config_def)
  show ?thesis
  proof (cases "named_refs (om_get (st_account_refs s4) (n, app)) k")
    case None
    with prepared(4) show ?thesis by (simp add: account_count_cong [OF refs])
  next
    case (Some L)
    have "st_account_refs t = om_insert (n, app) L (st_account_refs s4)"
      using prepared(4) Some by (simp add: account_frame_def)
    moreover have s4: "accounts_ok s4"
      "om_get (st_accounts s4) k = Some \<lparr>sac_name = name, sac_seed_from_anchor = Some n\<rparr>"
      and unref: "\<And>m b. \<not> references s4 m b k"
      using p(1,2,3) by (simp_all add: set_anchor_application_config_def)
    have "stored_count L = stored_count (refs_at s4 n app) + 1"
      using named_refs_ok(3) [OF s4 _ unref Some] by simp
    ultimately show ?thesis
      using prepared_count by (simp add: account_count_cong [OF refs])
  qed
qed simp

section \<open>Reachable states\<close>

text \<open>
  A step is one call of the account interface: create, update, set the default, or use of an
  account for a delegation. A call that returns an error is a step too, since it keeps its
  changes; a call that traps is none.
\<close>

inductive account_step ::
  "(bytes \<Rightarrow> bytes) \<Rightarrow> (accounts_counter \<Rightarrow> bool) \<Rightarrow> (u64 \<Rightarrow> bool) \<Rightarrow> anchor_number \<Rightarrow> storage \<Rightarrow> storage \<Rightarrow> bool"
  for sha fits fits_d where
  step_create: "create_account_for_origin sha fits fits_d s n origin name = Some (t, r) \<Longrightarrow>
     account_step sha fits fits_d n s t"
| step_update: "update_account_for_origin sha fits fits_d s n k origin name_opt = Some (t, r') \<Longrightarrow>
     account_step sha fits fits_d n s t"
| step_set_default: "set_default_account_for_origin sha s n origin k = Some (t, r'') \<Longrightarrow>
     account_step sha fits fits_d n s t"
| step_use: "set_account_last_used sha s n origin k now = (t, u) \<Longrightarrow> account_step sha fits fits_d n s t"

definition accounts_reachable ::
  "(bytes \<Rightarrow> bytes) \<Rightarrow> (accounts_counter \<Rightarrow> bool) \<Rightarrow> (u64 \<Rightarrow> bool) \<Rightarrow> storage \<Rightarrow> bool" where
  "accounts_reachable sha fits fits_d t \<longleftrightarrow>
     (\<exists>id_range s. storage_new id_range empty_storage = Some s
        \<and> (\<lambda>s t. \<exists>n. account_step sha fits fits_d n s t)\<^sup>*\<^sup>* s t)"

definition within_limit :: "storage \<Rightarrow> bool" where
  "within_limit s \<longleftrightarrow> (\<forall>n. account_count s n \<le> 500)"

lemma limit_step:
  assumes "\<And>m. account_count t m \<le> account_count s m + (if m = n then 1 else 0)"
    and "account_count s n < 500" and "within_limit s"
  shows "within_limit t"
  unfolding within_limit_def
proof
  fix m
  show "account_count t m \<le> 500"
    using assms(1) [of m] assms(2,3) by (cases "m = n") (auto simp: within_limit_def intro: le_trans)
qed

lemma create_account_step:
  assumes "create_account_for_origin sha fits fits_d s n origin name = Some (t, r)" and ok: "accounts_ok s"
  shows "accounts_ok t" and "within_limit s \<Longrightarrow> within_limit t"
proof -
  have "accounts_ok t \<and> (within_limit s \<longrightarrow> within_limit t)"
  proof (cases "validate_account_name name")
    case False
    with assms show ?thesis by (simp add: create_account_for_origin_def)
  next
    case True
    with assms(1) obtain s1 within where
      c: "check_or_rebuild_max_anchor_accounts fits_d s n MAX_ANCHOR_ACCOUNTS True = Some (s1, within)"
      by (auto simp: create_account_for_origin_def split: option.splits)
    note e = check_or_rebuild_effect [OF c ok]
    have count: "account_count s1 = account_count s"
      using e(1) by (intro account_count_cong) (simp add: account_frame_def)
    show ?thesis
    proof (cases within)
      case False
      with True c assms(1) have "t = s1" by (simp add: create_account_for_origin_def)
      with e(2) count show ?thesis by (simp add: within_limit_def)
    next
      case True
      with \<open>validate_account_name name\<close> c assms(1) obtain r1 where
        a: "create_additional_account sha fits s1 n origin name = Some (t, r1)"
        by (auto simp: create_account_for_origin_def op_bind_def op_map_err_def split: option.splits sum.splits)
      have "account_count s n < 500" using e(4) True by (simp add: MAX_ANCHOR_ACCOUNTS_def)
      then have "within_limit s \<longrightarrow> within_limit t"
        using limit_step [of t s n] create_additional_account_count [OF a e(2)] unfolding count by blast
      with create_additional_account_ok [OF a e(2)] show ?thesis by simp
    qed
  qed
  then show "accounts_ok t" "within_limit s \<Longrightarrow> within_limit t" by blast+
qed

lemma account_similar_limit: "account_similar s t \<Longrightarrow> within_limit s \<Longrightarrow> within_limit t"
  by (simp add: account_similar_def within_limit_def)

lemma update_account_step:
  assumes "update_account_for_origin sha fits fits_d s n k origin name_opt = Some (t, r)" and ok: "accounts_ok s"
  shows "accounts_ok t" and "within_limit s \<Longrightarrow> within_limit t"
proof -
  have "accounts_ok t \<and> (within_limit s \<longrightarrow> within_limit t)"
  proof (cases "\<exists>name. name_opt = Some name \<and> validate_account_name name")
    case False
    with assms show ?thesis
      by (cases name_opt) (auto simp: update_account_for_origin_def)
  next
    case True
    then obtain name where name: "name_opt = Some name" "validate_account_name name" by blast
    show ?thesis
    proof (cases k)
      case (Some number)
      with assms(1) name obtain r1 where "update_account sha fits s (Some number) n name origin = Some (t, r1)"
        by (auto simp: update_account_for_origin_def op_bind_def op_map_err_def split: option.splits sum.splits)
      then obtain r2 where "update_existing_account sha s number n name origin = (t, r2)"
        by (auto simp: update_account_def split: option.splits)
      then have "account_similar s t" by (rule update_existing_account_similar)
      with ok show ?thesis using account_similar_ok account_similar_limit by blast
    next
      case None
      with assms(1) name obtain s1 within where
        c: "check_or_rebuild_max_anchor_accounts fits_d s n MAX_ANCHOR_ACCOUNTS True = Some (s1, within)"
        by (auto simp: update_account_for_origin_def split: option.splits)
      note e = check_or_rebuild_effect [OF c ok]
      have count: "account_count s1 = account_count s"
        using e(1) by (intro account_count_cong) (simp add: account_frame_def)
      show ?thesis
      proof (cases within)
        case False
        with None name c assms(1) have "t = s1" by (simp add: update_account_for_origin_def)
        with e(2) count show ?thesis by (simp add: within_limit_def)
      next
        case True
        with None name c assms(1) obtain r1 where "update_account sha fits s1 None n name origin = Some (t, r1)"
          by (auto simp: update_account_for_origin_def op_bind_def op_map_err_def split: option.splits sum.splits)
        then have a: "create_default_account sha fits s1 n origin name = Some (t, r1)"
          by (auto simp: update_account_def split: option.splits)
        have "account_count s n < 500" using e(4) True by (simp add: MAX_ANCHOR_ACCOUNTS_def)
        then have "within_limit s \<longrightarrow> within_limit t"
          using limit_step [of t s n] create_default_account_count [OF a e(2)] unfolding count by blast
        with create_default_account_ok [OF a e(2)] show ?thesis by simp
      qed
    qed
  qed
  then show "accounts_ok t" "within_limit s \<Longrightarrow> within_limit t" by blast+
qed

lemma account_step_ok: "account_step sha fits fits_d n s t \<Longrightarrow> accounts_ok s \<Longrightarrow> accounts_ok t"
  by (induction rule: account_step.induct)
    (auto intro: create_account_step(1) update_account_step(1) set_default_account_frame(1)
      set_account_last_used_ok)

lemma account_step_limit:
  "account_step sha fits fits_d n s t \<Longrightarrow> accounts_ok s \<Longrightarrow> within_limit s \<Longrightarrow> within_limit t"
proof (induction rule: account_step.induct)
  case (step_set_default s _ origin k t r'')
  then show ?case using set_default_account_frame(2) by (simp add: within_limit_def)
next
  case (step_use s _ origin k now t u)
  then show ?case
    using with_account_mut_similar [OF _ set_account_last_used_keeps] account_similar_limit
    unfolding set_account_last_used_def by blast
qed (blast intro: create_account_step(2) update_account_step(2))+

lemma new_storage_accounts_ok:
  "storage_new id_range empty_storage = Some s \<Longrightarrow> accounts_ok s \<and> within_limit s"
  by (auto simp: storage_new_def init_with_header_def flush_def empty_storage_def accounts_ok_def
      references_def refs_at_def or_default_def within_limit_def account_count_sum
      split: prod.splits if_splits)

lemma accounts_reachable_ok:
  assumes "accounts_reachable sha fits fits_d t"
  shows "accounts_ok t" and "within_limit t"
proof -
  from assms obtain id_range s where s: "storage_new id_range empty_storage = Some s"
    and run: "(\<lambda>s t. \<exists>n. account_step sha fits fits_d n s t)\<^sup>*\<^sup>* s t"
    by (auto simp: accounts_reachable_def)
  from run have "accounts_ok t \<and> within_limit t"
    by (induction rule: rtranclp_induct)
      (use new_storage_accounts_ok [OF s] account_step_ok account_step_limit in blast)+
  then show "accounts_ok t" "within_limit t" by simp_all
qed

end
