(* ===== verification/Account_Isolation.thy ===== *)
theory Account_Isolation
  imports Account_Properties
begin

text \<open>
  Isolation of identities and accounts: seeds of distinct accounts differ, operations of one
  identity do not change what another can read, naming the default account keeps its seed,
  and the default account setting round-trips.
\<close>

section \<open>The account limit\<close>

text \<open>
  Property C9. An identity never has more than 500 stored accounts over all applications,
  whatever sequence of account calls is made and whichever of them fail half-way: the counter
  that is checked never falls below the true number of stored accounts, also after it was
  rebuilt from the stored references.
\<close>

theorem account_limit_holds:
  assumes "accounts_reachable sha fits fits_d s"
  shows "length (filter (\<lambda>r. ar_account_number r \<noteq> None) (list_identity_account_references s n)) \<le> 500
    \<and> length (filter (\<lambda>r. ar_account_number r \<noteq> None) (list_identity_account_references s n))
        \<le> unat (stored_accounts (get_account_counter s n))"
  using accounts_reachable_ok [OF assms] accounts_okD(4)
  by (simp add: within_limit_def account_count_def stored_count_def)

lemma sample_accounts_reachable: "accounts_reachable sha fits fits_d sample_storage"
  unfolding accounts_reachable_def using sample_storage_new by blast

section \<open>Seeds of distinct accounts\<close>

lemma read_default_SomeD:
  assumes "read_account sha s None n origin None = Some (Some a)"
  shows "account_blob salt a = Some (anchor_seed_blob salt n origin)" and "length origin < 256"
    and "acc_account_number a = None"
    and "lookup_application_number_with_origin sha s origin = Some app \<Longrightarrow>
      om_get (st_account_refs s) (n, app) = Some refs \<Longrightarrow> refs \<noteq> [] \<Longrightarrow>
      \<exists>r \<in> set refs. ar_account_number r = None \<and> acc_last_used a = ar_last_used r"
proof -
  have shape: "acc_anchor_number a = n \<and> acc_origin a = origin \<and> acc_account_number a = None"
    using assms
    by (auto simp: read_account_def Let_def account_new_def account_new_full_def
        account_new_with_last_used_def find_Some_iff split: option.splits if_splits)
  then show "account_blob salt a = Some (anchor_seed_blob salt n origin)" "acc_account_number a = None"
    by (simp_all add: account_blob_def)
  show "length origin < 256"
    using assms by (auto simp: read_account_def check_frontend_length_def FRONTEND_HOSTNAME_LIMIT_def split: if_splits)
  show "\<exists>r \<in> set refs. ar_account_number r = None \<and> acc_last_used a = ar_last_used r"
    if "lookup_application_number_with_origin sha s origin = Some app"
      "om_get (st_account_refs s) (n, app) = Some refs" "refs \<noteq> []"
    using assms that
    by (auto simp: read_account_def Let_def lookup_account_references_def account_new_with_last_used_def
        account_new_full_def find_Some_iff split: option.splits if_splits)
qed

lemma read_numbered_SomeD:
  assumes "read_account sha s (Some k) n origin None = Some (Some a)"
  obtains app st where "lookup_application_number_with_origin sha s origin = Some app"
    "references s n app k" "om_get (st_accounts s) k = Some st"
    "account_blob salt a = Some (case sac_seed_from_anchor st of
       Some m \<Rightarrow> anchor_seed_blob salt m origin | None \<Rightarrow> account_seed_blob salt k origin)"
    "acc_name a = Some (sac_name st)" "length origin < 256"
proof -
  have len: "length origin < 256"
    using assms by (auto simp: read_account_def check_frontend_length_def FRONTEND_HOSTNAME_LIMIT_def split: if_splits)
  from assms obtain st r where st: "om_get (st_accounts s) k = Some st"
    and r: "find_account_reference s n (lookup_application_number_with_origin sha s origin) (Some k) = Some r"
    and a: "a = account_new_full n origin (Some (sac_name st)) (Some k) (ar_last_used r) (sac_seed_from_anchor st)"
    by (auto simp: read_account_def Let_def split: option.splits)
  from r obtain app refs where app: "lookup_application_number_with_origin sha s origin = Some app"
    and refs: "om_get (st_account_refs s) (n, app) = Some refs" and f: "find (\<lambda>r. ar_account_number r = Some k) refs = Some r"
    by (auto simp: find_account_reference_def find_account_references_def split: option.splits)
  from f have "r \<in> set refs" "ar_account_number r = Some k" by (auto simp: find_Some_iff)
  with refs have "references s n app k" by (auto simp: references_iff)
  with app st len show ?thesis
    by (intro that [of app st]) (simp_all add: a account_blob_def account_new_full_def split: option.splits)
qed

lemma single_filter_unique:
  "length (filter P xs) = 1 \<Longrightarrow> x \<in> set xs \<Longrightarrow> P x \<Longrightarrow> y \<in> set xs \<Longrightarrow> P y \<Longrightarrow> x = y"
proof -
  assume l: "length (filter P xs) = 1" and m: "x \<in> set xs" "P x" "y \<in> set xs" "P y"
  from l obtain z where z: "filter P xs = [z]" by (auto simp: length_Suc_conv)
  from m have "x \<in> set (filter P xs)" "y \<in> set (filter P xs)" by simp_all
  then show "x = y" by (simp add: z)
qed

lemma read_numbered_eq:
  "read_account sha s (Some j) n origin None =
     map_option (\<lambda>_. case om_get (st_accounts s) j of
         None \<Rightarrow> None
       | Some stored \<Rightarrow>
           map_option
             (\<lambda>r. account_new_full n origin (Some (sac_name stored)) (Some j)
                    (ar_last_used r) (sac_seed_from_anchor stored))
             (find_account_reference s n (lookup_application_number_with_origin sha s origin) (Some j)))
       (check_frontend_length origin)"
  by (simp add: read_account_def Let_def split: option.splits)

lemma references_memD:
  assumes "references s n app k"
  obtains refs r where "om_get (st_account_refs s) (n, app) = Some refs" "r \<in> set refs" "ar_account_number r = Some k"
  using assms by (auto simp: references_iff)

text \<open>A list has one default: two references that carry the anchor's seed are the same.\<close>

lemma seeded_unique:
  assumes ok: "accounts_ok s" and refs: "references s n app j" "references s n app k"
    and seeds: "om_get (st_accounts s) j = Some a" "sac_seed_from_anchor a \<noteq> None"
      "om_get (st_accounts s) k = Some b" "sac_seed_from_anchor b \<noteq> None"
  shows "j = k"
proof -
  obtain rs r where r: "om_get (st_account_refs s) (n, app) = Some rs" "r \<in> set rs" "ar_account_number r = Some j"
    using refs(1) by (rule references_memD)
  obtain rs' r' where r': "om_get (st_account_refs s) (n, app) = Some rs'" "r' \<in> set rs'" "ar_account_number r' = Some k"
    using refs(2) by (rule references_memD)
  have one: "length (filter (is_default_ref s) rs) = 1"
    using accounts_okD(1) [OF ok r(1)] by (simp add: ref_list_ok_def)
  have "is_default_ref s r" by (simp add: is_default_ref_def r(3) seeds(1,2))
  moreover have "is_default_ref s r'" by (simp add: is_default_ref_def r'(3) seeds(3,4))
  moreover have "r' \<in> set rs" using r(1) r'(1,2) by simp
  ultimately have "r = r'" using single_filter_unique [OF one r(2)] by blast
  with r(3) r'(3) show ?thesis by simp
qed

lemma seeded_excludes_default:
  assumes ok: "accounts_ok s" and refs: "references s n app k"
    and app: "lookup_application_number_with_origin sha s origin = Some app"
    and seed: "om_get (st_accounts s) k = Some a" "sac_seed_from_anchor a \<noteq> None"
  shows "read_account sha s None n origin None \<noteq> Some (Some d)"
proof
  assume read: "read_account sha s None n origin None = Some (Some d)"
  obtain rs r where r: "om_get (st_account_refs s) (n, app) = Some rs" "r \<in> set rs" "ar_account_number r = Some k"
    using refs by (rule references_memD)
  then have "rs \<noteq> []" by auto
  from read_default_SomeD(4) [OF read app r(1) this] obtain q where q: "q \<in> set rs" "ar_account_number q = None"
    by blast
  have one: "length (filter (is_default_ref s) rs) = 1"
    using accounts_okD(1) [OF ok r(1)] by (simp add: ref_list_ok_def)
  have "is_default_ref s r" by (simp add: is_default_ref_def r(3) seed)
  moreover have "is_default_ref s q" by (simp add: is_default_ref_def q(2))
  ultimately have "r = q" using single_filter_unique [OF one r(2)] q(1) by blast
  with r(3) q(2) show False by simp
qed

text \<open>
  Property C7. Two different accounts never share a key seed. In every reachable state, if
  two identities (or one identity under two account numbers) can read an account of the same
  origin, the byte strings from which the seeds are hashed are different. This covers default
  accounts before and after they were named, and additional accounts, in every combination.
\<close>

theorem distinct_accounts_distinct_seeds:
  assumes reach: "accounts_reachable sha fits fits_d s" and salt: "length salt < 256"
    and r1: "read_account sha s k1 n1 origin None = Some (Some a1)"
    and r2: "read_account sha s k2 n2 origin None = Some (Some a2)"
    and diff: "(n1, k1) \<noteq> (n2, k2)"
  shows "account_blob salt a1 \<noteq> account_blob salt a2 \<and> account_blob salt a1 \<noteq> None"
proof -
  have ok: "accounts_ok s" using accounts_reachable_ok [OF reach] by simp
  have main: "account_blob salt a1 \<noteq> account_blob salt a2"
    if r1: "read_account sha s k1 n1 origin None = Some (Some a1)"
      and r2: "read_account sha s k2 n2 origin None = Some (Some a2)"
      and diff: "(n1, k1) \<noteq> (n2, k2)" and order: "k1 \<noteq> None \<longrightarrow> k2 \<noteq> None"
    for k1 n1 a1 k2 n2 a2
  proof (cases k1)
    case None
    note d1 = read_default_SomeD [OF r1 [unfolded None]]
    show ?thesis
    proof (cases k2)
      case None
      with \<open>k1 = None\<close> diff have "n1 \<noteq> n2" by simp
      then show ?thesis
        using d1(1) [of salt] read_default_SomeD(1) [OF r2 [unfolded None], of salt] d1(2) salt
          anchor_seed_blob_inj by fastforce
    next
      case (Some j)
      from r2 [unfolded Some] obtain app st where st: "lookup_application_number_with_origin sha s origin = Some app"
        "references s n2 app j" "om_get (st_accounts s) j = Some st"
        and blob: "account_blob salt a2 = Some (case sac_seed_from_anchor st of
          Some m \<Rightarrow> anchor_seed_blob salt m origin | None \<Rightarrow> account_seed_blob salt j origin)"
        by (elim read_numbered_SomeD [where salt = salt])
      show ?thesis
      proof (cases "sac_seed_from_anchor st")
        case None
        with blob d1(1) [of salt] anchor_account_blobs_differ show ?thesis by simp
      next
        case (Some m)
        then have "m = n2" using references_known [OF ok st(2)] st(3) by simp
        moreover have "n1 \<noteq> n2"
          using seeded_excludes_default [OF ok st(2,1,3)] Some r1 \<open>k1 = None\<close> by auto
        ultimately show ?thesis
          using blob Some d1(1) [of salt] d1(2) salt anchor_seed_blob_inj by fastforce
      qed
    qed
  next
    case (Some i)
    with order obtain j where j: "k2 = Some j" by auto
    from r1 [unfolded Some] obtain app st where st: "lookup_application_number_with_origin sha s origin = Some app"
      "references s n1 app i" "om_get (st_accounts s) i = Some st"
      and blob: "account_blob salt a1 = Some (case sac_seed_from_anchor st of
        Some m \<Rightarrow> anchor_seed_blob salt m origin | None \<Rightarrow> account_seed_blob salt i origin)"
      and len: "length origin < 256"
      by (elim read_numbered_SomeD [where salt = salt])
    from r2 [unfolded j] obtain app' st' where st': "lookup_application_number_with_origin sha s origin = Some app'"
      "references s n2 app' j" "om_get (st_accounts s) j = Some st'"
      and blob': "account_blob salt a2 = Some (case sac_seed_from_anchor st' of
        Some m \<Rightarrow> anchor_seed_blob salt m origin | None \<Rightarrow> account_seed_blob salt j origin)"
      by (elim read_numbered_SomeD [where salt = salt])
    have app: "app' = app" using st(1) st'(1) by simp
    have ij: "i \<noteq> j"
      using accounts_okD(2) [OF ok st(2), of n2 app'] st'(2) diff Some j by auto
    have m: "sac_seed_from_anchor st \<in> {None, Some n1}" "sac_seed_from_anchor st' \<in> {None, Some n2}"
      using references_known [OF ok st(2)] references_known [OF ok st'(2)] st(3) st'(3) by simp_all
    have "n1 \<noteq> n2" if "sac_seed_from_anchor st \<noteq> None" "sac_seed_from_anchor st' \<noteq> None"
      using seeded_unique [OF ok st(2) _ st(3) that(1) st'(3) that(2)] st'(2) app ij by auto
    then show ?thesis
      using m ij salt len blob blob' anchor_seed_blob_inj [of salt n1 origin n2 origin]
        account_seed_blob_inj [of salt i origin j origin] anchor_account_blobs_differ [of salt n1 origin j origin]
        anchor_account_blobs_differ [of salt n2 origin i origin]
      by (auto split: option.splits)
  qed
  have "account_blob salt a1 \<noteq> None"
  proof (cases k1)
    case None
    then show ?thesis using read_default_SomeD(1) [of sha s n1 origin a1 salt] r1 by simp
  next
    case (Some i)
    then show ?thesis using r1 by (auto elim!: read_numbered_SomeD [where salt = salt])
  qed
  moreover have "account_blob salt a1 \<noteq> account_blob salt a2"
  proof (cases "k1 \<noteq> None \<longrightarrow> k2 \<noteq> None")
    case True
    show ?thesis by (rule main [OF r1 r2 diff True])
  next
    case False
    then have "account_blob salt a2 \<noteq> account_blob salt a1"
      using diff by (intro main [OF r2 r1]) auto
    then show ?thesis by simp
  qed
  ultimately show ?thesis by simp
qed


theorem account_limit_holds_witness:
  "length (filter (\<lambda>r. ar_account_number r \<noteq> None) (list_identity_account_references sample_storage 10000)) \<le> 500"
  using account_limit_holds [OF sample_accounts_reachable] by blast

lemma sample_read_default:
  "read_account sha sample_storage None n ''https://a.b'' None = Some (Some (account_new n ''https://a.b'' None None))"
  by (simp add: read_account_def check_frontend_length_def FRONTEND_HOSTNAME_LIMIT_def
      lookup_application_number_with_origin_def sample_storage_def storage_new_def MAX_ENTRIES_value
      init_with_header_def flush_def empty_storage_def)

theorem distinct_accounts_distinct_seeds_witness:
  "account_blob (replicate 32 7) (account_new 10000 ''https://a.b'' None None)
     \<noteq> account_blob (replicate 32 7) (account_new 10001 ''https://a.b'' None None)"
  using distinct_accounts_distinct_seeds [OF sample_accounts_reachable [of "\<lambda>b. b" "\<lambda>_. True" "\<lambda>_. True"] _
      sample_read_default [of "\<lambda>b. b" 10000] sample_read_default [of "\<lambda>b. b" 10001], of "replicate 32 7"]
  by simp

section \<open>Operations of one identity do not affect another\<close>

text \<open>Application numbers in use are below the number of known origins.\<close>

definition applications_ok :: "storage \<Rightarrow> bool" where
  "applications_ok s \<longleftrightarrow>
     (\<forall>h app. om_get (st_application_by_origin s) h = Some app \<longrightarrow>
        unat app < om_len (st_application_by_origin s))
     \<and> (\<forall>n app. om_get (st_account_refs s) (n, app) \<noteq> None \<longrightarrow>
        (\<exists>h. om_get (st_application_by_origin s) h = Some app))"

text \<open>The effect of an operation of \<open>n\<close> on the parts of the storage that accounts are read from.\<close>

definition grows_origins :: "storage \<Rightarrow> storage \<Rightarrow> bool" where
  "grows_origins s t \<longleftrightarrow>
     st_application_by_origin t = st_application_by_origin s
     \<or> (\<exists>h. om_get (st_application_by_origin s) h = None
          \<and> st_application_by_origin t =
              om_insert h (of_nat (om_len (st_application_by_origin s))) (st_application_by_origin s))"

definition op_frame :: "anchor_number \<Rightarrow> storage \<Rightarrow> storage \<Rightarrow> bool" where
  "op_frame n s t \<longleftrightarrow>
     (\<forall>m app. m \<noteq> n \<longrightarrow> om_get (st_account_refs t) (m, app) = om_get (st_account_refs s) (m, app))
     \<and> (\<forall>k. om_get (st_accounts s) k \<noteq> None \<longrightarrow> (\<forall>app. \<not> references s n app k) \<longrightarrow>
          om_get (st_accounts t) k = om_get (st_accounts s) k)
     \<and> (\<forall>app. om_get (st_account_refs t) (n, app) \<noteq> None \<longrightarrow>
          om_get (st_account_refs s) (n, app) \<noteq> None \<or> (\<exists>h. om_get (st_application_by_origin t) h = Some app))
     \<and> grows_origins s t"

lemma op_frame_refl [simp]: "op_frame n s s"
  by (simp add: op_frame_def grows_origins_def)

lemma lookup_or_insert_grows:
  assumes "lookup_or_insert_application_number_with_origin sha s origin = (t, app)"
  shows "grows_origins s t" and "om_get (st_application_by_origin t) (sha (string_bytes origin)) = Some app"
  using assms
  by (auto simp: lookup_or_insert_application_number_with_origin_def grows_origins_def Let_def split: option.splits)

lemma op_frame_after:
  assumes "account_frame s0 s" and "op_frame n s t"
  shows "op_frame n s0 t"
proof -
  have f: "st_account_refs s = st_account_refs s0" "st_accounts s = st_accounts s0"
    "st_application_by_origin s = st_application_by_origin s0"
    using assms(1) by (simp_all add: account_frame_def)
  have r: "references s = references s0" by (simp add: fun_eq_iff references_def refs_at_def f)
  show ?thesis using assms(2) unfolding op_frame_def grows_origins_def f r .
qed

lemma grows_origins_cong:
  "st_application_by_origin s' = st_application_by_origin s \<Longrightarrow>
   st_application_by_origin t' = st_application_by_origin t \<Longrightarrow> grows_origins s' t' = grows_origins s t"
  by (simp add: grows_origins_def)

lemma create_additional_account_frame:
  assumes run: "create_additional_account sha fits s n origin name = Some (t, r)" and ok: "accounts_ok s"
  shows "op_frame n s t"
  using run
proof (cases rule: create_additional_account_cases)
  case (prepared k s1 s2 app s4)
  note p = prepared_account_ok [OF ok prepared(1,2) _ _ _ _ prepared(3)]
  have s4: "st_account_refs s4 = st_account_refs s"
    "st_accounts s4 = om_insert k \<lparr>sac_name = name, sac_seed_from_anchor = None\<rparr> (st_accounts s)"
    using p(4,5) by simp_all
  have fresh: "om_get (st_accounts s) k = None" using fresh_number(1) [OF ok] p(8) by simp
  have org: "st_application_by_origin s4 = st_application_by_origin s2"
    using update_counters_frame(1) [OF prepared(3)] by (simp add: account_frame_def)
  have s1: "st_application_by_origin s1 = st_application_by_origin s"
    using prepared(1) by (elim allocate_account_number_cases) auto
  have grow: "grows_origins s s4"
    using lookup_or_insert_grows(1) [OF prepared(2)] s1 org by (simp add: grows_origins_def)
  have app: "om_get (st_application_by_origin s4) (sha (string_bytes origin)) = Some app"
    using lookup_or_insert_grows(2) [OF prepared(2)] org by simp
  from prepared(4) show ?thesis
  proof (elim disjE conjE exE)
    fix e
    assume "account_frame s4 t"
    with fresh grow show ?thesis
      by (auto simp: op_frame_def account_frame_def s4 grows_origins_def)
  next
    fix u
    assume u: "account_frame s4 u"
      and t: "t = u\<lparr>st_account_refs := om_insert (n, app) (appended_refs s4 n app k) (st_account_refs u)\<rparr>"
    have f: "st_account_refs t = om_insert (n, app) (appended_refs s4 n app k) (st_account_refs s)"
      "st_accounts t = om_insert k \<lparr>sac_name = name, sac_seed_from_anchor = None\<rparr> (st_accounts s)"
      "st_application_by_origin t = st_application_by_origin s4"
      using u by (simp_all add: t account_frame_def s4)
    show ?thesis
      using fresh grow app by (auto simp: op_frame_def f grows_origins_def)
  qed
qed simp

lemma create_default_account_frame:
  assumes run: "create_default_account sha fits s n origin name = Some (t, r)" and ok: "accounts_ok s"
  shows "op_frame n s t"
  using run
proof (cases rule: create_default_account_cases)
  case (prepared k s1 s2 app s4)
  note p = prepared_account_ok [OF ok prepared(1,2) _ _ _ _ prepared(3)]
  have s4: "st_account_refs s4 = st_account_refs s"
    "st_accounts s4 = om_insert k \<lparr>sac_name = name, sac_seed_from_anchor = Some n\<rparr> (st_accounts s)"
    using p(4,5) by (simp_all add: set_anchor_application_config_def)
  have fresh: "om_get (st_accounts s) k = None"
    using fresh_number(1) [OF ok] p(8) by (simp add: set_anchor_application_config_def)
  have org: "st_application_by_origin s4 = st_application_by_origin s2"
    using update_counters_frame(1) [OF prepared(3)] by (simp add: account_frame_def set_anchor_application_config_def)
  have s1: "st_application_by_origin s1 = st_application_by_origin s"
    using prepared(1) by (elim allocate_account_number_cases) auto
  have grow: "grows_origins s s4"
    using lookup_or_insert_grows(1) [OF prepared(2)] s1 org by (simp add: grows_origins_def)
  have app: "om_get (st_application_by_origin s4) (sha (string_bytes origin)) = Some app"
    using lookup_or_insert_grows(2) [OF prepared(2)] org by simp
  show ?thesis
  proof (cases "named_refs (om_get (st_account_refs s4) (n, app)) k")
    case None
    with prepared(4) fresh grow show ?thesis
      by (auto simp: op_frame_def s4)
  next
    case (Some L)
    then have f: "st_account_refs t = om_insert (n, app) L (st_account_refs s)"
      "st_accounts t = om_insert k \<lparr>sac_name = name, sac_seed_from_anchor = Some n\<rparr> (st_accounts s)"
      "st_application_by_origin t = st_application_by_origin s4"
      using prepared(4) by (simp_all add: account_frame_def s4)
    show ?thesis
      using fresh grow app by (auto simp: op_frame_def f grows_origins_def)
  qed
qed simp

lemma with_account_mut_frame:
  assumes "with_account_mut s n app k f = (t, res)" and "keeps_identity f"
  shows "op_frame n s t"
  using assms
proof (cases rule: with_account_mut_effect)
  case (changed b refs refs' accs)
  then show ?thesis
    by (auto simp: op_frame_def grows_origins_def)
qed simp

lemma account_step_frame:
  assumes "account_step sha fits fits_d n s t" and ok: "accounts_ok s"
  shows "op_frame n s t"
  using assms(1)
proof cases
  case (step_create origin name r)
  show ?thesis
  proof (cases "validate_account_name name")
    case False
    with step_create show ?thesis by (simp add: create_account_for_origin_def)
  next
    case True
    with step_create obtain s1 within where
      c: "check_or_rebuild_max_anchor_accounts fits_d s n MAX_ANCHOR_ACCOUNTS True = Some (s1, within)"
      by (auto simp: create_account_for_origin_def split: option.splits)
    note e = check_or_rebuild_effect [OF c ok]
    have "t = s1 \<or> (\<exists>r1. create_additional_account sha fits s1 n origin name = Some (t, r1))"
      using step_create True c
      by (cases within) (auto simp: create_account_for_origin_def op_bind_def op_map_err_def split: option.splits sum.splits)
    with e(1,2) show ?thesis
      using op_frame_after create_additional_account_frame op_frame_refl by blast
  qed
next
  case (step_update k origin name_opt r')
  show ?thesis
  proof (cases "\<exists>name. name_opt = Some name \<and> validate_account_name name")
    case False
    with step_update show ?thesis by (cases name_opt) (auto simp: update_account_for_origin_def)
  next
    case True
    then obtain name where name: "name_opt = Some name" "validate_account_name name" by blast
    show ?thesis
    proof (cases k)
      case (Some number)
      with step_update name obtain r1 where "update_account sha fits s (Some number) n name origin = Some (t, r1)"
        by (auto simp: update_account_for_origin_def op_bind_def op_map_err_def split: option.splits sum.splits)
      then obtain r2 where "update_existing_account sha s number n name origin = (t, r2)"
        by (auto simp: update_account_def split: option.splits)
      then obtain res where "with_account_mut s n (lookup_application_number_with_origin sha s origin) (Some number)
         (\<lambda>r a. case (ar_account_number r, a) of
           (Some number, Some stored) \<Rightarrow>
             (Some (account_new_full n origin (Some name) (Some number) (ar_last_used r) (sac_seed_from_anchor stored)),
              r, Some (stored\<lparr>sac_name := name\<rparr>))
         | _ \<Rightarrow> (None, r, a)) = (t, res)"
        by (auto simp: update_existing_account_def split: prod.splits option.splits)
      then show ?thesis using update_existing_keeps by (rule with_account_mut_frame)
    next
      case None
      with step_update name obtain s1 within where
        c: "check_or_rebuild_max_anchor_accounts fits_d s n MAX_ANCHOR_ACCOUNTS True = Some (s1, within)"
        by (auto simp: update_account_for_origin_def split: option.splits)
      note e = check_or_rebuild_effect [OF c ok]
      have "t = s1 \<or> (\<exists>r1. update_account sha fits s1 None n name origin = Some (t, r1))"
        using step_update None name c
        by (cases within) (auto simp: update_account_for_origin_def op_bind_def op_map_err_def split: option.splits sum.splits)
      then have "t = s1 \<or> (\<exists>r1. create_default_account sha fits s1 n origin name = Some (t, r1))"
        by (auto simp: update_account_def split: option.splits)
      with e(1,2) show ?thesis
        using op_frame_after create_default_account_frame op_frame_refl by blast
    qed
  qed
next
  case (step_set_default origin k r'')
  obtain s1 app where s1: "lookup_or_insert_application_number_with_origin sha s origin = (s1, app)"
    by fastforce
  have t: "t = s1 \<or> (\<exists>c. t = set_anchor_application_config s1 n app c)"
    using step_set_default s1
    by (auto simp: set_default_account_for_origin_def op_bind_def split: option.splits)
  then have "st_account_refs t = st_account_refs s" "st_accounts t = st_accounts s"
    "st_application_by_origin t = st_application_by_origin s1"
    using lookup_or_insert_fields [OF s1] by (auto simp: set_anchor_application_config_def)
  with lookup_or_insert_grows(1) [OF s1] show ?thesis
    by (auto simp: op_frame_def grows_origins_def)
next
  case (step_use origin k now u)
  then show ?thesis
    unfolding set_account_last_used_def using set_account_last_used_keeps by (rule with_account_mut_frame)
qed


lemma applications_ok_step:
  assumes "op_frame n s t" and "applications_ok s"
  shows "applications_ok t"
proof -
  have grow: "grows_origins s t" using assms(1) by (simp add: op_frame_def)
  have vals: "unat app < om_len (st_application_by_origin t)"
    if "om_get (st_application_by_origin t) h = Some app" for h app
  proof (cases "st_application_by_origin t = st_application_by_origin s")
    case True
    with that assms(2) show ?thesis by (auto simp: applications_ok_def)
  next
    case False
    with grow obtain g where g: "om_get (st_application_by_origin s) g = None"
      "st_application_by_origin t = om_insert g (of_nat (om_len (st_application_by_origin s))) (st_application_by_origin s)"
      by (auto simp: grows_origins_def)
    have "unat (of_nat (om_len (st_application_by_origin s)) :: u64) \<le> om_len (st_application_by_origin s)"
      by (simp add: unat_of_nat take_bit_eq_mod)
    with that g assms(2) show ?thesis
      by (auto simp: applications_ok_def om.len_insert less_Suc_eq split: if_splits)
  qed
  have keep: "om_get (st_application_by_origin t) h = Some app"
    if "om_get (st_application_by_origin s) h = Some app" for h app
    using that grow by (auto simp: grows_origins_def)
  have "\<exists>h. om_get (st_application_by_origin t) h = Some app"
    if "om_get (st_account_refs t) (m, app) \<noteq> None" for m app
  proof (cases "om_get (st_account_refs s) (m, app) \<noteq> None")
    case True
    with assms(2) obtain h where "om_get (st_application_by_origin s) h = Some app"
      unfolding applications_ok_def by blast
    with keep show ?thesis by blast
  next
    case False
    with that assms(1) show ?thesis unfolding op_frame_def by (metis)
  qed
  with vals show ?thesis unfolding applications_ok_def by blast
qed

lemma new_storage_applications_ok: "storage_new id_range empty_storage = Some s \<Longrightarrow> applications_ok s"
  by (auto simp: storage_new_def init_with_header_def flush_def empty_storage_def applications_ok_def
      split: prod.splits if_splits)

lemma accounts_reachable_applications:
  assumes "accounts_reachable sha fits fits_d t"
  shows "applications_ok t"
proof -
  from assms obtain id_range s where s: "storage_new id_range empty_storage = Some s"
    and run: "(\<lambda>s t. \<exists>n. account_step sha fits fits_d n s t)\<^sup>*\<^sup>* s t"
    by (auto simp: accounts_reachable_def)
  from run have "accounts_ok t \<and> applications_ok t"
  proof (induction rule: rtranclp_induct)
    case base
    show ?case using new_storage_accounts_ok [OF s] new_storage_applications_ok [OF s] by simp
  next
    case (step y z)
    then obtain n where "account_step sha fits fits_d n y z" by blast
    with step show ?case
      using account_step_ok applications_ok_step account_step_frame by blast
  qed
  then show ?thesis ..
qed

text \<open>An application number that is about to be assigned has no reference lists yet.\<close>

lemma new_application_unused:
  assumes "applications_ok s" and "om_len (st_application_by_origin s) < 2 ^ 64"
  shows "om_get (st_account_refs s) (m, of_nat (om_len (st_application_by_origin s))) = None"
proof (rule ccontr)
  let ?a = "of_nat (om_len (st_application_by_origin s)) :: u64"
  assume "om_get (st_account_refs s) (m, ?a) \<noteq> None"
  with assms(1) obtain h where "om_get (st_application_by_origin s) h = Some ?a"
    unfolding applications_ok_def by blast
  with assms(1) have "unat ?a < om_len (st_application_by_origin s)"
    unfolding applications_ok_def by blast
  with assms(2) show False by (simp add: unat_of_nat64)
qed

text \<open>
  Property C11. Identities are isolated. In every reachable state (with fewer than 2^64
  known origins) a call made for one identity, successful or not, leaves every account that
  any other identity can read under any origin exactly as it was, and gives the other
  identity access to no account it could not read before.
\<close>

theorem account_calls_isolated:
  assumes reach: "accounts_reachable sha fits fits_d s"
    and step: "account_step sha fits fits_d n s t"
    and other: "m \<noteq> n"
    and room: "om_len (st_application_by_origin s) < 2 ^ 64"
  shows "read_account sha t k m origin None = read_account sha s k m origin None"
proof -
  have ok: "accounts_ok s" by (rule accounts_reachable_ok(1) [OF reach])
  have apps: "applications_ok s" by (rule accounts_reachable_applications [OF reach])
  have frame: "op_frame n s t" by (rule account_step_frame [OF step ok])
  then have refs: "om_get (st_account_refs t) (m, app) = om_get (st_account_refs s) (m, app)" for app
    using other unfolding op_frame_def by blast
  have accs: "om_get (st_accounts t) j = om_get (st_accounts s) j" if "references s m app j" for app j
  proof -
    have "om_get (st_accounts s) j \<noteq> None" using references_known [OF ok that] by auto
    moreover have "\<not> references s n app' j" for app'
      using accounts_okD(2) [OF ok that, of n app'] other by auto
    ultimately show ?thesis using frame unfolding op_frame_def by blast
  qed
  let ?ls = "lookup_application_number_with_origin sha s origin"
  let ?lt = "lookup_application_number_with_origin sha t origin"
  have same_app: "?lt = ?ls \<or> ?ls = None \<and> ?lt = Some (of_nat (om_len (st_application_by_origin s)))"
  proof -
    have "grows_origins s t" using frame by (simp add: op_frame_def)
    then show ?thesis
      by (auto simp: grows_origins_def lookup_application_number_with_origin_def split: if_splits)
  qed
  have unused: "om_get (st_account_refs s) (m, of_nat (om_len (st_application_by_origin s))) = None"
    by (rule new_application_unused [OF apps room])
  have find: "find_account_reference t m ?lt (Some j) = find_account_reference s m ?ls (Some j)" for j
    using same_app unused refs
    by (auto simp: find_account_reference_def find_account_references_def split: option.splits)
  have found: "\<exists>app. references s m app j" if "find_account_reference s m ?ls (Some j) \<noteq> None" for j
  proof -
    from that obtain app refs' r where "om_get (st_account_refs s) (m, app) = Some refs'"
      and "find (\<lambda>r. ar_account_number r = Some j) refs' = Some r"
      by (auto simp: find_account_reference_def find_account_references_def split: option.splits)
    moreover from this(2) have "r \<in> set refs'" "ar_account_number r = Some j" by (auto simp: find_Some_iff)
    ultimately show ?thesis unfolding references_iff by blast
  qed
  show ?thesis
  proof (cases k)
    case None
    show ?thesis
      using same_app unused refs
      by (auto simp: read_account_def Let_def None lookup_account_references_def split: option.splits)
  next
    case (Some j)
    show ?thesis
    proof (cases "find_account_reference s m ?ls (Some j)")
      case None
      then show ?thesis
        using find [of j] by (auto simp: read_numbered_eq \<open>k = Some j\<close> split: option.splits)
    next
      case (Some r)
      with found obtain app where "references s m app j" by blast
      from accs [OF this] find [of j] show ?thesis
        unfolding \<open>k = Some j\<close> read_numbered_eq by (auto split: option.splits)
    qed
  qed
qed

theorem account_calls_isolated_witness:
  "\<exists>t. account_step (\<lambda>b. b) (\<lambda>_. True) (\<lambda>_. True) 10000 sample_storage t
     \<and> read_account (\<lambda>b. b) t None 10001 ''https://a.b'' None
         = Some (Some (account_new 10001 ''https://a.b'' None None))"
proof -
  obtain t r where "set_default_account_for_origin (\<lambda>b. b) sample_storage 10000 ''https://a.b'' None = Some (t, r)"
    by (cases "lookup_or_insert_application_number_with_origin (\<lambda>b. b) sample_storage ''https://a.b''")
      (auto simp: set_default_account_for_origin_def op_bind_def)
  then have step: "account_step (\<lambda>b. b) (\<lambda>_. True) (\<lambda>_. True) 10000 sample_storage t"
    by (rule step_set_default)
  have "om_len (st_application_by_origin sample_storage) < 2 ^ 64"
    by (simp add: sample_storage_def storage_new_def MAX_ENTRIES_value init_with_header_def flush_def
        empty_storage_def)
  from account_calls_isolated [OF sample_accounts_reachable step _ this, of 10001 None "''https://a.b''"]
  show ?thesis using step sample_read_default by auto
qed


section \<open>Naming the default account\<close>

lemma find_update_new:
  "i < length xs \<Longrightarrow> P y \<Longrightarrow> \<forall>x \<in> set xs. \<not> P x \<Longrightarrow> find P (xs[i := y]) = Some y"
proof (induction xs arbitrary: i)
  case (Cons x xs)
  then show ?case by (cases i) auto
qed simp

text \<open>Replacing the number of the default reference: what is found in the list afterwards.\<close>

lemma named_refs_find:
  assumes pos: "position (\<lambda>r. ar_account_number r = None) refs = Some i"
    and dist: "distinct (map ar_account_number refs)" and nk: "Some k \<notin> ar_account_number ` set refs"
  defines "L \<equiv> refs[i := (refs ! i)\<lparr>ar_account_number := Some k\<rparr>]"
  shows "find (\<lambda>r. ar_account_number r = Some k) L = Some ((refs ! i)\<lparr>ar_account_number := Some k\<rparr>)"
    and "find (\<lambda>r. ar_account_number r = None) L = None" and "L \<noteq> []"
proof -
  from position_SomeD [OF pos] have i: "i < length refs" "ar_account_number (refs ! i) = None" by auto
  show "find (\<lambda>r. ar_account_number r = Some k) L = Some ((refs ! i)\<lparr>ar_account_number := Some k\<rparr>)"
    unfolding L_def using i nk by (intro find_update_new) (auto simp: image_iff)
  have "ar_account_number (L ! j) \<noteq> None" if "j < length L" for j
  proof (cases "j = i")
    case False
    then have "ar_account_number (refs ! j) \<noteq> ar_account_number (refs ! i)"
      using nth_eq_iff_index_eq [OF dist, of j i] that i False by (simp add: L_def)
    with False i that show ?thesis by (simp add: L_def)
  qed (use i in \<open>simp add: L_def\<close>)
  then show "find (\<lambda>r. ar_account_number r = None) L = None"
    by (auto simp: find_None_iff in_set_conv_nth)
  show "L \<noteq> []" using i by (auto simp: L_def)
qed

text \<open>
  Property C16. Giving the default account a name turns it into a stored account without
  changing who the user is: the call returns the same seed bytes the unnamed account had, the
  account can be read under its new number with this name, the same seed and the usage time
  the default account had, the unnamed account can no longer be read, and the new account is
  the default account of the origin.
\<close>

theorem naming_default_keeps_seed:
  assumes ok: "accounts_reachable sha fits fits_d s"
    and read: "read_account sha s None n origin None = Some (Some a)"
    and run: "update_account sha fits s None n name origin = Some (t, Inr a')"
    and room: "om_len (st_application_by_origin s) < 2 ^ 64"
  shows "\<exists>k b. acc_account_number a' = Some k
    \<and> account_blob salt a' = account_blob salt a
    \<and> read_account sha t (Some k) n origin None = Some (Some b)
    \<and> acc_name b = Some name \<and> account_blob salt b = account_blob salt a
    \<and> acc_last_used b = acc_last_used a
    \<and> read_account sha t None n origin None = Some None
    \<and> get_default_account_for_origin sha t n origin = Some (Inr (account_to_info b))"
proof -
  have inv: "accounts_ok s" by (rule accounts_reachable_ok(1) [OF ok])
  have apps: "applications_ok s" by (rule accounts_reachable_applications [OF ok])
  note d = read_default_SomeD [OF read]
  have len: "check_frontend_length origin = Some ()"
    using read by (auto simp: read_account_def check_frontend_length_def split: if_splits)
  from run len have "create_default_account sha fits s n origin name = Some (t, Inr a')"
    by (simp add: update_account_def)
  then show ?thesis
  proof (cases rule: create_default_account_cases)
    case (prepared k s1 s2 app s4)
    note p = prepared_account_ok [OF inv prepared(1,2) _ _ _ _ prepared(3)]
    have s4: "accounts_ok s4" "om_get (st_accounts s4) k = Some \<lparr>sac_name = name, sac_seed_from_anchor = Some n\<rparr>"
      "st_account_refs s4 = st_account_refs s" and unref: "\<And>m b. \<not> references s4 m b k"
      using p(1,2,3,4) by (simp_all add: set_anchor_application_config_def)
    obtain L where L: "named_refs (om_get (st_account_refs s4) (n, app)) k = Some L"
      using prepared(4) by (cases "named_refs (om_get (st_account_refs s4) (n, app)) k") auto
    have t: "st_account_refs t = om_insert (n, app) L (st_account_refs s)" "st_accounts t = st_accounts s4"
      "st_application_by_origin t = st_application_by_origin s4"
      and a': "a' = account_new_full n origin (Some name) (Some k) None (Some n)"
      using prepared(4) L by (simp_all add: account_frame_def s4)
    have org: "st_application_by_origin s4 = st_application_by_origin s2"
      using update_counters_frame(1) [OF prepared(3)] by (simp add: account_frame_def set_anchor_application_config_def)
    have app_t: "lookup_application_number_with_origin sha t origin = Some app"
      using lookup_or_insert_fields(6) [OF prepared(2)] by (simp add: lookup_application_number_with_origin_def t org)
    have org1: "st_application_by_origin s1 = st_application_by_origin s"
      using prepared(1) by (elim allocate_account_number_cases) auto
    have cfg: "lookup_anchor_application_config t n app = \<lparr>default_account_number = Some k\<rparr>"
      using prepared(4) L update_counters_frame(2) [OF prepared(3)]
      by (simp add: lookup_anchor_application_config_def set_anchor_application_config_def)
    have app_s: "lookup_application_number_with_origin sha s origin = Some app
        \<or> lookup_application_number_with_origin sha s origin = None \<and> om_get (st_account_refs s) (n, app) = None"
      using prepared(2) new_application_unused [OF apps room, of n]
      by (auto simp: lookup_or_insert_application_number_with_origin_def Let_def org1
          lookup_application_number_with_origin_def split: option.splits)
    obtain r where find_k: "find (\<lambda>r. ar_account_number r = Some k) L = Some r"
      and find_none: "find (\<lambda>r. ar_account_number r = None) L = None" and "L \<noteq> []"
      and used: "ar_last_used r = acc_last_used a"
    proof (cases "om_get (st_account_refs s) (n, app)")
      case None
      then have "L = [new_reference (Some k)]" using L by (simp add: s4 named_refs_def)
      moreover have "acc_last_used a = None"
        using read app_s None
        by (auto simp: read_account_def Let_def lookup_account_references_def account_new_def
            account_new_full_def split: option.splits)
      ultimately show ?thesis
        by (intro that [of "new_reference (Some k)"]) (simp_all add: new_reference_def)
    next
      case (Some refs)
      with L obtain i where pos: "position (\<lambda>r. ar_account_number r = None) refs = Some i"
        and L': "L = refs[i := (refs ! i)\<lparr>ar_account_number := Some k\<rparr>]"
        by (auto simp: s4 named_refs_def split: option.splits)
      have dist: "distinct (map ar_account_number refs)"
        using accounts_okD(1) [OF inv Some] by (simp add: ref_list_ok_def)
      have nk: "Some k \<notin> ar_account_number ` set refs"
        using unref [of n app] Some by (simp add: references_def refs_at_def s4 or_default_def)
      have "refs \<noteq> []" using pos by auto
      with Some app_s read pos have "acc_last_used a = ar_last_used (refs ! i)"
        by (auto simp: read_account_def Let_def lookup_account_references_def account_new_with_last_used_def
            account_new_full_def find_position split: option.splits)
      with named_refs_find [OF pos dist nk] show ?thesis
        by (intro that [of "(refs ! i)\<lparr>ar_account_number := Some k\<rparr>"]) (simp_all add: L')
    qed
    let ?b = "account_new_full n origin (Some name) (Some k) (ar_last_used r) (Some n)"
    have found: "find_account_reference t n (Some app) (Some k) = Some r"
      by (simp add: find_account_reference_def find_account_references_def t find_k)
    have read_k: "read_account sha t (Some k) n origin None = Some (Some ?b)"
      by (simp add: read_numbered_eq len t s4 app_t found)
    have read_none: "read_account sha t None n origin None = Some None"
      by (simp add: read_account_def Let_def len app_t lookup_account_references_def t find_none \<open>L \<noteq> []\<close>)
    have read_app: "read_account sha t (Some k) n origin (Some app) = read_account sha t (Some k) n origin None"
      unfolding read_account_def app_t option.case by (rule refl)
    have default: "get_default_account_for_origin sha t n origin = Some (Inr (account_to_info ?b))"
      by (simp add: get_default_account_for_origin_def app_t cfg try_read_account_info_def try_read_account_def
          read_app read_k)
    show ?thesis
      using read_k read_none default used d(1) [of salt]
      by (intro exI [of _ k] exI [of _ ?b]) (simp add: a' account_new_full_def account_blob_def)
  qed simp
qed

theorem naming_default_keeps_seed_witness:
  "\<exists>t a'. update_account (\<lambda>b. b) (\<lambda>_. True) sample_storage None 10000 ''work'' ''https://a.b'' = Some (t, Inr a')
     \<and> read_account (\<lambda>b. b) t None 10000 ''https://a.b'' None = Some None"
proof -
  obtain t a' where run: "update_account (\<lambda>b. b) (\<lambda>_. True) sample_storage None 10000 ''work'' ''https://a.b'' = Some (t, Inr a')"
    by (simp add: update_account_def check_frontend_length_def FRONTEND_HOSTNAME_LIMIT_def create_default_account_def
        op_bind_def allocate_account_number_def update_counters_def get_account_counter_def
        set_anchor_application_config_def Let_def zero_counter_def
        lookup_or_insert_application_number_with_origin_def sample_storage_def storage_new_def MAX_ENTRIES_value
        init_with_header_def flush_def empty_storage_def)
  have room: "om_len (st_application_by_origin sample_storage) < 2 ^ 64"
    by (simp add: sample_storage_def storage_new_def MAX_ENTRIES_value init_with_header_def flush_def
        empty_storage_def)
  from naming_default_keeps_seed [OF sample_accounts_reachable sample_read_default run room]
  show ?thesis using run by blast
qed

text \<open>
  Choosing a default account: when the call for an existing account of the
  identity succeeds, the account it returns is the one a later query for the default account
  of that origin returns; when the caller asks for an account the identity cannot read under
  that origin, the call fails and the default account of a known origin is what it was before.
\<close>

theorem default_account_round_trip:
  assumes run: "set_default_account_for_origin sha s n origin k = Some (t, r)"
  shows "case r of
      Inr info \<Rightarrow> get_default_account_for_origin sha t n origin = Some (Inr info)
    | Inl e \<Rightarrow> e = SetDefaultNoSuchAccount n origin
        \<and> (lookup_application_number_with_origin sha s origin \<noteq> None \<longrightarrow>
             get_default_account_for_origin sha t n origin = get_default_account_for_origin sha s n origin)"
proof -
  obtain s1 app where app: "lookup_or_insert_application_number_with_origin sha s origin = (s1, app)"
    by fastforce
  note fields = lookup_or_insert_fields [OF app]
  have known: "lookup_application_number_with_origin sha s1 origin = Some app"
    using fields(6) by (simp add: lookup_application_number_with_origin_def)
  have same: "s1 = s" if "lookup_application_number_with_origin sha s origin \<noteq> None"
    using app that by (auto simp: lookup_or_insert_application_number_with_origin_def
        lookup_application_number_with_origin_def split: option.splits)
  let ?t = "set_anchor_application_config s1 n app \<lparr>default_account_number = k\<rparr>"
  have reads: "try_read_account_info sha ?t n origin app j = try_read_account_info sha s1 n origin app j" for j
    by (simp add: try_read_account_info_def try_read_account_def read_account_def
        set_anchor_application_config_def Let_def lookup_account_references_def
        find_account_reference_def find_account_references_def cong: option.case_cong)
  have known_t: "lookup_application_number_with_origin sha ?t origin = Some app"
    using known by (simp add: lookup_application_number_with_origin_def set_anchor_application_config_def)
  have config: "lookup_anchor_application_config ?t n app = \<lparr>default_account_number = k\<rparr>"
    by (simp add: lookup_anchor_application_config_def set_anchor_application_config_def)
  show ?thesis
  proof (cases k)
    case None
    then have "t = ?t" "r = Inr (account_to_info (account_synthetic n origin))"
      using run by (simp_all add: set_default_account_for_origin_def app op_bind_def)
    then show ?thesis using known_t config by (simp add: get_default_account_for_origin_def None)
  next
    case (Some j)
    show ?thesis
    proof (cases "try_read_account_info sha s1 n origin app j")
      case None
      then show ?thesis using run by (simp add: set_default_account_for_origin_def app op_bind_def Some)
    next
      case (Some read)
      show ?thesis
      proof (cases read)
        case None
        then show ?thesis
          using run same \<open>k = Some j\<close> Some by (auto simp: set_default_account_for_origin_def app op_bind_def)
      next
        case (Some info)
        then have "t = ?t" "r = Inr info"
          using run \<open>k = Some j\<close> \<open>try_read_account_info sha s1 n origin app j = Some read\<close>
          by (simp_all add: set_default_account_for_origin_def app op_bind_def)
        then show ?thesis
          using known_t config reads [of j] Some \<open>k = Some j\<close> \<open>try_read_account_info sha s1 n origin app j = Some read\<close>
          by (simp add: get_default_account_for_origin_def)
      qed
    qed
  qed
qed

theorem default_account_round_trip_witness:
  "\<exists>t info. set_default_account_for_origin (\<lambda>b. b) sample_storage 10000 ''https://a.b'' None = Some (t, Inr info)
     \<and> get_default_account_for_origin (\<lambda>b. b) t 10000 ''https://a.b'' = Some (Inr info)"
proof -
  obtain t info where run:
    "set_default_account_for_origin (\<lambda>b. b) sample_storage 10000 ''https://a.b'' None = Some (t, Inr info)"
    by (cases "lookup_or_insert_application_number_with_origin (\<lambda>b. b) sample_storage ''https://a.b''")
      (auto simp: set_default_account_for_origin_def op_bind_def)
  from default_account_round_trip [OF run] run show ?thesis by auto
qed

end
