(* ===== verification/Expiring_Store.thy ===== *)
theory Expiring_Store
  imports Interface_Types
begin

text \<open>
  Stores whose entries expire: \<open>state/temp_keys.rs\<close> and \<open>state/flow_states.rs\<close>. Both keep a hash
  map and a queue of expirations; an expired prefix of the queue, at most 100 entries of it, is
  dropped together with the map entries of its keys whenever an operation prunes. The loop is one
  function here, used by both. What the two stores promise is the locale \<open>expiring_store\<close>: the
  lemmas about abstract contents and premature expiry are proved in it once and reach both
  stores through its interpretations.
\<close>

section \<open>The pruning loop\<close>

definition MAX_TO_PRUNE :: nat where "MAX_TO_PRUNE = 100"

fun prune_loop ::
  "nat \<Rightarrow> timestamp \<Rightarrow> ('k::linorder \<times> timestamp) list \<Rightarrow> ('k, 'v) omap
     \<Rightarrow> ('k \<times> timestamp) list \<times> ('k, 'v) omap" where
  "prune_loop 0 now expirations m = (expirations, m)"
| "prune_loop (Suc i) now [] m = ([], m)"
| "prune_loop (Suc i) now ((k, expiration) # expirations) m =
     (if expiration > now then ((k, expiration) # expirations, m)
      else prune_loop i now expirations (om_remove k m))"

lemma prune_loop_pos:
  "0 < i \<Longrightarrow> prune_loop i now [] m = ([], m)"
  "0 < i \<Longrightarrow> prune_loop i now ((k, e) # q) m =
     (if e > now then ((k, e) # q, m) else prune_loop (i - 1) now q (om_remove k m))"
  by (cases i; simp)+

lemma prune_loop_drops:
  "\<exists>n. fst (prune_loop i now q m) = drop n q
     \<and> (\<forall>(k, e) \<in> set (take n q). e \<le> now)
     \<and> om_get (snd (prune_loop i now q m)) = (\<lambda>k. if k \<in> fst ` set (take n q) then None else om_get m k)"
proof (induction i now q m rule: prune_loop.induct)
  case (3 i now k e q m)
  show ?case
  proof (cases "e > now")
    case True
    then show ?thesis by (intro exI [of _ 0]) simp
  next
    case False
    with 3 obtain n where "fst (prune_loop i now q (om_remove k m)) = drop n q"
      and "\<forall>(k, e) \<in> set (take n q). e \<le> now"
      and "om_get (snd (prune_loop i now q (om_remove k m)))
             = (\<lambda>j. if j \<in> fst ` set (take n q) then None else om_get (om_remove k m) j)"
      by blast
    with False show ?thesis by (intro exI [of _ "Suc n"]) (auto simp: fun_eq_iff)
  qed
qed (auto intro: exI [of _ 0])

text \<open>With a queue in order of expiration, everything expired is gone unless more than 100 were.\<close>

lemma prune_loop_complete:
  assumes "sorted (map snd q)" and "length (filter (\<lambda>(k, e). e \<le> now) q) \<le> i"
  shows "\<forall>(k, e) \<in> set (fst (prune_loop i now q m)). now < e"
  using assms
proof (induction i now q m rule: prune_loop.induct)
  case (1 now q m)
  then show ?case by (auto simp: filter_empty_conv not_le)
next
  case (3 i now k e q m)
  show ?case
  proof (cases "e > now")
    case True
    with 3(2) show ?thesis by auto
  next
    case False
    then have "e \<le> now" by simp
    with 3 False show ?thesis by simp
  qed
qed simp

text \<open>An entry that has not expired stays; one that has is dropped with its key, when the loop gets that far.\<close>

lemma prune_loop_stops:
  assumes "now < e"
  obtains j where "fst (prune_loop i now (q1 @ (k, e) # q2) m) = drop j q1 @ (k, e) # q2"
proof -
  obtain n where n: "fst (prune_loop i now (q1 @ (k, e) # q2) m) = drop n (q1 @ (k, e) # q2)"
    and old: "\<forall>(k, e) \<in> set (take n (q1 @ (k, e) # q2)). e \<le> now"
    using prune_loop_drops [of i now "q1 @ (k, e) # q2" m] by blast
  have "n \<le> length q1"
  proof (rule ccontr)
    assume "\<not> n \<le> length q1"
    then obtain x where "n - length q1 = Suc x" by (cases "n - length q1") auto
    with old assms show False by auto
  qed
  with n show thesis by (intro that [of n]) simp
qed

lemma prune_loop_reaches:
  "\<forall>(j, x) \<in> set q1. x \<le> now \<Longrightarrow> e \<le> now \<Longrightarrow> length q1 < i
     \<Longrightarrow> om_get (snd (prune_loop i now (q1 @ (k, e) # q2) m)) k = None"
proof (induction q1 arbitrary: i m)
  case Nil
  obtain n where "om_get (snd (prune_loop (i - 1) now q2 (om_remove k m)))
      = (\<lambda>j. if j \<in> fst ` set (take n q2) then None else om_get (om_remove k m) j)"
    using prune_loop_drops [of "i - 1" now q2 "om_remove k m"] by blast
  with Nil show ?case by (simp add: prune_loop_pos) (simp add: leD)
next
  case (Cons x q1)
  then obtain i' where "i = Suc i'" by (cases i) auto
  with Cons show ?case by (cases x) auto
qed

section \<open>The contract of an expiring store\<close>

text \<open>
  \<open>m\<close> is the abstract content, a map that forgets nothing until it is told to. A store agrees with
  it when it holds nothing else, and retains it when it holds every entry that has not
  expired; the keys that were ever put are \<open>A\<close>.
\<close>

definition store_agrees :: "('s \<Rightarrow> 'k \<Rightarrow> 'v option) \<Rightarrow> ('k \<Rightarrow> 'v option) \<Rightarrow> 's \<Rightarrow> bool" where
  "store_agrees entry m s \<longleftrightarrow> (\<forall>k v. entry s k = Some v \<longrightarrow> m k = Some v)"

definition store_retains ::
  "('s \<Rightarrow> 'k \<Rightarrow> 'v option) \<Rightarrow> ('s \<Rightarrow> ('k \<times> timestamp) list) \<Rightarrow> ('v \<Rightarrow> timestamp) \<Rightarrow> 'k set
     \<Rightarrow> ('k \<Rightarrow> 'v option) \<Rightarrow> timestamp \<Rightarrow> 's \<Rightarrow> bool" where
  "store_retains entry queue expiry A m now s \<longleftrightarrow>
     (\<forall>k v. m k = Some v \<longrightarrow> now < expiry v \<longrightarrow> entry s k = Some v)
     \<and> (\<forall>k e. (k, e) \<in> set (queue s) \<longrightarrow> k \<in> A \<and> (\<forall>v. m k = Some v \<longrightarrow> e = expiry v))"

text \<open>
  A key that is put again leaves its older expirations in the queue. What holds for any history: an entry is
  there as long as none of the expirations its key ever had, \<open>P\<close>, has passed.
\<close>

definition store_holds ::
  "('s \<Rightarrow> 'k \<Rightarrow> 'v option) \<Rightarrow> ('s \<Rightarrow> ('k \<times> timestamp) list) \<Rightarrow> ('k \<times> timestamp) set
     \<Rightarrow> ('k \<Rightarrow> 'v option) \<Rightarrow> timestamp \<Rightarrow> 's \<Rightarrow> bool" where
  "store_holds entry queue P m now s \<longleftrightarrow>
     set (queue s) \<subseteq> P
     \<and> (\<forall>k v. m k = Some v \<longrightarrow> (\<forall>e. (k, e) \<in> P \<longrightarrow> now < e) \<longrightarrow> entry s k = Some v)"

locale expiring_store =
  fixes entry :: "'s \<Rightarrow> 'k \<Rightarrow> 'v option"
    and queue :: "'s \<Rightarrow> ('k \<times> timestamp) list"
    and expiry :: "'v \<Rightarrow> timestamp"
    and put :: "'k \<Rightarrow> 'v \<Rightarrow> 's \<Rightarrow> 's"
    and del :: "'k \<Rightarrow> 's \<Rightarrow> 's"
    and prune :: "timestamp \<Rightarrow> 's \<Rightarrow> 's"
  assumes entry_put: "entry (put k v s) = (entry s)(k \<mapsto> v)"
    and queue_put: "queue (put k v s) = queue s @ [(k, expiry v)]"
    and entry_del: "entry (del k s) = (entry s)(k := None)"
    and queue_del: "queue (del k s) = queue s"
    and prune_drops: "\<exists>n. queue (prune now s) = drop n (queue s)
        \<and> (\<forall>(k, e) \<in> set (take n (queue s)). e \<le> now)
        \<and> entry (prune now s) = (\<lambda>k. if k \<in> fst ` set (take n (queue s)) then None else entry s k)"
begin

lemma agrees_put: "store_agrees entry m s \<Longrightarrow> store_agrees entry (m(k \<mapsto> v)) (put k v s)"
  by (simp add: store_agrees_def entry_put)

lemma agrees_del: "store_agrees entry m s \<Longrightarrow> store_agrees entry (m(k := None)) (del k s)"
  by (simp add: store_agrees_def entry_del)

lemma agrees_prune: "store_agrees entry m s \<Longrightarrow> store_agrees entry m (prune now s)"
  using prune_drops [of now s] by (auto simp: store_agrees_def split: if_splits)

lemma retains_put:
  assumes "store_retains entry queue expiry A m now s" and "k \<notin> A"
  shows "store_retains entry queue expiry (insert k A) (m(k \<mapsto> v)) now (put k v s)"
  using assms by (auto simp: store_retains_def entry_put queue_put split: if_splits)

lemma retains_del:
  "store_retains entry queue expiry A m now s
     \<Longrightarrow> store_retains entry queue expiry A (m(k := None)) now (del k s)"
  by (auto simp: store_retains_def entry_del queue_del split: if_splits)

lemma retains_later:
  "store_retains entry queue expiry A m now s \<Longrightarrow> now \<le> now'
     \<Longrightarrow> store_retains entry queue expiry A m now' s"
  unfolding store_retains_def by (meson order.strict_trans1)

lemma holds_put:
  "store_holds entry queue P m now s
     \<Longrightarrow> store_holds entry queue (insert (k, expiry v) P) (m(k \<mapsto> v)) now (put k v s)"
  by (auto simp: store_holds_def entry_put queue_put)

lemma holds_del:
  "store_holds entry queue P m now s \<Longrightarrow> store_holds entry queue P (m(k := None)) now (del k s)"
  by (auto simp: store_holds_def entry_del queue_del)

lemma holds_later: "store_holds entry queue P m now s \<Longrightarrow> now \<le> now' \<Longrightarrow> store_holds entry queue P m now' s"
  unfolding store_holds_def by (meson order.strict_trans1)

lemma holds_prune: "store_holds entry queue P m now s \<Longrightarrow> store_holds entry queue P m now (prune now s)"
proof -
  assume h: "store_holds entry queue P m now s"
  obtain n where q: "queue (prune now s) = drop n (queue s)"
    and old: "\<forall>(k, e) \<in> set (take n (queue s)). e \<le> now"
    and e: "entry (prune now s) = (\<lambda>k. if k \<in> fst ` set (take n (queue s)) then None else entry s k)"
    using prune_drops [of now s] by blast
  have sub: "set (queue s) \<subseteq> P" using h by (simp add: store_holds_def)
  have "k \<notin> fst ` set (take n (queue s))" if "\<forall>e. (k, e) \<in> P \<longrightarrow> now < e" for k
    using old that sub by (force dest: in_set_takeD)
  with h sub show ?thesis unfolding store_holds_def q e by (auto dest: in_set_dropD)
qed

text \<open>What pruning removes has expired.\<close>

lemma retains_prune:
  assumes r: "store_retains entry queue expiry A m now s"
  shows "store_retains entry queue expiry A m now (prune now s)"
proof -
  obtain n where q: "queue (prune now s) = drop n (queue s)"
    and old: "\<forall>(k, e) \<in> set (take n (queue s)). e \<le> now"
    and e: "entry (prune now s) = (\<lambda>k. if k \<in> fst ` set (take n (queue s)) then None else entry s k)"
    using prune_drops [of now s] by blast
  have "entry (prune now s) k = Some v" if k: "m k = Some v" "now < expiry v" for k v
  proof -
    have "k \<notin> fst ` set (take n (queue s))"
    proof
      assume "k \<in> fst ` set (take n (queue s))"
      then obtain x where x: "(k, x) \<in> set (take n (queue s))" by auto
      then have "(k, x) \<in> set (queue s)" by (rule in_set_takeD)
      then have "x = expiry v" using r k(1) unfolding store_retains_def by blast
      with old x k(2) show False by auto
    qed
    with r k e show ?thesis by (simp add: store_retains_def)
  qed
  moreover have "\<forall>k e. (k, e) \<in> set (queue (prune now s)) \<longrightarrow> k \<in> A \<and> (\<forall>v. m k = Some v \<longrightarrow> e = expiry v)"
    using r unfolding q store_retains_def by (meson in_set_dropD)
  ultimately show ?thesis by (simp add: store_retains_def)
qed

end

section \<open>Temporary keys\<close>

definition TEMP_KEY_EXPIRATION_NS :: u64 where "TEMP_KEY_EXPIRATION_NS = 10 * MINUTE_NS"

record temp_key =
  tk_principal :: principal
  tk_expiration :: timestamp

record temp_keys =
  tks_keys :: "(anchor_number \<times> device_key, temp_key) omap"
  tks_expirations :: "((anchor_number \<times> device_key) \<times> timestamp) list"

definition new_temp_keys :: temp_keys where
  "new_temp_keys = \<lparr>tks_keys = om_empty, tks_expirations = []\<rparr>"

definition put_temp_key :: "anchor_number \<times> device_key \<Rightarrow> temp_key \<Rightarrow> temp_keys \<Rightarrow> temp_keys" where
  "put_temp_key k v s =
     s\<lparr>tks_keys := om_insert k v (tks_keys s),
       tks_expirations := tks_expirations s @ [(k, tk_expiration v)]\<rparr>"

definition add_temp_key ::
  "timestamp \<Rightarrow> device_key \<Rightarrow> anchor_number \<Rightarrow> principal \<Rightarrow> temp_keys \<Rightarrow> temp_keys" where
  "add_temp_key now device_key anchor temp_key s =
     put_temp_key (anchor, device_key)
       \<lparr>tk_principal = temp_key, tk_expiration = now + TEMP_KEY_EXPIRATION_NS\<rparr> s"

definition remove_temp_key :: "anchor_number \<times> device_key \<Rightarrow> temp_keys \<Rightarrow> temp_keys" where
  "remove_temp_key k s = s\<lparr>tks_keys := om_remove k (tks_keys s)\<rparr>"

definition prune_expired_keys :: "timestamp \<Rightarrow> temp_keys \<Rightarrow> temp_keys" where
  "prune_expired_keys now s =
     (case prune_loop MAX_TO_PRUNE now (tks_expirations s) (tks_keys s) of
        (expirations, keys) \<Rightarrow> s\<lparr>tks_keys := keys, tks_expirations := expirations\<rparr>)"

definition check_temp_key ::
  "timestamp \<Rightarrow> principal \<Rightarrow> device_key \<Rightarrow> anchor_number \<Rightarrow> temp_keys \<Rightarrow> temp_keys \<times> bool" where
  "check_temp_key now caller device_key anchor s =
     (let s1 = prune_expired_keys now s in
      (s1, case om_get (tks_keys s1) (anchor, device_key) of
             None \<Rightarrow> False
           | Some temp_key \<Rightarrow>
               if tk_expiration temp_key < now then False
               else tk_principal temp_key = caller))"

definition num_temp_keys :: "temp_keys \<Rightarrow> nat" where
  "num_temp_keys s = om_len (tks_keys s)"

lemma prune_expired_keys_fields [simp]:
  "tks_keys (prune_expired_keys now s) = snd (prune_loop MAX_TO_PRUNE now (tks_expirations s) (tks_keys s))"
  "tks_expirations (prune_expired_keys now s) = fst (prune_loop MAX_TO_PRUNE now (tks_expirations s) (tks_keys s))"
  by (simp_all add: prune_expired_keys_def split: prod.split)

interpretation temp: expiring_store
  "\<lambda>s. om_get (tks_keys s)" tks_expirations tk_expiration put_temp_key remove_temp_key prune_expired_keys
proof
  fix now s
  show "\<exists>n. tks_expirations (prune_expired_keys now s) = drop n (tks_expirations s)
      \<and> (\<forall>(k, e) \<in> set (take n (tks_expirations s)). e \<le> now)
      \<and> om_get (tks_keys (prune_expired_keys now s))
          = (\<lambda>k. if k \<in> fst ` set (take n (tks_expirations s)) then None else om_get (tks_keys s) k)"
    unfolding prune_expired_keys_fields by (rule prune_loop_drops)
qed (auto simp: put_temp_key_def remove_temp_key_def fun_eq_iff)

section \<open>Registration flows\<close>

definition FLOW_EXPIRATION_NS :: u64 where "FLOW_EXPIRATION_NS = 5 * MINUTE_NS"

datatype registration_flow_state =
    CheckCaptchaFlow timestamp (captcha_solution: string) (captcha_png_base64: string)
  | FinishRegistrationFlow timestamp

fun created_at_timestamp_ns :: "registration_flow_state \<Rightarrow> timestamp" where
  "created_at_timestamp_ns (CheckCaptchaFlow created _ _) = created"
| "created_at_timestamp_ns (FinishRegistrationFlow created) = created"

record flow_states =
  fls_flows :: "(principal, registration_flow_state) omap"
  fls_expirations :: "(principal \<times> timestamp) list"

definition new_flow_states :: flow_states where
  "new_flow_states = \<lparr>fls_flows = om_empty, fls_expirations = []\<rparr>"

definition flow_expiry :: "registration_flow_state \<Rightarrow> timestamp" where
  "flow_expiry f = created_at_timestamp_ns f + FLOW_EXPIRATION_NS"

definition prune_expired_flows :: "timestamp \<Rightarrow> flow_states \<Rightarrow> flow_states" where
  "prune_expired_flows now s =
     (case prune_loop MAX_TO_PRUNE now (fls_expirations s) (fls_flows s) of
        (expirations, flows) \<Rightarrow> s\<lparr>fls_flows := flows, fls_expirations := expirations\<rparr>)"

definition put_flow :: "principal \<Rightarrow> registration_flow_state \<Rightarrow> flow_states \<Rightarrow> flow_states" where
  "put_flow p f s =
     s\<lparr>fls_flows := om_insert p f (fls_flows s),
       fls_expirations := fls_expirations s @ [(p, flow_expiry f)]\<rparr>"

definition drop_flow :: "principal \<Rightarrow> flow_states \<Rightarrow> flow_states" where
  "drop_flow p s = s\<lparr>fls_flows := om_remove p (fls_flows s)\<rparr>"

text \<open>The errors are fixed strings; the flag tells success.\<close>

definition new_registration_flow ::
  "timestamp \<Rightarrow> principal \<Rightarrow> registration_flow_state \<Rightarrow> flow_states \<Rightarrow> flow_states \<times> bool" where
  "new_registration_flow now p f s =
     (let s1 = prune_expired_flows now s in
      if om_contains (fls_flows s1) p then (s1, False) else (put_flow p f s1, True))"

definition update_registration_flow ::
  "timestamp \<Rightarrow> principal \<Rightarrow> registration_flow_state \<Rightarrow> flow_states \<Rightarrow> flow_states \<times> bool" where
  "update_registration_flow now p f s =
     (let s1 = prune_expired_flows now s in
      if om_get (fls_flows s1) p = None then (s1, False)
      else (s1\<lparr>fls_flows := om_insert p f (om_remove p (fls_flows s1))\<rparr>, True))"

definition remove_registration_flow :: "timestamp \<Rightarrow> principal \<Rightarrow> flow_states \<Rightarrow> flow_states" where
  "remove_registration_flow now p s = drop_flow p (prune_expired_flows now s)"

definition lookup_registration_flow ::
  "timestamp \<Rightarrow> principal \<Rightarrow> flow_states \<Rightarrow> registration_flow_state option" where
  "lookup_registration_flow now p s =
     (case om_get (fls_flows s) p of
        None \<Rightarrow> None
      | Some f \<Rightarrow> if created_at_timestamp_ns f + FLOW_EXPIRATION_NS > now then Some f else None)"

lemma prune_expired_flows_fields [simp]:
  "fls_flows (prune_expired_flows now s) = snd (prune_loop MAX_TO_PRUNE now (fls_expirations s) (fls_flows s))"
  "fls_expirations (prune_expired_flows now s) = fst (prune_loop MAX_TO_PRUNE now (fls_expirations s) (fls_flows s))"
  by (simp_all add: prune_expired_flows_def split: prod.split)

interpretation flow: expiring_store
  "\<lambda>s. om_get (fls_flows s)" fls_expirations flow_expiry put_flow drop_flow prune_expired_flows
proof
  fix now s
  show "\<exists>n. fls_expirations (prune_expired_flows now s) = drop n (fls_expirations s)
      \<and> (\<forall>(k, e) \<in> set (take n (fls_expirations s)). e \<le> now)
      \<and> om_get (fls_flows (prune_expired_flows now s))
          = (\<lambda>k. if k \<in> fst ` set (take n (fls_expirations s)) then None else om_get (fls_flows s) k)"
    unfolding prune_expired_flows_fields by (rule prune_loop_drops)
qed (auto simp: put_flow_def drop_flow_def fun_eq_iff)

section \<open>What temporary keys authenticate\<close>

text \<open>A history of the temporary keys and the map that an unbounded memory would have.\<close>

datatype temp_key_event =
    AddTempKey device_key anchor_number principal
  | RemoveTempKey anchor_number device_key
  | CheckTempKey principal device_key anchor_number

fun temp_key_step :: "timestamp \<times> temp_key_event \<Rightarrow> temp_keys \<Rightarrow> temp_keys" where
  "temp_key_step (now, AddTempKey d n p) s = add_temp_key now d n p s"
| "temp_key_step (now, RemoveTempKey n d) s = remove_temp_key (n, d) s"
| "temp_key_step (now, CheckTempKey p d n) s = fst (check_temp_key now p d n s)"

fun granted_step ::
  "timestamp \<times> temp_key_event \<Rightarrow> (anchor_number \<times> device_key \<Rightarrow> temp_key option)
     \<Rightarrow> (anchor_number \<times> device_key \<Rightarrow> temp_key option)" where
  "granted_step (now, AddTempKey d n p) m =
     m((n, d) \<mapsto> \<lparr>tk_principal = p, tk_expiration = now + TEMP_KEY_EXPIRATION_NS\<rparr>)"
| "granted_step (now, RemoveTempKey n d) m = m((n, d) := None)"
| "granted_step (now, CheckTempKey p d n) m = m"

fun added_keys :: "(timestamp \<times> temp_key_event) list \<Rightarrow> (anchor_number \<times> device_key) list" where
  "added_keys [] = []"
| "added_keys ((now, AddTempKey d n p) # es) = (n, d) # added_keys es"
| "added_keys (e # es) = added_keys es"

lemma temp_keys_agree:
  assumes "store_agrees (\<lambda>s. om_get (tks_keys s)) m s"
  shows "store_agrees (\<lambda>s. om_get (tks_keys s)) (fold granted_step es m) (fold temp_key_step es s)"
  using assms
proof (induction es arbitrary: m s)
  case (Cons e es)
  obtain t' ev where e: "e = (t', ev)" by (cases e)
  show ?case
    unfolding fold.simps comp_def e
    by (rule Cons.IH, cases ev)
       (use temp.agrees_put [OF Cons.prems] temp.agrees_del [OF Cons.prems] temp.agrees_prune [OF Cons.prems]
         in \<open>simp_all add: add_temp_key_def check_temp_key_def Let_def fun_upd_def\<close>)
qed simp

lemma temp_keys_retained:
  assumes "store_retains (\<lambda>s. om_get (tks_keys s)) tks_expirations tk_expiration A m t s"
    and "sorted (t # map fst es @ [now])" and "distinct (added_keys es)" and "set (added_keys es) \<inter> A = {}"
  shows "store_retains (\<lambda>s. om_get (tks_keys s)) tks_expirations tk_expiration (A \<union> set (added_keys es))
           (fold granted_step es m) now (fold temp_key_step es s)"
  using assms
proof (induction es arbitrary: A m t s)
  case Nil
  then show ?case by (auto intro: temp.retains_later)
next
  case (Cons e es)
  obtain t' ev where e: "e = (t', ev)" by (cases e)
  have r: "store_retains (\<lambda>s. om_get (tks_keys s)) tks_expirations tk_expiration A m t' s"
    using Cons.prems(1,2) e by (auto intro: temp.retains_later)
  have s: "sorted (t' # map fst es @ [now])" using Cons.prems(2) e by simp
  show ?case
  proof (cases ev)
    case (AddTempKey d n p)
    with Cons.prems(4) e have "(n, d) \<notin> A" by auto
    from temp.retains_put [OF r this, of "\<lparr>tk_principal = p, tk_expiration = t' + TEMP_KEY_EXPIRATION_NS\<rparr>"]
    have "store_retains (\<lambda>s. om_get (tks_keys s)) tks_expirations tk_expiration (insert (n, d) A)
        (granted_step e m) t' (temp_key_step e s)"
      by (simp add: e AddTempKey add_temp_key_def)
    from Cons.IH [OF this s] Cons.prems(3,4) show ?thesis
      by (simp add: e AddTempKey fun_upd_def)
  next
    case (RemoveTempKey n d)
    from Cons.IH [OF temp.retains_del [OF r] s] Cons.prems(3,4) show ?thesis
      by (simp add: e RemoveTempKey fun_upd_def)
  next
    case (CheckTempKey p d n)
    from Cons.IH [OF temp.retains_prune [OF r] s] Cons.prems(3,4) show ?thesis
      by (simp add: e CheckTempKey check_temp_key_def Let_def)
  qed
qed

text \<open>
  Property C17. A temporary key authenticates exactly the principal it was granted to, for that
  anchor and device, until it is removed or ten minutes have passed. After any history, a
  check that succeeds is backed by the last key added for this anchor and device, not removed
  since and not expired; conversely, when times do not go back and no key was added twice, every
  granted key that has not expired is accepted, whatever was pruned in between.
\<close>

theorem temp_key_authenticates:
  assumes m: "m = fold granted_step es Map.empty" and s: "s = fold temp_key_step es new_temp_keys"
  shows "(snd (check_temp_key now caller d n s) \<longrightarrow>
      (\<exists>k. m (n, d) = Some k \<and> tk_principal k = caller \<and> now \<le> tk_expiration k))
    \<and> (sorted (map fst es @ [now]) \<and> distinct (added_keys es) \<longrightarrow>
      (\<forall>k. m (n, d) = Some k \<and> tk_principal k = caller \<and> now < tk_expiration k \<longrightarrow>
        snd (check_temp_key now caller d n s)))"
proof (intro conjI impI allI)
  have agree: "store_agrees (\<lambda>s. om_get (tks_keys s)) m (prune_expired_keys now s)"
    unfolding m s by (intro temp.agrees_prune temp_keys_agree) (simp add: store_agrees_def new_temp_keys_def)
  assume "snd (check_temp_key now caller d n s)"
  with agree show "\<exists>k. m (n, d) = Some k \<and> tk_principal k = caller \<and> now \<le> tk_expiration k"
    by (auto simp: check_temp_key_def Let_def store_agrees_def not_less split: option.splits if_splits)
next
  fix k
  assume times: "sorted (map fst es @ [now]) \<and> distinct (added_keys es)"
    and k: "m (n, d) = Some k \<and> tk_principal k = caller \<and> now < tk_expiration k"
  have "store_retains (\<lambda>s. om_get (tks_keys s)) tks_expirations tk_expiration ({} \<union> set (added_keys es)) m now s"
    unfolding m s using times
    by (intro temp_keys_retained [where t = 0]) (auto simp: store_retains_def new_temp_keys_def)
  from temp.retains_prune [OF this] k show "snd (check_temp_key now caller d n s)"
    by (auto simp: check_temp_key_def Let_def store_retains_def not_less)
qed

theorem temp_key_authenticates_witness:
  "let s = fold temp_key_step [(0, AddTempKey [1] 10000 [7]), (5, AddTempKey [2] 10001 [8])] new_temp_keys in
     snd (check_temp_key 600000000000 [8] [2] 10001 s) \<and> \<not> snd (check_temp_key 600000000000 [8] [1] 10000 s)"
proof -
  let ?es = "[(0, AddTempKey [1] 10000 [7]), (5, AddTempKey [2] 10001 [8])] :: (timestamp \<times> temp_key_event) list"
  note t = temp_key_authenticates [OF refl refl, of 600000000000 "[8]" _ _ ?es]
  have "snd (check_temp_key 600000000000 [8] [2] 10001 (fold temp_key_step ?es new_temp_keys))"
    using t [of "[2]" 10001] by (simp add: TEMP_KEY_EXPIRATION_NS_def)
  moreover have "\<not> snd (check_temp_key 600000000000 [8] [1] 10000 (fold temp_key_step ?es new_temp_keys))"
    using t [of "[1]" 10000] by (auto simp: TEMP_KEY_EXPIRATION_NS_def)
  ultimately show ?thesis unfolding Let_def by blast
qed

section \<open>The life of a registration flow\<close>

datatype flow_event =
    NewFlow principal registration_flow_state
  | UpdateFlow principal registration_flow_state
  | RemoveFlow principal

text \<open>
  A history runs on the store and, next to it, on a map without expiry that follows the
  answers of the store; the list collects the expirations of the flows that were accepted.
\<close>

fun flow_step ::
  "timestamp \<times> flow_event
     \<Rightarrow> flow_states \<times> (principal \<Rightarrow> registration_flow_state option) \<times> (principal \<times> timestamp) list
     \<Rightarrow> flow_states \<times> (principal \<Rightarrow> registration_flow_state option) \<times> (principal \<times> timestamp) list" where
  "flow_step (now, NewFlow p f) (s, m, A) =
     (case new_registration_flow now p f s of
        (s', ok) \<Rightarrow> (s', if ok then m(p \<mapsto> f) else m, if ok then (p, flow_expiry f) # A else A))"
| "flow_step (now, UpdateFlow p f) (s, m, A) =
     (case update_registration_flow now p f s of
        (s', ok) \<Rightarrow> (s', if ok then m(p \<mapsto> f) else m, A))"
| "flow_step (now, RemoveFlow p) (s, m, A) = (remove_registration_flow now p s, m(p := None), A)"

abbreviation flow_entry :: "flow_states \<Rightarrow> principal \<Rightarrow> registration_flow_state option" where
  "flow_entry \<equiv> \<lambda>s. om_get (fls_flows s)"

lemma flow_step_agrees:
  assumes "store_agrees flow_entry m s" and "flow_step e (s, m, A) = (s', m', A')"
  shows "store_agrees flow_entry m' s'"
proof -
  obtain t ev where e: "e = (t, ev)" by (cases e)
  note p = flow.agrees_prune [OF assms(1), of t]
  show ?thesis
  proof (cases ev)
    case (NewFlow q f)
    with assms(2) e p flow.agrees_put [OF p, of q f] show ?thesis
      by (auto simp: new_registration_flow_def Let_def fun_upd_def split: if_splits)
  next
    case (UpdateFlow q f)
    with assms(2) e p show ?thesis
      by (auto simp: update_registration_flow_def Let_def store_agrees_def split: if_splits)
  next
    case (RemoveFlow q)
    with assms(2) e flow.agrees_del [OF p, of q] show ?thesis
      by (auto simp: remove_registration_flow_def fun_upd_def)
  qed
qed

lemma fold_flow_agrees:
  assumes "store_agrees flow_entry m s" and "fold flow_step es (s, m, A) = (s', m', A')"
  shows "store_agrees flow_entry m' s'"
  using assms
proof (induction es arbitrary: s m A)
  case (Cons e es)
  obtain s1 m1 A1 where "flow_step e (s, m, A) = (s1, m1, A1)" by (cases "flow_step e (s, m, A)")
  with Cons.IH [OF flow_step_agrees [OF Cons.prems(1) this]] Cons.prems(2) show ?case by simp
qed simp

abbreviation flow_holds where
  "flow_holds \<equiv> store_holds flow_entry fls_expirations"

lemma flow_step_holds:
  assumes h: "flow_holds (set A) m t s" and step: "flow_step (t, ev) (s, m, A) = (s', m', A')"
  shows "flow_holds (set A') m' t s'"
proof -
  note p = flow.holds_prune [OF h]
  show ?thesis
  proof (cases ev)
    case (NewFlow q f)
    with step p flow.holds_put [OF p, of q f] show ?thesis
      by (auto simp: new_registration_flow_def Let_def fun_upd_def split: if_splits)
  next
    case (RemoveFlow q)
    with step flow.holds_del [OF p, of q] show ?thesis
      by (auto simp: remove_registration_flow_def fun_upd_def)
  next
    case (UpdateFlow q f)
    let ?s = "prune_expired_flows t s"
    show ?thesis
    proof (cases "flow_entry ?s q")
      case None
      with step p UpdateFlow show ?thesis by (simp add: update_registration_flow_def Let_def)
    next
      case (Some f0)
      then have "s' = ?s\<lparr>fls_flows := om_insert q f (om_remove q (fls_flows ?s))\<rparr>"
        and "m' = m(q \<mapsto> f)" and "A' = A"
        using step by (auto simp: UpdateFlow update_registration_flow_def Let_def)
      then show ?thesis
        using p unfolding store_holds_def by (auto simp del: prune_expired_flows_fields)
    qed
  qed
qed

lemma fold_flow_holds:
  assumes "flow_holds (set A) m t s" and "fold flow_step es (s, m, A) = (s', m', A')"
    and "sorted (t # map fst es @ [now])"
  shows "flow_holds (set A') m' now s'"
  using assms
proof (induction es arbitrary: s m A t)
  case Nil
  then show ?case by (auto intro: flow.holds_later)
next
  case (Cons e es)
  obtain t1 ev where e: "e = (t1, ev)" by (cases e)
  obtain s1 m1 A1 where st: "flow_step e (s, m, A) = (s1, m1, A1)" by (cases "flow_step e (s, m, A)")
  have "flow_holds (set A) m t1 s" using Cons.prems(1,3) e by (auto intro: flow.holds_later)
  from flow_step_holds [OF this st [unfolded e]] show ?case
    using Cons.prems(2,3) st e by (intro Cons.IH [of A1 m1 t1 s1]) simp_all
qed

text \<open>
  Property C32. After any history, the registration flow found for a principal is the one its last accepted step
  left and is less than five minutes old; and when times do not go back, a flow that was not removed is found as
  long as it and all flows accepted for its principal before are less than five minutes old.
  A principal that starts one flow only has it for the whole five minutes.
\<close>

theorem registration_flow_lifetime:
  assumes run: "fold flow_step es (new_flow_states, Map.empty, []) = (s, m, A)"
  shows "(lookup_registration_flow now p s = Some f \<longrightarrow> m p = Some f \<and> now < flow_expiry f)
    \<and> (sorted (map fst es @ [now]) \<and> m p = Some f \<and> now < flow_expiry f \<and> (\<forall>e. (p, e) \<in> set A \<longrightarrow> now < e)
        \<longrightarrow> lookup_registration_flow now p s = Some f)"
proof (intro conjI impI)
  have g0: "store_agrees flow_entry Map.empty new_flow_states"
    by (simp add: store_agrees_def new_flow_states_def)
  have g: "store_agrees flow_entry m s" by (rule fold_flow_agrees [OF g0 run])
  {
    assume "lookup_registration_flow now p s = Some f"
    then have "flow_entry s p = Some f" "now < flow_expiry f"
      by (auto simp: lookup_registration_flow_def flow_expiry_def split: option.splits if_splits)
    with g show "m p = Some f" "now < flow_expiry f" by (simp_all add: store_agrees_def)
  }
  assume h: "sorted (map fst es @ [now]) \<and> m p = Some f \<and> now < flow_expiry f \<and> (\<forall>e. (p, e) \<in> set A \<longrightarrow> now < e)"
  have "flow_holds (set []) Map.empty 0 new_flow_states"
    by (simp add: store_holds_def new_flow_states_def)
  from fold_flow_holds [OF this run, of now] h have "flow_holds (set A) m now s" by simp
  with h have "flow_entry s p = Some f" by (simp add: store_holds_def)
  with h show "lookup_registration_flow now p s = Some f"
    by (simp add: lookup_registration_flow_def flow_expiry_def)
qed

theorem registration_flow_lifetime_witness:
  "let s = fst (fold flow_step [(7, NewFlow [1] (FinishRegistrationFlow 7))] (new_flow_states, Map.empty, [])) in
     lookup_registration_flow 300000000006 [1] s = Some (FinishRegistrationFlow 7)
     \<and> lookup_registration_flow 300000000007 [1] s = None"
proof -
  let ?es = "[(7, NewFlow [1] (FinishRegistrationFlow 7))] :: (timestamp \<times> flow_event) list"
  obtain s m A where run: "fold flow_step ?es (new_flow_states, Map.empty, []) = (s, m, A)"
    by (cases "fold flow_step ?es (new_flow_states, Map.empty, [])")
  then have fields: "m = [[1] \<mapsto> FinishRegistrationFlow 7]" "A = [([1], 7 + FLOW_EXPIRATION_NS)]"
    by (auto simp: new_registration_flow_def new_flow_states_def Let_def om_contains_def MAX_TO_PRUNE_def
        prune_loop_pos flow_expiry_def)
  note life = registration_flow_lifetime [OF run, of _ "[1]"]
  have "lookup_registration_flow 300000000006 [1] s = Some (FinishRegistrationFlow 7)"
    using life [of 300000000006 "FinishRegistrationFlow 7"] fields
    by (simp add: flow_expiry_def FLOW_EXPIRATION_NS_def)
  moreover have "lookup_registration_flow 300000000007 [1] s = None"
  proof (rule ccontr)
    assume "lookup_registration_flow 300000000007 [1] s \<noteq> None"
    then obtain f where f: "lookup_registration_flow 300000000007 [1] s = Some f" by blast
    with life [of 300000000007 f] have "m [1] = Some f" "300000000007 < flow_expiry f" by blast+
    then show False by (auto simp: fields flow_expiry_def FLOW_EXPIRATION_NS_def)
  qed
  ultimately show ?thesis unfolding Let_def run by simp
qed

section \<open>A second flow\<close>

text \<open>
  The removal of a flow leaves its expiration in the queue, which outlasts the start of the next flow; when its
  time comes, the next flow is dropped with it.
\<close>

lemma prune_expired_flows_stops:
  assumes "fls_expirations s = q1 @ (p, e) # q2" and "now < e"
  obtains j where "fls_expirations (prune_expired_flows now s) = drop j q1 @ (p, e) # q2"
  using prune_loop_stops [OF assms(2), of MAX_TO_PRUNE q1 p q2 "fls_flows s"] by (auto simp: assms(1))

text \<open>
  Property C33. In any store with fewer than 100 queued expirations, none later than that of a new flow: when the
  flow is removed and its principal starts another before the first would have expired, the second is accepted,
  but from the expiration of the first on every update of it is refused, however young it is.
  Looked up before that update it is still there: the update prunes the queue first, where the expiration
  of the first flow has come to the front, and drops the second flow with it.
\<close>

theorem stale_expiration_drops_flow:
  assumes first: "new_registration_flow t0 p f0 s = (s1, True)"
    and room: "length (fls_expirations s) < MAX_TO_PRUNE" "\<forall>(k, e) \<in> set (fls_expirations s). e \<le> flow_expiry f0"
    and before: "t1 < flow_expiry f0" "t2 < flow_expiry f0" and due: "flow_expiry f0 \<le> now"
    and second: "new_registration_flow t2 p f (remove_registration_flow t1 p s1) = (s2, accepted)"
  shows "accepted
    \<and> (now < flow_expiry f \<longrightarrow> lookup_registration_flow now p s2 = Some f)
    \<and> \<not> snd (update_registration_flow now p g s2)
    \<and> lookup_registration_flow now p (prune_expired_flows now s2) = None"
proof -
  let ?r = "remove_registration_flow t1 p s1"
  obtain q where q: "fls_expirations s1 = q @ [(p, flow_expiry f0)]" and sub: "set q \<subseteq> set (fls_expirations s)"
    and len: "length q \<le> length (fls_expirations s)"
  proof -
    obtain n where "fls_expirations (prune_expired_flows t0 s) = drop n (fls_expirations s)"
      using flow.prune_drops [of t0 s] by blast
    with first show thesis
      by (intro that [of "drop n (fls_expirations s)"])
        (auto simp: new_registration_flow_def put_flow_def Let_def simp del: prune_expired_flows_fields
          split: if_splits dest: in_set_dropD)
  qed
  obtain i where i: "fls_expirations ?r = drop i q @ [(p, flow_expiry f0)]"
    using prune_expired_flows_stops [of s1 q p "flow_expiry f0" "[]" t1] q before(1)
    by (auto simp: remove_registration_flow_def drop_flow_def simp del: prune_expired_flows_fields)
  obtain j where j: "fls_expirations (prune_expired_flows t2 ?r) = drop j (drop i q) @ [(p, flow_expiry f0)]"
    using prune_expired_flows_stops [of ?r "drop i q" p "flow_expiry f0" "[]" t2] i before(2)
    by (auto simp del: prune_expired_flows_fields)
  have "flow_entry ?r p = None" by (simp add: remove_registration_flow_def drop_flow_def)
  then have gone: "flow_entry (prune_expired_flows t2 ?r) p = None"
    using flow.prune_drops [of t2 ?r] by auto
  then have s2: "s2 = put_flow p f (prune_expired_flows t2 ?r)" and accepted
    using second by (auto simp: new_registration_flow_def Let_def om_contains_def simp del: prune_expired_flows_fields
        split: if_splits)
  let ?q = "drop (i + j) q"
  have "fls_expirations s2 = ?q @ (p, flow_expiry f0) # [(p, flow_expiry f)]"
    using j by (simp add: s2 put_flow_def add.commute del: prune_expired_flows_fields)
  moreover have "\<forall>(k, e) \<in> set ?q. e \<le> now" using sub room(2) due by (fastforce dest: in_set_dropD)
  moreover have "length ?q < MAX_TO_PRUNE" using len room(1) by simp
  ultimately have none: "flow_entry (prune_expired_flows now s2) p = None"
    using prune_loop_reaches [of ?q now "flow_expiry f0" MAX_TO_PRUNE p "[(p, flow_expiry f)]" "fls_flows s2"] due
    by simp
  have "flow_entry s2 p = Some f" by (simp add: s2 put_flow_def)
  with none \<open>accepted\<close> show ?thesis
    by (simp add: lookup_registration_flow_def update_registration_flow_def Let_def flow_expiry_def
        del: prune_expired_flows_fields)
qed

theorem stale_expiration_drops_flow_witness:
  "let s1 = fst (new_registration_flow 0 [1] (FinishRegistrationFlow 0) new_flow_states);
       s2 = fst (new_registration_flow MINUTE_NS [1] (FinishRegistrationFlow MINUTE_NS) (remove_registration_flow 1 [1] s1)) in
     lookup_registration_flow (5 * MINUTE_NS) [1] s2 = Some (FinishRegistrationFlow MINUTE_NS)
     \<and> \<not> snd (update_registration_flow (5 * MINUTE_NS) [1] (FinishRegistrationFlow MINUTE_NS) s2)"
proof -
  obtain s1 ok where first: "new_registration_flow 0 [1] (FinishRegistrationFlow 0) new_flow_states = (s1, ok)"
    by fastforce
  have ok by (use first in \<open>simp add: new_registration_flow_def new_flow_states_def Let_def om_contains_def
        MAX_TO_PRUNE_def prune_loop_pos\<close>)
  obtain s2 accepted where second:
      "new_registration_flow MINUTE_NS [1] (FinishRegistrationFlow MINUTE_NS) (remove_registration_flow 1 [1] s1) = (s2, accepted)"
    by fastforce
  from stale_expiration_drops_flow [OF _ _ _ _ _ _ second, of 0 "FinishRegistrationFlow 0" new_flow_states "5 * MINUTE_NS"]
    first second \<open>ok\<close> show ?thesis
    by (simp add: new_flow_states_def MAX_TO_PRUNE_def flow_expiry_def FLOW_EXPIRATION_NS_def MINUTE_NS_def secs_to_nanos_def)
qed

end
