(* ===== verification/Registration_Guards.thy ===== *)
theory Registration_Guards
  imports Interface_Types
begin

text \<open>
  What stands between a caller and a new identity: the token bucket of
  \<open>anchor_management/registration/rate_limit.rs\<close> and the captcha of
  \<open>anchor_management/registration/captcha.rs\<close> with the challenges kept for it
  (\<open>anchor_management/registration.rs\<close>, \<open>create_challenge\<close>). The random number generator and
  the rendering of the picture belong to crates and are parameters.
\<close>

section \<open>The rate limit\<close>

record rate_limit_config =
  rlc_time_per_token_ns :: u64
  rlc_max_tokens :: u64

record rate_limit_state =
  rls_tokens :: u64
  rls_token_timestamp :: timestamp

text \<open>Division by a zero token period traps.\<close>

definition add_tokens ::
  "timestamp \<Rightarrow> rate_limit_config \<Rightarrow> rate_limit_state \<Rightarrow> rate_limit_state option" where
  "add_tokens now config s =
     (if rlc_time_per_token_ns config = 0 then None
      else
        (let new_tokens = (now - rls_token_timestamp s) div rlc_time_per_token_ns config in
         Some (if new_tokens > 0
               then \<lparr>rls_tokens = min (rlc_max_tokens config) (rls_tokens s + new_tokens),
                     rls_token_timestamp = rls_token_timestamp s + rlc_time_per_token_ns config * new_tokens\<rparr>
               else s)))"

text \<open>The new state, which is kept in either case, and whether the call may proceed.\<close>

definition process_rate_limit ::
  "timestamp \<Rightarrow> rate_limit_config \<Rightarrow> rate_limit_state option \<Rightarrow> (rate_limit_state \<times> bool) option" where
  "process_rate_limit now config state_opt =
     (case (case state_opt of
              Some s \<Rightarrow> add_tokens now config s
            | None \<Rightarrow> Some \<lparr>rls_tokens = rlc_max_tokens config, rls_token_timestamp = now\<rparr>) of
        None \<Rightarrow> None
      | Some s \<Rightarrow>
          Some (if rls_tokens s > 0 then (s\<lparr>rls_tokens := rls_tokens s - 1\<rparr>, True) else (s, False)))"

text \<open>A series of calls: the final state and how many of them proceeded.\<close>

fun rate_limited_calls ::
  "rate_limit_config \<Rightarrow> timestamp list \<Rightarrow> rate_limit_state option \<Rightarrow> (rate_limit_state option \<times> nat) option" where
  "rate_limited_calls config [] s = Some (s, 0)"
| "rate_limited_calls config (now # later) s =
     (case process_rate_limit now config s of
        None \<Rightarrow> None
      | Some (s', ok) \<Rightarrow>
          map_option (\<lambda>(r, n). (r, n + (if ok then 1 else 0))) (rate_limited_calls config later (Some s')))"

subsection \<open>The bucket over the natural numbers\<close>

definition bucket_ok :: "rate_limit_config \<Rightarrow> timestamp \<Rightarrow> rate_limit_state \<Rightarrow> bool" where
  "bucket_ok config now s \<longleftrightarrow> rls_tokens s \<le> rlc_max_tokens config \<and> rls_token_timestamp s \<le> now"

definition bucket_gain :: "rate_limit_config \<Rightarrow> timestamp \<Rightarrow> rate_limit_state \<Rightarrow> nat" where
  "bucket_gain config now s =
     (unat now - unat (rls_token_timestamp s)) div unat (rlc_time_per_token_ns config)"

lemma add_tokens_nat:
  assumes ok: "bucket_ok config t s" and "t \<le> now" and pos: "rlc_time_per_token_ns config \<noteq> 0"
    and room: "unat (rlc_max_tokens config) + unat now < 2 ^ 64"
  obtains s' where "add_tokens now config s = Some s'"
    and "unat (rls_tokens s') = min (unat (rlc_max_tokens config)) (unat (rls_tokens s) + bucket_gain config now s)"
    and "unat (rls_token_timestamp s')
           = unat (rls_token_timestamp s) + unat (rlc_time_per_token_ns config) * bucket_gain config now s"
proof -
  let ?p = "rlc_time_per_token_ns config" and ?ts = "rls_token_timestamp s" and ?g = "bucket_gain config now s"
  define g where "g = (now - ?ts) div ?p"
  have le: "?ts \<le> now" using ok assms(2) by (auto simp: bucket_ok_def)
  have g: "unat g = ?g"
    using le by (simp add: g_def bucket_gain_def unat_div unat64_sub)
  have "unat ?p * ?g \<le> unat now - unat ?ts"
    by (simp add: bucket_gain_def)
  with le have prod: "unat ?p * ?g + unat ?ts \<le> unat now" by (simp add: word_le_nat_alt)
  have g_le: "?g \<le> unat now" by (simp add: bucket_gain_def le_trans [OF div_le_dividend])
  have p: "unat (?p * g) = unat ?p * ?g"
    using prod unat64_bound [of now] by (subst unat64_mult) (simp_all add: g)
  have ts: "unat (?ts + ?p * g) = unat ?ts + unat ?p * ?g"
    using prod unat64_bound [of now] by (subst unat64_add) (simp_all add: p)
  have tk: "unat (rls_tokens s + g) = unat (rls_tokens s) + ?g"
    using ok g_le room by (subst unat64_add) (simp_all add: g bucket_ok_def word_le_nat_alt)
  have min: "unat (min a b) = min (unat a) (unat b)" for a b :: u64
    by (simp add: min_def word_le_nat_alt)
  show ?thesis
  proof (cases "g > 0")
    case True
    show ?thesis
      by (rule that [of "\<lparr>rls_tokens = min (rlc_max_tokens config) (rls_tokens s + g),
                          rls_token_timestamp = ?ts + ?p * g\<rparr>"])
         (use pos True in \<open>simp_all add: add_tokens_def Let_def g_def [symmetric] min tk ts\<close>)
  next
    case False
    then have "g = 0" by (simp add: word_gt_0)
    then have "?g = 0" using g by simp
    show ?thesis
      by (rule that [of s])
         (use pos \<open>g = 0\<close> \<open>?g = 0\<close> ok in
           \<open>simp_all add: add_tokens_def Let_def g_def [symmetric] bucket_ok_def word_le_nat_alt\<close>)
  qed
qed

lemma bucket_call:
  assumes ok: "bucket_ok config t s" and "t \<le> now" and pos: "rlc_time_per_token_ns config \<noteq> 0"
    and room: "unat (rlc_max_tokens config) + unat now < 2 ^ 64"
  obtains s' r where "process_rate_limit now config (Some s) = Some (s', r)" and "bucket_ok config now s'"
    and "unat (rls_tokens s') + of_bool r = min (unat (rlc_max_tokens config)) (unat (rls_tokens s) + bucket_gain config now s)"
    and "unat (rls_token_timestamp s')
           = unat (rls_token_timestamp s) + unat (rlc_time_per_token_ns config) * bucket_gain config now s"
    and "r \<longleftrightarrow> 0 < min (unat (rlc_max_tokens config)) (unat (rls_tokens s) + bucket_gain config now s)"
proof -
  obtain s1 where s1: "add_tokens now config s = Some s1"
    and tokens: "unat (rls_tokens s1) = min (unat (rlc_max_tokens config)) (unat (rls_tokens s) + bucket_gain config now s)"
    and stamp: "unat (rls_token_timestamp s1)
           = unat (rls_token_timestamp s) + unat (rlc_time_per_token_ns config) * bucket_gain config now s"
    by (rule add_tokens_nat [OF assms])
  have "unat (rlc_time_per_token_ns config) * bucket_gain config now s \<le> unat now - unat (rls_token_timestamp s)"
    by (simp add: bucket_gain_def)
  moreover have "rls_token_timestamp s \<le> now" using ok assms(2) by (auto simp: bucket_ok_def)
  ultimately have "rls_token_timestamp s1 \<le> now" using stamp by (simp add: word_le_nat_alt)
  moreover have "rls_tokens s1 \<le> rlc_max_tokens config" using tokens by (simp add: word_le_nat_alt)
  ultimately have ok1: "bucket_ok config now s1" by (simp add: bucket_ok_def)
  show ?thesis
  proof (cases "rls_tokens s1 > 0")
    case True
    then have dec: "unat (rls_tokens s1 - 1) = unat (rls_tokens s1) - 1" and "unat (rls_tokens s1) > 0"
      by (simp_all add: unat_minus_one word_gt_0 unat_gt_0)
    with True ok1 tokens stamp s1 show ?thesis
      by (intro that [of "s1\<lparr>rls_tokens := rls_tokens s1 - 1\<rparr>" True])
        (auto simp: process_rate_limit_def bucket_ok_def word_le_nat_alt)
  next
    case False
    then have "unat (rls_tokens s1) = 0" by (simp add: word_gt_0)
    with ok1 tokens stamp s1 False show ?thesis
      by (intro that [of s1 False]) (simp_all add: process_rate_limit_def)
  qed
qed

lemma bucket_calls:
  assumes "bucket_ok config t s" and "rlc_time_per_token_ns config \<noteq> 0"
    and "sorted (t # ts)" and "\<forall>x \<in> set ts. unat (rlc_max_tokens config) + unat x < 2 ^ 64"
  shows "\<exists>s' n k. rate_limited_calls config ts (Some s) = Some (Some s', n)
    \<and> bucket_ok config (last (t # ts)) s'
    \<and> unat (rls_token_timestamp s') = unat (rls_token_timestamp s) + unat (rlc_time_per_token_ns config) * k
    \<and> n + unat (rls_tokens s') \<le> unat (rls_tokens s) + k"
  using assms
proof (induction ts arbitrary: t s)
  case (Cons now later)
  obtain s1 r where call: "process_rate_limit now config (Some s) = Some (s1, r)" and ok1: "bucket_ok config now s1"
    and tokens: "unat (rls_tokens s1) + of_bool r
        = min (unat (rlc_max_tokens config)) (unat (rls_tokens s) + bucket_gain config now s)"
    and stamp: "unat (rls_token_timestamp s1)
        = unat (rls_token_timestamp s) + unat (rlc_time_per_token_ns config) * bucket_gain config now s"
    by (rule bucket_call [OF Cons.prems(1) _ Cons.prems(2), of now]) (use Cons.prems(3,4) in auto)
  obtain s' n k where rest: "rate_limited_calls config later (Some s1) = Some (Some s', n)"
    and "bucket_ok config (last (now # later)) s'"
    and "unat (rls_token_timestamp s') = unat (rls_token_timestamp s1) + unat (rlc_time_per_token_ns config) * k"
    and "n + unat (rls_tokens s') \<le> unat (rls_tokens s1) + k"
    using Cons.IH [OF ok1 Cons.prems(2)] Cons.prems(3,4) by auto
  with call tokens stamp show ?case
    by (intro exI [of _ s'] exI [of _ "n + of_bool r"] exI [of _ "bucket_gain config now s + k"])
      (auto simp: algebra_simps)
qed simp

text \<open>Before any window the bucket is either unused or within its bounds.\<close>

lemma bucket_history:
  assumes pos: "rlc_time_per_token_ns config \<noteq> 0" and "sorted ts"
    and room: "\<forall>x \<in> set ts. unat (rlc_max_tokens config) + unat x < 2 ^ 64"
  shows "\<exists>s n. rate_limited_calls config ts None = Some (s, n)
    \<and> (case s of None \<Rightarrow> ts = [] | Some b \<Rightarrow> ts \<noteq> [] \<and> bucket_ok config (last ts) b)"
proof (cases ts)
  case (Cons t later)
  define b where "b = \<lparr>rls_tokens = rlc_max_tokens config, rls_token_timestamp = t\<rparr>"
  have ok: "bucket_ok config t b" by (simp add: b_def bucket_ok_def)
  have "add_tokens t config b = Some b" by (simp add: add_tokens_def b_def pos)
  then have same: "rate_limited_calls config ts None = rate_limited_calls config ts (Some b)"
    by (simp add: Cons process_rate_limit_def b_def)
  have "sorted (t # ts)" using assms(2) by (simp add: Cons)
  from bucket_calls [OF ok pos this room] obtain s' n
    where "rate_limited_calls config ts (Some b) = Some (Some s', n)" and "bucket_ok config (last ts) s'"
    by (auto simp: Cons)
  with same show ?thesis by (simp add: Cons)
qed simp

text \<open>
  Property C28. The rate limit bounds every window of every history. Whatever calls came before
  it, in a window of calls from time \<open>t\<close> on at most \<open>max_tokens\<close> calls proceed, plus one for
  every token period that lies in the window, plus one; no call traps; and a call one token period
  after the previous one always proceeds. (Times do not go back, the token period is not zero,
  and the bucket does not reach the end of the 64-bit range.)
\<close>

theorem rate_limit_bounds_calls:
  assumes pos: "rlc_time_per_token_ns config \<noteq> 0" and sorted: "sorted (before @ t # window)"
    and room: "\<forall>x \<in> set (before @ t # window). unat (rlc_max_tokens config) + unat x < 2 ^ 64"
  shows "\<exists>s m r n. rate_limited_calls config before None = Some (s, m)
    \<and> rate_limited_calls config (t # window) s = Some (r, n)
    \<and> n \<le> unat (rlc_max_tokens config)
          + (unat (last (t # window)) - unat t) div unat (rlc_time_per_token_ns config) + 1
    \<and> (before \<noteq> [] \<longrightarrow> rlc_max_tokens config > 0
         \<longrightarrow> unat (rlc_time_per_token_ns config) \<le> unat t - unat (last before)
         \<longrightarrow> (\<exists>b. process_rate_limit t config s = Some (b, True)))"
proof -
  let ?p = "unat (rlc_time_per_token_ns config)" and ?max = "unat (rlc_max_tokens config)"
  have p: "?p > 0" using pos by (simp add: unat_gt_0)
  obtain s m where history: "rate_limited_calls config before None = Some (s, m)"
    and s: "case s of None \<Rightarrow> before = [] | Some b \<Rightarrow> before \<noteq> [] \<and> bucket_ok config (last before) b"
    using bucket_history [OF pos, of before] sorted room by (auto simp: sorted_append)
  have window: "sorted (t # window)" and t: "before \<noteq> [] \<Longrightarrow> last before \<le> t"
    using sorted by (auto simp: sorted_append)
  define b0 where "b0 = (case s of None \<Rightarrow> \<lparr>rls_tokens = rlc_max_tokens config, rls_token_timestamp = t\<rparr> | Some b \<Rightarrow> b)"
  have ok0: "bucket_ok config t b0"
    using s t by (auto simp: b0_def bucket_ok_def split: option.splits)
  have first: "process_rate_limit t config s = process_rate_limit t config (Some b0)"
    using pos by (cases s) (simp_all add: b0_def process_rate_limit_def add_tokens_def)
  obtain b1 r1 where call: "process_rate_limit t config (Some b0) = Some (b1, r1)" and ok1: "bucket_ok config t b1"
    and tokens: "unat (rls_tokens b1) + of_bool r1 = min ?max (unat (rls_tokens b0) + bucket_gain config t b0)"
    and stamp: "unat (rls_token_timestamp b1) = unat (rls_token_timestamp b0) + ?p * bucket_gain config t b0"
    and r1: "r1 \<longleftrightarrow> 0 < min ?max (unat (rls_tokens b0) + bucket_gain config t b0)"
    by (rule bucket_call [OF ok0 _ pos, of t]) (use room in auto)
  define a where "a = unat t - unat (rls_token_timestamp b0)"
  have "a = ?p * (a div ?p) + a mod ?p" and "a mod ?p < ?p" using p by simp_all
  moreover have "unat (rls_token_timestamp b1) = unat (rls_token_timestamp b0) + ?p * (a div ?p)"
    using stamp by (simp add: bucket_gain_def a_def)
  ultimately have recent: "unat t < unat (rls_token_timestamp b1) + ?p"
    unfolding a_def by linarith
  obtain b2 n k where rest: "rate_limited_calls config window (Some b1) = Some (Some b2, n)"
    and ok2: "bucket_ok config (last (t # window)) b2"
    and stamp2: "unat (rls_token_timestamp b2) = unat (rls_token_timestamp b1) + ?p * k"
    and n: "n + unat (rls_tokens b2) \<le> unat (rls_tokens b1) + k"
    using bucket_calls [OF ok1 pos window] room by auto
  have "unat (rls_token_timestamp b2) \<le> unat (last (t # window))"
    using ok2 unfolding bucket_ok_def word_le_nat_alt by blast
  then have "?p * k < (unat (last (t # window)) - unat t) + ?p" using stamp2 recent by linarith
  then have "k \<le> (unat (last (t # window)) - unat t) div ?p + 1"
    using p by (metis add.commute div_add_self2 div_le_mono less_imp_le mult.commute nonzero_mult_div_cancel_right
        Suc_eq_plus1 gr_implies_not_zero)
  with n tokens have bound: "n + of_bool r1 \<le> ?max + (unat (last (t # window)) - unat t) div ?p + 1" by linarith
  have live: "r1" if "before \<noteq> []" "rlc_max_tokens config > 0" "?p \<le> unat t - unat (last before)"
  proof -
    note ne = that(1)
    obtain b where "s = Some b" "bucket_ok config (last before) b" using s ne by (cases s) auto
    then have "unat (rls_token_timestamp b0) \<le> unat (last before)"
      by (simp add: b0_def bucket_ok_def word_le_nat_alt)
    with that(3) have "?p \<le> unat t - unat (rls_token_timestamp b0)" by linarith
    with p have "bucket_gain config t b0 > 0" by (simp add: bucket_gain_def div_greater_zero_iff)
    moreover have "?max > 0" using that(2) by (simp add: word_gt_0 unat_gt_0)
    ultimately show r1 using r1 by simp
  qed
  have "rate_limited_calls config (t # window) s = Some (Some b2, n + of_bool r1)"
    using rest by (simp add: first call)
  then show ?thesis using history bound live first call by auto
qed

theorem rate_limit_bounds_calls_witness:
  "let config = \<lparr>rlc_time_per_token_ns = 10, rlc_max_tokens = 1\<rparr> in
   \<exists>s r n. rate_limited_calls config [0] None = Some (s, 1)
     \<and> rate_limited_calls config [5, 25] s = Some (r, n) \<and> n \<le> 4"
proof -
  let ?config = "\<lparr>rlc_time_per_token_ns = 10, rlc_max_tokens = 1\<rparr>"
  obtain s m r n where "rate_limited_calls ?config [0] None = Some (s, m)"
    and "rate_limited_calls ?config [5, 25] s = Some (r, n)" and "n \<le> 1 + 20 div 10 + 1"
    using rate_limit_bounds_calls [of ?config "[0]" 5 "[25]"] by auto
  moreover from this(1) have "m = 1" by (simp add: process_rate_limit_def)
  ultimately show ?thesis unfolding Let_def by auto
qed

section \<open>Captcha solutions\<close>

text \<open>
  Characters that are easily mixed up, with the one that stands for them. The lists are
  disjoint, so the iteration order of the hash map does not matter.
\<close>

definition CHAR_REPLACEMENTS :: "(char \<times> char list) list" where
  "CHAR_REPLACEMENTS =
     [(CHR ''c'', ''cC''), (CHR ''i'', ''1ilIj''), (CHR ''s'', ''sS''), (CHR ''x'', ''xX''),
      (CHR ''y'', ''yY''), (CHR ''z'', ''zZ''), (CHR ''p'', ''pP''), (CHR ''w'', ''wW'')]"

text \<open>The characters of the font are the crate's.\<close>

definition CHALLENGE_CHARSET :: "char list \<Rightarrow> char list" where
  "CHALLENGE_CHARSET font_chars =
     filter (\<lambda>c. c \<notin> set (concat (map snd CHAR_REPLACEMENTS))) font_chars @ map fst CHAR_REPLACEMENTS"

definition CAPTCHA_LENGTH :: nat where "CAPTCHA_LENGTH = 5"

definition normalize_char :: "char \<Rightarrow> char" where
  "normalize_char c =
     (case find (\<lambda>(k, v). c \<in> set v) CHAR_REPLACEMENTS of Some (k, v) \<Rightarrow> k | None \<Rightarrow> c)"

definition check_captcha_solution :: "string \<Rightarrow> string \<Rightarrow> bool" where
  "check_captcha_solution solution_attempt solution \<longleftrightarrow>
     \<not> length solution_attempt > CAPTCHA_LENGTH \<and> map normalize_char solution_attempt = solution"

text \<open>\<open>random_string\<close>; \<open>next_u32\<close> is the generator's.\<close>

fun random_string :: "('r \<Rightarrow> u32 \<times> 'r) \<Rightarrow> 'r \<Rightarrow> nat \<Rightarrow> 'r \<times> bytes" where
  "random_string next_u32 rng 0 = (rng, [])"
| "random_string next_u32 rng (Suc n) =
     (case next_u32 rng of
        (x, rng1) \<Rightarrow>
          (case random_string next_u32 rng1 n of
             (rng2, chars) \<Rightarrow> (rng2, ((ucast x :: u8) mod (122 - 97) + 97) # chars)))"

text \<open>The comment of the function promises characters from \<open>a\<close> to \<open>z\<close>; \<open>z\<close> (122) never occurs.\<close>

lemma random_string_range: "b \<in> set (snd (random_string next_u32 rng n)) \<Longrightarrow> 97 \<le> b \<and> b < 122"
proof (induction n arbitrary: rng)
  case (Suc n)
  have "97 \<le> (x :: u8) mod 25 + 97 \<and> x mod 25 + 97 < 122" for x
  proof -
    have "unat (x mod 25) < 25" by (simp add: unat_mod)
    then have "unat (x mod 25 + 97) = unat (x mod 25) + 97" by (simp add: unat_word_ariths)
    with \<open>unat (x mod 25) < 25\<close> show ?thesis by (simp add: word_le_nat_alt word_less_nat_alt)
  qed
  moreover obtain x rng1 where "next_u32 rng = (x, rng1)" by fastforce
  moreover obtain rng2 chars where "random_string next_u32 rng1 n = (rng2, chars)" by fastforce
  ultimately show ?case using Suc.IH [of rng1] Suc.prems by auto
qed simp

lemma normalize_others:
  assumes "c \<notin> set (concat (map snd CHAR_REPLACEMENTS))"
  shows "normalize_char c = c"
proof -
  have "find (\<lambda>(k, v). c \<in> set v) CHAR_REPLACEMENTS = None"
    unfolding find_None_iff using assms by force
  then show ?thesis by (simp add: normalize_char_def)
qed

lemma normalize_table:
  "list_all (\<lambda>(k, v). list_all (\<lambda>c. normalize_char c = k) v \<and> normalize_char k = k) CHAR_REPLACEMENTS"
  by code_simp

lemma normalize_key:
  assumes "(k, v) \<in> set CHAR_REPLACEMENTS"
  shows "c \<in> set v \<Longrightarrow> normalize_char c = k" and "normalize_char k = k"
  using normalize_table assms unfolding list_all_iff by fast+

text \<open>
  Every captcha can be solved: a challenge of at most five characters drawn from
  the challenge character set is accepted when it is typed as shown, and also when any of its
  characters is replaced by one that is easily mixed up with it.
\<close>

theorem captcha_solvable:
  assumes "set solution \<subseteq> set (CHALLENGE_CHARSET font_chars)" and "length solution \<le> CAPTCHA_LENGTH"
    and "list_all2 (\<lambda>typed shown. typed = shown
           \<or> (\<exists>v. (shown, v) \<in> set CHAR_REPLACEMENTS \<and> typed \<in> set v)) attempt solution"
  shows "check_captcha_solution attempt solution"
proof -
  have shown: "normalize_char c = c" if "c \<in> set (CHALLENGE_CHARSET font_chars)" for c
  proof -
    from that consider "c \<notin> set (concat (map snd CHAR_REPLACEMENTS))" | "c \<in> set (map fst CHAR_REPLACEMENTS)"
      by (auto simp: CHALLENGE_CHARSET_def)
    then show ?thesis
    proof cases
      case 2
      then show ?thesis using normalize_key(2) by force
    qed (rule normalize_others)
  qed
  have "map normalize_char attempt = solution"
    using assms(3,1)
  proof (induction rule: list_all2_induct)
    case (Cons typed typeds c cs)
    then have "normalize_char typed = c" using shown [of c] normalize_key(1) by auto
    with Cons show ?case by simp
  qed simp
  then show ?thesis
    using assms(2) list_all2_lengthD [OF assms(3)] by (simp add: check_captcha_solution_def)
qed

theorem captcha_solvable_witness: "check_captcha_solution ''1SaX'' ''isax''"
proof (rule captcha_solvable [of _ "''a''"])
  show "set ''isax'' \<subseteq> set (CHALLENGE_CHARSET ''a'')" by code_simp
  show "list_all2 (\<lambda>typed shown. typed = shown
      \<or> (\<exists>v. (shown, v) \<in> set CHAR_REPLACEMENTS \<and> typed \<in> set v)) ''1SaX'' ''isax''"
    unfolding list_all2_Cons list_all2_Nil by (simp add: CHAR_REPLACEMENTS_def)
qed (simp add: CAPTCHA_LENGTH_def)

section \<open>Challenges\<close>

type_synonym challenge_key = bytes

record challenge_info =
  ci_created :: timestamp
  ci_chars :: string

definition CAPTCHA_CHALLENGE_LIFETIME_NS :: u64 where
  "CAPTCHA_CHALLENGE_LIFETIME_NS = secs_to_nanos 300"

definition prune_expired_challenges ::
  "timestamp \<Rightarrow> (challenge_key, challenge_info) omap \<Rightarrow> (challenge_key, challenge_info) omap" where
  "prune_expired_challenges now challenges =
     om_retain (\<lambda>_ v. ci_created v > now - CAPTCHA_CHALLENGE_LIFETIME_NS) challenges"

text \<open>The loop that looks for an unused key, with the number of tries left.\<close>

fun find_challenge_key ::
  "('r \<Rightarrow> u32 \<times> 'r) \<Rightarrow> nat \<Rightarrow> 'r \<Rightarrow> (challenge_key, challenge_info) omap \<Rightarrow> ('r \<times> challenge_key) option" where
  "find_challenge_key next_u32 0 rng challenges = None"
| "find_challenge_key next_u32 (Suc tries) rng challenges =
     (case random_string next_u32 rng 10 of
        (rng1, key) \<Rightarrow>
          if om_contains challenges key then find_challenge_key next_u32 tries rng1 challenges
          else Some (rng1, key))"

definition MAX_TRIES :: nat where "MAX_TRIES = 10"

text \<open>
  \<open>max_unsolved_captchas as usize\<close> truncates to 32 bits. \<open>create_captcha\<close> renders a captcha: the
  picture and its solution.
\<close>

definition create_challenge ::
  "('r \<Rightarrow> u32 \<times> 'r) \<Rightarrow> ('r \<Rightarrow> string \<times> string) \<Rightarrow> timestamp \<Rightarrow> u64 \<Rightarrow> 'r
     \<Rightarrow> (challenge_key, challenge_info) omap
     \<Rightarrow> ((challenge_key, challenge_info) omap \<times> string \<times> challenge_key) option" where
  "create_challenge next_u32 create_captcha now max_unsolved_captchas rng challenges =
     (let challenges = prune_expired_challenges now challenges in
      if om_len challenges \<ge> unat (ucast max_unsolved_captchas :: u32) then None
      else
        (case find_challenge_key next_u32 MAX_TRIES rng challenges of
           None \<Rightarrow> None
         | Some (rng, key) \<Rightarrow>
             (case create_captcha rng of
                (png, chars) \<Rightarrow>
                  Some (om_insert key \<lparr>ci_created = now, ci_chars = chars\<rparr> challenges, png, key))))"

definition check_challenge ::
  "timestamp \<Rightarrow> challenge_key \<Rightarrow> string \<Rightarrow> (challenge_key, challenge_info) omap
     \<Rightarrow> (challenge_key, challenge_info) omap \<times> bool" where
  "check_challenge now key chars challenges =
     (let challenges = prune_expired_challenges now challenges in
      (om_remove key challenges,
       case om_get challenges key of
         None \<Rightarrow> False
       | Some challenge \<Rightarrow> check_captcha_solution chars (ci_chars challenge)))"

lemma find_challenge_key_fresh:
  "find_challenge_key next_u32 tries rng m = Some (rng', key) \<Longrightarrow> om_get m key = None"
  by (induction next_u32 tries rng m rule: find_challenge_key.induct)
     (auto simp: om_contains_def split: prod.splits if_splits)

text \<open>
  Property C31. A challenge can be answered once, and only while it is fresh: checking removes it
  whether the answer is right or wrong, the answer counts exactly if the challenge was
  created less than five minutes ago and the solution matches, and no other fresh challenge is
  affected. Creating one never replaces a challenge that is still open and never leaves more
  than the configured number of open challenges.
\<close>

theorem challenge_answered_once:
  assumes check: "check_challenge now key chars m = (m', accepted)"
  shows "om_get m' key = None
    \<and> (accepted \<longleftrightarrow> (\<exists>c. om_get m key = Some c \<and> ci_created c > now - CAPTCHA_CHALLENGE_LIFETIME_NS
          \<and> check_captcha_solution chars (ci_chars c)))
    \<and> (\<forall>k c. k \<noteq> key \<longrightarrow> om_get m k = Some c \<longrightarrow> ci_created c > now - CAPTCHA_CHALLENGE_LIFETIME_NS
          \<longrightarrow> om_get m' k = Some c)
    \<and> (\<forall>next_u32 create_captcha limit rng m2 png key2.
          create_challenge next_u32 create_captcha now limit rng m' = Some (m2, png, key2) \<longrightarrow>
            om_get (prune_expired_challenges now m') key2 = None
            \<and> om_get m2 key2 = Some \<lparr>ci_created = now, ci_chars = ci_chars (the (om_get m2 key2))\<rparr>
            \<and> om_len m2 \<le> unat limit)"
proof (intro conjI allI impI)
  show "om_get m' key = None" using check by (auto simp: check_challenge_def Let_def)
  show "accepted \<longleftrightarrow> (\<exists>c. om_get m key = Some c \<and> ci_created c > now - CAPTCHA_CHALLENGE_LIFETIME_NS
          \<and> check_captcha_solution chars (ci_chars c))"
    using check by (auto simp: check_challenge_def Let_def prune_expired_challenges_def om_get_retain
        split: option.splits if_splits)
next
  fix k c
  assume "k \<noteq> key" "om_get m k = Some c" "ci_created c > now - CAPTCHA_CHALLENGE_LIFETIME_NS"
  then show "om_get m' k = Some c"
    using check by (auto simp: check_challenge_def Let_def prune_expired_challenges_def om_get_retain)
next
  fix next_u32 :: "'r \<Rightarrow> u32 \<times> 'r" and create_captcha limit rng m2 png key2
  let ?p = "prune_expired_challenges now m'"
  assume "create_challenge next_u32 create_captcha now limit rng m' = Some (m2, png, key2)"
  then obtain rng' chars where room: "om_len ?p < unat (ucast limit :: u32)"
    and find: "find_challenge_key next_u32 MAX_TRIES rng ?p = Some (rng', key2)"
    and m2: "m2 = om_insert key2 \<lparr>ci_created = now, ci_chars = chars\<rparr> ?p"
    by (auto simp: create_challenge_def Let_def split: if_splits option.splits prod.splits)
  show fresh: "om_get ?p key2 = None" by (rule find_challenge_key_fresh [OF find])
  show "om_get m2 key2 = Some \<lparr>ci_created = now, ci_chars = ci_chars (the (om_get m2 key2))\<rparr>"
    by (simp add: m2)
  have "unat (ucast limit :: u32) \<le> unat limit"
    by (simp add: unsigned_ucast_eq)
  with room fresh show "om_len m2 \<le> unat limit" by (simp add: m2 om.len_insert)
qed

theorem challenge_answered_once_witness:
  "let m = om_insert [1] \<lparr>ci_created = 399999999999, ci_chars = ''ab''\<rparr> om_empty in
     snd (check_challenge 400000000000 [1] ''ab'' m)
     \<and> om_get (fst (check_challenge 400000000000 [1] ''ab'' m)) [1] = None"
proof -
  let ?m = "om_insert [1] \<lparr>ci_created = 399999999999, ci_chars = ''ab''\<rparr> om_empty
              :: (challenge_key, challenge_info) omap"
  obtain m' accepted where check: "check_challenge 400000000000 [1] ''ab'' ?m = (m', accepted)" by fastforce
  note once = challenge_answered_once [OF check]
  have "check_captcha_solution ''ab'' ''ab''" by code_simp
  then have "accepted"
    using once [THEN conjunct2, THEN conjunct1] by (simp add: CAPTCHA_CHALLENGE_LIFETIME_NS_def secs_to_nanos_def)
  moreover have "om_get m' [1] = None" using once by blast
  ultimately show ?thesis unfolding Let_def check by simp
qed

end
