(* ===== verification/Tentative_Registration.thy ===== *)
theory Tentative_Registration
  imports Storage Delegation
begin

text \<open>
  \<open>anchor_management/tentative_device_registration.rs\<close>: an identity in registration mode accepts one
  new device or session from outside, which counts only after the owner has confirmed it with a
  code. The two hash maps of \<open>state.rs\<close> (registrations by anchor, anchors by registration id) are
  one record. Time, randomness and the storage are arguments.

  The operations are refined to a small state machine per anchor (\<open>phase_step\<close>), from which the
  properties follow: codes can be tried three times, an anchor is never affected by
  operations on another one, registration ids lead to anchors that are in registration mode.
\<close>

section \<open>State\<close>

definition REGISTRATION_MODE_DURATION :: u64 where "REGISTRATION_MODE_DURATION = secs_to_nanos 900"
definition MAX_ANCHORS_IN_REGISTRATION_MODE :: nat where "MAX_ANCHORS_IN_REGISTRATION_MODE = 10000"
definition MAX_DEVICE_REGISTRATION_ATTEMPTS :: u8 where "MAX_DEVICE_REGISTRATION_ATTEMPTS = 3"

type_synonym confirmation_code = bytes
type_synonym registration_id = string

datatype registration_state =
    DeviceRegistrationModeActive
  | DeviceTentativelyAdded device_data confirmation_code u8
  | SessionTentativelyAdded principal confirmation_code u8
  | SessionTentativelyConfirmed principal

record tentative_registration =
  tr_expiration :: timestamp
  tr_state :: registration_state
  tr_id :: "registration_id option"

record tentative_state =
  td_registrations :: "(anchor_number, tentative_registration) omap"
  td_lookup :: "(registration_id, anchor_number) omap"

definition no_registrations :: tentative_state where
  "no_registrations = \<lparr>td_registrations = om_empty, td_lookup = om_empty\<rparr>"

text \<open>\<open>ValidatedRegistrationId::try_new\<close>; its two error texts are not distinguished.\<close>

definition ascii_alphanumeric :: "char \<Rightarrow> bool" where
  "ascii_alphanumeric c \<longleftrightarrow>
     (let n = (of_char c :: nat) in 48 \<le> n \<and> n \<le> 57 \<or> 65 \<le> n \<and> n \<le> 90 \<or> 97 \<le> n \<and> n \<le> 122)"

definition registration_id_try_new :: "string \<Rightarrow> registration_id option" where
  "registration_id_try_new s =
     (if length s \<noteq> 5 then None else if \<not> list_all ascii_alphanumeric s then None else Some s)"

section \<open>Operations\<close>

text \<open>\<open>prune_expired_tentative_device_registrations\<close>: the closure also removes lookup entries.\<close>

definition expired_registration_ids :: "timestamp \<Rightarrow> tentative_state \<Rightarrow> registration_id list" where
  "expired_registration_ids now s =
     List.map_filter (\<lambda>(_, r). if now \<ge> tr_expiration r then tr_id r else None) (om_entries (td_registrations s))"

definition prune_registrations :: "timestamp \<Rightarrow> tentative_state \<Rightarrow> tentative_state" where
  "prune_registrations now s =
     \<lparr>td_registrations = om_retain (\<lambda>_ r. \<not> now \<ge> tr_expiration r) (td_registrations s),
      td_lookup = om_remove_all (expired_registration_ids now s) (td_lookup s)\<rparr>"

datatype mode_enter_error = TooManyInRegistrationMode | AlreadyInProgress

definition enter_device_registration_mode ::
  "timestamp \<Rightarrow> anchor_number \<Rightarrow> registration_id option \<Rightarrow> tentative_state
     \<Rightarrow> tentative_state \<times> (mode_enter_error + timestamp)" where
  "enter_device_registration_mode now n reg_id s =
     (let s = prune_registrations now s in
      if om_len (td_registrations s) \<ge> MAX_ANCHORS_IN_REGISTRATION_MODE then (s, Inl TooManyInRegistrationMode)
      else
        (case om_get (td_registrations s) n of
           Some r \<Rightarrow> (s, if tr_id r = reg_id then Inr (tr_expiration r) else Inl AlreadyInProgress)
         | None \<Rightarrow>
             (let expiration = now + REGISTRATION_MODE_DURATION in
              (\<lparr>td_registrations =
                  om_insert n \<lparr>tr_expiration = expiration, tr_state = DeviceRegistrationModeActive, tr_id = reg_id\<rparr>
                    (td_registrations s),
                td_lookup = (case reg_id of None \<Rightarrow> td_lookup s | Some i \<Rightarrow> om_insert i n (td_lookup s))\<rparr>,
               Inr expiration))))"

text \<open>Removing a registration together with its lookup entry, as two of the operations do.\<close>

definition remove_registration :: "anchor_number \<Rightarrow> tentative_state \<Rightarrow> tentative_state" where
  "remove_registration n s =
     \<lparr>td_registrations = om_remove n (td_registrations s),
      td_lookup =
        (case om_get (td_registrations s) n of
           Some r \<Rightarrow> (case tr_id r of Some i \<Rightarrow> om_remove i (td_lookup s) | None \<Rightarrow> td_lookup s)
         | None \<Rightarrow> td_lookup s)\<rparr>"

definition exit_device_registration_mode :: "timestamp \<Rightarrow> anchor_number \<Rightarrow> tentative_state \<Rightarrow> tentative_state" where
  "exit_device_registration_mode now n s = remove_registration n (prune_registrations now s)"

definition set_registration_state ::
  "anchor_number \<Rightarrow> registration_state \<Rightarrow> tentative_registration \<Rightarrow> tentative_state \<Rightarrow> tentative_state" where
  "set_registration_state n st r s =
     s\<lparr>td_registrations := om_insert n (r\<lparr>tr_state := st\<rparr>) (td_registrations s)\<rparr>"

datatype authn_method_register_error =
    RegistrationModeOff
  | RegistrationAlreadyInProgress
  | PasskeyWithThisPublicKeyIsAlreadyUsed

definition add_tentative_device ::
  "(bytes \<Rightarrow> principal) \<Rightarrow> storage \<Rightarrow> timestamp \<Rightarrow> confirmation_code \<Rightarrow> anchor_number \<Rightarrow> device_data \<Rightarrow> tentative_state
     \<Rightarrow> tentative_state \<times> (authn_method_register_error + confirmation_code \<times> timestamp)" where
  "add_tentative_device sa storage now code n tentative_device s =
     (let s = prune_registrations now s in
      case om_get (td_registrations s) n of
        None \<Rightarrow> (s, Inl RegistrationModeOff)
      | Some r \<Rightarrow>
          if tr_expiration r \<le> now then (s, Inl RegistrationModeOff)
          else if tr_state r = DeviceRegistrationModeActive
          then
            if lookup_anchor_with_passkey_pubkey sa storage (dev_pubkey tentative_device) \<noteq> None
            then (s, Inl PasskeyWithThisPublicKeyIsAlreadyUsed)
            else (set_registration_state n (DeviceTentativelyAdded tentative_device code 0) r s,
                  Inr (code, tr_expiration r))
          else (s, Inl RegistrationAlreadyInProgress))"

definition add_tentative_session ::
  "timestamp \<Rightarrow> confirmation_code \<Rightarrow> anchor_number \<Rightarrow> principal \<Rightarrow> tentative_state
     \<Rightarrow> tentative_state \<times> (authn_method_register_error + confirmation_code \<times> timestamp)" where
  "add_tentative_session now code n tentative_session s =
     (let s = prune_registrations now s in
      case om_get (td_registrations s) n of
        None \<Rightarrow> (s, Inl RegistrationModeOff)
      | Some r \<Rightarrow>
          if tr_expiration r \<le> now then (s, Inl RegistrationModeOff)
          else if tr_state r = DeviceRegistrationModeActive
          then (set_registration_state n (SessionTentativelyAdded tentative_session code 0) r s,
                Inr (code, tr_expiration r))
          else (s, Inl RegistrationAlreadyInProgress))"

datatype authn_method_confirmation_error =
    ConfirmationModeOff
  | NoAuthnMethodToConfirm
  | WrongCode u8

text \<open>The failed attempt: the counter goes up and the registration is removed at the third one.\<close>

definition failed_confirmation ::
  "anchor_number \<Rightarrow> (u8 \<Rightarrow> registration_state) \<Rightarrow> u8 \<Rightarrow> tentative_registration \<Rightarrow> tentative_state
     \<Rightarrow> tentative_state \<times> (authn_method_confirmation_error + device_data option)" where
  "failed_confirmation n with_attempts failed_attempts r s =
     (let failed = failed_attempts + 1;
          s' = set_registration_state n (with_attempts failed) r s in
      (if failed \<ge> MAX_DEVICE_REGISTRATION_ATTEMPTS then remove_registration n s' else s',
       Inl (WrongCode (MAX_DEVICE_REGISTRATION_ATTEMPTS - failed))))"

definition confirm_tentative_device_or_session ::
  "timestamp \<Rightarrow> anchor_number \<Rightarrow> confirmation_code \<Rightarrow> tentative_state
     \<Rightarrow> tentative_state \<times> (authn_method_confirmation_error + device_data option)" where
  "confirm_tentative_device_or_session now n user_code s =
     (let s = prune_registrations now s in
      case om_get (td_registrations s) n of
        None \<Rightarrow> (s, Inl ConfirmationModeOff)
      | Some r \<Rightarrow>
          (case tr_state r of
             DeviceRegistrationModeActive \<Rightarrow> (s, Inl NoAuthnMethodToConfirm)
           | SessionTentativelyConfirmed _ \<Rightarrow> (s, Inl NoAuthnMethodToConfirm)
           | DeviceTentativelyAdded tentative_device code failed_attempts \<Rightarrow>
               if user_code = code then (remove_registration n s, Inr (Some tentative_device))
               else failed_confirmation n (DeviceTentativelyAdded tentative_device code) failed_attempts r s
           | SessionTentativelyAdded tentative_session code failed_attempts \<Rightarrow>
               if user_code = code
               then (set_registration_state n (SessionTentativelyConfirmed tentative_session) r s, Inr None)
               else failed_confirmation n (SessionTentativelyAdded tentative_session code) failed_attempts r s))"

text \<open>\<open>new_confirmation_code\<close> from the bytes of \<open>raw_rand\<close>; fewer than four bytes trap.\<close>

definition new_confirmation_code :: "bytes \<Rightarrow> confirmation_code option" where
  "new_confirmation_code res =
     (if length res < 4 then None
      else
        (let rand = le_value (rev (take 4 res)); digits = decimal (rand mod 1000000) in
         Some (replicate (6 - length digits) 48 @ digits)))"

definition get_confirmed_session ::
  "timestamp \<Rightarrow> anchor_number \<Rightarrow> tentative_state \<Rightarrow> tentative_state \<times> principal option" where
  "get_confirmed_session now n s =
     (let s = prune_registrations now s in
      (s, case om_get (td_registrations s) n of
            None \<Rightarrow> None
          | Some r \<Rightarrow>
              if tr_expiration r \<le> now then None
              else (case tr_state r of SessionTentativelyConfirmed p \<Rightarrow> Some p | _ \<Rightarrow> None)))"

record device_registration_info =
  dri_expiration :: timestamp
  dri_tentative_device :: "device_data option"
  dri_tentative_session :: "principal option"

definition get_tentative_registration ::
  "timestamp \<Rightarrow> anchor_number \<Rightarrow> tentative_state \<Rightarrow> tentative_state \<times> device_registration_info option" where
  "get_tentative_registration now n s =
     (let s = prune_registrations now s in
      (s, case om_get (td_registrations s) n of
            None \<Rightarrow> None
          | Some r \<Rightarrow>
              if tr_expiration r \<le> now then None
              else
                (let info = (\<lambda>d p. \<lparr>dri_expiration = tr_expiration r, dri_tentative_device = d,
                                    dri_tentative_session = p\<rparr>) in
                 Some (case tr_state r of
                    DeviceTentativelyAdded d _ _ \<Rightarrow> info (Some d) None
                  | SessionTentativelyAdded p _ _ \<Rightarrow> info None (Some p)
                  | SessionTentativelyConfirmed p \<Rightarrow> info None (Some p)
                  | DeviceRegistrationModeActive \<Rightarrow> info None None))))"

text \<open>\<open>state::get_identity_number_by_registration_id\<close> reads without pruning.\<close>

definition get_identity_number_by_registration_id ::
  "timestamp \<Rightarrow> registration_id \<Rightarrow> tentative_state \<Rightarrow> anchor_number option" where
  "get_identity_number_by_registration_id now i s =
     (case om_get (td_lookup s) i of
        None \<Rightarrow> None
      | Some n \<Rightarrow>
          (case om_get (td_registrations s) n of
             None \<Rightarrow> None
           | Some r \<Rightarrow> if tr_expiration r > now then Some n else None))"

section \<open>The state machine of one anchor\<close>

datatype tentative_op =
    EnterMode anchor_number "registration_id option"
  | ExitMode anchor_number
  | AddDeviceOp anchor_number device_data confirmation_code
  | AddSessionOp anchor_number principal confirmation_code
  | ConfirmOp anchor_number confirmation_code
  | QuerySession anchor_number
  | QueryRegistration anchor_number

fun op_anchor :: "tentative_op \<Rightarrow> anchor_number" where
  "op_anchor (EnterMode n _) = n"
| "op_anchor (ExitMode n) = n"
| "op_anchor (AddDeviceOp n _ _) = n"
| "op_anchor (AddSessionOp n _ _) = n"
| "op_anchor (ConfirmOp n _) = n"
| "op_anchor (QuerySession n) = n"
| "op_anchor (QueryRegistration n) = n"

text \<open>Running an operation; the flag tells that a device or session was confirmed.\<close>

fun run_tentative ::
  "(bytes \<Rightarrow> principal) \<Rightarrow> storage \<Rightarrow> timestamp \<Rightarrow> tentative_op \<Rightarrow> tentative_state \<Rightarrow> tentative_state \<times> bool" where
  "run_tentative sa st now (EnterMode n i) s = (fst (enter_device_registration_mode now n i s), False)"
| "run_tentative sa st now (ExitMode n) s = (exit_device_registration_mode now n s, False)"
| "run_tentative sa st now (AddDeviceOp n d c) s = (fst (add_tentative_device sa st now c n d s), False)"
| "run_tentative sa st now (AddSessionOp n p c) s = (fst (add_tentative_session now c n p s), False)"
| "run_tentative sa st now (ConfirmOp n c) s =
     (case confirm_tentative_device_or_session now n c s of
        (s', Inl _) \<Rightarrow> (s', False) | (s', Inr _) \<Rightarrow> (s', True))"
| "run_tentative sa st now (QuerySession n) s = (fst (get_confirmed_session now n s), False)"
| "run_tentative sa st now (QueryRegistration n) s = (fst (get_tentative_registration now n s), False)"

text \<open>What an anchor's registration amounts to at a time: expired ones count as absent.\<close>

definition phase :: "timestamp \<Rightarrow> tentative_state \<Rightarrow> anchor_number \<Rightarrow> registration_state option" where
  "phase now s n =
     (case om_get (td_registrations s) n of
        None \<Rightarrow> None
      | Some r \<Rightarrow> if now < tr_expiration r then Some (tr_state r) else None)"

definition attempts_left :: "u8 \<Rightarrow> bool" where
  "attempts_left failed \<longleftrightarrow> failed < MAX_DEVICE_REGISTRATION_ATTEMPTS"

text \<open>
  The specification: the next phase of the operation's anchor. \<open>room\<close> says that the limit on
  simultaneous registrations is not reached and \<open>free\<close> that a passkey is not in use yet.
\<close>

fun phase_step ::
  "bool \<Rightarrow> (device_data \<Rightarrow> bool) \<Rightarrow> tentative_op \<Rightarrow> registration_state option \<Rightarrow> registration_state option" where
  "phase_step room free (EnterMode n i) None = (if room then Some DeviceRegistrationModeActive else None)"
| "phase_step room free (ExitMode n) x = None"
| "phase_step room free (AddDeviceOp n d c) (Some DeviceRegistrationModeActive) =
     (if free d then Some (DeviceTentativelyAdded d c 0) else Some DeviceRegistrationModeActive)"
| "phase_step room free (AddSessionOp n p c) (Some DeviceRegistrationModeActive) =
     Some (SessionTentativelyAdded p c 0)"
| "phase_step room free (ConfirmOp n u) (Some (DeviceTentativelyAdded d c failed)) =
     (if u = c then None
      else if attempts_left (failed + 1) then Some (DeviceTentativelyAdded d c (failed + 1))
      else None)"
| "phase_step room free (ConfirmOp n u) (Some (SessionTentativelyAdded p c failed)) =
     (if u = c then Some (SessionTentativelyConfirmed p)
      else if attempts_left (failed + 1) then Some (SessionTentativelyAdded p c (failed + 1))
      else None)"
| "phase_step room free op x = x"

text \<open>Whether an operation confirms in a phase.\<close>

fun confirms :: "tentative_op \<Rightarrow> registration_state option \<Rightarrow> bool" where
  "confirms (ConfirmOp n u) (Some (DeviceTentativelyAdded d c failed)) = (u = c)"
| "confirms (ConfirmOp n u) (Some (SessionTentativelyAdded p c failed)) = (u = c)"
| "confirms op x = False"

lemma prune_registrations_get [simp]:
  "om_get (td_registrations (prune_registrations now s)) n =
     (case om_get (td_registrations s) n of
        None \<Rightarrow> None | Some r \<Rightarrow> if now < tr_expiration r then Some r else None)"
  by (simp add: prune_registrations_def om_get_retain not_le)

lemma phase_prune: "phase now s n = map_option tr_state (om_get (td_registrations (prune_registrations now s)) n)"
  by (simp add: phase_def split: option.splits)

definition registration_room :: "timestamp \<Rightarrow> tentative_state \<Rightarrow> bool" where
  "registration_room now s \<longleftrightarrow>
     om_len (td_registrations (prune_registrations now s)) < MAX_ANCHORS_IN_REGISTRATION_MODE"

definition passkey_free :: "(bytes \<Rightarrow> principal) \<Rightarrow> storage \<Rightarrow> device_data \<Rightarrow> bool" where
  "passkey_free sa st d \<longleftrightarrow> lookup_anchor_with_passkey_pubkey sa st (dev_pubkey d) = None"

lemmas tentative_defs = enter_device_registration_mode_def exit_device_registration_mode_def
  add_tentative_device_def add_tentative_session_def confirm_tentative_device_or_session_def
  get_confirmed_session_def get_tentative_registration_def failed_confirmation_def
  remove_registration_def set_registration_state_def Let_def

lemma mode_lasts:
  "unat now + unat REGISTRATION_MODE_DURATION < 2 ^ 64 \<Longrightarrow> now < now + REGISTRATION_MODE_DURATION"
  by (simp add: word_less_nat_alt unat64_add)
    (simp add: REGISTRATION_MODE_DURATION_def secs_to_nanos_def)

lemma tentative_phase:
  assumes now: "unat now + unat REGISTRATION_MODE_DURATION < 2 ^ 64"
  shows "phase now (fst (run_tentative sa st now op s)) m =
           (if m = op_anchor op
            then phase_step (registration_room now s) (passkey_free sa st) op (phase now s m)
            else phase now s m)"
proof (cases "om_get (td_registrations s) (op_anchor op)")
  case None
  then show ?thesis
    using mode_lasts [OF now]
    by (cases op) (auto simp: tentative_defs phase_def registration_room_def split: option.splits)
next
  case (Some r)
  show ?thesis
  proof (cases "now < tr_expiration r")
    case True
    with Some show ?thesis
      by (cases op; cases "tr_state r")
        (auto simp: tentative_defs phase_def registration_room_def passkey_free_def attempts_left_def
            split: option.splits)
  next
    case False
    with Some show ?thesis
      using mode_lasts [OF now]
      by (cases op) (auto simp: tentative_defs phase_def registration_room_def split: option.splits)
  qed
qed

lemma tentative_confirms:
  "snd (run_tentative sa st now op s) = confirms op (phase now s (op_anchor op))"
proof (cases "om_get (td_registrations s) (op_anchor op)")
  case None
  then show ?thesis by (cases op) (auto simp: tentative_defs phase_def)
next
  case (Some r)
  then show ?thesis
    by (cases op; cases "tr_state r") (auto simp: tentative_defs phase_def split: option.splits)
qed

text \<open>
  Property C19. Registration of new devices and sessions is a state machine per anchor. Every
  operation, at any time, takes the phase of its anchor exactly where the specification says
  (a tentative device or session needs registration mode and an unused passkey, the right code
  confirms it, a wrong one uses up an attempt and the third ends the registration), confirms
  exactly when the specification does, and leaves the phase of every other anchor as it was.
\<close>

theorem tentative_registration_refines:
  assumes now: "unat now + unat REGISTRATION_MODE_DURATION < 2 ^ 64"
    and run: "run_tentative sa st now op s = (t, confirmed)"
  shows "phase now t (op_anchor op) =
           phase_step (registration_room now s) (passkey_free sa st) op (phase now s (op_anchor op))
    \<and> (confirmed \<longleftrightarrow> confirms op (phase now s (op_anchor op)))
    \<and> (\<forall>m. m \<noteq> op_anchor op \<longrightarrow> phase now t m = phase now s m)"
  using tentative_phase [OF now, of sa st op s] tentative_confirms [of sa st now op s] run by simp

theorem tentative_registration_refines_witness:
  "phase 0 (fst (run_tentative (\<lambda>k. k) empty_storage 0 (EnterMode 10000 (Some ''abc12'')) no_registrations)) 10000
     = Some DeviceRegistrationModeActive"
proof -
  obtain t confirmed where
    run: "run_tentative (\<lambda>k. k) empty_storage 0 (EnterMode 10000 (Some ''abc12'')) no_registrations = (t, confirmed)"
    by fastforce
  have "unat (0 :: timestamp) + unat REGISTRATION_MODE_DURATION < 2 ^ 64"
    by (simp add: REGISTRATION_MODE_DURATION_def secs_to_nanos_def)
  moreover have "registration_room 0 no_registrations"
    by (simp add: registration_room_def prune_registrations_def no_registrations_def
        MAX_ANCHORS_IN_REGISTRATION_MODE_def om_len_def om_entries_retain om_empty.rep_eq)
  moreover have "phase 0 no_registrations 10000 = None" by (simp add: phase_def no_registrations_def)
  ultimately show ?thesis
    using tentative_registration_refines [OF _ run] unfolding run by simp
qed

section \<open>Guessing the code\<close>

text \<open>A history over a changing storage: the final state and the operations that confirmed something.\<close>

fun run_history ::
  "(bytes \<Rightarrow> principal) \<Rightarrow> (timestamp \<times> storage \<times> tentative_op) list \<Rightarrow> tentative_state
     \<Rightarrow> tentative_state \<times> tentative_op list" where
  "run_history sa [] s = (s, [])"
| "run_history sa ((now, st, op) # es) s =
     (case run_tentative sa st now op s of
        (s1, confirmed) \<Rightarrow>
          (case run_history sa es s1 of (s2, ops) \<Rightarrow> (s2, if confirmed then op # ops else ops)))"

fun codes_tried :: "anchor_number \<Rightarrow> (timestamp \<times> storage \<times> tentative_op) list \<Rightarrow> confirmation_code list" where
  "codes_tried n [] = []"
| "codes_tried n ((_, _, ConfirmOp m u) # es) = (if m = n then u # codes_tried n es else codes_tried n es)"
| "codes_tried n (_ # es) = codes_tried n es"

fun pending_code :: "registration_state option \<Rightarrow> (confirmation_code \<times> u8) option" where
  "pending_code (Some (DeviceTentativelyAdded d c failed)) = Some (c, failed)"
| "pending_code (Some (SessionTentativelyAdded p c failed)) = Some (c, failed)"
| "pending_code x = None"

text \<open>A phase that cannot become pending again unless the anchor enters registration mode.\<close>

fun settled :: "registration_state option \<Rightarrow> bool" where
  "settled None = True"
| "settled (Some (SessionTentativelyConfirmed p)) = True"
| "settled x = False"

lemma settled_step:
  "settled x \<Longrightarrow> \<forall>i. op \<noteq> EnterMode (op_anchor op) i \<Longrightarrow> settled (phase_step room free op x) \<and> \<not> confirms op x"
  by (cases "(room, free, op, x)" rule: phase_step.cases) auto

lemma phase_later: "t \<le> now \<Longrightarrow> phase now s n = phase t s n \<or> phase now s n = None"
  by (auto simp: phase_def split: option.splits)

lemma settled_later: "settled (phase t s n) \<Longrightarrow> t \<le> now \<Longrightarrow> settled (phase now s n)"
  using phase_later [of t now s n] by auto

lemma settled_history:
  assumes "settled (phase t s n)" and "sorted (t # map fst es)"
    and "\<forall>(now, st, op) \<in> set es. unat now + unat REGISTRATION_MODE_DURATION < 2 ^ 64 \<and> (\<forall>i. op \<noteq> EnterMode n i)"
  shows "ConfirmOp n u \<notin> set (snd (run_history sa es s))"
  using assms
proof (induction es arbitrary: t s)
  case (Cons e es)
  obtain now st op where e: "e = (now, st, op)" by (cases e)
  have now: "unat now + unat REGISTRATION_MODE_DURATION < 2 ^ 64" and ne: "\<forall>i. op \<noteq> EnterMode n i" and le: "t \<le> now"
    using Cons.prems(2,3) e by auto
  have st: "settled (phase now s n)" by (rule settled_later [OF Cons.prems(1) le])
  obtain s1 confirmed where run: "run_tentative sa st now op s = (s1, confirmed)" by fastforce
  note p = tentative_phase [OF now, of sa st op s n, unfolded run fst_conv]
  have "settled (phase now s1 n) \<and> (op_anchor op = n \<longrightarrow> \<not> confirmed)"
    using settled_step [of "phase now s n" op] st ne p tentative_confirms [of sa st now op s] run
    by (cases "n = op_anchor op") auto
  moreover have "sorted (now # map fst es)" using Cons.prems(2) e by simp
  ultimately show ?case
    using Cons.IH [of now s1] Cons.prems(3) run by (auto simp: e split: prod.splits)
qed simp

lemma pending_step:
  assumes "pending_code x = Some (c, failed)" and "\<And>m u. op \<noteq> ConfirmOp m u" and "\<forall>i. op \<noteq> EnterMode n i"
  shows "phase_step room free op x = x \<or> phase_step room free op x = None"
  using assms by (cases "(room, free, op, x)" rule: phase_step.cases) auto

lemma pending_confirm:
  assumes "pending_code x = Some (c, failed)" and "u \<noteq> c"
  shows "pending_code (phase_step room free (ConfirmOp n u) x) = Some (c, failed + 1) \<and> attempts_left (failed + 1)
    \<or> phase_step room free (ConfirmOp n u) x = None"
    and "\<not> confirms (ConfirmOp n u) x"
  using assms by (cases x rule: pending_code.cases; auto)+

lemma guesses_left:
  assumes "pending_code (phase t s n) = Some (c, failed)" and "attempts_left failed"
    and "sorted (t # map fst es)"
    and "\<forall>(now, st, op) \<in> set es. unat now + unat REGISTRATION_MODE_DURATION < 2 ^ 64 \<and> (\<forall>i. op \<noteq> EnterMode n i)"
    and "ConfirmOp n u \<in> set (snd (run_history sa es s))"
  shows "c \<in> set (take (3 - unat failed) (codes_tried n es))"
  using assms
proof (induction es arbitrary: t s failed)
  case (Cons e es)
  obtain now st op where e: "e = (now, st, op)" by (cases e)
  have now: "unat now + unat REGISTRATION_MODE_DURATION < 2 ^ 64" and ne: "\<forall>i. op \<noteq> EnterMode n i"
    and le: "t \<le> now" and sorted: "sorted (now # map fst es)"
    and rest: "\<forall>(now, st, op) \<in> set es. unat now + unat REGISTRATION_MODE_DURATION < 2 ^ 64 \<and> (\<forall>i. op \<noteq> EnterMode n i)"
    using Cons.prems(3,4) e by auto
  obtain s1 confirmed where run: "run_tentative sa st now op s = (s1, confirmed)" by fastforce
  note p = tentative_phase [OF now, of sa st op s n, unfolded run fst_conv]
  have conf: "confirmed = confirms op (phase now s (op_anchor op))"
    using tentative_confirms [of sa st now op s] run by simp
  have left: "unat failed < 3" using Cons.prems(2)
    by (simp add: attempts_left_def MAX_DEVICE_REGISTRATION_ATTEMPTS_def word_less_nat_alt)
  have later: "phase now s n = phase t s n \<or> phase now s n = None" by (rule phase_later [OF le])
  have over: "phase now s1 n \<noteq> None" if "ConfirmOp n u \<in> set (snd (run_history sa es s1))"
  proof
    assume "phase now s1 n = None"
    then have "settled (phase now s1 n)" by simp
    from settled_history [OF this sorted rest] that show False by blast
  qed
  have in_rest: "ConfirmOp n u \<in> set (snd (run_history sa es s1))" if "confirmed \<Longrightarrow> op \<noteq> ConfirmOp n u"
    using Cons.prems(5) that run by (auto simp: e split: prod.splits if_splits)
  show ?case
  proof (cases "\<exists>v. op = ConfirmOp n v")
    case False
    then have tried: "codes_tried n (e # es) = codes_tried n es" by (cases op) (auto simp: e)
    have more: "ConfirmOp n u \<in> set (snd (run_history sa es s1))" by (rule in_rest) (use False in blast)
    have "phase now s1 n = phase now s n \<or> phase now s1 n = None"
    proof (cases "n = op_anchor op")
      case True
      then have "\<And>m v. op \<noteq> ConfirmOp m v" using False by auto
      moreover have "phase now s n = None \<Longrightarrow> phase_step room free op None = None" for room free
        using ne True by (cases op) auto
      ultimately show ?thesis using p True later Cons.prems(1) pending_step [OF _ _ ne] by metis
    qed (use p in simp)
    then have "phase now s1 n = phase t s n" using over [OF more] later by auto
    with Cons.IH [OF _ Cons.prems(2) sorted rest more] Cons.prems(1) tried show ?thesis by simp
  next
    case True
    then obtain v where op: "op = ConfirmOp n v" by blast
    have tried: "codes_tried n (e # es) = v # codes_tried n es" by (simp add: e op)
    show ?thesis
    proof (cases "v = c")
      case True
      then show ?thesis using left by (simp add: tried take_Cons')
    next
      case False
      have "\<not> confirmed" using later pending_confirm(2) [OF Cons.prems(1) False] conf op by auto
      then have more: "ConfirmOp n u \<in> set (snd (run_history sa es s1))" by (intro in_rest) simp
      have "phase now s n = phase t s n" using later over [OF more] p op by auto
      then have step: "phase now s1 n =
          phase_step (registration_room now s) (passkey_free sa st) (ConfirmOp n v) (phase t s n)"
        using p op by simp
      have next_step: "pending_code (phase now s1 n) = Some (c, failed + 1)" "attempts_left (failed + 1)"
        using pending_confirm(1) [OF Cons.prems(1) False, of "registration_room now s" "passkey_free sa st" n]
          over [OF more] unfolding step by blast+
      have "unat (failed + 1) = unat failed + 1"
        using left by (simp add: unat_word_ariths)
      with Cons.IH [OF next_step sorted rest more] left show ?thesis
        by (simp add: tried take_Cons' numeral_eq_Suc)
    qed
  qed
qed simp

text \<open>
  Property C18. A confirmation code cannot be guessed by trying: once a device (or session) has
  been added tentatively with a code, then, whatever is called afterwards for this and other
  anchors, it is confirmed only if the code is among the first three codes tried for the
  anchor, until its owner enters registration mode anew.
\<close>

theorem three_guesses:
  assumes "phase t s n = Some (DeviceTentativelyAdded d c 0) \<or> phase t s n = Some (SessionTentativelyAdded p c 0)"
    and "sorted (t # map fst es)"
    and "\<forall>(now, st, op) \<in> set es. unat now + unat REGISTRATION_MODE_DURATION < 2 ^ 64 \<and> (\<forall>i. op \<noteq> EnterMode n i)"
    and "ConfirmOp n u \<in> set (snd (run_history sa es s))"
  shows "c \<in> set (take 3 (codes_tried n es))"
proof -
  have "pending_code (phase t s n) = Some (c, 0)" using assms(1) by auto
  moreover have "attempts_left 0" by (simp add: attempts_left_def MAX_DEVICE_REGISTRATION_ATTEMPTS_def)
  ultimately show ?thesis using guesses_left [OF _ _ assms(2-4)] by fastforce
qed

definition sample_pending :: tentative_state where
  "sample_pending =
     \<lparr>td_registrations = om_insert 10000
        \<lparr>tr_expiration = 900, tr_state = SessionTentativelyAdded [7] [1, 2] 0, tr_id = None\<rparr> om_empty,
      td_lookup = om_empty\<rparr>"

theorem three_guesses_witness:
  "[1, 2] \<in> set (take 3 (codes_tried 10000
      [(1, empty_storage, ConfirmOp 10000 [9]), (2, empty_storage, ConfirmOp 10000 [1, 2])]))"
proof (rule three_guesses)
  let ?es = "[(1, empty_storage, ConfirmOp 10000 [9]), (2, empty_storage, ConfirmOp 10000 [1, 2])]"
  show "phase 0 sample_pending 10000 = Some (DeviceTentativelyAdded d [1, 2] 0)
      \<or> phase 0 sample_pending 10000 = Some (SessionTentativelyAdded [7] [1, 2] 0)"
    by (simp add: phase_def sample_pending_def)
  show "ConfirmOp 10000 [1, 2] \<in> set (snd (run_history (\<lambda>k. k) ?es sample_pending))"
    by (simp add: tentative_defs sample_pending_def MAX_DEVICE_REGISTRATION_ATTEMPTS_def word_le_nat_alt)
  show "\<forall>(now, st, op) \<in> set ?es.
      unat now + unat REGISTRATION_MODE_DURATION < 2 ^ 64 \<and> (\<forall>i. op \<noteq> EnterMode 10000 i)"
    by (simp add: REGISTRATION_MODE_DURATION_def secs_to_nanos_def)
qed simp

section \<open>Registration ids\<close>

text \<open>
  An id leads to an anchor whose registration carries it, and the number of registrations is
  bounded.
\<close>

definition ids_ok :: "tentative_state \<Rightarrow> bool" where
  "ids_ok s \<longleftrightarrow>
     (\<forall>i n. om_get (td_lookup s) i = Some n \<longrightarrow>
        (\<exists>r. om_get (td_registrations s) n = Some r \<and> tr_id r = Some i))
     \<and> om_len (td_registrations s) \<le> MAX_ANCHORS_IN_REGISTRATION_MODE"

lemma in_expired_ids:
  "om_get (td_registrations s) n = Some r \<Longrightarrow> now \<ge> tr_expiration r \<Longrightarrow> tr_id r = Some i
     \<Longrightarrow> i \<in> set (expired_registration_ids now s)"
  by (force simp: expired_registration_ids_def List.map_filter_def om_get_entries dest: map_of_SomeD)

lemma ids_okE:
  assumes "ids_ok s" and "om_get (td_lookup s) i = Some n"
  obtains r where "om_get (td_registrations s) n = Some r" and "tr_id r = Some i"
  using assms unfolding ids_ok_def by blast

lemma ids_okI:
  assumes "\<And>i n. om_get (td_lookup s) i = Some n
      \<Longrightarrow> \<exists>r. om_get (td_registrations s) n = Some r \<and> tr_id r = Some i"
    and "om_len (td_registrations s) \<le> MAX_ANCHORS_IN_REGISTRATION_MODE"
  shows "ids_ok s"
  using assms unfolding ids_ok_def by blast

lemma ids_ok_prune:
  assumes "ids_ok s"
  shows "ids_ok (prune_registrations now s)"
proof (rule ids_okI)
  fix i n
  assume "om_get (td_lookup (prune_registrations now s)) i = Some n"
  then have old: "om_get (td_lookup s) i = Some n" and kept: "i \<notin> set (expired_registration_ids now s)"
    by (auto simp: prune_registrations_def om_get_remove_all split: if_splits)
  from ids_okE [OF assms old] obtain r where r: "om_get (td_registrations s) n = Some r" "tr_id r = Some i" .
  with kept in_expired_ids have "now < tr_expiration r" by (meson not_le)
  with r show "\<exists>r. om_get (td_registrations (prune_registrations now s)) n = Some r \<and> tr_id r = Some i"
    by simp
next
  have "om_len (td_registrations (prune_registrations now s)) \<le> om_len (td_registrations s)"
    by (simp add: prune_registrations_def om_len_def om_entries_retain)
  then show "om_len (td_registrations (prune_registrations now s)) \<le> MAX_ANCHORS_IN_REGISTRATION_MODE"
    using assms by (simp add: ids_ok_def)
qed

lemma ids_ok_remove:
  assumes "ids_ok s"
  shows "ids_ok (remove_registration n s)"
proof (rule ids_okI)
  fix i m
  assume lookup: "om_get (td_lookup (remove_registration n s)) i = Some m"
  then have old: "om_get (td_lookup s) i = Some m"
    by (auto simp: remove_registration_def split: option.splits if_splits)
  from ids_okE [OF assms old] obtain r where r: "om_get (td_registrations s) m = Some r" "tr_id r = Some i" .
  with lookup have "m \<noteq> n" by (auto simp: remove_registration_def)
  with r show "\<exists>r. om_get (td_registrations (remove_registration n s)) m = Some r \<and> tr_id r = Some i"
    by (simp add: remove_registration_def)
next
  show "om_len (td_registrations (remove_registration n s)) \<le> MAX_ANCHORS_IN_REGISTRATION_MODE"
    using assms by (auto simp: ids_ok_def remove_registration_def om.len_remove)
qed

lemma ids_ok_set_state:
  assumes "ids_ok s" and "om_get (td_registrations s) n = Some r"
  shows "ids_ok (set_registration_state n st r s)"
proof (rule ids_okI)
  fix i m
  assume "om_get (td_lookup (set_registration_state n st r s)) i = Some m"
  then have "om_get (td_lookup s) i = Some m" by (simp add: set_registration_state_def)
  from ids_okE [OF assms(1) this] obtain r' where "om_get (td_registrations s) m = Some r'" "tr_id r' = Some i" .
  with assms(2) show "\<exists>r'. om_get (td_registrations (set_registration_state n st r s)) m = Some r' \<and> tr_id r' = Some i"
    by (cases "m = n") (simp_all add: set_registration_state_def)
next
  show "om_len (td_registrations (set_registration_state n st r s)) \<le> MAX_ANCHORS_IN_REGISTRATION_MODE"
    using assms by (simp add: ids_ok_def set_registration_state_def om.len_insert)
qed

lemma ids_ok_enter:
  assumes "ids_ok s"
  shows "ids_ok (fst (enter_device_registration_mode now n reg_id s))"
proof -
  let ?p = "prune_registrations now s"
  have p: "ids_ok ?p" by (rule ids_ok_prune [OF assms])
  show ?thesis
  proof (cases "om_len (td_registrations ?p) < MAX_ANCHORS_IN_REGISTRATION_MODE \<and> om_get (td_registrations ?p) n = None")
    case False
    then show ?thesis
      using p by (auto simp: enter_device_registration_mode_def Let_def split: option.splits)
  next
    case True
    let ?r = "\<lparr>tr_expiration = now + REGISTRATION_MODE_DURATION, tr_state = DeviceRegistrationModeActive, tr_id = reg_id\<rparr>"
    let ?t = "\<lparr>td_registrations = om_insert n ?r (td_registrations ?p),
               td_lookup = (case reg_id of None \<Rightarrow> td_lookup ?p | Some i \<Rightarrow> om_insert i n (td_lookup ?p))\<rparr>"
    have "fst (enter_device_registration_mode now n reg_id s) = ?t"
      using True by (simp add: enter_device_registration_mode_def Let_def del: prune_registrations_get)
    moreover have "ids_ok ?t"
    proof (rule ids_okI)
      fix i m
      assume lookup: "om_get (td_lookup ?t) i = Some m"
      show "\<exists>r. om_get (td_registrations ?t) m = Some r \<and> tr_id r = Some i"
      proof (cases "m = n \<and> reg_id = Some i")
        case False
        with lookup have "om_get (td_lookup ?p) i = Some m" by (auto split: option.splits if_splits)
        from ids_okE [OF p this] obtain r where r: "om_get (td_registrations ?p) m = Some r" "tr_id r = Some i" .
        with True have "m \<noteq> n" by (metis option.distinct(1))
        with r show ?thesis by (simp del: prune_registrations_get)
      qed simp
    next
      show "om_len (td_registrations ?t) \<le> MAX_ANCHORS_IN_REGISTRATION_MODE"
        using True by (simp add: om.len_insert del: prune_registrations_get)
    qed
    ultimately show ?thesis by simp
  qed
qed

lemma ids_ok_run:
  assumes "ids_ok s"
  shows "ids_ok (fst (run_tentative sa st now op s))"
proof -
  note p = ids_ok_prune [OF assms, of now]
  note set_state = ids_ok_set_state [OF p]
  have failed: "ids_ok (fst (failed_confirmation n f k r (prune_registrations now s)))"
    if "om_get (td_registrations (prune_registrations now s)) n = Some r" for n f k r
    using set_state [OF that] ids_ok_remove [OF set_state [OF that]]
    by (simp add: failed_confirmation_def Let_def)
  show ?thesis
  proof (cases op)
    case (EnterMode n i)
    then show ?thesis using ids_ok_enter [OF assms] by simp
  next
    case (ExitMode n)
    then show ?thesis using ids_ok_remove [OF p] by (simp add: exit_device_registration_mode_def)
  next
    case (ConfirmOp n u)
    have "ids_ok (fst (confirm_tentative_device_or_session now n u s))"
      using p set_state failed ids_ok_remove [OF p]
      by (auto simp: confirm_tentative_device_or_session_def Let_def simp del: prune_registrations_get
          split: option.splits registration_state.splits)
    then show ?thesis by (auto simp: ConfirmOp split: prod.splits sum.splits)
  qed (use p set_state in \<open>auto simp: add_tentative_device_def add_tentative_session_def get_confirmed_session_def
      get_tentative_registration_def Let_def simp del: prune_registrations_get split: option.splits\<close>)
qed

lemma ids_ok_history: "ids_ok s \<Longrightarrow> ids_ok (fst (run_history sa es s))"
proof (induction es arbitrary: s)
  case (Cons e es)
  obtain now st op where e: "e = (now, st, op)" by (cases e)
  have "ids_ok (fst (run_tentative sa st now op s))" by (rule ids_ok_run [OF Cons.prems])
  from Cons.IH [OF this] show ?case by (simp add: e case_prod_beta)
qed simp

text \<open>
  Property C30. A registration id never leads to an identity that did not choose it. After any
  history, the identity found for an id is in registration mode, not expired, and entered it
  with exactly this id; and never more than 10000 identities are in registration mode.
\<close>

theorem registration_id_lookup_sound:
  assumes "s = fst (run_history sa es no_registrations)"
  shows "om_len (td_registrations s) \<le> MAX_ANCHORS_IN_REGISTRATION_MODE
    \<and> (get_identity_number_by_registration_id now i s = Some n \<longrightarrow>
         phase now s n \<noteq> None \<and> (\<exists>r. om_get (td_registrations s) n = Some r \<and> tr_id r = Some i))"
proof -
  have "ids_ok no_registrations" by (simp add: ids_ok_def no_registrations_def)
  then have ok: "ids_ok s" unfolding assms by (rule ids_ok_history)
  have "phase now s n \<noteq> None \<and> (\<exists>r. om_get (td_registrations s) n = Some r \<and> tr_id r = Some i)"
    if "get_identity_number_by_registration_id now i s = Some n"
  proof -
    from that have "om_get (td_lookup s) i = Some n" and "phase now s n \<noteq> None"
      by (auto simp: get_identity_number_by_registration_id_def phase_def split: option.splits if_splits)
    with ids_okE [OF ok] show ?thesis by metis
  qed
  with ok show ?thesis by (auto simp: ids_ok_def)
qed

theorem registration_id_lookup_sound_witness:
  "let s = fst (run_history (\<lambda>k. k) [(0, empty_storage, EnterMode 10000 (Some ''abc12''))] no_registrations) in
     om_len (td_registrations s) \<le> 10000"
  using registration_id_lookup_sound [OF refl, of "\<lambda>k. k" "[(0, empty_storage, EnterMode 10000 (Some ''abc12''))]"]
  by (simp add: Let_def MAX_ANCHORS_IN_REGISTRATION_MODE_def)

text \<open>
  The converse does not hold: nothing keeps a second identity from entering registration mode with
  an id that is in use. The id then leads to the second identity, and once that one leaves
  again, to nobody, although the first is still in registration mode under it.
\<close>

lemma registration_id_taken_over:
  "let s1 = fst (enter_device_registration_mode 0 1 (Some ''abc12'') no_registrations);
       s2 = fst (enter_device_registration_mode 1 2 (Some ''abc12'') s1);
       s3 = exit_device_registration_mode 2 2 s2 in
     get_identity_number_by_registration_id 1 ''abc12'' s1 = Some 1
     \<and> get_identity_number_by_registration_id 1 ''abc12'' s2 = Some 2
     \<and> get_identity_number_by_registration_id 2 ''abc12'' s3 = None
     \<and> phase 2 s3 1 = Some DeviceRegistrationModeActive"
  by (simp add: enter_device_registration_mode_def exit_device_registration_mode_def remove_registration_def
      no_registrations_def get_identity_number_by_registration_id_def phase_def Let_def
      prune_registrations_def om_get_retain om_get_remove_all expired_registration_ids_def List.map_filter_def
      MAX_ANCHORS_IN_REGISTRATION_MODE_def REGISTRATION_MODE_DURATION_def secs_to_nanos_def om_eval
      om_empty.rep_eq word_le_nat_alt)

end
