(* ===== verification/Activity_Stats.thy ===== *)
theory Activity_Stats
  imports Anchor
begin

text \<open>
  \<open>stats/activity_stats.rs\<close>, its maintenance and its three counters: daily and 30-day activity in
  sliding windows. The trait \<open>ActivityCounter\<close> is passed to the generic operations as its functions
  \<open>new\<close>, \<open>start_timestamp\<close> and \<open>count_event\<close>; what implementations must satisfy is the locale
  \<open>activity_counter\<close>, interpreted on all three. The invariant of the windows is proved in the
  locale once.
\<close>

section \<open>Windows\<close>

record 'c activity_stats =
  as_completed_daily :: "'c option"
  as_completed_monthly :: "'c option"
  as_ongoing_daily :: 'c
  as_ongoing_monthly :: "'c list"

definition new_activity_stats :: "(timestamp \<Rightarrow> 'c) \<Rightarrow> timestamp \<Rightarrow> 'c activity_stats" where
  "new_activity_stats new t =
     \<lparr>as_completed_daily = None, as_completed_monthly = None,
      as_ongoing_daily = new t, as_ongoing_monthly = [new t]\<rparr>"

definition process_daily_stats ::
  "(timestamp \<Rightarrow> 'c) \<Rightarrow> ('c \<Rightarrow> timestamp) \<Rightarrow> timestamp \<Rightarrow> 'c activity_stats \<Rightarrow> 'c activity_stats" where
  "process_daily_stats new start now stats =
     (let ongoing = as_ongoing_daily stats in
      if start ongoing + 1 * DAY_NS \<le> now
      then
        (let offset = (now - start ongoing) mod DAY_NS;
             new_start_timestamp = now - offset in
         stats\<lparr>as_completed_daily :=
                 Some (if start ongoing + 2 * DAY_NS \<le> now then new (new_start_timestamp - 1 * DAY_NS) else ongoing),
               as_ongoing_daily := new new_start_timestamp\<rparr>)
      else stats)"

text \<open>The loop that moves completed 30-day windows out of the list.\<close>

fun remove_completed_windows ::
  "('c \<Rightarrow> timestamp) \<Rightarrow> timestamp \<Rightarrow> 'c option \<Rightarrow> 'c list \<Rightarrow> 'c option \<times> 'c list" where
  "remove_completed_windows start now completed [] = (completed, [])"
| "remove_completed_windows start now completed (w # ws) =
     (if start w + 30 * DAY_NS \<le> now then remove_completed_windows start now (Some w) ws
      else (completed, w # ws))"

definition process_monthly_stats ::
  "(timestamp \<Rightarrow> 'c) \<Rightarrow> ('c \<Rightarrow> timestamp) \<Rightarrow> timestamp \<Rightarrow> 'c activity_stats \<Rightarrow> 'c activity_stats" where
  "process_monthly_stats new start now stats =
     (case remove_completed_windows start now (as_completed_monthly stats) (as_ongoing_monthly stats) of
        (completed, windows) \<Rightarrow>
          (let completed' =
                 (case completed of
                    None \<Rightarrow> None
                  | Some w \<Rightarrow>
                      if start w + 31 * DAY_NS \<le> now
                      then Some (new (now - 30 * DAY_NS - (now - start w) mod DAY_NS))
                      else Some w);
               start_timestamp = start (as_ongoing_daily stats);
               windows' =
                 (if windows = [] then [new start_timestamp]
                  else if start (last windows) + 1 * DAY_NS \<le> now then windows @ [new start_timestamp]
                  else windows)
           in stats\<lparr>as_completed_monthly := completed', as_ongoing_monthly := windows'\<rparr>))"

definition process_stats ::
  "(timestamp \<Rightarrow> 'c) \<Rightarrow> ('c \<Rightarrow> timestamp) \<Rightarrow> timestamp \<Rightarrow> 'c activity_stats \<Rightarrow> 'c activity_stats" where
  "process_stats new start now stats =
     process_monthly_stats new start now (process_daily_stats new start now stats)"

definition update_activity_counters ::
  "(timestamp \<Rightarrow> 'c) \<Rightarrow> ('c \<Rightarrow> timestamp) \<Rightarrow> ('x \<Rightarrow> 'c \<Rightarrow> 'c) \<Rightarrow> timestamp \<Rightarrow> 'x
     \<Rightarrow> 'c activity_stats \<Rightarrow> 'c activity_stats" where
  "update_activity_counters new start count_event now context stats =
     (let stats = process_stats new start now stats in
      stats\<lparr>as_ongoing_daily := count_event context (as_ongoing_daily stats),
            as_ongoing_monthly := map (count_event context) (as_ongoing_monthly stats)\<rparr>)"

section \<open>The three counters\<close>

record active_anchor_counter =
  aac_start_timestamp :: timestamp
  aac_counter :: u64

definition new_active_anchor_counter :: "timestamp \<Rightarrow> active_anchor_counter" where
  "new_active_anchor_counter t = \<lparr>aac_start_timestamp = t, aac_counter = 0\<rparr>"

definition count_active_anchor :: "timestamp option \<Rightarrow> active_anchor_counter \<Rightarrow> active_anchor_counter" where
  "count_active_anchor previous_activity_timestamp c =
     (case previous_activity_timestamp of
        Some t \<Rightarrow> if aac_start_timestamp c > t then c\<lparr>aac_counter := aac_counter c + 1\<rparr> else c
      | None \<Rightarrow> c\<lparr>aac_counter := aac_counter c + 1\<rparr>)"

record domain_active_anchor_counter =
  dac_start_timestamp :: timestamp
  dac_ic0_app_counter :: u64
  dac_internetcomputer_org_counter :: u64
  dac_id_ai_counter :: "u64 option"
  dac_both_ii_domains_counter :: u64

definition new_domain_active_anchor_counter :: "timestamp \<Rightarrow> domain_active_anchor_counter" where
  "new_domain_active_anchor_counter t =
     \<lparr>dac_start_timestamp = t, dac_ic0_app_counter = 0, dac_internetcomputer_org_counter = 0,
      dac_id_ai_counter = Some 0, dac_both_ii_domains_counter = 0\<rparr>"

fun increment_counter_for_domain ::
  "ii_domain \<Rightarrow> domain_active_anchor_counter \<Rightarrow> domain_active_anchor_counter" where
  "increment_counter_for_domain Ic0App c = c\<lparr>dac_ic0_app_counter := dac_ic0_app_counter c + 1\<rparr>"
| "increment_counter_for_domain InternetComputerOrg c =
     c\<lparr>dac_internetcomputer_org_counter := dac_internetcomputer_org_counter c + 1\<rparr>"
| "increment_counter_for_domain IdAi c =
     c\<lparr>dac_id_ai_counter := Some ((case dac_id_ai_counter c of None \<Rightarrow> 0 | Some n \<Rightarrow> n) + 1)\<rparr>"

fun decrement_counter_for_domain ::
  "ii_domain \<Rightarrow> domain_active_anchor_counter \<Rightarrow> domain_active_anchor_counter" where
  "decrement_counter_for_domain Ic0App c = c\<lparr>dac_ic0_app_counter := dac_ic0_app_counter c - 1\<rparr>"
| "decrement_counter_for_domain InternetComputerOrg c =
     c\<lparr>dac_internetcomputer_org_counter := dac_internetcomputer_org_counter c - 1\<rparr>"
| "decrement_counter_for_domain IdAi c =
     (case dac_id_ai_counter c of
        None \<Rightarrow> c
      | Some n \<Rightarrow> c\<lparr>dac_id_ai_counter := Some (saturating_sub64 n 1)\<rparr>)"

text \<open>The context is the anchor before the activity and the domain of the activity.\<close>

definition switch_to_both ::
  "ii_domain \<Rightarrow> domain_activity \<Rightarrow> ii_domain \<Rightarrow> domain_active_anchor_counter \<Rightarrow> domain_active_anchor_counter" where
  "switch_to_both current previous single c =
     (if \<not> is_same_domain current previous
      then (decrement_counter_for_domain single c)
             \<lparr>dac_both_ii_domains_counter := dac_both_ii_domains_counter (decrement_counter_for_domain single c) + 1\<rparr>
      else c)"

definition count_domain_active_anchor ::
  "anchor \<times> ii_domain \<Rightarrow> domain_active_anchor_counter \<Rightarrow> domain_active_anchor_counter" where
  "count_domain_active_anchor context c =
     (case context of (anchor, current_domain) \<Rightarrow>
       (let previous = domain_activity_since anchor (dac_start_timestamp c) in
        case previous of
          NoActivity \<Rightarrow> increment_counter_for_domain current_domain c
        | NonIIDomain \<Rightarrow> increment_counter_for_domain current_domain c
        | OnlyIc0App \<Rightarrow> switch_to_both current_domain previous Ic0App c
        | OnlyInternetComputerOrg \<Rightarrow> switch_to_both current_domain previous InternetComputerOrg c
        | OnlyIdAi \<Rightarrow> switch_to_both current_domain previous IdAi c
        | BothIIDomains \<Rightarrow> c))"

record authn_method_counter =
  amc_start_timestamp :: timestamp
  amc_webauthn_auth_counter :: u64
  amc_webauthn_recovery_counter :: u64
  amc_recovery_phrase_counter :: u64
  amc_browser_storage_key_counter :: u64
  amc_openid_credential_auth_counter :: "(string, u64) omap option"
  amc_other_counter :: u64

definition new_authn_method_counter :: "timestamp \<Rightarrow> authn_method_counter" where
  "new_authn_method_counter t =
     \<lparr>amc_start_timestamp = t, amc_webauthn_auth_counter = 0, amc_webauthn_recovery_counter = 0,
      amc_recovery_phrase_counter = 0, amc_browser_storage_key_counter = 0,
      amc_openid_credential_auth_counter = Some om_empty, amc_other_counter = 0\<rparr>"

text \<open>\<open>count_event\<close> first looks up when the key was used last, and then counts by the kind of key.\<close>

definition last_key_usage :: "anchor \<Rightarrow> authorization_key \<Rightarrow> timestamp option" where
  "last_key_usage anchor key =
     (case key of
        DeviceKey device_key \<Rightarrow>
          (case anchor_device anchor device_key of None \<Rightarrow> None | Some d \<Rightarrow> dev_last_usage d)
      | OpenIdCredentialKey k _ \<Rightarrow>
          (case anchor_openid_credential anchor k of None \<Rightarrow> None | Some c \<Rightarrow> oc_last_usage c))"

definition count_device_method :: "device \<Rightarrow> authn_method_counter \<Rightarrow> authn_method_counter" where
  "count_device_method d c =
     (if dev_key_type d = SeedPhrase
      then c\<lparr>amc_recovery_phrase_counter := amc_recovery_phrase_counter c + 1\<rparr>
      else if dev_key_type d = BrowserStorageKey
      then c\<lparr>amc_browser_storage_key_counter := amc_browser_storage_key_counter c + 1\<rparr>
      else if device_ii_domain d = None then c
      else if dev_credential_id d = None then c\<lparr>amc_other_counter := amc_other_counter c + 1\<rparr>
      else
        (case dev_purpose d of
           Authentication \<Rightarrow> c\<lparr>amc_webauthn_auth_counter := amc_webauthn_auth_counter c + 1\<rparr>
         | Recovery \<Rightarrow> c\<lparr>amc_webauthn_recovery_counter := amc_webauthn_recovery_counter c + 1\<rparr>))"

definition count_authn_method ::
  "anchor \<times> authorization_key \<Rightarrow> authn_method_counter \<Rightarrow> authn_method_counter" where
  "count_authn_method context c =
     (case context of (anchor, key) \<Rightarrow>
        if (case last_key_usage anchor key of None \<Rightarrow> False | Some t \<Rightarrow> t \<ge> amc_start_timestamp c) then c
        else
          (case key of
             DeviceKey device_key \<Rightarrow>
               (case anchor_device anchor device_key of None \<Rightarrow> c | Some d \<Rightarrow> count_device_method d c)
           | OpenIdCredentialKey _ None \<Rightarrow> c
           | OpenIdCredentialKey _ (Some config_iss) \<Rightarrow>
               c\<lparr>amc_openid_credential_auth_counter :=
                   map_option
                     (\<lambda>m. om_insert config_iss (case om_get m config_iss of None \<Rightarrow> 1 | Some n \<Rightarrow> n + 1) m)
                     (amc_openid_credential_auth_counter c)\<rparr>))"

section \<open>The statistics of the persistent state\<close>

record anchor_activity =
  aa_active_anchor_stats :: "active_anchor_counter activity_stats"
  aa_domain_active_anchor_stats :: "domain_active_anchor_counter activity_stats"
  aa_active_authn_method_stats :: "authn_method_counter activity_stats"

definition update_activity_stats ::
  "timestamp \<Rightarrow> anchor \<Rightarrow> authorization_key \<Rightarrow> anchor_activity \<Rightarrow> anchor_activity" where
  "update_activity_stats now anchor key s =
     \<lparr>aa_active_anchor_stats =
        update_activity_counters new_active_anchor_counter aac_start_timestamp count_active_anchor now
          (last_activity anchor) (aa_active_anchor_stats s),
      aa_domain_active_anchor_stats =
        (case (case key of
                 DeviceKey k \<Rightarrow> Option.bind (anchor_device anchor k) device_ii_domain
               | OpenIdCredentialKey _ _ \<Rightarrow> None) of
           None \<Rightarrow> aa_domain_active_anchor_stats s
         | Some domain \<Rightarrow>
             update_activity_counters new_domain_active_anchor_counter dac_start_timestamp
               count_domain_active_anchor now (anchor, domain) (aa_domain_active_anchor_stats s)),
      aa_active_authn_method_stats =
        update_activity_counters new_authn_method_counter amc_start_timestamp count_authn_method now
          (anchor, key) (aa_active_authn_method_stats s)\<rparr>"

section \<open>The invariant of the windows\<close>

definition day :: nat where "day = 86400000000000"

lemma unat_day: "unat DAY_NS = day" by (simp add: day_def)

text \<open>
  At time \<open>n\<close> (nanoseconds as a natural number): the ongoing day contains \<open>n\<close> and the completed day ends
  where it starts; the ongoing months start at different days of the last thirty, the last
  one with the ongoing day, and the completed month ends where the ongoing day starts.
\<close>

definition windows_ok :: "('c \<Rightarrow> timestamp) \<Rightarrow> nat \<Rightarrow> 'c activity_stats \<Rightarrow> bool" where
  "windows_ok start n s \<longleftrightarrow>
     (let d = unat (start (as_ongoing_daily s)) in
      d \<le> n \<and> n < d + day
      \<and> (\<forall>c. as_completed_daily s = Some c \<longrightarrow> unat (start c) + day = d)
      \<and> as_ongoing_monthly s \<noteq> []
      \<and> sorted_wrt (<) (map (unat \<circ> start) (as_ongoing_monthly s))
      \<and> unat (start (last (as_ongoing_monthly s))) = d
      \<and> (\<forall>w \<in> set (as_ongoing_monthly s). \<exists>k < 30. unat (start w) + k * day = d)
      \<and> (\<forall>c. as_completed_monthly s = Some c \<longrightarrow> unat (start c) + 30 * day = d))"

text \<open>The next start of a day window, over the natural numbers.\<close>

lemma next_day:
  fixes d n :: nat
  assumes "d \<le> n"
  shows "n - (n - d) mod day \<le> n" and "n < n - (n - d) mod day + day"
    and "n - (n - d) mod day = d + (n - d) div day * day"
proof -
  have split: "n - d = (n - d) div day * day + (n - d) mod day" by simp
  have small: "(n - d) mod day < day" by (simp add: day_def)
  show "n - (n - d) mod day \<le> n" by simp
  show eq: "n - (n - d) mod day = d + (n - d) div day * day" using split assms by linarith
  show "n < n - (n - d) mod day + day" using small split assms unfolding eq by linarith
qed

text \<open>Days are added without overflow as long as \<open>n\<close> is 31 days away from the end of the range.\<close>

lemma unat_add_days:
  fixes x c :: u64
  assumes "unat x \<le> n" and "n + 31 * day < 2 ^ 64" and "unat c \<le> 31 * day"
  shows "unat (x + c) = unat x + unat c"
  using assms by (intro unat64_add) simp

locale activity_counter =
  fixes new :: "timestamp \<Rightarrow> 'c"
    and start :: "'c \<Rightarrow> timestamp"
    and count_event :: "'x \<Rightarrow> 'c \<Rightarrow> 'c"
  assumes start_new: "start (new t) = t"
    and start_count: "start (count_event x c) = start c"
begin

lemma windows_ok_new:
  "windows_ok start (unat t) (new_activity_stats new t)"
  by (simp add: windows_ok_def new_activity_stats_def start_new day_def)

text \<open>The day changes by a whole number of days, none exactly if the ongoing day is not over.\<close>

lemma daily_step:
  assumes le: "unat (start (as_ongoing_daily s)) \<le> unat now" and room: "unat now + 31 * day < 2 ^ 64"
  defines "t \<equiv> process_daily_stats new start now s"
  obtains j where "unat (start (as_ongoing_daily t)) = unat (start (as_ongoing_daily s)) + j * day"
    and "unat (start (as_ongoing_daily t)) \<le> unat now" and "unat now < unat (start (as_ongoing_daily t)) + day"
    and "j = 0 \<longrightarrow> t = s"
    and "j \<noteq> 0 \<longrightarrow> (\<exists>c. as_completed_daily t = Some c \<and> unat (start c) + day = unat (start (as_ongoing_daily t)))"
    and "as_completed_monthly t = as_completed_monthly s" and "as_ongoing_monthly t = as_ongoing_monthly s"
proof -
  let ?st = "start (as_ongoing_daily s)"
  define d n where "d = unat ?st" and "n = unat now"
  have le': "d \<le> n" using le by (simp add: d_def n_def)
  have day1: "?st + 1 * DAY_NS \<le> now \<longleftrightarrow> d + day \<le> n"
    using unat_add_days [OF le room, of DAY_NS] by (simp add: word_le_nat_alt d_def n_def day_def)
  have day2: "?st + 2 * DAY_NS \<le> now \<longleftrightarrow> d + 2 * day \<le> n"
    using unat_add_days [OF le room, of "2 * DAY_NS"] by (simp add: word_le_nat_alt d_def n_def day_def)
  have "unat ((now - ?st) mod DAY_NS) = (n - d) mod day"
    using le by (simp add: unat_mod unat64_sub word_le_nat_alt unat_day d_def n_def del: DAY_NS_value)
  then have new_start: "unat (now - (now - ?st) mod DAY_NS) = n - (n - d) mod day"
    by (subst unat64_sub) (use le' in \<open>auto simp: word_le_nat_alt n_def intro: le_trans [OF mod_less_eq_dividend]\<close>)
  note nd = next_day [OF le']
  show ?thesis
  proof (cases "d + day \<le> n")
    case False
    then have "t = s" using day1 by (simp add: t_def process_daily_stats_def Let_def)
    with False le' show ?thesis by (intro that [of 0]) (simp_all add: d_def n_def)
  next
    case True
    have j: "(n - d) div day \<noteq> 0" using True by (simp add: div_eq_0_iff day_def)
    have big: "day \<le> (n - d) div day * day" using j by (cases "(n - d) div day") simp_all
    then have big2: "day \<le> d + (n - d) div day * day" by linarith
    note bk = le_add_diff_inverse2 [OF big2]
    have ongoing: "unat (start (as_ongoing_daily t)) = d + (n - d) div day * day"
      using True day1 new_start nd(3) by (simp add: t_def process_daily_stats_def Let_def start_new)
    have "\<exists>c. as_completed_daily t = Some c \<and> unat (start c) + day = d + (n - d) div day * day"
    proof (cases "d + 2 * day \<le> n")
      case False
      then have "(n - d) div day = 1" using True by (simp add: div_nat_eqI day_def)
      with False True day1 day2 show ?thesis
        by (simp add: t_def process_daily_stats_def Let_def d_def)
    next
      case two: True
      have "unat (now - (now - ?st) mod DAY_NS - DAY_NS) = n - (n - d) mod day - day"
        using nd(3) big2 new_start by (subst unat64_sub) (auto simp: word_le_nat_alt unat_day simp del: DAY_NS_value)
      with two True day1 day2 nd(3) bk show ?thesis
        by (simp add: t_def process_daily_stats_def Let_def start_new)
    qed
    with ongoing j nd True day1 show ?thesis
      by (intro that [of "(n - d) div day"])
        (simp_all add: d_def n_def t_def process_daily_stats_def Let_def)
  qed
qed

text \<open>The loop drops a prefix, and the last dropped window becomes the completed one.\<close>

lemma remove_completed_windows_split:
  assumes "\<forall>w \<in> set ws. unat (start w) \<le> unat now" and "unat now + 31 * day < 2 ^ 64"
  shows "\<exists>xs ys. ws = xs @ ys
    \<and> remove_completed_windows start now c ws = (if xs = [] then c else Some (last xs), ys)
    \<and> (\<forall>w \<in> set xs. unat (start w) + 30 * day \<le> unat now)
    \<and> (\<forall>w ws'. ys = w # ws' \<longrightarrow> unat now < unat (start w) + 30 * day)"
  using assms
proof (induction ws arbitrary: c)
  case (Cons w ws)
  have w: "start w + 30 * DAY_NS \<le> now \<longleftrightarrow> unat (start w) + 30 * day \<le> unat now"
    using unat_add_days [of "start w" "unat now" "30 * DAY_NS"] Cons.prems
    by (simp add: word_le_nat_alt day_def)
  show ?case
  proof (cases "unat (start w) + 30 * day \<le> unat now")
    case True
    from Cons obtain xs ys where "ws = xs @ ys"
      and "remove_completed_windows start now (Some w) ws = (if xs = [] then Some w else Some (last xs), ys)"
      and "\<forall>w \<in> set xs. unat (start w) + 30 * day \<le> unat now"
      and "\<forall>w ws'. ys = w # ws' \<longrightarrow> unat now < unat (start w) + 30 * day"
      by (metis list.set_intros(2))
    with True w show ?thesis by (intro exI [of _ "w # xs"] exI [of _ ys]) auto
  next
    case False
    with w show ?thesis by (intro exI [of _ "[]"] exI [of _ "w # ws"]) auto
  qed
qed simp

text \<open>The completed month: \<open>e\<close> is the start of the ongoing day, a whole number of days after its start.\<close>

lemma completed_month:
  assumes aligned: "unat (start c) + m * day = e" "30 \<le> m" and e: "e \<le> unat now" "unat now < e + day"
    and room: "unat now + 31 * day < 2 ^ 64"
  shows "unat (start (if start c + 31 * DAY_NS \<le> now then new (now - 30 * DAY_NS - (now - start c) mod DAY_NS) else c))
           + 30 * day = e"
proof -
  have le: "unat (start c) \<le> unat now" using aligned(1) e(1) by linarith
  have cond: "start c + 31 * DAY_NS \<le> now \<longleftrightarrow> unat (start c) + 31 * day \<le> unat now"
    using unat_add_days [OF le room, of "31 * DAY_NS"] by (simp add: word_le_nat_alt day_def)
  have big: "30 * day \<le> m * day" by (rule mult_le_mono1 [OF aligned(2)])
  have diff: "unat now - unat (start c) = m * day + (unat now - e)" using aligned(1) e(1) by linarith
  have small: "unat now - e < day" using e by linarith
  have "(unat now - unat (start c)) mod day = unat now - e"
    unfolding diff by (simp only: mod_mult_self3 mod_less [OF small])
  then have offset: "unat ((now - start c) mod DAY_NS) = unat now - e"
    using le by (simp add: unat_mod unat64_sub word_le_nat_alt unat_day del: DAY_NS_value)
  have thirty: "unat (30 * DAY_NS) = 30 * day" by (simp add: day_def)
  have old: "30 * day \<le> e" using aligned(1) big by linarith
  then have "30 * day \<le> unat now" using e(1) by linarith
  then have first: "unat (now - 30 * DAY_NS) = unat now - 30 * day"
    using thirty by (subst unat64_sub) (simp_all add: word_le_nat_alt del: DAY_NS_value)
  have "unat now - e \<le> unat now - 30 * day" using old by linarith
  then have second: "unat (now - 30 * DAY_NS - (now - start c) mod DAY_NS) + 30 * day = e"
    using old e(1) by (subst unat64_sub) (simp_all add: word_le_nat_alt first offset del: DAY_NS_value)
  show ?thesis
  proof (cases "unat (start c) + 31 * day \<le> unat now")
    case True
    with cond second show ?thesis by (simp add: start_new del: DAY_NS_value)
  next
    case False
    then have "m * day < 31 * day" using aligned(1) e(1) by linarith
    then have "m = 30" using aligned(2) by simp
    with False cond aligned(1) show ?thesis by (simp del: DAY_NS_value)
  qed
qed

lemma windows_ok_process:
  assumes ok: "windows_ok start n s" and le: "n \<le> unat now" and room: "unat now + 31 * day < 2 ^ 64"
  shows "windows_ok start (unat now) (process_stats new start now s)"
proof -
  define d where "d = unat (start (as_ongoing_daily s))"
  let ?t = "process_daily_stats new start now s"
  have s: "d \<le> n" "n < d + day" "\<forall>c. as_completed_daily s = Some c \<longrightarrow> unat (start c) + day = d"
    "as_ongoing_monthly s \<noteq> []" "sorted_wrt (<) (map (unat \<circ> start) (as_ongoing_monthly s))"
    "unat (start (last (as_ongoing_monthly s))) = d"
    "\<forall>w \<in> set (as_ongoing_monthly s). \<exists>k < 30. unat (start w) + k * day = d"
    "\<forall>c. as_completed_monthly s = Some c \<longrightarrow> unat (start c) + 30 * day = d"
    using ok by (simp_all add: windows_ok_def Let_def d_def)
  have d_now: "d \<le> unat now" using s(1) le by linarith
  obtain j where e: "unat (start (as_ongoing_daily ?t)) = d + j * day"
    and e_le: "unat (start (as_ongoing_daily ?t)) \<le> unat now"
    and e_gt: "unat now < unat (start (as_ongoing_daily ?t)) + day"
    and t0: "j = 0 \<longrightarrow> ?t = s"
    and t1: "j \<noteq> 0 \<longrightarrow> (\<exists>c. as_completed_daily ?t = Some c \<and> unat (start c) + day = unat (start (as_ongoing_daily ?t)))"
    and monthly: "as_completed_monthly ?t = as_completed_monthly s" "as_ongoing_monthly ?t = as_ongoing_monthly s"
    by (rule daily_step [of s now, folded d_def, OF d_now room])
  let ?e = "d + j * day" and ?ws = "as_ongoing_monthly s"
  note e_le = e_le [unfolded e] and e_gt = e_gt [unfolded e] and t1 = t1 [unfolded e]
  have old: "\<forall>w \<in> set ?ws. unat (start w) \<le> unat now" using s(7) d_now by fastforce
  obtain xs ys where ws: "?ws = xs @ ys"
    and split: "remove_completed_windows start now (as_completed_monthly s) ?ws
                  = (if xs = [] then as_completed_monthly s else Some (last xs), ys)"
    and gone: "\<forall>w \<in> set xs. unat (start w) + 30 * day \<le> unat now"
    and kept: "\<forall>w ws'. ys = w # ws' \<longrightarrow> unat now < unat (start w) + 30 * day"
    using remove_completed_windows_split [OF old room] by blast
  define completed where "completed = (if xs = [] then as_completed_monthly s else Some (last xs))"
  have completed: "\<exists>m. unat (start c) + m * day = ?e \<and> 30 \<le> m" if "completed = Some c" for c
  proof (cases "xs = []")
    case True
    with that s(8) have "unat (start c) + 30 * day = d" by (simp add: completed_def)
    then show ?thesis by (intro exI [of _ "30 + j"]) (simp add: add_mult_distrib)
  next
    case False
    with that have c: "c \<in> set xs" by (auto simp: completed_def)
    with s(7) ws obtain k where k: "unat (start c) + k * day = d" by auto
    have "unat (start c) + 30 * day \<le> unat now" using gone c by blast
    then have "30 * day < Suc (k + j) * day" using k e_gt by (simp add: add_mult_distrib)
    then have "30 \<le> k + j" by simp
    with k show ?thesis by (intro exI [of _ "k + j"]) (simp add: add_mult_distrib)
  qed
  define windows where "windows =
    (if ys = [] then [new (start (as_ongoing_daily ?t))]
     else if start (last ys) + 1 * DAY_NS \<le> now then ys @ [new (start (as_ongoing_daily ?t))] else ys)"
  have result: "process_stats new start now s = ?t\<lparr>as_completed_monthly :=
      (case completed of None \<Rightarrow> None | Some w \<Rightarrow>
         Some (if start w + 31 * DAY_NS \<le> now then new (now - 30 * DAY_NS - (now - start w) mod DAY_NS) else w)),
      as_ongoing_monthly := windows\<rparr>"
    by (auto simp: process_stats_def process_monthly_stats_def monthly split Let_def completed_def windows_def
        simp del: DAY_NS_value split: option.splits)
  have sorted_ys: "sorted_wrt (<) (map (unat \<circ> start) ys)" using s(5) ws by (simp add: sorted_wrt_append)
  have recent: "\<exists>k < 30. unat (start w) + k * day = ?e" if w: "w \<in> set ys" for w
  proof -
    obtain v vs where ys: "ys = v # vs" using w by (cases ys) auto
    have "unat (start v) \<le> unat (start w)" using w sorted_ys ys by (auto intro: less_imp_le)
    then have now: "unat now < unat (start w) + 30 * day" using kept ys by fastforce
    obtain k where k: "unat (start w) + k * day = d" using s(7) ws w by auto
    then have "(k + j) * day < 30 * day" using now e_le by (simp add: add_mult_distrib)
    then have "k + j < 30" by simp
    with k show ?thesis by (intro exI [of _ "k + j"]) (simp add: add_mult_distrib)
  qed
  have last_ys: "unat (start (last ys)) = d" if "ys \<noteq> []" using s(6) ws that by simp
  have windows: "windows \<noteq> [] \<and> sorted_wrt (<) (map (unat \<circ> start) windows) \<and> unat (start (last windows)) = ?e
      \<and> (\<forall>w \<in> set windows. \<exists>k < 30. unat (start w) + k * day = ?e)"
  proof (cases "ys = []")
    case True
    then show ?thesis by (auto simp: windows_def start_new e intro: exI [of _ 0])
  next
    case False
    have cond: "start (last ys) + 1 * DAY_NS \<le> now \<longleftrightarrow> d + day \<le> unat now"
      using unat_add_days [of "start (last ys)" "unat now" DAY_NS] last_ys [OF False] d_now room
      by (simp add: word_le_nat_alt day_def)
    show ?thesis
    proof (cases "d + day \<le> unat now")
      case True
      then have "j \<noteq> 0" using e_gt by (cases j) auto
      then have d_e: "d < ?e" by (simp add: day_def)
      have "\<forall>w \<in> set ys. unat (start w) < ?e"
      proof
        fix w
        assume "w \<in> set ys"
        with s(7) ws obtain k where "unat (start w) + k * day = d" by auto
        then show "unat (start w) < ?e" using d_e by linarith
      qed
      with d_e sorted_ys recent True cond False show ?thesis
        by (auto simp: windows_def start_new e sorted_wrt_append simp del: DAY_NS_value intro: exI [of _ 0])
    next
      case not_over: False
      then have "j * day < 1 * day" using e_le by linarith
      then have "j = 0" by simp
      with not_over cond False sorted_ys recent last_ys show ?thesis
        by (simp add: windows_def del: DAY_NS_value)
    qed
  qed
  have daily: "unat (start c) + day = ?e" if "as_completed_daily ?t = Some c" for c
    using that t0 t1 s(3) by (cases "j = 0") auto
  have month: "unat (start c) + 30 * day = ?e" if "as_completed_monthly (process_stats new start now s) = Some c" for c
  proof -
    from that obtain w where w: "completed = Some w"
      and c: "c = (if start w + 31 * DAY_NS \<le> now then new (now - 30 * DAY_NS - (now - start w) mod DAY_NS) else w)"
      unfolding result by (auto simp del: DAY_NS_value split: option.splits)
    obtain m where m: "unat (start w) + m * day = ?e" "30 \<le> m" using completed [OF w] by blast
    show ?thesis unfolding c by (rule completed_month [OF m e_le e_gt room])
  qed
  show ?thesis
    unfolding windows_ok_def Let_def using windows daily month e_le e_gt
    by (simp add: result e del: DAY_NS_value)
qed

lemma windows_ok_update:
  assumes "windows_ok start n s" and "n \<le> unat now" and "unat now + 31 * day < 2 ^ 64"
  shows "windows_ok start (unat now) (update_activity_counters new start count_event now x s)"
  using windows_ok_process [OF assms]
  by (simp add: windows_ok_def update_activity_counters_def Let_def start_count last_map comp_def)

end

interpretation active_anchors: activity_counter new_active_anchor_counter aac_start_timestamp count_active_anchor
  by unfold_locales
    (auto simp: new_active_anchor_counter_def count_active_anchor_def split: option.splits)

lemma domain_counter_start [simp]:
  "dac_start_timestamp (increment_counter_for_domain d c) = dac_start_timestamp c"
  "dac_start_timestamp (decrement_counter_for_domain d c) = dac_start_timestamp c"
  by (cases d; simp split: option.splits)+

interpretation domain_active_anchors:
  activity_counter new_domain_active_anchor_counter dac_start_timestamp count_domain_active_anchor
  by unfold_locales
    (auto simp: new_domain_active_anchor_counter_def count_domain_active_anchor_def switch_to_both_def Let_def
        split: domain_activity.splits option.splits)

lemma count_device_method_start [simp]:
  "amc_start_timestamp (count_device_method d c) = amc_start_timestamp c"
  by (simp add: count_device_method_def split: purpose.split)

lemma count_authn_method_start: "amc_start_timestamp (count_authn_method x c) = amc_start_timestamp c"
proof (cases x)
  case (Pair anchor key)
  show ?thesis
  proof (cases key)
    case (DeviceKey k)
    then show ?thesis by (simp add: Pair count_authn_method_def split: option.split)
  next
    case (OpenIdCredentialKey k iss)
    then show ?thesis by (cases iss) (simp_all add: Pair count_authn_method_def)
  qed
qed

interpretation authn_methods: activity_counter new_authn_method_counter amc_start_timestamp count_authn_method
  by unfold_locales (simp_all add: new_authn_method_counter_def count_authn_method_start)

lemma windows_at_most_30:
  assumes "windows_ok start n s"
  shows "length (as_ongoing_monthly s) \<le> 30"
proof -
  let ?f = "unat \<circ> start" and ?d = "unat (start (as_ongoing_daily s))"
  have ws: "sorted_wrt (<) (map ?f (as_ongoing_monthly s))"
    "\<forall>w \<in> set (as_ongoing_monthly s). \<exists>k < 30. ?f w + k * day = ?d"
    using assms by (simp_all add: windows_ok_def Let_def)
  have "set (map ?f (as_ongoing_monthly s)) \<subseteq> (\<lambda>k. ?d - k * day) ` {..<30}"
  proof
    fix x
    assume "x \<in> set (map ?f (as_ongoing_monthly s))"
    with ws(2) obtain k where "k < 30" "x + k * day = ?d" by auto
    then show "x \<in> (\<lambda>k. ?d - k * day) ` {..<30}" by (intro image_eqI [of _ _ k]) auto
  qed
  then have "card (set (map ?f (as_ongoing_monthly s))) \<le> card ((\<lambda>k. ?d - k * day) ` {..<30})"
    by (intro card_mono) simp_all
  also have "\<dots> \<le> 30" using card_image_le [of "{..<30}" "\<lambda>k. ?d - k * day"] by simp
  finally have "card (set (map ?f (as_ongoing_monthly s))) \<le> 30" .
  moreover have "distinct (map ?f (as_ongoing_monthly s))" using ws(1) strict_sorted_iff by blast
  ultimately show ?thesis by (metis distinct_card length_map)
qed

definition new_anchor_activity :: "timestamp \<Rightarrow> anchor_activity" where
  "new_anchor_activity t =
     \<lparr>aa_active_anchor_stats = new_activity_stats new_active_anchor_counter t,
      aa_domain_active_anchor_stats = new_activity_stats new_domain_active_anchor_counter t,
      aa_active_authn_method_stats = new_activity_stats new_authn_method_counter t\<rparr>"

definition activity_history ::
  "timestamp \<Rightarrow> (timestamp \<times> anchor \<times> authorization_key) list \<Rightarrow> anchor_activity" where
  "activity_history t es = fold (\<lambda>(now, a, k). update_activity_stats now a k) es (new_anchor_activity t)"

lemma activity_history_snoc:
  "activity_history t (es @ [(now, a, k)]) = update_activity_stats now a k (activity_history t es)"
  by (simp add: activity_history_def)

definition last_time :: "timestamp \<Rightarrow> (timestamp \<times> anchor \<times> authorization_key) list \<Rightarrow> nat" where
  "last_time t es = unat (last (t # map fst es))"

text \<open>
  Property C29. The activity statistics cover time without gaps and overlaps. After any sequence
  of activities at times that do not go back: the ongoing day contains the time of the last
  update, the completed day ends where the ongoing one starts, and the completed month ends there
  as well; at most thirty 30-day windows are open, they start on different days, all less
  than thirty days before the ongoing day, and the newest one with it.
\<close>

theorem activity_windows_aligned:
  assumes "sorted (t # map fst es)" and "\<forall>(now, _) \<in> set es. unat now + 31 * day < 2 ^ 64"
  shows "windows_ok aac_start_timestamp (last_time t es) (aa_active_anchor_stats (activity_history t es))
    \<and> windows_ok amc_start_timestamp (last_time t es) (aa_active_authn_method_stats (activity_history t es))
    \<and> (\<exists>n \<le> last_time t es. windows_ok dac_start_timestamp n (aa_domain_active_anchor_stats (activity_history t es)))
    \<and> length (as_ongoing_monthly (aa_active_anchor_stats (activity_history t es))) \<le> 30"
proof -
  have "windows_ok aac_start_timestamp (last_time t es) (aa_active_anchor_stats (activity_history t es))
    \<and> windows_ok amc_start_timestamp (last_time t es) (aa_active_authn_method_stats (activity_history t es))
    \<and> (\<exists>n \<le> last_time t es. windows_ok dac_start_timestamp n (aa_domain_active_anchor_stats (activity_history t es)))"
    using assms
  proof (induction es rule: rev_induct)
    case Nil
    then show ?case
      using active_anchors.windows_ok_new authn_methods.windows_ok_new domain_active_anchors.windows_ok_new
      by (auto simp: activity_history_def new_anchor_activity_def last_time_def)
  next
    case (snoc e es)
    obtain now a k where e: "e = (now, a, k)" by (cases e)
    have le: "last_time t es \<le> unat now" and room: "unat now + 31 * day < 2 ^ 64"
    proof -
      have "sorted ((t # map fst es) @ [now])" using snoc.prems(1) by (simp add: e)
      then have "\<forall>x \<in> set (t # map fst es). x \<le> now" unfolding sorted_append by auto
      then have "last (t # map fst es) \<le> now" by (rule bspec) (rule last_in_set, simp)
      then show "last_time t es \<le> unat now" by (simp add: last_time_def word_le_nat_alt)
      show "unat now + 31 * day < 2 ^ 64" using snoc.prems(2) by (simp add: e)
    qed
    have now: "last_time t (es @ [e]) = unat now" by (simp add: e last_time_def)
    obtain n where ok: "windows_ok aac_start_timestamp (last_time t es) (aa_active_anchor_stats (activity_history t es))"
      "windows_ok amc_start_timestamp (last_time t es) (aa_active_authn_method_stats (activity_history t es))"
      and n: "n \<le> last_time t es"
      and dom: "windows_ok dac_start_timestamp n (aa_domain_active_anchor_stats (activity_history t es))"
      using snoc by (auto simp: sorted_append)
    have n_now: "n \<le> unat now" using n le by linarith
    have "\<exists>n \<le> unat now. windows_ok dac_start_timestamp n
        (aa_domain_active_anchor_stats (update_activity_stats now a k (activity_history t es)))"
      using dom n_now domain_active_anchors.windows_ok_update [OF dom n_now room]
      by (auto simp: update_activity_stats_def split: option.splits)
    with active_anchors.windows_ok_update [OF ok(1) le room] authn_methods.windows_ok_update [OF ok(2) le room]
    show ?case unfolding now by (simp add: e activity_history_snoc) (simp add: update_activity_stats_def)
  qed
  with windows_at_most_30 show ?thesis by blast
qed

theorem activity_windows_aligned_witness:
  "windows_ok aac_start_timestamp 100000000000000 (aa_active_anchor_stats
     (activity_history 0 [(100000000000000, anchor_new 10000 0, DeviceKey [1])]))"
  using activity_windows_aligned [of 0 "[(100000000000000, anchor_new 10000 0, DeviceKey [1])]"]
  by (simp add: last_time_def day_def)

section \<open>Active anchors are counted once\<close>

text \<open>A sequence of activities of anchors, each counted with the previous activity of its anchor.\<close>

fun count_activities ::
  "(anchor_number \<times> timestamp) list \<Rightarrow> (anchor_number \<Rightarrow> timestamp option) \<Rightarrow> active_anchor_counter
     \<Rightarrow> active_anchor_counter" where
  "count_activities [] previous c = c"
| "count_activities ((a, t) # es) previous c =
     count_activities es (previous(a \<mapsto> t)) (count_active_anchor (previous a) c)"

text \<open>The anchors of a sequence that have not been active since the start of the window.\<close>

definition inactive_since :: "timestamp \<Rightarrow> timestamp option \<Rightarrow> bool" where
  "inactive_since start p = (case p of None \<Rightarrow> True | Some t \<Rightarrow> t < start)"

definition newly_active ::
  "timestamp \<Rightarrow> (anchor_number \<Rightarrow> timestamp option) \<Rightarrow> (anchor_number \<times> timestamp) list \<Rightarrow> anchor_number set" where
  "newly_active start previous es = {a \<in> fst ` set es. inactive_since start (previous a)}"

lemma newly_active_update:
  "start \<le> t \<Longrightarrow> newly_active start (previous(a \<mapsto> t)) es = newly_active start previous es - {a}"
  by (auto simp: newly_active_def inactive_since_def not_less)

lemma newly_active_Cons:
  "newly_active start previous ((a, t) # es) =
     (if inactive_since start (previous a) then insert a (newly_active start previous es - {a})
      else newly_active start previous es - {a})"
  by (auto simp: newly_active_def)

lemma count_active_anchor_inactive:
  "aac_counter (count_active_anchor p c) =
     (if inactive_since (aac_start_timestamp c) p then aac_counter c + 1 else aac_counter c)"
  by (simp add: count_active_anchor_def inactive_since_def split: option.split)

lemma count_activities_card:
  assumes "\<forall>(a, t) \<in> set es. aac_start_timestamp c \<le> t"
  shows "aac_counter (count_activities es previous c) =
    aac_counter c + of_nat (card (newly_active (aac_start_timestamp c) previous es))"
  using assms
proof (induction es arbitrary: previous c)
  case Nil
  then show ?case by (simp add: newly_active_def)
next
  case (Cons e es)
  obtain a t where e: "e = (a, t)" by (cases e)
  let ?c = "count_active_anchor (previous a) c"
  have start: "aac_start_timestamp ?c = aac_start_timestamp c" by (rule active_anchors.start_count)
  have le: "aac_start_timestamp c \<le> t" using Cons.prems e by simp
  have prems: "\<forall>(a, t) \<in> set es. aac_start_timestamp ?c \<le> t" using Cons.prems start by simp
  have IH: "aac_counter (count_activities es (previous(a \<mapsto> t)) ?c) =
      aac_counter ?c + of_nat (card (newly_active (aac_start_timestamp c) previous es - {a}))"
    by (simp only: Cons.IH [OF prems] start newly_active_update [OF le])
  have finite: "finite (newly_active (aac_start_timestamp c) previous es)" by (simp add: newly_active_def)
  show ?case
    unfolding e count_activities.simps IH count_active_anchor_inactive newly_active_Cons
    by (cases "inactive_since (aac_start_timestamp c) (previous a)")
      (simp_all only: if_True if_False simp_thms of_nat_Suc add.assoc finite
         card_insert_disjoint [OF finite_Diff [OF finite]] Diff_iff singletonI)
qed

text \<open>
  The counter of a window counts anchors, not activities: after any sequence of
  activities inside the window it has grown by the number of distinct anchors among them that
  had not been active in the window before, however often each of them was active.
\<close>

theorem active_anchors_counted_once:
  assumes "\<forall>(a, t) \<in> set es. aac_start_timestamp c \<le> t"
    and "\<forall>a t. previous a = Some t \<longrightarrow> t < aac_start_timestamp c"
  shows "aac_counter (count_activities es previous c) = aac_counter c + of_nat (card (fst ` set es))"
proof -
  have "newly_active (aac_start_timestamp c) previous es = fst ` set es"
    using assms(2) by (auto simp: newly_active_def inactive_since_def split: option.split)
  with count_activities_card [OF assms(1), of previous] show ?thesis by simp
qed

theorem active_anchors_counted_once_witness:
  "aac_counter (count_activities [(10000, 5), (10001, 6), (10000, 7)] (\<lambda>_. None) (new_active_anchor_counter 3)) = 2"
  using active_anchors_counted_once [of "[(10000, 5), (10001, 6), (10000, 7)]" "new_active_anchor_counter 3" "\<lambda>_. None"]
  by (simp add: new_active_anchor_counter_def card_insert_if)

end
