(* ===== verification/Openid.thy ===== *)
theory Openid
  imports Delegation
begin

text \<open>
  \<open>openid.rs\<close> and \<open>openid/generic.rs\<close>: the registered OpenID providers, the verification of a
  JWT, the matching of stored credentials to providers and the key seeds of OpenID credentials.

  The crates that decode and check JWTs (\<open>identity_jose\<close>, \<open>serde_json\<close>, \<open>rsa\<close>, \<open>base64\<close>, \<open>sha2\<close>) are
  the fields of one record of functions, \<open>jose\<close>, that every definition takes as an argument; so are
  the URLs (\<open>url::Url\<close>) of the discovery. Reference-counted cells that a provider shares with
  its discovery task are kept in the task, and the provider holds the index of the task.
  Error texts are left out, time and caller are arguments.
\<close>

section \<open>External libraries\<close>

text \<open>
  \<open>'w\<close> is a decoded token, \<open>'k\<close> a JSON web key, \<open>'r\<close> an RSA public key. \<open>jl_values\<close> is the look-up of a
  string field in the claims as a JSON value.
\<close>

datatype aud_claim = SingleAud string | MultipleAud "string list"

datatype email_verified_claim = EmailVerifiedBool bool | EmailVerifiedString string

record claims =
  cl_iss :: string
  cl_sub :: string
  cl_aud :: aud_claim
  cl_nonce :: string
  cl_exp :: u64
  cl_iat :: u64
  cl_email :: "string option"
  cl_name :: "string option"
  cl_email_verified :: "email_verified_claim option"

record ('w, 'k, 'r) jose =
  jl_decode :: "string \<Rightarrow> 'w option"
  jl_claims :: "'w \<Rightarrow> claims option"
  jl_partial_claims :: "'w \<Rightarrow> (iss \<times> aud_claim) option"
  jl_values :: "'w \<Rightarrow> (string \<Rightarrow> string option) option"
  jl_kid :: "'w \<Rightarrow> string option"
  jl_is_rs256 :: "'w \<Rightarrow> bool"
  jl_signing_input :: "'w \<Rightarrow> bytes"
  jl_signature :: "'w \<Rightarrow> bytes"
  jl_verify :: "('w \<Rightarrow> 'k \<Rightarrow> bool) \<Rightarrow> 'w \<Rightarrow> 'k \<Rightarrow> bool"
  jl_key_kid :: "'k \<Rightarrow> string option"
  jl_rsa_params :: "'k \<Rightarrow> (string \<times> string) option"
  jl_rsa_key :: "bytes \<Rightarrow> bytes \<Rightarrow> 'r option"
  jl_rsa_verify :: "'r \<Rightarrow> bytes \<Rightarrow> bytes \<Rightarrow> bool"
  jl_base64_decode :: "string \<Rightarrow> bytes option"
  jl_base64_encode :: "bytes \<Rightarrow> string"
  jl_sha256 :: "bytes \<Rightarrow> bytes"

section \<open>Strings\<close>

text \<open>\<open>str::replace\<close> for a pattern that is not empty, and ASCII case.\<close>

fun str_replace :: "string \<Rightarrow> string \<Rightarrow> string \<Rightarrow> string" where
  "str_replace pat new [] = []"
| "str_replace pat new (c # cs) =
     (if pat \<noteq> [] \<and> take (length pat) (c # cs) = pat
      then new @ str_replace pat new (drop (length pat - 1) cs)
      else c # str_replace pat new cs)"

definition to_ascii_lowercase :: "string \<Rightarrow> string" where
  "to_ascii_lowercase s =
     map (\<lambda>c. if CHR ''A'' \<le> c \<and> c \<le> CHR ''Z'' then char_of (of_char c + 32 :: nat) else c) s"

definition eq_ignore_ascii_case :: "string \<Rightarrow> string \<Rightarrow> bool" where
  "eq_ignore_ascii_case s t \<longleftrightarrow> to_ascii_lowercase s = to_ascii_lowercase t"

section \<open>Issuer templates\<close>

text \<open>The text after the first \<open>c\<close>, if there is one (\<open>find\<close> and slicing).\<close>

definition split_at :: "char \<Rightarrow> string \<Rightarrow> (string \<times> string) option" where
  "split_at c s =
     (case dropWhile (\<lambda>d. d \<noteq> c) s of
        [] \<Rightarrow> None
      | _ # rest \<Rightarrow> Some (takeWhile (\<lambda>d. d \<noteq> c) s, rest))"

lemma split_at_length: "split_at c s = Some (u, rest) \<Longrightarrow> length rest < length s"
proof -
  assume "split_at c s = Some (u, rest)"
  then obtain d where "dropWhile (\<lambda>d. d \<noteq> c) s = d # rest"
    by (auto simp: split_at_def split: list.splits)
  moreover have "length (dropWhile (\<lambda>d. d \<noteq> c) s) \<le> length s" by (rule length_dropWhile_le)
  ultimately show "length rest < length s" by simp
qed

lemma split_at_append: "c \<notin> set u \<Longrightarrow> split_at c (u @ c # rest) = Some (u, rest)"
  by (subst split_at_def, subst dropWhile_append2) (auto simp: takeWhile_tail)

lemma split_at_none: "c \<notin> set s \<Longrightarrow> split_at c s = None"
proof -
  assume "c \<notin> set s"
  then have "dropWhile (\<lambda>d. d \<noteq> c) s = []" by (auto simp: dropWhile_eq_Nil_conv)
  then show ?thesis by (simp add: split_at_def del: dropWhile_eq_Nil_conv)
qed

text \<open>The loop of \<open>get_issuer_placeholders\<close>.\<close>

function placeholders_from :: "string \<Rightarrow> string list \<Rightarrow> string list" where
  "placeholders_from remaining keys =
     (case split_at CHR 0x7B remaining of
        None \<Rightarrow> keys
      | Some (_, rest) \<Rightarrow>
          (case split_at CHR 0x7D rest of
             None \<Rightarrow> []
           | Some (key, rest') \<Rightarrow> placeholders_from rest' (keys @ [key])))"
  by pat_completeness auto
termination
  by (relation "measure (\<lambda>(remaining, _). length remaining)") (auto dest!: split_at_length)

declare placeholders_from.simps [simp del]

definition get_issuer_placeholders :: "string \<Rightarrow> string list" where
  "get_issuer_placeholders template = placeholders_from template []"

fun collect_claims :: "(string \<Rightarrow> string option) \<Rightarrow> string list \<Rightarrow> (string \<times> string) list option" where
  "collect_claims values [] = Some []"
| "collect_claims values (key # keys) =
     (case values key of
        None \<Rightarrow> None
      | Some claim \<Rightarrow> map_option (\<lambda>r. (key, claim) # r) (collect_claims values keys))"

definition get_all_claims :: "(string \<Rightarrow> string option) option \<Rightarrow> string list \<Rightarrow> (string \<times> string) list" where
  "get_all_claims claims keys =
     (case claims of
        None \<Rightarrow> []
      | Some values \<Rightarrow> (case collect_claims values keys of None \<Rightarrow> [] | Some result \<Rightarrow> result))"

definition replace_issuer_placeholders :: "string \<Rightarrow> (string \<times> string) list \<Rightarrow> string" where
  "replace_issuer_placeholders template claims =
     fold (\<lambda>(key, value) result. str_replace (CHR 0x7B # key @ [CHR 0x7D]) value result) claims template"

section \<open>Providers\<close>

datatype email_verification_scheme = UnknownScheme | Google | Microsoft

text \<open>
  \<open>Provider\<close> (client id, issuer, certificates, scheme) and \<open>DiscoverableProvider\<close> (its task and
  its domain).
\<close>

datatype 'k openid_provider =
    Provider string string "'k list" "email_verification_scheme option"
  | DiscoverableProvider nat string

record 'k discovery_state =
  ds_discovery_domain :: string
  ds_client_id :: "string option"
  ds_openid_configuration :: "string option"
  ds_issuer :: "string option"
  ds_name :: "string option"
  ds_certs :: "'k list"
  ds_last_jwks_uri :: "string option"

record 'k openid_state =
  os_providers :: "'k openid_provider list"
  os_tasks :: "'k discovery_state list"
  os_oidc_configs :: "string list"
  os_persisted_oidc_configs :: "string list option"

fun provider_issuer :: "'k discovery_state list \<Rightarrow> 'k openid_provider \<Rightarrow> string option" where
  "provider_issuer tasks (Provider client_id issuer certs scheme) = Some issuer"
| "provider_issuer tasks (DiscoverableProvider i domain) = ds_issuer (tasks ! i)"

fun provider_client_id :: "'k discovery_state list \<Rightarrow> 'k openid_provider \<Rightarrow> string option" where
  "provider_client_id tasks (Provider client_id issuer certs scheme) = Some client_id"
| "provider_client_id tasks (DiscoverableProvider i domain) = ds_client_id (tasks ! i)"

fun provider_scheme :: "'k openid_provider \<Rightarrow> email_verification_scheme option" where
  "provider_scheme (Provider client_id issuer certs scheme) = scheme"
| "provider_scheme (DiscoverableProvider i domain) = None"

fun provider_discovery_domain :: "'k openid_provider \<Rightarrow> string option" where
  "provider_discovery_domain (Provider client_id issuer certs scheme) = None"
| "provider_discovery_domain (DiscoverableProvider i domain) = Some domain"

fun provider_certs :: "'k discovery_state list \<Rightarrow> 'k openid_provider \<Rightarrow> 'k list" where
  "provider_certs tasks (Provider client_id issuer certs scheme) = certs"
| "provider_certs tasks (DiscoverableProvider i domain) = ds_certs (tasks ! i)"

section \<open>Verification of a token\<close>

datatype openid_jwt_error = GenericError | JWTExpired

fun aud_matches :: "aud_claim \<Rightarrow> string \<Rightarrow> bool" where
  "aud_matches (SingleAud s) expected = (s = expected)"
| "aud_matches (MultipleAud v) expected = list_ex (\<lambda>s. s = expected) v"

fun aud_is_empty :: "aud_claim \<Rightarrow> bool" where
  "aud_is_empty (SingleAud s) = (s = [])"
| "aud_is_empty (MultipleAud v) = (v = [])"

fun email_verified_into_string :: "email_verified_claim \<Rightarrow> string" where
  "email_verified_into_string (EmailVerifiedBool b) = (if b then ''true'' else ''false'')"
| "email_verified_into_string (EmailVerifiedString s) = s"

definition create_rsa_public_key :: "('w, 'k, 'r) jose \<Rightarrow> 'k \<Rightarrow> 'r option" where
  "create_rsa_public_key lib jwk =
     (case jl_rsa_params lib jwk of
        None \<Rightarrow> None
      | Some (n, e) \<Rightarrow>
          (case jl_base64_decode lib n of
             None \<Rightarrow> None
           | Some n \<Rightarrow>
               (case jl_base64_decode lib e of
                  None \<Rightarrow> None
                | Some e \<Rightarrow> jl_rsa_key lib n e)))"

definition verify_signature :: "('w, 'k, 'r) jose \<Rightarrow> 'w \<Rightarrow> 'k \<Rightarrow> bool" where
  "verify_signature lib input jwk =
     (if \<not> jl_is_rs256 lib input then False
      else
        (case create_rsa_public_key lib jwk of
           None \<Rightarrow> False
         | Some public_key \<Rightarrow>
             jl_rsa_verify lib public_key (jl_sha256 lib (jl_signing_input lib input)) (jl_signature lib input)))"

definition MAX_VALIDITY_WINDOW_SECONDS :: u64 where "MAX_VALIDITY_WINDOW_SECONDS = 10 * 60"
definition MAX_EMAIL_LENGTH :: nat where "MAX_EMAIL_LENGTH = 256"
definition MAX_CLAIM_NAME_LENGTH :: nat where "MAX_CLAIM_NAME_LENGTH = 128"

definition expected_nonce :: "('w, 'k, 'r) jose \<Rightarrow> bytes \<Rightarrow> principal \<Rightarrow> string" where
  "expected_nonce lib salt caller = jl_base64_encode lib (jl_sha256 lib (salt @ caller))"

definition too_long :: "nat \<Rightarrow> string option \<Rightarrow> bool" where
  "too_long limit v = (case v of None \<Rightarrow> False | Some s \<Rightarrow> length s > limit)"

definition verify_claims ::
  "('w, 'k, 'r) jose \<Rightarrow> timestamp \<Rightarrow> principal \<Rightarrow> string \<Rightarrow> string \<Rightarrow> claims \<Rightarrow> bytes \<Rightarrow> openid_jwt_error + unit" where
  "verify_claims lib now caller issuer client_id claims salt =
     (if cl_iss claims \<noteq> issuer then Inl GenericError
      else if \<not> aud_matches (cl_aud claims) client_id then Inl GenericError
      else if cl_nonce claims \<noteq> expected_nonce lib salt caller then Inl GenericError
      else if now > secs_to_nanos (cl_exp claims) then Inl JWTExpired
      else if now > secs_to_nanos (cl_iat claims + MAX_VALIDITY_WINDOW_SECONDS) then Inl JWTExpired
      else if now < secs_to_nanos (cl_iat claims) then Inl GenericError
      else if too_long MAX_EMAIL_LENGTH (cl_email claims) then Inl GenericError
      else if too_long MAX_CLAIM_NAME_LENGTH (cl_name claims) then Inl GenericError
      else
        (case cl_email_verified claims of
           Some (EmailVerifiedString s) \<Rightarrow>
             if s \<noteq> ''true'' \<and> s \<noteq> ''false'' then Inl GenericError else Inr ()
         | _ \<Rightarrow> Inr ()))"

definition insert_claim :: "string \<Rightarrow> string option \<Rightarrow> metadata_v2 \<Rightarrow> metadata_v2" where
  "insert_claim key v metadata =
     (case v of None \<Rightarrow> metadata | Some s \<Rightarrow> ins_entry key (StringV2 s) metadata)"

definition claims_metadata :: "claims \<Rightarrow> metadata_v2" where
  "claims_metadata claims =
     insert_claim ''name'' (cl_name claims)
       (insert_claim ''email_verified'' (map_option email_verified_into_string (cl_email_verified claims))
         (insert_claim ''email'' (cl_email claims) []))"

text \<open>The check of the signature with the certificate the token names, which both providers do.\<close>

definition verify_with_certs :: "('w, 'k, 'r) jose \<Rightarrow> 'k list \<Rightarrow> 'w \<Rightarrow> bool" where
  "verify_with_certs lib certs item =
     (case jl_kid lib item of
        None \<Rightarrow> False
      | Some kid \<Rightarrow>
          (case find (\<lambda>cert. jl_key_kid lib cert = Some kid) certs of
             None \<Rightarrow> False
           | Some cert \<Rightarrow> jl_verify lib (verify_signature lib) item cert))"

fun provider_verify ::
  "('w, 'k, 'r) jose \<Rightarrow> 'k discovery_state list \<Rightarrow> timestamp \<Rightarrow> principal \<Rightarrow> 'k openid_provider
     \<Rightarrow> string \<Rightarrow> bytes \<Rightarrow> openid_jwt_error + openid_credential" where
  "provider_verify lib tasks now caller (Provider client_id issuer certs scheme) jwt salt =
     (case jl_decode lib jwt of
        None \<Rightarrow> Inl GenericError
      | Some item \<Rightarrow>
          (case jl_claims lib item of
             None \<Rightarrow> Inl GenericError
           | Some claims \<Rightarrow>
               (let issuer_claims = get_all_claims (jl_values lib item) (get_issuer_placeholders issuer);
                    effective_issuer = replace_issuer_placeholders issuer issuer_claims in
                (case verify_claims lib now caller effective_issuer client_id claims salt of
                   Inl e \<Rightarrow> Inl e
                 | Inr _ \<Rightarrow>
                     if \<not> verify_with_certs lib certs item then Inl GenericError
                     else Inr \<lparr>oc_iss = cl_iss claims, oc_sub = cl_sub claims, oc_aud = client_id,
                               oc_last_usage = None,
                               oc_metadata = fold (\<lambda>(key, value). ins_entry key (StringV2 value))
                                 issuer_claims (claims_metadata claims)\<rparr>))))"
| "provider_verify lib tasks now caller (DiscoverableProvider i domain) jwt salt =
     (case ds_issuer (tasks ! i) of
        None \<Rightarrow> Inl GenericError
      | Some issuer \<Rightarrow>
          (case ds_client_id (tasks ! i) of
             None \<Rightarrow> Inl GenericError
           | Some client_id \<Rightarrow>
               (case jl_decode lib jwt of
                  None \<Rightarrow> Inl GenericError
                | Some item \<Rightarrow>
                    (case jl_claims lib item of
                       None \<Rightarrow> Inl GenericError
                     | Some claims \<Rightarrow>
                         (case verify_claims lib now caller issuer client_id claims salt of
                            Inl e \<Rightarrow> Inl e
                          | Inr _ \<Rightarrow>
                              if \<not> verify_with_certs lib (ds_certs (tasks ! i)) item then Inl GenericError
                              else Inr \<lparr>oc_iss = cl_iss claims, oc_sub = cl_sub claims, oc_aud = client_id,
                                        oc_last_usage = None, oc_metadata = claims_metadata claims\<rparr>)))))"

text \<open>\<open>with_provider\<close> of the module: the provider whose issuer and audience match the token.\<close>

definition jwt_matches_provider ::
  "('w, 'k, 'r) jose \<Rightarrow> 'k discovery_state list \<Rightarrow> 'w \<Rightarrow> iss \<Rightarrow> aud_claim \<Rightarrow> 'k openid_provider \<Rightarrow> bool" where
  "jwt_matches_provider lib tasks item iss aud p =
     (case provider_issuer tasks p of
        None \<Rightarrow> False
      | Some template \<Rightarrow>
          (case provider_client_id tasks p of
             None \<Rightarrow> False
           | Some provider_aud \<Rightarrow>
               replace_issuer_placeholders template
                 (get_all_claims (jl_values lib item) (get_issuer_placeholders template)) = iss
               \<and> aud_matches aud provider_aud))"

definition with_provider ::
  "('w, 'k, 'r) jose \<Rightarrow> 'k openid_state \<Rightarrow> string \<Rightarrow> ('k openid_provider \<Rightarrow> openid_jwt_error + 'a)
     \<Rightarrow> openid_jwt_error + 'a" where
  "with_provider lib os jwt callback =
     (case jl_decode lib jwt of
        None \<Rightarrow> Inl GenericError
      | Some item \<Rightarrow>
          (case jl_partial_claims lib item of
             None \<Rightarrow> Inl GenericError
           | Some (iss, aud) \<Rightarrow>
               if aud_is_empty aud then Inl GenericError
               else
                 (case find (jwt_matches_provider lib (os_tasks os) item iss aud) (os_providers os) of
                    None \<Rightarrow> Inl GenericError
                  | Some p \<Rightarrow> callback p)))"

definition verify_jwt ::
  "('w, 'k, 'r) jose \<Rightarrow> 'k openid_state \<Rightarrow> timestamp \<Rightarrow> principal \<Rightarrow> string \<Rightarrow> bytes
     \<Rightarrow> openid_jwt_error + openid_credential" where
  "verify_jwt lib os now caller jwt salt =
     with_provider lib os jwt (\<lambda>p. provider_verify lib (os_tasks os) now caller p jwt salt)"

section \<open>Stored credentials\<close>

text \<open>
  \<open>OpenIdCredential::with_provider\<close>: the provider a stored credential belongs to. The
  placeholders of the issuer are filled from the metadata.
\<close>

fun metadata_claims :: "metadata_v2 \<Rightarrow> string list \<Rightarrow> (string \<times> string) list option" where
  "metadata_claims metadata [] = Some []"
| "metadata_claims metadata (key # keys) =
     (case map_of metadata key of
        Some (StringV2 value) \<Rightarrow> map_option (\<lambda>r. (key, value) # r) (metadata_claims metadata keys)
      | _ \<Rightarrow> None)"

definition credential_matches_provider ::
  "'k discovery_state list \<Rightarrow> openid_credential \<Rightarrow> 'k openid_provider \<Rightarrow> bool" where
  "credential_matches_provider tasks c p =
     (case provider_issuer tasks p of
        None \<Rightarrow> False
      | Some template \<Rightarrow>
          (case provider_client_id tasks p of
             None \<Rightarrow> False
           | Some provider_aud \<Rightarrow>
               (case metadata_claims (oc_metadata c) (get_issuer_placeholders template) of
                  None \<Rightarrow> False
                | Some issuer_claims \<Rightarrow>
                    replace_issuer_placeholders template issuer_claims = oc_iss c \<and> provider_aud = oc_aud c)))"

definition credential_provider :: "'k openid_state \<Rightarrow> openid_credential \<Rightarrow> 'k openid_provider option" where
  "credential_provider os c = find (credential_matches_provider (os_tasks os) c) (os_providers os)"

definition config_issuer :: "'k openid_state \<Rightarrow> openid_credential \<Rightarrow> string option" where
  "config_issuer os c = Option.bind (credential_provider os c) (provider_issuer (os_tasks os))"

definition discovery_domain :: "'k openid_state \<Rightarrow> openid_credential \<Rightarrow> string option" where
  "discovery_domain os c = Option.bind (credential_provider os c) provider_discovery_domain"

datatype attribute_scope = SsoScope string | OpenIdScope string

definition matched_attribute_scope :: "'k openid_state \<Rightarrow> openid_credential \<Rightarrow> attribute_scope option" where
  "matched_attribute_scope os c =
     Option.bind (credential_provider os c)
       (\<lambda>p. case provider_discovery_domain p of
              Some domain \<Rightarrow> Some (SsoScope domain)
            | None \<Rightarrow> map_option OpenIdScope (provider_issuer (os_tasks os) p))"

definition read_attribute_as_string :: "openid_credential \<Rightarrow> string \<Rightarrow> string option" where
  "read_attribute_as_string c name =
     (case map_of (oc_metadata c) name of Some (StringV2 value) \<Rightarrow> Some value | _ \<Rightarrow> None)"

definition get_email :: "openid_credential \<Rightarrow> string option" where
  "get_email c = read_attribute_as_string c ''email''"

definition get_name :: "openid_credential \<Rightarrow> string option" where
  "get_name c = read_attribute_as_string c ''name''"

definition get_google_verified_email :: "openid_credential \<Rightarrow> string option" where
  "get_google_verified_email c =
     (case read_attribute_as_string c ''email_verified'' of
        None \<Rightarrow> None
      | Some email_verified \<Rightarrow>
          if \<not> eq_ignore_ascii_case email_verified ''true'' then None else get_email c)"

definition MICROSOFT_PERSONAL_ACCOUNT_TENANT_ID :: string where
  "MICROSOFT_PERSONAL_ACCOUNT_TENANT_ID = ''9188040d-6c67-4c5b-b112-36a304b66dad''"

definition get_microsoft_verified_email :: "openid_credential \<Rightarrow> string option" where
  "get_microsoft_verified_email c =
     (case read_attribute_as_string c ''tid'' of
        None \<Rightarrow> None
      | Some tid \<Rightarrow> if tid \<noteq> MICROSOFT_PERSONAL_ACCOUNT_TENANT_ID then None else get_email c)"

definition get_verified_email :: "'k openid_state \<Rightarrow> openid_credential \<Rightarrow> string option" where
  "get_verified_email os c =
     Option.bind (credential_provider os c)
       (\<lambda>p. case provider_scheme p of
              None \<Rightarrow> None
            | Some UnknownScheme \<Rightarrow> None
            | Some Google \<Rightarrow> get_google_verified_email c
            | Some Microsoft \<Rightarrow> get_microsoft_verified_email c)"

section \<open>Key seeds and delegations\<close>

definition OPENID_SESSION_DURATION_NS :: u64 where "OPENID_SESSION_DURATION_NS = 30 * MINUTE_NS"

definition openid_seed_blob :: "bytes \<Rightarrow> openid_credential_key \<Rightarrow> anchor_number \<Rightarrow> bytes" where
  "openid_seed_blob salt key n =
     (case key of (iss, sub, aud) \<Rightarrow>
        32 # salt @ length_prefixed (string_bytes aud) @ length_prefixed (string_bytes iss)
        @ length_prefixed (string_bytes sub) @ length_prefixed (le_bytes 8 (unat n)))"

definition calculate_delegation_seed ::
  "(bytes \<Rightarrow> bytes) \<Rightarrow> bytes \<Rightarrow> openid_credential_key \<Rightarrow> anchor_number \<Rightarrow> bytes" where
  "calculate_delegation_seed h salt key n = h (openid_seed_blob salt key n)"

text \<open>\<open>OpenIdCredential::principal\<close>; it traps (in \<open>salt()\<close>) while the salt is not set.\<close>

definition openid_principal ::
  "(bytes \<Rightarrow> bytes) \<Rightarrow> (bytes \<Rightarrow> bytes) \<Rightarrow> (bytes \<Rightarrow> principal) \<Rightarrow> bytes \<Rightarrow> openid_credential \<Rightarrow> anchor_number
     \<Rightarrow> principal" where
  "openid_principal h der sa salt c n = sa (der (calculate_delegation_seed h salt (oc_key c) n))"

definition prepare_jwt_delegation ::
  "(bytes \<Rightarrow> bytes) \<Rightarrow> (bytes \<Rightarrow> bytes) \<Rightarrow> (bytes \<Rightarrow> bytes \<Rightarrow> timestamp \<Rightarrow> 'sigs \<Rightarrow> 'sigs) \<Rightarrow> bytes
     \<Rightarrow> timestamp \<Rightarrow> 'sigs \<Rightarrow> openid_credential \<Rightarrow> bytes \<Rightarrow> anchor_number \<Rightarrow> 'sigs \<times> bytes \<times> timestamp" where
  "prepare_jwt_delegation h der add_sig salt now sigs c session_key n =
     (let expiration = saturating_add64 now OPENID_SESSION_DURATION_NS;
          seed = calculate_delegation_seed h salt (oc_key c) n in
      (add_sig seed session_key expiration sigs, der seed, expiration))"

definition get_jwt_delegation ::
  "(bytes \<Rightarrow> bytes) \<Rightarrow> (bytes \<Rightarrow> bytes \<Rightarrow> timestamp \<Rightarrow> 'sigs \<Rightarrow> bytes option) \<Rightarrow> bytes
     \<Rightarrow> 'sigs \<Rightarrow> openid_credential \<Rightarrow> bytes \<Rightarrow> timestamp \<Rightarrow> anchor_number \<Rightarrow> (bytes \<times> timestamp \<times> bytes) option" where
  "get_jwt_delegation h get_sig salt sigs c session_key expiration n =
     (case get_sig (calculate_delegation_seed h salt (oc_key c) n) session_key expiration sigs of
        Some signature \<Rightarrow> Some (session_key, expiration, signature)
      | None \<Rightarrow> None)"

section \<open>Registration of providers and discovery\<close>

definition allowed_discovery_domains :: "string list option \<Rightarrow> bool option \<Rightarrow> string list" where
  "allowed_discovery_domains configured is_production =
     (case configured of
        Some domains \<Rightarrow> domains
      | None \<Rightarrow> if is_production = Some True then [''dfinity.org''] else [''beta.dfinity.org''])"

definition is_allowed_discovery_domain :: "string list \<Rightarrow> string \<Rightarrow> bool" where
  "is_allowed_discovery_domain allowed domain = list_ex (\<lambda>a. eq_ignore_ascii_case a domain) allowed"

text \<open>\<open>setup\<close>: the configured providers, their certificates not fetched yet.\<close>

definition openid_setup ::
  "(string \<times> string \<times> email_verification_scheme option) list \<Rightarrow> 'k openid_state \<Rightarrow> 'k openid_state" where
  "openid_setup configs os =
     os\<lparr>os_providers := os_providers os
          @ map (\<lambda>(client_id, issuer, scheme). Provider client_id issuer [] scheme) configs\<rparr>"

definition add_oidc_config_internal :: "string \<Rightarrow> 'k openid_state \<Rightarrow> 'k openid_state" where
  "add_oidc_config_internal domain os =
     (let domain = to_ascii_lowercase domain in
      os\<lparr>os_oidc_configs := os_oidc_configs os @ [domain],
         os_tasks := os_tasks os @ [\<lparr>ds_discovery_domain = to_ascii_lowercase domain, ds_client_id = None,
           ds_openid_configuration = None, ds_issuer = None, ds_name = None, ds_certs = [],
           ds_last_jwks_uri = None\<rparr>],
         os_providers := os_providers os
           @ [DiscoverableProvider (length (os_tasks os)) (to_ascii_lowercase domain)]\<rparr>)"

definition setup_oidc :: "string list \<Rightarrow> 'k openid_state \<Rightarrow> 'k openid_state" where
  "setup_oidc configs os = fold add_oidc_config_internal configs os"

definition add_oidc_config :: "string list \<Rightarrow> string \<Rightarrow> 'k openid_state \<Rightarrow> 'k openid_state option" where
  "add_oidc_config allowed domain os =
     (if \<not> is_allowed_discovery_domain allowed domain then None
      else
        (let domain = to_ascii_lowercase domain in
         if list_ex (\<lambda>d. d = domain) (os_oidc_configs os) then Some os
         else
           (let os = add_oidc_config_internal domain os in
            Some (os\<lparr>os_persisted_oidc_configs :=
              Some ((case os_persisted_oidc_configs os of None \<Rightarrow> [] | Some configs \<Rightarrow> configs) @ [domain])\<rparr>))))"

definition discovered_state_for ::
  "'k openid_state \<Rightarrow> string \<Rightarrow> string option \<times> string option \<times> string option" where
  "discovered_state_for os domain =
     (case find (\<lambda>t. ds_discovery_domain t = domain) (os_tasks os) of
        None \<Rightarrow> (None, None, None)
      | Some t \<Rightarrow> (ds_client_id t, ds_openid_configuration t, ds_issuer t))"

definition sso_fields_for :: "'k openid_state \<Rightarrow> iss \<Rightarrow> aud \<Rightarrow> string option \<times> string option" where
  "sso_fields_for os iss aud =
     (case find (\<lambda>t. ds_issuer t = Some iss \<and> ds_client_id t = Some aud) (os_tasks os) of
        None \<Rightarrow> (None, None)
      | Some t \<Rightarrow> (Some (ds_discovery_domain t), ds_name t))"

text \<open>\<open>url::Url\<close>: parsing, scheme, host and port.\<close>

record 'u url_lib =
  ul_parse :: "string \<Rightarrow> 'u option"
  ul_scheme :: "'u \<Rightarrow> string"
  ul_host_str :: "'u \<Rightarrow> string option"
  ul_port :: "'u \<Rightarrow> string option"
  ul_to_lowercase :: "string \<Rightarrow> string"

definition host_with_port :: "'u url_lib \<Rightarrow> 'u \<Rightarrow> string option" where
  "host_with_port ul url =
     (case ul_host_str ul url of
        None \<Rightarrow> None
      | Some host \<Rightarrow>
          Some (case ul_port ul url of
                  Some p \<Rightarrow> ul_to_lowercase ul host @ '':'' @ p
                | None \<Rightarrow> ul_to_lowercase ul host))"

definition validate_discovery_url :: "'u url_lib \<Rightarrow> string list \<Rightarrow> string \<Rightarrow> bool" where
  "validate_discovery_url ul allowed url =
     (case ul_parse ul url of
        None \<Rightarrow> False
      | Some parsed \<Rightarrow>
          if ul_scheme ul parsed = ''https'' then True
          else if ul_scheme ul parsed = ''http''
          then (case host_with_port ul parsed of None \<Rightarrow> False | Some host \<Rightarrow> is_allowed_discovery_domain allowed host)
          else False)"

definition validate_issuer_host :: "'u url_lib \<Rightarrow> string \<Rightarrow> string \<Rightarrow> bool" where
  "validate_issuer_host ul openid_config_url issuer =
     (case Option.bind (ul_parse ul openid_config_url) (ul_host_str ul) of
        None \<Rightarrow> False
      | Some config_host \<Rightarrow>
          (case Option.bind (ul_parse ul issuer) (ul_host_str ul) of
             None \<Rightarrow> False
           | Some issuer_host \<Rightarrow> ul_to_lowercase ul config_host = ul_to_lowercase ul issuer_host))"

definition scheme_for_allowlisted_host :: "string \<Rightarrow> string" where
  "scheme_for_allowlisted_host host =
     (let bare = to_ascii_lowercase (takeWhile (\<lambda>c. c \<noteq> CHR '':'') host) in
      if bare = ''localhost'' \<or> bare = ''127.0.0.1'' then ''http'' else ''https'')"

record ii_openid_configuration =
  iic_client_id :: string
  iic_openid_configuration :: string
  iic_name :: "string option"

record discovery_document =
  dd_issuer :: string
  dd_jwks_uri :: string

text \<open>
  One round of \<open>run_discovery_tasks\<close> for one task, once the two documents have arrived (\<open>None\<close>: the
  call failed). The result says whether certificates are fetched from a new address.
\<close>

definition finish_discovery ::
  "'u url_lib \<Rightarrow> string list \<Rightarrow> ii_openid_configuration option \<Rightarrow> discovery_document option
     \<Rightarrow> 'k discovery_state \<Rightarrow> 'k discovery_state \<times> bool" where
  "finish_discovery ul allowed hop1 hop2 task =
     (case hop1 of
        None \<Rightarrow> (task, False)
      | Some ii_config \<Rightarrow>
          if \<not> validate_discovery_url ul allowed (iic_openid_configuration ii_config) then (task, False)
          else
            (case hop2 of
               None \<Rightarrow> (task, False)
             | Some doc \<Rightarrow>
                 if \<not> validate_issuer_host ul (iic_openid_configuration ii_config) (dd_issuer doc)
                 then (task, False)
                 else if \<not> validate_discovery_url ul allowed (dd_jwks_uri doc) then (task, False)
                 else
                   (task\<lparr>ds_client_id := Some (iic_client_id ii_config),
                         ds_openid_configuration := Some (iic_openid_configuration ii_config),
                         ds_issuer := Some (dd_issuer doc), ds_name := iic_name ii_config,
                         ds_last_jwks_uri := Some (dd_jwks_uri doc)\<rparr>,
                    ds_last_jwks_uri task \<noteq> Some (dd_jwks_uri doc))))"

text \<open>\<open>compute_next_certs_fetch_delay\<close>: \<open>fetched\<close> tells whether the fetch succeeded.\<close>

definition FETCH_CERTS_INTERVAL_SECONDS :: u64 where "FETCH_CERTS_INTERVAL_SECONDS = 60 * 15"

definition compute_next_certs_fetch_delay :: "bool \<Rightarrow> u64 option \<Rightarrow> u64 option" where
  "compute_next_certs_fetch_delay fetched current_delay =
     (if fetched then None
      else Some (max 60 (min (case current_delay of None \<Rightarrow> 60 | Some d \<Rightarrow> d * 2)
                   FETCH_CERTS_INTERVAL_SECONDS)))"

section \<open>Genuine tokens\<close>

text \<open>
  What a verified token guarantees. \<open>jl_verify\<close> (the verification of the \<open>identity_jose\<close> crate) may
  check more than the verifier it is given, but never accepts what the verifier rejects.
\<close>

definition jose_sound :: "('w, 'k, 'r) jose \<Rightarrow> bool" where
  "jose_sound lib \<longleftrightarrow> (\<forall>f w k. jl_verify lib f w k \<longrightarrow> f w k)"

definition signed_by :: "('w, 'k, 'r) jose \<Rightarrow> 'k list \<Rightarrow> 'w \<Rightarrow> bool" where
  "signed_by lib certs item \<longleftrightarrow>
     (\<exists>cert \<in> set certs. \<exists>key. jl_kid lib item \<noteq> None \<and> jl_key_kid lib cert = jl_kid lib item
        \<and> create_rsa_public_key lib cert = Some key \<and> jl_is_rs256 lib item
        \<and> jl_rsa_verify lib key (jl_sha256 lib (jl_signing_input lib item)) (jl_signature lib item))"

lemma find_SomeD: "find P xs = Some x \<Longrightarrow> x \<in> set xs \<and> P x"
  by (auto simp: find_Some_iff)

lemma verify_with_certs_sound:
  assumes "jose_sound lib" and "verify_with_certs lib certs item"
  shows "signed_by lib certs item"
proof -
  from assms(2) obtain kid cert where kid: "jl_kid lib item = Some kid"
    and cert: "find (\<lambda>cert. jl_key_kid lib cert = Some kid) certs = Some cert"
    and ok: "jl_verify lib (verify_signature lib) item cert"
    by (auto simp: verify_with_certs_def split: option.splits)
  have "cert \<in> set certs" "jl_key_kid lib cert = Some kid"
    using cert by (auto simp: find_Some_iff)
  moreover have "verify_signature lib item cert" using ok assms(1) by (auto simp: jose_sound_def)
  ultimately show ?thesis
    using kid by (auto simp: signed_by_def verify_signature_def split: if_splits option.splits)
qed

text \<open>The moment at which a token may be used, in nanoseconds as natural numbers.\<close>

definition in_validity_window :: "timestamp \<Rightarrow> claims \<Rightarrow> bool" where
  "in_validity_window now claims \<longleftrightarrow>
     (unat (cl_exp claims) * 10 ^ 9 < 2 ^ 64 \<longrightarrow> unat now \<le> unat (cl_exp claims) * 10 ^ 9)
     \<and> ((unat (cl_iat claims) + 600) * 10 ^ 9 < 2 ^ 64 \<longrightarrow>
          unat (cl_iat claims) * 10 ^ 9 \<le> unat now \<and> unat now \<le> (unat (cl_iat claims) + 600) * 10 ^ 9)"

lemma unat_secs_to_nanos: "unat s * 10 ^ 9 < 2 ^ 64 \<Longrightarrow> unat (secs_to_nanos s) = unat s * 10 ^ 9"
  by (simp add: secs_to_nanos_def unat64_mult)

lemma verify_claims_ok:
  assumes "verify_claims lib now caller issuer client_id claims salt = Inr u"
  shows "cl_iss claims = issuer" "aud_matches (cl_aud claims) client_id"
    "cl_nonce claims = expected_nonce lib salt caller" "in_validity_window now claims"
    "\<not> too_long MAX_EMAIL_LENGTH (cl_email claims)" "\<not> too_long MAX_CLAIM_NAME_LENGTH (cl_name claims)"
proof -
  have ok: "cl_iss claims = issuer" "aud_matches (cl_aud claims) client_id"
    "cl_nonce claims = expected_nonce lib salt caller" "now \<le> secs_to_nanos (cl_exp claims)"
    "now \<le> secs_to_nanos (cl_iat claims + MAX_VALIDITY_WINDOW_SECONDS)" "secs_to_nanos (cl_iat claims) \<le> now"
    "\<not> too_long MAX_EMAIL_LENGTH (cl_email claims)" "\<not> too_long MAX_CLAIM_NAME_LENGTH (cl_name claims)"
    using assms unfolding verify_claims_def by (simp_all split: if_split_asm add: not_less)
  have window: "unat (cl_iat claims + MAX_VALIDITY_WINDOW_SECONDS) = unat (cl_iat claims) + 600"
    if "(unat (cl_iat claims) + 600) * 10 ^ 9 < 2 ^ 64"
    using that by (simp add: unat64_add MAX_VALIDITY_WINDOW_SECONDS_def)
  show "in_validity_window now claims"
    unfolding in_validity_window_def
  proof (intro conjI impI)
    assume "unat (cl_exp claims) * 10 ^ 9 < 2 ^ 64"
    then show "unat now \<le> unat (cl_exp claims) * 10 ^ 9"
      using ok(4) by (simp only: word_le_nat_alt unat_secs_to_nanos)
  next
    assume room: "(unat (cl_iat claims) + 600) * 10 ^ 9 < 2 ^ 64"
    then have "unat (cl_iat claims) * 10 ^ 9 < 2 ^ 64" by simp
    then show "unat (cl_iat claims) * 10 ^ 9 \<le> unat now"
      using ok(6) by (simp only: word_le_nat_alt unat_secs_to_nanos)
    show "unat now \<le> (unat (cl_iat claims) + 600) * 10 ^ 9"
      using ok(5) room unat_secs_to_nanos [of "cl_iat claims + MAX_VALIDITY_WINDOW_SECONDS"] window [OF room]
      by (simp only: word_le_nat_alt)
  qed
qed (use assms in \<open>simp_all add: verify_claims_def split: if_split_asm\<close>)

lemma provider_verify_genuine:
  assumes sound: "jose_sound lib" and ok: "provider_verify lib tasks now caller p jwt salt = Inr c"
  obtains item claims where "jl_decode lib jwt = Some item" "jl_claims lib item = Some claims"
    "signed_by lib (provider_certs tasks p) item"
    "cl_nonce claims = expected_nonce lib salt caller" "in_validity_window now claims"
    "provider_client_id tasks p = Some (oc_aud c)" "aud_matches (cl_aud claims) (oc_aud c)"
    "oc_iss c = cl_iss claims" "oc_sub c = cl_sub claims"
proof (cases p)
  case (Provider client_id issuer certs scheme)
  from ok obtain item claims i where "jl_decode lib jwt = Some item" "jl_claims lib item = Some claims"
    and "verify_with_certs lib certs item"
    and c: "oc_aud c = client_id" "oc_iss c = cl_iss claims" "oc_sub c = cl_sub claims"
    and v: "verify_claims lib now caller i client_id claims salt = Inr ()"
    by (auto simp: Provider Let_def split: option.splits sum.splits if_splits)
  with that verify_with_certs_sound [OF sound] verify_claims_ok [OF v] show ?thesis
    by (auto simp: Provider)
next
  case (DiscoverableProvider i domain)
  from ok obtain item claims client_id issuer where "jl_decode lib jwt = Some item" "jl_claims lib item = Some claims"
    and "verify_with_certs lib (ds_certs (tasks ! i)) item" and "ds_client_id (tasks ! i) = Some client_id"
    and c: "oc_aud c = client_id" "oc_iss c = cl_iss claims" "oc_sub c = cl_sub claims"
    and v: "verify_claims lib now caller issuer client_id claims salt = Inr ()"
    by (auto simp: DiscoverableProvider Let_def split: option.splits sum.splits if_splits)
  with that verify_with_certs_sound [OF sound] verify_claims_ok [OF v] show ?thesis
    by (auto simp: DiscoverableProvider)
qed

text \<open>
  Property C20. A token is accepted only when it is genuine. Whatever providers are registered, a
  credential is obtained from a JWT only if one of them verified it: the signature is valid
  (RS256) under a certificate of that provider with the key id of the token, the token was
  issued for the provider's client id by the issuer of the credential, its nonce binds it to
  the caller, and the moment of use lies within ten minutes after it was issued and before it
  expires. So a second principal can only use the same token through a collision of the hash.
\<close>

theorem accepted_token_genuine:
  assumes sound: "jose_sound lib" and ok: "verify_jwt lib os now caller jwt salt = Inr c"
  shows "(\<exists>p \<in> set (os_providers os). \<exists>item claims.
      jl_decode lib jwt = Some item \<and> jl_claims lib item = Some claims
      \<and> signed_by lib (provider_certs (os_tasks os) p) item
      \<and> provider_client_id (os_tasks os) p = Some (oc_aud c) \<and> aud_matches (cl_aud claims) (oc_aud c)
      \<and> oc_iss c = cl_iss claims \<and> oc_sub c = cl_sub claims
      \<and> cl_nonce claims = expected_nonce lib salt caller \<and> in_validity_window now claims)
    \<and> (verify_jwt lib os now' caller' jwt salt = Inr c' \<longrightarrow>
         jl_base64_encode lib (jl_sha256 lib (salt @ caller)) = jl_base64_encode lib (jl_sha256 lib (salt @ caller')))"
proof -
  have *: "\<exists>p \<in> set (os_providers os). \<exists>item claims.
      jl_decode lib jwt = Some item \<and> jl_claims lib item = Some claims
      \<and> signed_by lib (provider_certs (os_tasks os) p) item
      \<and> provider_client_id (os_tasks os) p = Some (oc_aud c) \<and> aud_matches (cl_aud claims) (oc_aud c)
      \<and> oc_iss c = cl_iss claims \<and> oc_sub c = cl_sub claims
      \<and> cl_nonce claims = expected_nonce lib salt caller \<and> in_validity_window now claims"
    if "verify_jwt lib os now caller jwt salt = Inr c" for now caller c
  proof -
    from that obtain p where p: "p \<in> set (os_providers os)"
      and v: "provider_verify lib (os_tasks os) now caller p jwt salt = Inr c"
      by (auto simp: verify_jwt_def with_provider_def split: option.splits if_splits dest!: find_SomeD)
    show ?thesis using p by (rule_tac provider_verify_genuine [OF sound v]) blast
  qed
  from * [OF ok] * [of now' caller' c'] show ?thesis by (auto simp: expected_nonce_def)
qed

definition sample_claims :: claims where
  "sample_claims =
     \<lparr>cl_iss = ''https://i'', cl_sub = ''s'', cl_aud = MultipleAud [''a'', ''b''], cl_nonce = ''GH'',
      cl_exp = 5000, cl_iat = 1000, cl_email = Some ''e'', cl_name = None, cl_email_verified = None\<rparr>"

definition sample_jose :: "(string, nat, unit) jose" where
  "sample_jose =
     \<lparr>jl_decode = Some, jl_claims = (\<lambda>_. Some sample_claims),
      jl_partial_claims = (\<lambda>_. Some (''https://i'', MultipleAud [''a'', ''b''])),
      jl_values = (\<lambda>_. Some (\<lambda>_. None)), jl_kid = (\<lambda>_. Some ''1''), jl_is_rs256 = (\<lambda>_. True),
      jl_signing_input = (\<lambda>_. []), jl_signature = (\<lambda>_. []), jl_verify = (\<lambda>f. f),
      jl_key_kid = (\<lambda>_. Some ''1''), jl_rsa_params = (\<lambda>_. Some ([], [])), jl_rsa_key = (\<lambda>_ _. Some ()),
      jl_rsa_verify = (\<lambda>_ _ _. True), jl_base64_decode = (\<lambda>_. Some []),
      jl_base64_encode = (\<lambda>b. if b = [71, 72] then ''GH'' else []), jl_sha256 = (\<lambda>b. b)\<rparr>"

definition sample_openid_state :: "nat openid_state" where
  "sample_openid_state =
     \<lparr>os_providers = [Provider ''b'' ''https://i'' [0] None], os_tasks = [], os_oidc_configs = [],
      os_persisted_oidc_configs = None\<rparr>"

lemma sample_placeholders: "get_issuer_placeholders ''https://i'' = []"
  by (simp add: get_issuer_placeholders_def placeholders_from.simps split_at_def)

lemma sample_token:
  "verify_jwt sample_jose sample_openid_state 1000000000000 [72] t [71]
     = Inr \<lparr>oc_iss = ''https://i'', oc_sub = ''s'', oc_aud = ''b'', oc_last_usage = None,
            oc_metadata = [(''email'', StringV2 ''e'')]\<rparr>"
  by (simp add: verify_jwt_def with_provider_def sample_jose_def sample_openid_state_def sample_claims_def
      jwt_matches_provider_def get_all_claims_def sample_placeholders replace_issuer_placeholders_def
      verify_claims_def expected_nonce_def secs_to_nanos_def MAX_VALIDITY_WINDOW_SECONDS_def too_long_def
      MAX_EMAIL_LENGTH_def verify_with_certs_def verify_signature_def create_rsa_public_key_def
      claims_metadata_def insert_claim_def)

theorem accepted_token_genuine_witness:
  "\<exists>p \<in> set (os_providers sample_openid_state). provider_client_id [] p = Some ''b''"
  using accepted_token_genuine [of sample_jose sample_openid_state 1000000000000 "[72]" "''t''" "[71]"]
    sample_token [of "''t''"]
  by (auto simp: jose_sound_def sample_jose_def sample_openid_state_def)

section \<open>Credentials and their providers\<close>

text \<open>A template without an opening brace has no placeholders.\<close>

lemma no_placeholders: "CHR 0x7B \<notin> set template \<Longrightarrow> get_issuer_placeholders template = []"
  by (simp add: get_issuer_placeholders_def placeholders_from.simps split_at_none)

text \<open>A template with one placeholder is filled in.\<close>

lemma one_placeholder:
  assumes "CHR 0x7B \<notin> set before" and "CHR 0x7D \<notin> set key" and "CHR 0x7B \<notin> set after"
  shows "get_issuer_placeholders (before @ CHR 0x7B # key @ CHR 0x7D # after) = [key]"
  using assms
  by (simp add: get_issuer_placeholders_def placeholders_from.simps split_at_append split_at_none)

lemma collect_claims_keys: "collect_claims values keys = Some r \<Longrightarrow> map fst r = keys"
  by (induction keys arbitrary: r) (auto split: option.splits)

lemma collect_claims_values: "collect_claims values keys = Some r \<Longrightarrow> (k, v) \<in> set r \<Longrightarrow> values k = Some v"
  by (induction keys arbitrary: r) (auto split: option.splits)

lemma map_of_issuer_claims:
  assumes "\<forall>(k, v) \<in> set cs. values k = Some v"
  shows "map_of (fold (\<lambda>(k, v). ins_entry k (StringV2 v)) cs m) k =
    (if k \<in> fst ` set cs then Some (StringV2 (the (values k))) else map_of m k)"
  using assms
proof (induction cs arbitrary: m)
  case (Cons c cs)
  obtain k' v where c: "c = (k', v)" by (cases c)
  from Cons show ?case by (auto simp: c map_of_ins_entry)
qed simp

lemma metadata_claims_collected:
  assumes "\<forall>k \<in> set keys. map_of metadata k = Some (StringV2 (the (values k)))" and "collect_claims values keys = Some r"
  shows "metadata_claims metadata keys = Some r"
  using assms by (induction keys arbitrary: r) (auto split: option.splits)

lemma replace_nothing [simp]: "replace_issuer_placeholders template [] = template"
  by (simp add: replace_issuer_placeholders_def)

text \<open>
  The scheme of the two providers: the issuer claims that end up in the metadata of a credential are
  found there again when the credential is matched to its provider.
\<close>

lemma provider_verify_matches:
  assumes ok: "provider_verify lib tasks now caller p jwt salt = Inr c"
    and no_brace: "CHR 0x7B \<notin> set (oc_iss c)"
  shows "credential_matches_provider tasks c p"
proof (cases p)
  case (Provider client_id issuer certs scheme)
  let ?keys = "get_issuer_placeholders issuer"
  from ok obtain item claims where aud: "oc_aud c = client_id"
    and metadata: "oc_metadata c = fold (\<lambda>(key, value). ins_entry key (StringV2 value))
      (get_all_claims (jl_values lib item) ?keys) (claims_metadata claims)"
    and v: "verify_claims lib now caller
      (replace_issuer_placeholders issuer (get_all_claims (jl_values lib item) ?keys)) client_id claims salt = Inr ()"
    and iss: "oc_iss c = cl_iss claims"
    by (auto simp: Provider Let_def split: option.splits sum.splits if_splits)
  have effective: "replace_issuer_placeholders issuer (get_all_claims (jl_values lib item) ?keys) = oc_iss c"
    using verify_claims_ok(1) [OF v] iss by simp
  show ?thesis
  proof (cases "\<exists>values r. jl_values lib item = Some values \<and> collect_claims values ?keys = Some r")
    case True
    then obtain "values" r where r: "jl_values lib item = Some values" "collect_claims values ?keys = Some r" by blast
    have "fst ` set r = set ?keys" using collect_claims_keys [OF r(2)] by (metis set_map)
    moreover have "\<forall>(k, v) \<in> set r. values k = Some v" using collect_claims_values [OF r(2)] by auto
    ultimately have "\<forall>k \<in> set ?keys. map_of (oc_metadata c) k = Some (StringV2 (the (values k)))"
      using map_of_issuer_claims [of r "values" "claims_metadata claims"]
      by (simp add: metadata r get_all_claims_def)
    from metadata_claims_collected [OF this r(2)] effective aud r show ?thesis
      by (simp add: credential_matches_provider_def Provider get_all_claims_def)
  next
    case False
    then have "get_all_claims (jl_values lib item) ?keys = []"
      by (auto simp: get_all_claims_def split: option.splits)
    with effective have "issuer = oc_iss c" by simp
    with no_brace no_placeholders [of issuer] aud show ?thesis
      by (simp add: credential_matches_provider_def Provider)
  qed
next
  case (DiscoverableProvider i domain)
  from ok obtain issuer client_id claims where "ds_issuer (tasks ! i) = Some issuer" "ds_client_id (tasks ! i) = Some client_id"
    and v: "verify_claims lib now caller issuer client_id claims salt = Inr ()"
    and "oc_aud c = client_id" "oc_iss c = cl_iss claims"
    by (auto simp: DiscoverableProvider Let_def split: option.splits sum.splits if_splits)
  with verify_claims_ok(1) [OF v] no_brace no_placeholders [of issuer] show ?thesis
    by (simp add: credential_matches_provider_def DiscoverableProvider)
qed

text \<open>
  Property C26. A credential obtained from a token finds its provider again: as long as the
  providers stay as they are (and the issuer of the token has no opening brace), it matches a
  registered provider for the same client id, has a configured issuer, and exactly one attribute
  scope, the domain for a provider found by discovery and the issuer otherwise.
\<close>

theorem verified_credential_has_provider:
  assumes ok: "verify_jwt lib os now caller jwt salt = Inr c" and no_brace: "CHR 0x7B \<notin> set (oc_iss c)"
  shows "\<exists>p \<in> set (os_providers os). \<exists>issuer. credential_provider os c = Some p
    \<and> provider_client_id (os_tasks os) p = Some (oc_aud c)
    \<and> provider_issuer (os_tasks os) p = Some issuer \<and> config_issuer os c = Some issuer
    \<and> matched_attribute_scope os c =
        Some (case discovery_domain os c of Some domain \<Rightarrow> SsoScope domain | None \<Rightarrow> OpenIdScope issuer)"
proof -
  from ok obtain p where p: "p \<in> set (os_providers os)"
    and v: "provider_verify lib (os_tasks os) now caller p jwt salt = Inr c"
    by (auto simp: verify_jwt_def with_provider_def split: option.splits if_splits dest!: find_SomeD)
  have "credential_matches_provider (os_tasks os) c p" by (rule provider_verify_matches [OF v no_brace])
  with p have "credential_provider os c \<noteq> None" by (auto simp: credential_provider_def find_None_iff)
  then obtain q where q: "credential_provider os c = Some q" by auto
  then have "q \<in> set (os_providers os)" "credential_matches_provider (os_tasks os) c q"
    by (auto simp: credential_provider_def dest!: find_SomeD)
  moreover from this(2) obtain issuer where
    "provider_issuer (os_tasks os) q = Some issuer" "provider_client_id (os_tasks os) q = Some (oc_aud c)"
    by (auto simp: credential_matches_provider_def split: option.splits)
  ultimately show ?thesis
    using q by (auto simp: config_issuer_def matched_attribute_scope_def discovery_domain_def split: option.split)
qed

theorem verified_credential_has_provider_witness:
  "\<exists>issuer. config_issuer sample_openid_state
     \<lparr>oc_iss = ''https://i'', oc_sub = ''s'', oc_aud = ''b'', oc_last_usage = None,
      oc_metadata = [(''email'', StringV2 ''e'')]\<rparr> = Some issuer"
  using verified_credential_has_provider [OF sample_token [of "''t''"]] by auto

section \<open>Seeds of OpenID credentials\<close>

lemma le_bytes_inj: "le_bytes 8 (unat (m :: u64)) = le_bytes 8 (unat n) \<longleftrightarrow> m = n"
  by (metis le_round_trip_u64)

text \<open>
  Property C25. For issuers, subjects and audiences shorter than 256 bytes, a bound the code does not enforce,
  the byte strings hashed into the seeds of OpenID credentials agree only for the same issuer, subject, audience
  and anchor, and are never those of an anchor or account at an application with a hostname within the limit.
  So the keys of credentials are separate from each other and from all other keys.
\<close>

theorem openid_seeds_separate:
  assumes salt: "length salt = 32"
    and short: "length iss < 256" "length sub < 256" "length aud < 256"
      "length iss' < 256" "length sub' < 256" "length aud' < 256"
  shows "(openid_seed_blob salt (iss, sub, aud) m = openid_seed_blob salt (iss', sub', aud') n
        \<longleftrightarrow> iss = iss' \<and> sub = sub' \<and> aud = aud' \<and> m = n)
    \<and> (check_frontend_length f = Some () \<longrightarrow>
        openid_seed_blob salt (iss, sub, aud) m \<noteq> anchor_seed_blob salt n f
        \<and> openid_seed_blob salt (iss, sub, aud) m \<noteq> account_seed_blob salt n f)"
proof -
  have blob: "openid_seed_blob salt (i, s, a) k = length_prefixed salt @ length_prefixed (string_bytes a)
      @ length_prefixed (string_bytes i) @ length_prefixed (string_bytes s) @ length_prefixed (le_bytes 8 (unat k))"
    for i s a k
    using salt by (simp add: openid_seed_blob_def length_prefixed_def)
  have tail: "length_prefixed (string_bytes s) @ length_prefixed (le_bytes 8 (unat k)) \<noteq> length_prefixed (string_bytes g)"
    if "length s < 256" "length g < 256" for s g and k :: u64
  proof
    assume eq: "length_prefixed (string_bytes s) @ length_prefixed (le_bytes 8 (unat k)) = length_prefixed (string_bytes g)"
    from length_prefixed_append [of "string_bytes s" "length_prefixed (le_bytes 8 (unat k))" "string_bytes g" "[]"] eq that
    show False by (simp add: length_prefixed_def)
  qed
  have account: "length_prefixed (string_bytes i) @ length_prefixed (string_bytes s) @ length_prefixed (le_bytes 8 (unat k))
      \<noteq> length_prefixed (string_bytes g)"
    if "length i < 256" "length g < 256" for i s g and k :: u64
  proof
    assume "length_prefixed (string_bytes i) @ length_prefixed (string_bytes s) @ length_prefixed (le_bytes 8 (unat k))
      = length_prefixed (string_bytes g)"
    with that length_prefixed_append [of "string_bytes i"
        "length_prefixed (string_bytes s) @ length_prefixed (le_bytes 8 (unat k))" "string_bytes g" "[]"]
    have "length_prefixed (string_bytes s) @ length_prefixed (le_bytes 8 (unat k)) = []" by (simp only: append_Nil2 length_string_bytes)
    then show False by (simp add: length_prefixed_def)
  qed
  have inj: "iss = iss' \<and> sub = sub' \<and> aud = aud' \<and> m = n"
    if eq: "openid_seed_blob salt (iss, sub, aud) m = openid_seed_blob salt (iss', sub', aud') n"
  proof -
    from eq have "length_prefixed (string_bytes aud) @ length_prefixed (string_bytes iss)
        @ length_prefixed (string_bytes sub) @ length_prefixed (le_bytes 8 (unat m))
      = length_prefixed (string_bytes aud') @ length_prefixed (string_bytes iss')
        @ length_prefixed (string_bytes sub') @ length_prefixed (le_bytes 8 (unat n))" by (simp add: blob)
    from length_prefixed_append [OF this] short have 1: "aud = aud'"
      and "length_prefixed (string_bytes iss) @ length_prefixed (string_bytes sub) @ length_prefixed (le_bytes 8 (unat m))
      = length_prefixed (string_bytes iss') @ length_prefixed (string_bytes sub') @ length_prefixed (le_bytes 8 (unat n))"
      by (simp_all add: string_bytes_inj)
    from length_prefixed_append [OF this(2)] short have 2: "iss = iss'"
      and "length_prefixed (string_bytes sub) @ length_prefixed (le_bytes 8 (unat m))
      = length_prefixed (string_bytes sub') @ length_prefixed (le_bytes 8 (unat n))"
      by (simp_all add: string_bytes_inj)
    from length_prefixed_append [OF this(2)] short have "sub = sub'" "m = n"
      by (simp_all add: string_bytes_inj length_prefixed_def le_bytes_inj)
    with 1 2 show ?thesis by simp
  qed
  have anchor: "openid_seed_blob salt (iss, sub, aud) m \<noteq> anchor_seed_blob salt n f" if f: "length f < 256"
  proof
    assume "openid_seed_blob salt (iss, sub, aud) m = anchor_seed_blob salt n f"
    then have eq: "length_prefixed (string_bytes aud) @ length_prefixed (string_bytes iss)
        @ length_prefixed (string_bytes sub) @ length_prefixed (le_bytes 8 (unat m))
      = length_prefixed (decimal (unat n)) @ length_prefixed (string_bytes f)"
      by (simp add: blob anchor_seed_blob_def)
    from length_prefixed_append [OF eq] short(3) length_decimal_byte
    have "length_prefixed (string_bytes iss) @ length_prefixed (string_bytes sub)
        @ length_prefixed (le_bytes 8 (unat m)) = length_prefixed (string_bytes f)" by simp
    with account [OF short(1) f] show False by simp
  qed
  have account': "openid_seed_blob salt (iss, sub, aud) m \<noteq> account_seed_blob salt n f" if f: "length f < 256"
  proof
    assume "openid_seed_blob salt (iss, sub, aud) m = account_seed_blob salt n f"
    then have eq: "length_prefixed (string_bytes aud) @ length_prefixed (string_bytes iss)
        @ length_prefixed (string_bytes sub) @ length_prefixed (le_bytes 8 (unat m))
      = length_prefixed ACCOUNT_SEED_PREFIX @ length_prefixed (decimal (unat n)) @ length_prefixed (string_bytes f)"
      by (simp add: blob account_seed_blob_def)
    from length_prefixed_append [OF eq] short(3)
    have eq2: "length_prefixed (string_bytes iss) @ length_prefixed (string_bytes sub) @ length_prefixed (le_bytes 8 (unat m))
      = length_prefixed (decimal (unat n)) @ length_prefixed (string_bytes f)"
      by (simp add: ACCOUNT_SEED_PREFIX_def)
    from length_prefixed_append [OF eq2] short(1) length_decimal_byte
    have "length_prefixed (string_bytes sub) @ length_prefixed (le_bytes 8 (unat m)) = length_prefixed (string_bytes f)"
      by simp
    with tail [OF short(2) f] show False by simp
  qed
  have "length f < 256" if "check_frontend_length f = Some ()"
    using that by (auto simp: check_frontend_length_def FRONTEND_HOSTNAME_LIMIT_def split: if_splits)
  with inj anchor account' show ?thesis by blast
qed

theorem openid_seeds_separate_witness:
  "openid_seed_blob (replicate 32 7) (''i'', ''s'', ''a'') 10000 \<noteq> openid_seed_blob (replicate 32 7) (''i'', ''t'', ''a'') 10000"
  using openid_seeds_separate [of "replicate 32 7" "''i''" "''s''" "''a''" "''i''" "''t''" "''a''" 10000 10000] by simp

section \<open>Registered domains\<close>

definition no_providers :: "'k openid_state" where
  "no_providers = \<lparr>os_providers = [], os_tasks = [], os_oidc_configs = [], os_persisted_oidc_configs = None\<rparr>"

lemma to_ascii_lowercase_idem [simp]: "to_ascii_lowercase (to_ascii_lowercase s) = to_ascii_lowercase s"
proof -
  have "(let d = (if CHR ''A'' \<le> c \<and> c \<le> CHR ''Z'' then char_of (of_char c + 32 :: nat) else c)
         in if CHR ''A'' \<le> d \<and> d \<le> CHR ''Z'' then char_of (of_char d + 32 :: nat) else d)
      = (if CHR ''A'' \<le> c \<and> c \<le> CHR ''Z'' then char_of (of_char c + 32 :: nat) else c)" for c
    by (auto simp: less_eq_char_def Let_def)
  then show ?thesis by (simp add: to_ascii_lowercase_def Let_def)
qed

text \<open>The persistent copy and the replay after an upgrade agree with the state in the heap.\<close>

definition domains_ok :: "string list \<Rightarrow> 'k openid_state \<Rightarrow> bool" where
  "domains_ok allowed os \<longleftrightarrow>
     distinct (os_oidc_configs os)
     \<and> (\<forall>d \<in> set (os_oidc_configs os). is_allowed_discovery_domain allowed d \<and> to_ascii_lowercase d = d)
     \<and> os_persisted_oidc_configs os = (if os_oidc_configs os = [] then None else Some (os_oidc_configs os))
     \<and> map ds_discovery_domain (os_tasks os) = os_oidc_configs os"

lemma allowed_ignores_case [simp]:
  "is_allowed_discovery_domain allowed (to_ascii_lowercase d) = is_allowed_discovery_domain allowed d"
  by (simp add: is_allowed_discovery_domain_def eq_ignore_ascii_case_def)

lemma domains_ok_add:
  assumes "domains_ok allowed os" and "add_oidc_config allowed domain os = Some os'"
  shows "domains_ok allowed os'"
  using assms
  by (auto simp: domains_ok_def add_oidc_config_def add_oidc_config_internal_def Let_def list_ex_iff
      split: if_splits)

text \<open>A sequence of registrations; one that traps changes nothing.\<close>

definition register_domain :: "string list \<Rightarrow> string \<Rightarrow> 'k openid_state \<Rightarrow> 'k openid_state" where
  "register_domain allowed domain os =
     (case add_oidc_config allowed domain os of None \<Rightarrow> os | Some os' \<Rightarrow> os')"

lemma domains_ok_register: "domains_ok allowed os \<Longrightarrow> domains_ok allowed (fold (register_domain allowed) ds os)"
  by (induction ds arbitrary: os) (auto simp: register_domain_def domains_ok_add split: option.split)

lemma setup_oidc_domains:
  "\<forall>d \<in> set ds. to_ascii_lowercase d = d \<Longrightarrow>
   os_oidc_configs (setup_oidc ds os) = os_oidc_configs os @ ds
   \<and> map ds_discovery_domain (os_tasks (setup_oidc ds os)) = map ds_discovery_domain (os_tasks os) @ ds"
  by (induction ds arbitrary: os) (simp_all add: setup_oidc_def add_oidc_config_internal_def Let_def)

text \<open>
  After any registrations every domain has been registered once, in lower case and only
  when it is on the allowlist, and replaying the persistent list after an upgrade restores
  exactly these domains and their discovery tasks.
\<close>

lemma registered_domains_survive_upgrade:
  assumes "os = fold (register_domain allowed) ds no_providers"
  shows "distinct (os_oidc_configs os)
    \<and> (\<forall>d \<in> set (os_oidc_configs os). is_allowed_discovery_domain allowed d)
    \<and> (let os' = setup_oidc (case os_persisted_oidc_configs os of None \<Rightarrow> [] | Some c \<Rightarrow> c) no_providers in
        os_oidc_configs os' = os_oidc_configs os
        \<and> map ds_discovery_domain (os_tasks os') = map ds_discovery_domain (os_tasks os))"
proof -
  have "domains_ok allowed os"
    unfolding assms by (rule domains_ok_register) (simp add: domains_ok_def no_providers_def)
  then show ?thesis
    using setup_oidc_domains [of "os_oidc_configs os" no_providers]
    by (auto simp: domains_ok_def no_providers_def Let_def setup_oidc_def)
qed

text \<open>
  A discovered issuer is only taken from a valid address on the host of the OpenID configuration.
\<close>

lemma finish_discovery_checked:
  assumes "finish_discovery ul allowed hop1 hop2 task = (task', fetch)" and "task' \<noteq> task"
  shows "\<exists>ii_config doc. hop1 = Some ii_config \<and> hop2 = Some doc
    \<and> ds_issuer task' = Some (dd_issuer doc) \<and> ds_client_id task' = Some (iic_client_id ii_config)
    \<and> validate_discovery_url ul allowed (iic_openid_configuration ii_config)
    \<and> validate_issuer_host ul (iic_openid_configuration ii_config) (dd_issuer doc)
    \<and> validate_discovery_url ul allowed (dd_jwks_uri doc)
    \<and> ds_discovery_domain task' = ds_discovery_domain task \<and> ds_certs task' = ds_certs task"
  using assms by (auto simp: finish_discovery_def split: option.splits if_splits)

text \<open>Repeated failures double the delay from one minute up to fifteen.\<close>

lemma fetch_delay_backoff:
  shows "((compute_next_certs_fetch_delay False) ^^ Suc n) (Some 0)
    = Some (if n = 0 then 60 else if n = 1 then 120 else if n = 2 then 240 else if n = 3 then 480 else 900)"
proof -
  let ?next = "compute_next_certs_fetch_delay False"
  have steps: "?next (Some 0) = Some 60" "?next (Some 60) = Some 120" "?next (Some 120) = Some 240"
    "?next (Some 240) = Some 480" "?next (Some 480) = Some 900" "?next (Some 900) = Some 900"
    by (simp_all add: compute_next_certs_fetch_delay_def FETCH_CERTS_INTERVAL_SECONDS_def)
  have fixed: "(?next ^^ k) (Some 900) = Some 900" for k
    by (induction k) (simp_all add: steps)
  have first: "(?next ^^ 1) (Some 0) = Some 60" "(?next ^^ 2) (Some 0) = Some 120"
    "(?next ^^ 3) (Some 0) = Some 240" "(?next ^^ 4) (Some 0) = Some 480" "(?next ^^ 5) (Some 0) = Some 900"
    by (simp_all only: eval_nat_numeral funpow.simps comp_apply id_apply steps One_nat_def BitM.simps)
  show ?thesis
  proof (cases "n < 4")
    case True
    then consider "n = 0" | "n = 1" | "n = 2" | "n = 3" by linarith
    then show ?thesis using first by cases (simp_all add: eval_nat_numeral del: funpow.simps)
  next
    case False
    then have "Suc n = (n - 4) + 5" by simp
    then have "(?next ^^ Suc n) (Some 0) = Some 900"
      by (simp only: funpow_add comp_def first fixed)
    with False show ?thesis by simp
  qed
qed

end
