(* ===== verification/Archive_Client.thy ===== *)
theory Archive_Client
  imports Storage_Migration
begin

text \<open>
  \<open>archive.rs\<close>: the buffer of operations for the archive canister, and its deployment. The buffer
  itself is part of the storage. \<open>deploy_archive\<close> awaits calls of the management canister; it is
  modelled as the segments between these calls, with the calls in flight as explicit
  continuations, so that other messages can run in between. \<open>encode\<close> is the Candid encoding of an
  entry, \<open>sha\<close> is SHA-256, error texts are left out.
\<close>

section \<open>State\<close>

record archive_config =
  arc_module_hash :: bytes
  arc_entries_buffer_limit :: u64
  arc_polling_interval_ns :: u64
  arc_entries_fetch_limit :: u16

record archive_data =
  ard_sequence_number :: u64
  ard_archive_canister :: principal

datatype archive_state =
    NotConfigured
  | Configured archive_config
  | CreationInProgress timestamp archive_config
  | Created archive_data archive_config

record archive_init =
  ari_ii_canister :: principal
  ari_max_entries_per_call :: u16
  ari_polling_interval_ns :: u64
  ari_error_buffer_limit :: u16

record archive_status_cache =
  asc_timestamp :: timestamp
  asc_module_hash :: "bytes option"
  asc_init :: "archive_init option"

definition update_archive_config :: "archive_config \<Rightarrow> archive_state \<Rightarrow> archive_state" where
  "update_archive_config new_config st =
     (case st of
        NotConfigured \<Rightarrow> Configured new_config
      | Configured _ \<Rightarrow> Configured new_config
      | CreationInProgress t _ \<Rightarrow> CreationInProgress t new_config
      | Created data _ \<Rightarrow> Created data new_config)"

section \<open>Buffering operations\<close>

record archive_entry =
  ae_anchor :: anchor_number
  ae_operation :: operation
  ae_timestamp :: timestamp
  ae_caller :: principal
  ae_sequence_number :: u64

definition new_buffered_entry ::
  "(archive_entry \<Rightarrow> bytes) \<Rightarrow> timestamp \<Rightarrow> anchor_number \<Rightarrow> principal \<Rightarrow> operation \<Rightarrow> u64 \<Rightarrow> buffered_entry" where
  "new_buffered_entry encode now n caller op sequence_number =
     \<lparr>be_anchor_number = n, be_timestamp = now,
      be_entry = encode \<lparr>ae_anchor = n, ae_operation = op, ae_timestamp = now, ae_caller = caller,
                         ae_sequence_number = sequence_number\<rparr>,
      be_sequence_number = sequence_number\<rparr>"

definition archive_operation ::
  "(archive_entry \<Rightarrow> bytes) \<Rightarrow> timestamp \<Rightarrow> anchor_number \<Rightarrow> principal \<Rightarrow> operation
     \<Rightarrow> storage \<times> archive_state \<Rightarrow> (storage \<times> archive_state) option" where
  "archive_operation encode now n caller op s =
     (case s of (storage, st) \<Rightarrow>
       (case st of
          Created data config \<Rightarrow>
            if of_nat (archive_entries_count storage) \<ge> arc_entries_buffer_limit config then None
            else
              Some (add_archive_entry storage
                      (new_buffered_entry encode now n caller op (ard_sequence_number data)),
                    Created (data\<lparr>ard_sequence_number := ard_sequence_number data + 1\<rparr>) config)
        | _ \<Rightarrow> Some (storage, st)))"

definition fetch_entries :: "principal \<Rightarrow> storage \<times> archive_state \<Rightarrow> buffered_entry list option" where
  "fetch_entries caller s =
     (case s of (storage, st) \<Rightarrow>
       (case st of
          Created data config \<Rightarrow>
            if caller \<noteq> ard_archive_canister data then None
            else Some (get_archive_entries storage (arc_entries_fetch_limit config))
        | _ \<Rightarrow> None))"

definition acknowledge_entries ::
  "principal \<Rightarrow> u64 \<Rightarrow> storage \<times> archive_state \<Rightarrow> (storage \<times> archive_state) option" where
  "acknowledge_entries caller sequence_number s =
     (case s of (storage, st) \<Rightarrow>
       (case st of
          Created data config \<Rightarrow>
            if caller \<noteq> ard_archive_canister data then None
            else Some (prune_archive_entries storage sequence_number, st)
        | _ \<Rightarrow> None))"

definition device_diff :: "device \<Rightarrow> device \<Rightarrow> device_data_update" where
  "device_diff old new =
     \<lparr>upd_alias = (if dev_alias old = dev_alias new then None else Some ()),
      upd_credential_id = (if dev_credential_id old = dev_credential_id new then None else dev_credential_id new),
      upd_purpose = (if dev_purpose old = dev_purpose new then None else Some (dev_purpose new)),
      upd_key_type = (if dev_key_type old = dev_key_type new then None else Some (dev_key_type new)),
      upd_protection = (if dev_protection old = dev_protection new then None else Some (dev_protection new)),
      upd_origin = (if dev_origin old = dev_origin new then None else Some (dev_origin new)),
      upd_metadata_keys =
        (if dev_metadata old = dev_metadata new then None
         else Some (case dev_metadata new of None \<Rightarrow> [] | Some m \<Rightarrow> map fst m))\<rparr>"

section \<open>Deploying the archive\<close>

record archive_client =
  acl_state :: archive_state
  acl_status_cache :: "archive_status_cache option"

definition config_to_init :: "principal \<Rightarrow> archive_config \<Rightarrow> archive_init" where
  "config_to_init self config =
     \<lparr>ari_ii_canister = self, ari_max_entries_per_call = 1000,
      ari_polling_interval_ns = arc_polling_interval_ns config, ari_error_buffer_limit = 20\<rparr>"

definition verify_wasm :: "(bytes \<Rightarrow> bytes) \<Rightarrow> bytes \<Rightarrow> bytes \<Rightarrow> bytes option" where
  "verify_wasm sha wasm expected_hash = (if sha wasm \<noteq> expected_hash then None else Some wasm)"

definition unlock_archive_if_stuck :: "timestamp \<Rightarrow> archive_client \<Rightarrow> archive_client" where
  "unlock_archive_if_stuck now c =
     (case acl_state c of
        CreationInProgress t config \<Rightarrow>
          if now - t > secs_to_nanos (24 * 60 * 60) then c\<lparr>acl_state := Configured config\<rparr> else c
      | _ \<Rightarrow> c)"

text \<open>A cached status is used for an hour.\<close>

definition cached_archive_status :: "timestamp \<Rightarrow> archive_client \<Rightarrow> archive_status_cache option" where
  "cached_archive_status now c =
     (case acl_status_cache c of
        None \<Rightarrow> None
      | Some cached \<Rightarrow> if now - asc_timestamp cached > secs_to_nanos (60 * 60) then None else Some cached)"

definition archive_changed :: "principal \<Rightarrow> archive_config \<Rightarrow> archive_status_cache \<Rightarrow> bool" where
  "archive_changed self config status =
     (if asc_init status \<noteq> Some (config_to_init self config) then True
      else asc_module_hash status \<noteq> Some (arc_module_hash config))"

datatype install_mode = InstallMode | UpgradeMode

datatype deploy_result = DeploySuccess principal | DeployCreationInProgress | DeployFailed

text \<open>
  The calls a deployment can wait for: the status of the canister, its \<open>status\<close> query, its creation
  and the installation of its code.
\<close>

datatype deploy_call =
    AwaitCanisterStatus bytes archive_data archive_config
  | AwaitArchiveStatus bytes archive_data archive_config bytes
  | AwaitCreation bytes timestamp archive_config
  | AwaitInstall principal install_mode bytes archive_config

datatype deploy_step = DeployDone deploy_result | DeployAwait deploy_call

text \<open>After the checks: from the status of an existing archive on.\<close>

definition deploy_with_status ::
  "(bytes \<Rightarrow> bytes) \<Rightarrow> principal \<Rightarrow> bytes \<Rightarrow> archive_data \<Rightarrow> archive_config \<Rightarrow> archive_status_cache
     \<Rightarrow> deploy_step" where
  "deploy_with_status sha self wasm data config status =
     (if \<not> archive_changed self config status then DeployDone (DeploySuccess (ard_archive_canister data))
      else
        (case verify_wasm sha wasm (arc_module_hash config) of
           None \<Rightarrow> DeployDone DeployFailed
         | Some verified \<Rightarrow>
             DeployAwait (AwaitInstall (ard_archive_canister data)
               (if asc_module_hash status = None then InstallMode else UpgradeMode) verified config)))"

definition deploy_archive ::
  "(bytes \<Rightarrow> bytes) \<Rightarrow> principal \<Rightarrow> timestamp \<Rightarrow> bytes \<Rightarrow> archive_client \<Rightarrow> archive_client \<times> deploy_step" where
  "deploy_archive sha self now wasm c =
     (let c = unlock_archive_if_stuck now c in
      (case acl_state c of
         NotConfigured \<Rightarrow> (c, DeployDone DeployFailed)
       | CreationInProgress _ _ \<Rightarrow> (c, DeployDone DeployCreationInProgress)
       | Configured config \<Rightarrow>
           (case verify_wasm sha wasm (arc_module_hash config) of
              None \<Rightarrow> (c, DeployDone DeployFailed)
            | Some verified \<Rightarrow>
                (c\<lparr>acl_state := CreationInProgress now config\<rparr>, DeployAwait (AwaitCreation verified now config)))
       | Created data config \<Rightarrow>
           (case cached_archive_status now c of
              None \<Rightarrow> (c, DeployAwait (AwaitCanisterStatus wasm data config))
            | Some status \<Rightarrow> (c, deploy_with_status sha self wasm data config status))))"

text \<open>
  The answers: the module hash of the canister, its init argument (\<open>None\<close> when the query failed),
  the new canister (\<open>None\<close>: rejected), whether the installation succeeded.
\<close>

definition cache_archive_status :: "archive_status_cache \<Rightarrow> archive_client \<Rightarrow> archive_client" where
  "cache_archive_status status c = c\<lparr>acl_status_cache := Some status\<rparr>"

definition invalidate_archive_status_cache :: "archive_client \<Rightarrow> archive_client" where
  "invalidate_archive_status_cache c = c\<lparr>acl_status_cache := None\<rparr>"

definition archive_status_arrived ::
  "(bytes \<Rightarrow> bytes) \<Rightarrow> principal \<Rightarrow> timestamp \<Rightarrow> bytes \<Rightarrow> archive_data \<Rightarrow> archive_config
     \<Rightarrow> bytes option \<Rightarrow> archive_init option \<Rightarrow> archive_client \<Rightarrow> archive_client \<times> deploy_step" where
  "archive_status_arrived sha self now wasm data config module_hash init c =
     (let status = \<lparr>asc_timestamp = now, asc_module_hash = module_hash, asc_init = init\<rparr> in
      (cache_archive_status status c, deploy_with_status sha self wasm data config status))"

definition canister_status_returned ::
  "(bytes \<Rightarrow> bytes) \<Rightarrow> principal \<Rightarrow> timestamp \<Rightarrow> bytes \<Rightarrow> archive_data \<Rightarrow> archive_config
     \<Rightarrow> bytes option \<Rightarrow> archive_client \<Rightarrow> archive_client \<times> deploy_step" where
  "canister_status_returned sha self now wasm data config module_hash c =
     (case module_hash of
        Some hash \<Rightarrow> (c, DeployAwait (AwaitArchiveStatus wasm data config hash))
      | None \<Rightarrow> archive_status_arrived sha self now wasm data config None None c)"

definition create_archive_returned ::
  "bytes \<Rightarrow> archive_config \<Rightarrow> principal option \<Rightarrow> archive_client \<Rightarrow> archive_client \<times> deploy_step" where
  "create_archive_returned wasm config created c =
     (case created of
        Some canister_id \<Rightarrow>
          (c\<lparr>acl_state := Created \<lparr>ard_sequence_number = 0, ard_archive_canister = canister_id\<rparr> config\<rparr>,
           DeployAwait (AwaitInstall canister_id InstallMode wasm config))
      | None \<Rightarrow> (c\<lparr>acl_state := Configured config\<rparr>, DeployDone DeployFailed))"

definition install_archive_returned :: "principal \<Rightarrow> bool \<Rightarrow> archive_client \<Rightarrow> archive_client \<times> deploy_step" where
  "install_archive_returned canister_id installed c =
     (if installed then (invalidate_archive_status_cache c, DeployDone (DeploySuccess canister_id))
      else (c, DeployDone DeployFailed))"

section \<open>The archived operations\<close>

datatype archive_event =
    Archived anchor_number principal operation
  | Acknowledged principal u64

fun archive_event_step ::
  "(archive_entry \<Rightarrow> bytes) \<Rightarrow> timestamp \<times> archive_event \<Rightarrow> storage \<times> archive_state \<Rightarrow> (storage \<times> archive_state) option" where
  "archive_event_step encode (now, Archived n caller op) s = archive_operation encode now n caller op s"
| "archive_event_step encode (now, Acknowledged caller q) s = acknowledge_entries caller q s"

text \<open>
  A history from a state on, with the list of all entries that were archived and the number of
  entries acknowledged so far; an event that traps changes nothing.
\<close>

fun archive_history ::
  "(archive_entry \<Rightarrow> bytes) \<Rightarrow> (timestamp \<times> archive_event) list
     \<Rightarrow> (storage \<times> archive_state) \<times> buffered_entry list \<times> nat
     \<Rightarrow> (storage \<times> archive_state) \<times> buffered_entry list \<times> nat" where
  "archive_history encode [] (s, log, acked) = (s, log, acked)"
| "archive_history encode ((now, e) # es) (s, log, acked) =
     archive_history encode es
       (case archive_event_step encode (now, e) s of
          None \<Rightarrow> (s, log, acked)
        | Some s' \<Rightarrow>
            (s',
             case e of
               Archived n caller op \<Rightarrow>
                 (log @ [new_buffered_entry encode now n caller op (of_nat (length log))], acked)
             | Acknowledged caller q \<Rightarrow> (log, max acked (min (Suc (unat q)) (length log)))))"

text \<open>The buffer holds the entries of the log that have not been acknowledged.\<close>

definition numbered :: "'a list \<Rightarrow> nat \<Rightarrow> (u64 \<times> 'a) list" where
  "numbered log acked = map (\<lambda>i. (of_nat i, log ! i)) [acked..<length log]"

definition buffer_holds :: "principal \<Rightarrow> archive_config \<Rightarrow> storage \<times> archive_state \<Rightarrow> buffered_entry list \<Rightarrow> nat \<Rightarrow> bool" where
  "buffer_holds canister config s log acked \<longleftrightarrow>
     acked \<le> length log \<and> length log - acked \<le> unat (arc_entries_buffer_limit config)
     \<and> om_entries (st_archive_buffer (fst s)) = numbered log acked
     \<and> (\<forall>i < length log. be_sequence_number (log ! i) = of_nat i)
     \<and> snd s = Created \<lparr>ard_sequence_number = of_nat (length log), ard_archive_canister = canister\<rparr> config"

lemma ins_entry_last: "\<forall>x \<in> fst ` set xs. x < k \<Longrightarrow> ins_entry k v xs = xs @ [(k, v)]"
  by (induction xs) (auto simp: not_less)

lemma of_nat_less64: "i < n \<Longrightarrow> n < 2 ^ 64 \<Longrightarrow> (of_nat i :: u64) < of_nat n"
  by (simp add: word_less_nat_alt unat_of_nat64)

lemma numbered_snoc:
  assumes "acked \<le> length log" and "length log < 2 ^ 64"
  shows "ins_entry (of_nat (length log)) e (numbered log acked) = numbered (log @ [e]) acked"
proof -
  have "numbered (log @ [e]) acked = numbered log acked @ [(of_nat (length log), e)]"
    using assms(1) by (simp add: numbered_def nth_append)
  moreover have "\<forall>x \<in> fst ` set (numbered log acked). x < of_nat (length log)"
    using assms(2) by (auto simp: numbered_def of_nat_less64)
  ultimately show ?thesis by (simp add: ins_entry_last)
qed

lemma numbered_prune:
  assumes "length log < 2 ^ 64"
  shows "filter (\<lambda>e. q < fst e) (numbered log acked) = numbered log (max acked (min (Suc (unat q)) (length log)))"
proof -
  have *: "(q < of_nat i) = (Suc (unat q) \<le> i)" if "i < length log" for i
    using that assms by (simp add: word_less_nat_alt unat_of_nat64 Suc_le_eq)
  have "filter (\<lambda>e. q < fst e) (numbered log acked)
      = map (\<lambda>i. (of_nat i, log ! i)) (filter (\<lambda>i. Suc (unat q) \<le> i) [acked..<length log])"
    unfolding numbered_def filter_map comp_def fst_conv
    by (rule arg_cong [where f = "map _"], rule filter_cong) (simp_all add: *)
  moreover have "filter (\<lambda>i. m \<le> i) [a..<n] = [max a (min m n)..<n]" for m a n :: nat
  proof (induction n)
    case (Suc n)
    then show ?case by (cases "m \<le> n"; cases "a \<le> n") (auto simp: max_def min_def)
  qed simp
  ultimately show ?thesis by (simp add: numbered_def)
qed

lemma length_numbered [simp]: "length (numbered log acked) = length log - acked"
  by (simp add: numbered_def)

lemma buffer_holds_archived:
  assumes ok: "buffer_holds canister config s log acked" and room: "length log < 2 ^ 64"
    and step: "archive_operation encode now n caller op s = Some s'"
  shows "buffer_holds canister config s' (log @ [new_buffered_entry encode now n caller op (of_nat (length log))]) acked"
proof -
  obtain storage st where s: "s = (storage, st)" by (cases s)
  have st: "st = Created \<lparr>ard_sequence_number = of_nat (length log), ard_archive_canister = canister\<rparr> config"
    and buffer: "om_entries (st_archive_buffer storage) = numbered log acked" and le: "acked \<le> length log"
    using ok by (simp_all add: buffer_holds_def s)
  have "\<not> of_nat (length log - acked) \<ge> arc_entries_buffer_limit config"
    and s': "s' = (add_archive_entry storage (new_buffered_entry encode now n caller op (of_nat (length log))),
      Created \<lparr>ard_sequence_number = of_nat (length log) + 1, ard_archive_canister = canister\<rparr> config)"
    using step by (simp_all add: archive_operation_def s st archive_entries_count_def buffer split: if_splits)
  then have "length log - acked < unat (arc_entries_buffer_limit config)"
    using room by (simp add: word_le_nat_alt unat_of_nat64)
  with numbered_snoc [OF le room] le buffer show ?thesis
    using ok
    by (simp add: buffer_holds_def s' add_archive_entry_def om_entries_insert new_buffered_entry_def add.commute
        nth_append less_Suc_eq)
qed

lemma buffer_holds_acknowledged:
  assumes ok: "buffer_holds canister config s log acked" and room: "length log < 2 ^ 64"
    and step: "acknowledge_entries caller q s = Some s'"
  shows "buffer_holds canister config s' log (max acked (min (Suc (unat q)) (length log)))"
  using assms
  by (auto simp: buffer_holds_def acknowledge_entries_def prune_entries numbered_prune split: prod.splits if_splits)

lemma archive_history_holds:
  assumes "buffer_holds canister config s log acked" and "length log + length es < 2 ^ 64"
    and "archive_history encode es (s, log, acked) = (s', log', acked')"
  shows "buffer_holds canister config s' log' acked' \<and> length log' < 2 ^ 64"
  using assms
proof (induction es arbitrary: s log acked)
  case Nil
  then show ?case by simp
next
  case (Cons x es)
  obtain now e where x: "x = (now, e)" by (cases x)
  note prems = Cons.prems(1) Cons.prems(2) Cons.prems(3) [unfolded x]
  show ?case
  proof (cases "archive_event_step encode (now, e) s")
    case None
    with prems show ?thesis by (intro Cons.IH) auto
  next
    case (Some t)
    show ?thesis
    proof (cases e)
      case (Archived n caller op)
      have "buffer_holds canister config t (log @ [new_buffered_entry encode now n caller op (of_nat (length log))]) acked"
        using prems Some by (intro buffer_holds_archived) (auto simp: Archived)
      with prems Some Archived show ?thesis by (intro Cons.IH) auto
    next
      case (Acknowledged caller q)
      have "buffer_holds canister config t log (max acked (min (Suc (unat q)) (length log)))"
        using prems Some by (intro buffer_holds_acknowledged) (auto simp: Acknowledged)
      with prems Some Acknowledged show ?thesis by (intro Cons.IH) auto
    qed
  qed
qed

text \<open>
  Every archived operation reaches the archive once, in order and with its number.
  From the creation of the archive on, through any history of operations and acknowledgements by
  any caller, the buffer holds exactly the archived operations that the archive canister has
  not acknowledged, numbered consecutively by their position in the history, and never more than
  the configured limit; the archive canister (and nobody else) fetches them from the oldest on.
\<close>

theorem archived_operations_kept:
  assumes fresh: "s = (storage, Created \<lparr>ard_sequence_number = 0, ard_archive_canister = canister\<rparr> config)"
      "st_archive_buffer storage = om_empty"
    and run: "archive_history encode es (s, [], 0) = ((storage', st'), log, acked)"
    and room: "length es < 2 ^ 64"
  shows "buffered_entries storage' = drop acked log
    \<and> map be_sequence_number (drop acked log) = map of_nat [acked..<length log]
    \<and> length log - acked \<le> unat (arc_entries_buffer_limit config)
    \<and> fetch_entries caller (storage', st') =
        (if caller = canister then Some (take (unat (arc_entries_fetch_limit config)) (drop acked log)) else None)"
proof -
  have start: "buffer_holds canister config s [] 0"
    by (simp add: buffer_holds_def fresh numbered_def)
  have ok: "buffer_holds canister config (storage', st') log acked"
    using archive_history_holds [OF start _ run] room by simp
  have le: "acked \<le> length log" and limit: "length log - acked \<le> unat (arc_entries_buffer_limit config)"
    and entries: "om_entries (st_archive_buffer storage') = numbered log acked"
    and st: "st' = Created \<lparr>ard_sequence_number = of_nat (length log), ard_archive_canister = canister\<rparr> config"
    and numbers: "\<forall>i < length log. be_sequence_number (log ! i) = of_nat i"
    using ok by (simp_all add: buffer_holds_def)
  have drop: "map snd (numbered log acked) = drop acked log"
    by (rule nth_equalityI) (simp_all add: numbered_def)
  have "map be_sequence_number (drop acked log) = map of_nat [acked..<length log]"
    using numbers by (intro nth_equalityI) simp_all
  with drop entries limit show ?thesis
    by (simp add: buffered_entries_def fetch_entries_def st get_archive_entries_def take_map [symmetric])
qed

definition sample_archive :: "storage \<times> archive_state" where
  "sample_archive =
     (sample_storage,
      Created \<lparr>ard_sequence_number = 0, ard_archive_canister = [1]\<rparr>
        \<lparr>arc_module_hash = [], arc_entries_buffer_limit = 10, arc_polling_interval_ns = 1, arc_entries_fetch_limit = 5\<rparr>)"

theorem archived_operations_kept_witness:
  "\<exists>s. archive_history (\<lambda>_. []) [(1, Archived 10000 [2] AddName), (2, Archived 10000 [2] RemoveName), (3, Acknowledged [1] 0)]
      (sample_archive, [], 0) = (s, map (\<lambda>(t, op, i). new_buffered_entry (\<lambda>_. []) t 10000 [2] op i)
         [(1, AddName, 0), (2, RemoveName, 1)], 1)
    \<and> map be_sequence_number (buffered_entries (fst s)) = [1]"
proof -
  let ?es = "[(1, Archived 10000 [2] AddName), (2, Archived 10000 [2] RemoveName), (3, Acknowledged [1] 0)]"
  have empty: "st_archive_buffer sample_storage = om_empty"
    by (simp add: sample_storage_def storage_new_def MAX_ENTRIES_value init_with_header_def flush_def empty_storage_def)
  obtain s where run: "archive_history (\<lambda>_. []) ?es (sample_archive, [], 0) =
      (s, map (\<lambda>(t, op, i). new_buffered_entry (\<lambda>_. []) t 10000 [2] op i) [(1, AddName, 0), (2, RemoveName, 1)], 1)"
    by (simp add: sample_archive_def archive_operation_def acknowledge_entries_def archive_entries_count_def
        empty om_entries_insert add_archive_entry_def new_buffered_entry_def word_le_nat_alt)
  with archived_operations_kept [OF sample_archive_def empty, of "\<lambda>_. []" ?es "fst s" "snd s"] show ?thesis
    by (auto simp: new_buffered_entry_def)
qed

section \<open>The deployment as a state machine\<close>

fun pending :: "deploy_step \<Rightarrow> deploy_call list" where
  "pending (DeployDone r) = []"
| "pending (DeployAwait call) = [call]"

fun creation_since :: "deploy_call \<Rightarrow> timestamp option" where
  "creation_since (AwaitCreation wasm since config) = Some since"
| "creation_since _ = None"

fun created_canister :: "deploy_call \<Rightarrow> principal option" where
  "created_canister (AwaitCanisterStatus wasm data config) = Some (ard_archive_canister data)"
| "created_canister (AwaitArchiveStatus wasm data config hash) = Some (ard_archive_canister data)"
| "created_canister (AwaitInstall canister mode wasm config) = Some canister"
| "created_canister (AwaitCreation wasm since config) = None"

definition CREATION_TIMEOUT :: nat where "CREATION_TIMEOUT = 24 * 60 * 60 * 10 ^ 9"

text \<open>Whether a call of \<open>deploy_archive\<close> gives up the lock of a creation that has not been answered for a day.\<close>

definition gives_up :: "timestamp \<Rightarrow> archive_client \<Rightarrow> nat" where
  "gives_up now c = (if unlock_archive_if_stuck now c = c then 0 else 1)"

text \<open>
  All the states an installation can get into when calls of \<open>deploy_archive\<close>, their answers in any order and
  after any time, changes of the configuration and archived operations are interleaved arbitrarily from the time
  \<open>t0\<close> on. Time does not go back. \<open>made\<close> are the canisters that have been created, and the number at the end
  counts the locks that were given up.
\<close>

inductive deploy_reachable ::
  "(bytes \<Rightarrow> bytes) \<Rightarrow> principal \<Rightarrow> timestamp \<Rightarrow> timestamp \<Rightarrow> archive_client \<Rightarrow> deploy_call list \<Rightarrow> principal list
     \<Rightarrow> nat \<Rightarrow> bool"
  for sha self t0 where
  install: "deploy_reachable sha self t0 t0 \<lparr>acl_state = NotConfigured, acl_status_cache = None\<rparr> [] [] 0"
| wait: "deploy_reachable sha self t0 now c calls made k \<Longrightarrow> now \<le> now'
    \<Longrightarrow> deploy_reachable sha self t0 now' c calls made k"
| configure: "deploy_reachable sha self t0 now c calls made k
    \<Longrightarrow> deploy_reachable sha self t0 now (c\<lparr>acl_state := update_archive_config config (acl_state c)\<rparr>) calls made k"
| archived: "deploy_reachable sha self t0 now c calls made k \<Longrightarrow> acl_state c = Created data config
    \<Longrightarrow> deploy_reachable sha self t0 now
          (c\<lparr>acl_state := Created (data\<lparr>ard_sequence_number := ard_sequence_number data + 1\<rparr>) config\<rparr>) calls made k"
| deploy: "deploy_reachable sha self t0 now c calls made k \<Longrightarrow> deploy_archive sha self now wasm c = (c', step)
    \<Longrightarrow> deploy_reachable sha self t0 now c' (pending step @ calls) made (k + gives_up now c)"
| canister_status: "deploy_reachable sha self t0 now c (xs @ AwaitCanisterStatus wasm data config # ys) made k
    \<Longrightarrow> canister_status_returned sha self now wasm data config module_hash c = (c', step)
    \<Longrightarrow> deploy_reachable sha self t0 now c' (pending step @ xs @ ys) made k"
| archive_status: "deploy_reachable sha self t0 now c (xs @ AwaitArchiveStatus wasm data config hash # ys) made k
    \<Longrightarrow> archive_status_arrived sha self now wasm data config (Some hash) init c = (c', step)
    \<Longrightarrow> deploy_reachable sha self t0 now c' (pending step @ xs @ ys) made k"
| creation: "deploy_reachable sha self t0 now c (xs @ AwaitCreation wasm since config # ys) made k
    \<Longrightarrow> create_archive_returned wasm config created c = (c', step)
    \<Longrightarrow> deploy_reachable sha self t0 now c' (pending step @ xs @ ys)
          (case created of None \<Rightarrow> made | Some canister \<Rightarrow> canister # made) k"
| installation: "deploy_reachable sha self t0 now c (xs @ AwaitInstall canister mode wasm config # ys) made k
    \<Longrightarrow> install_archive_returned canister installed c = (c', step)
    \<Longrightarrow> deploy_reachable sha self t0 now c' (pending step @ xs @ ys) made k"

definition creations :: "deploy_call list \<Rightarrow> timestamp list" where
  "creations calls = List.map_filter creation_since calls"

lemma creations_simps [simp]:
  "creations [] = []"
  "creations (call # calls) = (case creation_since call of None \<Rightarrow> creations calls | Some t \<Rightarrow> t # creations calls)"
  "creations (xs @ ys) = creations xs @ creations ys"
  by (simp_all add: creations_def List.map_filter_def split: option.split)

definition targets :: "deploy_call list \<Rightarrow> principal list" where
  "targets calls = List.map_filter created_canister calls"

lemma targets_simps [simp]:
  "targets [] = []"
  "targets (call # calls) = (case created_canister call of None \<Rightarrow> targets calls | Some p \<Rightarrow> p # targets calls)"
  "targets (xs @ ys) = targets xs @ targets ys"
  by (simp_all add: targets_def List.map_filter_def split: option.split)

text \<open>
  The lock as long as it was never given up: no creation is in flight outside \<open>CreationInProgress\<close>, and there
  it is the only one.
\<close>

definition deploy_ok :: "archive_client \<Rightarrow> deploy_call list \<Rightarrow> principal list \<Rightarrow> bool" where
  "deploy_ok c calls made \<longleftrightarrow>
     (case acl_state c of
        NotConfigured \<Rightarrow> creations calls = [] \<and> made = []
      | Configured _ \<Rightarrow> creations calls = [] \<and> made = []
      | CreationInProgress t _ \<Rightarrow> creations calls = [t] \<and> made = []
      | Created data _ \<Rightarrow> creations calls = [] \<and> made = [ard_archive_canister data])
     \<and> (\<forall>canister \<in> set (targets calls). made = [canister])"

text \<open>In general: every creation beyond the one of the lock took a lock that was given up, and that takes a day.\<close>

definition lock_held :: "archive_client \<Rightarrow> nat" where
  "lock_held c = (case acl_state c of CreationInProgress _ _ \<Rightarrow> 1 | Created _ _ \<Rightarrow> 1 | _ \<Rightarrow> 0)"

definition locks_spaced :: "timestamp \<Rightarrow> timestamp \<Rightarrow> archive_client \<Rightarrow> nat \<Rightarrow> bool" where
  "locks_spaced t0 now c k \<longleftrightarrow>
     unat t0 + k * CREATION_TIMEOUT \<le> unat now
     \<and> (case acl_state c of CreationInProgress t _ \<Rightarrow> t \<le> now \<and> unat t0 + k * CREATION_TIMEOUT \<le> unat t | _ \<Rightarrow> True)"

definition deploy_counts :: "timestamp \<Rightarrow> timestamp \<Rightarrow> archive_client \<Rightarrow> deploy_call list \<Rightarrow> principal list \<Rightarrow> nat \<Rightarrow> bool" where
  "deploy_counts t0 now c calls made k \<longleftrightarrow>
     length (creations calls) + length made \<le> lock_held c + k \<and> locks_spaced t0 now c k"

lemma deploy_with_status_pending:
  "pending (deploy_with_status sha self wasm data config status) = []
   \<or> (\<exists>mode w. pending (deploy_with_status sha self wasm data config status) = [AwaitInstall (ard_archive_canister data) mode w config])"
  by (auto simp: deploy_with_status_def split: option.split)

lemma given_up:
  assumes "unlock_archive_if_stuck now c \<noteq> c" and "locks_spaced t0 now c k"
  obtains t config where "acl_state c = CreationInProgress t config"
    and "unlock_archive_if_stuck now c = c\<lparr>acl_state := Configured config\<rparr>"
    and "unat t0 + (k + 1) * CREATION_TIMEOUT \<le> unat now"
proof -
  obtain t config where st: "acl_state c = CreationInProgress t config" and late: "now - t > secs_to_nanos (24 * 60 * 60)"
    using assms(1) by (auto simp: unlock_archive_if_stuck_def split: archive_state.splits if_splits)
  have "t \<le> now" and t: "unat t0 + k * CREATION_TIMEOUT \<le> unat t" using assms(2) by (simp_all add: locks_spaced_def st)
  moreover have "unat (secs_to_nanos (24 * 60 * 60)) = CREATION_TIMEOUT"
    by (simp add: secs_to_nanos_def CREATION_TIMEOUT_def)
  ultimately have "CREATION_TIMEOUT < unat now - unat t" using late by (simp add: word_less_nat_alt unat64_sub)
  with t have "unat t0 + (k + 1) * CREATION_TIMEOUT \<le> unat now" by simp
  then show thesis using st late by (intro that) (simp_all add: unlock_archive_if_stuck_def)
qed

lemma deploy_ok_deploy:
  assumes ok: "deploy_ok c calls made" and same: "unlock_archive_if_stuck now c = c"
    and step: "deploy_archive sha self now wasm c = (c', step)"
  shows "deploy_ok c' (pending step @ calls) made"
proof (cases "acl_state c")
  case (Configured config)
  with ok step same show ?thesis
    by (auto simp: deploy_archive_def deploy_ok_def split: option.splits)
next
  case (Created data config)
  show ?thesis
  proof (cases "cached_archive_status now c")
    case None
    with Created ok step same show ?thesis by (auto simp: deploy_archive_def deploy_ok_def)
  next
    case (Some status)
    with Created ok step same deploy_with_status_pending [of sha self wasm data config status] show ?thesis
      by (auto simp: deploy_archive_def deploy_ok_def)
  qed
qed (use ok step same in \<open>auto simp: deploy_archive_def deploy_ok_def\<close>)

lemma deploy_counts_unlocked:
  assumes counts: "deploy_counts t0 now c calls made k" and same: "unlock_archive_if_stuck now c = c"
    and step: "deploy_archive sha self now wasm c = (c', step)"
  shows "deploy_counts t0 now c' (pending step @ calls) made k"
proof (cases "acl_state c")
  case (Configured config)
  with counts step same show ?thesis
    by (auto simp: deploy_archive_def deploy_counts_def lock_held_def locks_spaced_def split: option.splits)
next
  case (Created data config)
  then have "c' = c \<and> creations (pending step) = []"
    using step same deploy_with_status_pending [of sha self wasm data config]
    by (auto simp: deploy_archive_def split: option.splits) (metis creations_simps(1,2) creation_since.simps(4) option.case(1))
  with counts show ?thesis by (simp add: deploy_counts_def)
qed (use counts step same in \<open>auto simp: deploy_archive_def\<close>)

lemma deploy_counts_deploy:
  assumes counts: "deploy_counts t0 now c calls made k" and step: "deploy_archive sha self now wasm c = (c', step)"
  shows "deploy_counts t0 now c' (pending step @ calls) made (k + gives_up now c)"
proof (cases "unlock_archive_if_stuck now c = c")
  case True
  with deploy_counts_unlocked [OF counts True step] show ?thesis by (simp add: gives_up_def)
next
  case False
  obtain t config where st: "acl_state c = CreationInProgress t config"
    and un: "unlock_archive_if_stuck now c = c\<lparr>acl_state := Configured config\<rparr>"
    and time: "unat t0 + (k + 1) * CREATION_TIMEOUT \<le> unat now"
    using given_up [OF False] counts unfolding deploy_counts_def by blast
  let ?c = "c\<lparr>acl_state := Configured config\<rparr>"
  have idle: "unlock_archive_if_stuck now ?c = ?c" by (simp add: unlock_archive_if_stuck_def)
  have "deploy_counts t0 now ?c calls made (k + 1)"
    using counts time st by (simp add: deploy_counts_def lock_held_def locks_spaced_def)
  moreover have "deploy_archive sha self now wasm ?c = (c', step)"
    using step by (simp add: deploy_archive_def un idle)
  ultimately show ?thesis
    using deploy_counts_unlocked [OF _ idle] False by (simp add: gives_up_def)
qed

lemma deploy_ok_status_arrived:
  assumes ok: "deploy_ok c (xs @ call # ys) made" and call: "created_canister call = Some (ard_archive_canister data)"
    and step: "archive_status_arrived sha self now wasm data config module_hash init c = (c', step)"
  shows "deploy_ok c' (pending step @ xs @ ys) made"
proof -
  have none: "creation_since call = None" using call by (cases call) simp_all
  have made: "made = [ard_archive_canister data]" using ok call by (simp add: deploy_ok_def)
  let ?status = "\<lparr>asc_timestamp = now, asc_module_hash = module_hash, asc_init = init\<rparr>"
  have c': "acl_state c' = acl_state c" "step = deploy_with_status sha self wasm data config ?status"
    using step by (auto simp: archive_status_arrived_def cache_archive_status_def Let_def)
  have rest: "deploy_ok c' (xs @ ys) made"
    using ok none call by (auto simp: deploy_ok_def c' split: archive_state.splits)
  from deploy_with_status_pending [of sha self wasm data config ?status] show ?thesis
  proof
    assume "pending (deploy_with_status sha self wasm data config ?status) = []"
    with rest show ?thesis by (simp add: c')
  next
    assume "\<exists>mode w. pending (deploy_with_status sha self wasm data config ?status)
      = [AwaitInstall (ard_archive_canister data) mode w config]"
    with rest made show ?thesis by (auto simp: deploy_ok_def c' split: archive_state.splits)
  qed
qed

lemma deploy_ok_created:
  assumes ok: "deploy_ok c (xs @ AwaitCreation wasm since config # ys) made"
    and step: "create_archive_returned wasm config created c = (c', step)"
  shows "deploy_ok c' (pending step @ xs @ ys) (case created of None \<Rightarrow> made | Some canister \<Rightarrow> canister # made)"
proof -
  have locked: "\<exists>cfg. acl_state c = CreationInProgress since cfg" "made = []" "creations (xs @ ys) = []"
    using ok by (auto simp: deploy_ok_def append_eq_Cons_conv split: archive_state.splits)
  have "\<forall>canister. canister \<notin> set (targets xs) \<and> canister \<notin> set (targets ys)"
    using ok locked(2) by (simp add: deploy_ok_def)
  then have free: "targets xs = []" "targets ys = []"
    by (metis equals0I set_empty)+
  from step locked free show ?thesis
    by (cases created) (auto simp: create_archive_returned_def deploy_ok_def)
qed

lemma deploy_reachable_ok: "deploy_reachable sha self t0 now c calls made k \<Longrightarrow> k = 0 \<Longrightarrow> deploy_ok c calls made"
proof (induction rule: deploy_reachable.induct)
  case install
  show ?case by (simp add: deploy_ok_def)
next
  case (wait now c calls made k now')
  then show ?case by simp
next
  case (configure now c calls made k config)
  then show ?case by (auto simp: deploy_ok_def update_archive_config_def split: archive_state.splits)
next
  case (archived now c calls made k data config)
  then show ?case by (auto simp: deploy_ok_def)
next
  case (deploy now c calls made k wasm c' step)
  then show ?case by (intro deploy_ok_deploy) (auto simp: gives_up_def split: if_splits)
next
  case (canister_status now c xs wasm data config ys made k module_hash c' step)
  show ?case
  proof (cases module_hash)
    case None
    with canister_status deploy_ok_status_arrived show ?thesis
      by (force simp: canister_status_returned_def)
  next
    case (Some hash)
    with canister_status show ?thesis
      by (auto simp: canister_status_returned_def deploy_ok_def split: archive_state.splits)
  qed
next
  case (archive_status now c xs wasm data config hash ys made k init c' step)
  then show ?case by (intro deploy_ok_status_arrived) auto
next
  case (creation now c xs wasm since config ys made k created c' step)
  then show ?case by (intro deploy_ok_created) auto
next
  case (installation now c xs canister mode wasm config ys made k installed c' step)
  then show ?case
    by (auto simp: install_archive_returned_def invalidate_archive_status_cache_def deploy_ok_def
        split: archive_state.splits if_splits)
qed

lemma deploy_counts_status:
  assumes "deploy_counts t0 now c (xs @ call # ys) made k" and "creation_since call = None"
    and "acl_state c' = acl_state c" and "creations (pending step) = []"
  shows "deploy_counts t0 now c' (pending step @ xs @ ys) made k"
  using assms by (simp add: deploy_counts_def lock_held_def locks_spaced_def)

lemma archive_status_arrived_pending:
  assumes "archive_status_arrived sha self now wasm data config module_hash init c = (c', step)"
  shows "acl_state c' = acl_state c \<and> creations (pending step) = []"
proof -
  let ?status = "\<lparr>asc_timestamp = now, asc_module_hash = module_hash, asc_init = init\<rparr>"
  have "acl_state c' = acl_state c" and step: "step = deploy_with_status sha self wasm data config ?status"
    using assms by (auto simp: archive_status_arrived_def cache_archive_status_def Let_def)
  with deploy_with_status_pending [of sha self wasm data config ?status] show ?thesis by auto
qed

lemma deploy_reachable_counts:
  "deploy_reachable sha self t0 now c calls made k \<Longrightarrow> deploy_counts t0 now c calls made k"
proof (induction rule: deploy_reachable.induct)
  case install
  show ?case by (simp add: deploy_counts_def lock_held_def locks_spaced_def)
next
  case (wait now c calls made k now')
  then show ?case
    by (auto simp: deploy_counts_def locks_spaced_def word_le_nat_alt split: archive_state.splits)
next
  case (configure now c calls made k config)
  then show ?case
    by (auto simp: deploy_counts_def lock_held_def locks_spaced_def update_archive_config_def split: archive_state.splits)
next
  case (archived now c calls made k data config)
  then show ?case by (simp add: deploy_counts_def lock_held_def locks_spaced_def)
next
  case (deploy now c calls made k wasm c' step)
  then show ?case by (intro deploy_counts_deploy)
next
  case (canister_status now c xs wasm data config ys made k module_hash c' step)
  have "acl_state c' = acl_state c \<and> creations (pending step) = []"
    using canister_status.hyps(2) archive_status_arrived_pending [of sha self now wasm data config None None c c' step]
    by (auto simp: canister_status_returned_def split: option.splits)
  then show ?case by (intro deploy_counts_status [OF canister_status.IH]) (simp_all only: creation_since.simps)
next
  case (archive_status now c xs wasm data config hash ys made k init c' step)
  from archive_status_arrived_pending [OF archive_status.hyps(2)] show ?case
    by (intro deploy_counts_status [OF archive_status.IH]) (simp_all only: creation_since.simps)
next
  case (creation now c xs wasm since config ys made k created c' step)
  then show ?case
    by (cases created) (auto simp: create_archive_returned_def deploy_counts_def lock_held_def locks_spaced_def
        split: archive_state.splits)
next
  case (installation now c xs canister mode wasm config ys made k installed c' step)
  then show ?case
    by (auto simp: install_archive_returned_def invalidate_archive_status_cache_def deploy_counts_def lock_held_def
        locks_spaced_def split: archive_state.splits if_splits)
qed

text \<open>
  Property C24. However calls of \<open>deploy_archive\<close>, their answers after any time, configurations and archived
  operations interleave: creations in flight and canisters created are at most one more than the locks given
  up, each after a full day. While none is given up, there is one archive, and code is installed only there.
  In detail: without a lock given up, a creation is in flight exactly in the state \<open>CreationInProgress\<close> and a
  canister has been created exactly in the state \<open>Created\<close>, whose archive it is. A lock is given up only when
  the creation has gone without an answer for more than a day.
\<close>

theorem archive_created_once:
  assumes "deploy_reachable sha self t0 now c calls made given_up"
  shows "length (creations calls) + length made \<le> 1 + given_up
    \<and> unat t0 + given_up * CREATION_TIMEOUT \<le> unat now
    \<and> (given_up = 0 \<longrightarrow>
        (creations calls \<noteq> [] \<longleftrightarrow> (\<exists>t config. acl_state c = CreationInProgress t config))
        \<and> (made \<noteq> [] \<longleftrightarrow> (\<exists>data config. acl_state c = Created data config \<and> made = [ard_archive_canister data]))
        \<and> (\<forall>canister mode w config. AwaitInstall canister mode w config \<in> set calls \<longrightarrow> made = [canister]))"
proof -
  have "made = [canister]" if "AwaitInstall canister mode w config \<in> set calls" "given_up = 0" for canister mode w config
  proof -
    have "canister \<in> set (targets calls)"
      using that by (force simp: targets_def List.map_filter_def)
    with deploy_reachable_ok [OF assms that(2)] show ?thesis by (simp add: deploy_ok_def)
  qed
  moreover have "lock_held c \<le> 1" by (simp add: lock_held_def split: archive_state.split)
  ultimately show ?thesis
    using deploy_reachable_counts [OF assms] deploy_reachable_ok [OF assms]
    by (auto simp: deploy_ok_def deploy_counts_def locks_spaced_def split: archive_state.splits)
qed

definition sample_archive_config :: archive_config where
  "sample_archive_config =
     \<lparr>arc_module_hash = [1], arc_entries_buffer_limit = 10, arc_polling_interval_ns = 1, arc_entries_fetch_limit = 5\<rparr>"

lemma sample_creation:
  "deploy_reachable (\<lambda>w. w) self 7 7
     \<lparr>acl_state = CreationInProgress 7 sample_archive_config, acl_status_cache = None\<rparr>
     [AwaitCreation [1] 7 sample_archive_config] [] 0"
proof -
  let ?c = "\<lparr>acl_state = Configured sample_archive_config, acl_status_cache = None\<rparr>"
  have configured: "deploy_reachable (\<lambda>w. w) self 7 7 ?c [] [] 0"
    using deploy_reachable.configure [OF deploy_reachable.install, of _ _ 7 sample_archive_config]
    by (simp add: update_archive_config_def)
  have step: "deploy_archive (\<lambda>w. w) self 7 [1] ?c
    = (\<lparr>acl_state = CreationInProgress 7 sample_archive_config, acl_status_cache = None\<rparr>,
       DeployAwait (AwaitCreation [1] 7 sample_archive_config))"
    by (simp add: deploy_archive_def unlock_archive_if_stuck_def verify_wasm_def sample_archive_config_def)
  have "gives_up 7 ?c = 0" by (simp add: gives_up_def unlock_archive_if_stuck_def)
  with deploy_reachable.deploy [OF configured step] show ?thesis by simp
qed

theorem archive_created_once_witness:
  "\<exists>c calls. deploy_reachable (\<lambda>w. w) [5] 7 7 c calls [[9]] 0 \<and> length (creations calls) = 0
     \<and> (\<exists>data config. acl_state c = Created data config \<and> ard_archive_canister data = [9])"
proof -
  have r: "deploy_reachable (\<lambda>w. w) [5] 7 7
      \<lparr>acl_state = Created \<lparr>ard_sequence_number = 0, ard_archive_canister = [9]\<rparr> sample_archive_config,
       acl_status_cache = None\<rparr> [AwaitInstall [9] InstallMode [1] sample_archive_config] [[9]] 0"
    using deploy_reachable.creation [where xs = "[]" and ys = "[]" and created = "Some [9]", simplified, OF sample_creation]
    by (simp add: create_archive_returned_def)
  from archive_created_once [OF r]
  have "length (creations [AwaitInstall [9] InstallMode [1] sample_archive_config]) = 0" by simp
  with r show ?thesis by fastforce
qed

text \<open>
  Without the answer within a day the lock is given up, and the late answer to the first creation
  replaces the archive that has been created meanwhile and starts its numbering again.
\<close>

lemma late_creation_replaces_archive:
  "let c0 = \<lparr>acl_state = Configured sample_archive_config, acl_status_cache = None\<rparr>;
       later = 25 * HOUR_NS;
       (c1, s1) = deploy_archive (\<lambda>w. w) self 0 [1] c0;
       (c2, s2) = deploy_archive (\<lambda>w. w) self later [1] c1;
       (c3, _) = create_archive_returned [1] sample_archive_config (Some [9]) c2;
       (c4, _) = create_archive_returned [1] sample_archive_config (Some [8]) c3 in
   creations (pending s1 @ pending s2) = [0, later]
   \<and> acl_state c3 = Created \<lparr>ard_sequence_number = 0, ard_archive_canister = [9]\<rparr> sample_archive_config
   \<and> acl_state c4 = Created \<lparr>ard_sequence_number = 0, ard_archive_canister = [8]\<rparr> sample_archive_config"
  by (simp add: deploy_archive_def unlock_archive_if_stuck_def verify_wasm_def sample_archive_config_def
      create_archive_returned_def HOUR_NS_def secs_to_nanos_def)

end
