(* ===== verification/Archive_Canister.thy ===== *)
theory Archive_Canister
  imports Archive_Client "HOL-Library.Product_Lexorder"
begin

text \<open>
  The archive canister (\<open>src/archive\<close>): it fetches the buffered operations from Internet Identity,
  appends them to a log in stable memory, indexes them by anchor, acknowledges them and serves them
  page by page. The log and the index are structures of a crate, a list and a finite map here; that
  the stable memory is never exhausted is assumed. \<open>fetch_entries\<close> is split at its two calls.
  Arithmetic of the release build wraps.
\<close>

section \<open>State\<close>

record call_error_info =
  cei_time :: timestamp
  cei_canister :: principal
  cei_method :: string
  cei_argument :: bytes
  cei_rejection_code :: u32
  cei_message :: string

record fetch_info =
  fi_timestamp :: timestamp
  fi_number_of_entries :: u16

record call_info =
  ci_last_successful_fetch :: "fetch_info option"
  ci_call_errors :: "call_error_info list"

record archive_canister_config =
  acc_ii_canister :: principal
  acc_max_entries_per_call :: u16
  acc_last_upgrade_timestamp :: timestamp
  acc_polling_interval_ns :: "u64 option"
  acc_error_buffer_limit :: "u16 option"
  acc_highest_sequence_number :: "u64 option"

datatype config_state = Uninitialized | Initialized archive_canister_config

text \<open>A key of the index: anchor, timestamp, position in the log; ordered field by field.\<close>

type_synonym anchor_index_key = "anchor_number \<times> timestamp \<times> u64"

record archive_canister =
  av_config :: config_state
  av_log :: "bytes list"
  av_index :: "(anchor_index_key, unit) omap"
  av_call_info :: call_info

definition no_archive :: archive_canister where
  "no_archive =
     \<lparr>av_config = Uninitialized, av_log = [], av_index = om_empty,
      av_call_info = \<lparr>ci_last_successful_fetch = None, ci_call_errors = []\<rparr>\<rparr>"

text \<open>
  Candid: the encoding of the arguments, and the decoding of an entry. Decoded as an optional entry
  (\<open>can_decode_opt\<close>), an entry of an unknown type is none instead of an error.
\<close>

record archive_candid =
  can_unit :: bytes
  can_u64 :: "u64 \<Rightarrow> bytes"
  can_decode :: "bytes \<Rightarrow> archive_entry option"
  can_decode_opt :: "bytes \<Rightarrow> archive_entry option option"

section \<open>Keys of the index\<close>

definition be_bytes :: "u64 \<Rightarrow> bytes" where
  "be_bytes w = rev (le_bytes 8 (unat w))"

definition be_value :: "bytes \<Rightarrow> u64" where
  "be_value b = of_nat (le_value (rev b))"

fun index_key_to_bytes :: "anchor_index_key \<Rightarrow> bytes" where
  "index_key_to_bytes (anchor, t, i) = be_bytes anchor @ be_bytes t @ be_bytes i"

text \<open>A slice that is too short, or a rest that is not of eight bytes, traps.\<close>

definition index_key_from_bytes :: "bytes \<Rightarrow> anchor_index_key option" where
  "index_key_from_bytes b =
     (if length b = 24 then Some (be_value (take 8 b), be_value (take 8 (drop 8 b)), be_value (drop 16 b)) else None)"

section \<open>Configuration\<close>

definition archive_highest_sequence_number :: "archive_canister \<Rightarrow> u64 option" where
  "archive_highest_sequence_number a =
     (case av_config a of Uninitialized \<Rightarrow> None | Initialized config \<Rightarrow> acc_highest_sequence_number config)"

definition set_highest_sequence_number :: "u64 \<Rightarrow> archive_canister \<Rightarrow> archive_canister option" where
  "set_highest_sequence_number q a =
     (case av_config a of
        Uninitialized \<Rightarrow> None
      | Initialized config \<Rightarrow> Some (a\<lparr>av_config := Initialized (config\<lparr>acc_highest_sequence_number := Some q\<rparr>)\<rparr>))"

text \<open>\<open>init\<close> and \<open>post_upgrade\<close>; the information on calls is not kept over an upgrade.\<close>

definition archive_initialize :: "timestamp \<Rightarrow> archive_init \<Rightarrow> archive_canister \<Rightarrow> archive_canister" where
  "archive_initialize now arg a =
     a\<lparr>av_config := Initialized
          \<lparr>acc_ii_canister = ari_ii_canister arg, acc_max_entries_per_call = ari_max_entries_per_call arg,
           acc_last_upgrade_timestamp = now, acc_polling_interval_ns = Some (ari_polling_interval_ns arg),
           acc_error_buffer_limit = Some (ari_error_buffer_limit arg),
           acc_highest_sequence_number = archive_highest_sequence_number a\<rparr>,
       av_call_info := \<lparr>ci_last_successful_fetch = None, ci_call_errors = []\<rparr>\<rparr>"

section \<open>Writing\<close>

definition write_entry_internal :: "anchor_number \<Rightarrow> timestamp \<Rightarrow> bytes \<Rightarrow> archive_canister \<Rightarrow> archive_canister" where
  "write_entry_internal anchor t entry a =
     a\<lparr>av_log := av_log a @ [entry],
       av_index := om_insert (anchor, t, of_nat (length (av_log a))) () (av_index a)\<rparr>"

definition write_entry ::
  "principal \<Rightarrow> anchor_number \<Rightarrow> timestamp \<Rightarrow> bytes \<Rightarrow> archive_canister \<Rightarrow> archive_canister option" where
  "write_entry caller anchor t entry a =
     (case av_config a of
        Uninitialized \<Rightarrow> None
      | Initialized config \<Rightarrow>
          if acc_ii_canister config \<noteq> caller then None else Some (write_entry_internal anchor t entry a))"

section \<open>Fetching\<close>

text \<open>Removing the oldest error of an empty buffer (a limit of 0) traps.\<close>

definition store_call_error :: "call_error_info \<Rightarrow> archive_canister \<Rightarrow> archive_canister option" where
  "store_call_error e a =
     (case av_config a of
        Uninitialized \<Rightarrow> None
      | Initialized config \<Rightarrow>
          (case acc_error_buffer_limit config of
             None \<Rightarrow> None
           | Some limit \<Rightarrow>
               (let errors = ci_call_errors (av_call_info a) in
                if length errors \<ge> unat limit
                then (case errors of
                        [] \<Rightarrow> None
                      | _ # rest \<Rightarrow> Some (a\<lparr>av_call_info := (av_call_info a)\<lparr>ci_call_errors := rest @ [e]\<rparr>\<rparr>))
                else Some (a\<lparr>av_call_info := (av_call_info a)\<lparr>ci_call_errors := errors @ [e]\<rparr>\<rparr>))))"

definition fetch_succeeded :: "timestamp \<Rightarrow> nat \<Rightarrow> archive_canister \<Rightarrow> archive_canister" where
  "fetch_succeeded now n a =
     a\<lparr>av_call_info := (av_call_info a)\<lparr>ci_last_successful_fetch :=
         Some \<lparr>fi_timestamp = now, fi_number_of_entries = of_nat n\<rparr>\<rparr>\<rparr>"

text \<open>A rejected call has a code and a message.\<close>

type_synonym call_rejection = "u32 \<times> string"

text \<open>The calls the archive waits for, with the locals that live across them.\<close>

datatype archive_call =
    AwaitFetch timestamp principal
  | AwaitAcknowledge timestamp principal u64 nat

definition archive_fetch_start :: "timestamp \<Rightarrow> archive_canister \<Rightarrow> archive_call option" where
  "archive_fetch_start now a =
     (case av_config a of
        Uninitialized \<Rightarrow> None
      | Initialized config \<Rightarrow> Some (AwaitFetch now (acc_ii_canister config)))"

definition expected_sequence_number :: "buffered_entry list \<Rightarrow> archive_canister \<Rightarrow> u64" where
  "expected_sequence_number entries a =
     (case archive_highest_sequence_number a of
        None \<Rightarrow> be_sequence_number (hd entries)
      | Some q \<Rightarrow> q + 1)"

definition archive_entries ::
  "buffered_entry list \<Rightarrow> archive_canister \<Rightarrow> archive_canister option" where
  "archive_entries entries a =
     (let expected = expected_sequence_number entries a; highest = be_sequence_number (last entries) in
      if highest \<ge> expected
      then set_highest_sequence_number highest
             (fold (\<lambda>e. write_entry_internal (be_anchor_number e) (be_timestamp e) (be_entry e))
               (filter (\<lambda>e. be_sequence_number e \<ge> expected) entries) a)
      else Some a)"

definition archive_fetch_returned ::
  "archive_candid \<Rightarrow> timestamp \<Rightarrow> timestamp \<Rightarrow> principal \<Rightarrow> call_rejection + buffered_entry list \<Rightarrow> archive_canister
     \<Rightarrow> (archive_canister \<times> archive_call option) option" where
  "archive_fetch_returned can now call_time ii r a =
     (case r of
        Inl (code, message) \<Rightarrow>
          map_option (\<lambda>a. (a, None))
            (store_call_error
              \<lparr>cei_time = call_time, cei_canister = ii, cei_method = ''fetch_entries'', cei_argument = can_unit can,
               cei_rejection_code = code, cei_message = message\<rparr> a)
      | Inr entries \<Rightarrow>
          if entries = [] then Some (fetch_succeeded now 0 a, None)
          else
            map_option
              (\<lambda>a. (a, Some (AwaitAcknowledge now ii (be_sequence_number (last entries)) (length entries))))
              (archive_entries entries a))"

definition archive_acknowledge_returned ::
  "archive_candid \<Rightarrow> timestamp \<Rightarrow> timestamp \<Rightarrow> principal \<Rightarrow> u64 \<Rightarrow> nat \<Rightarrow> call_rejection + unit \<Rightarrow> archive_canister
     \<Rightarrow> archive_canister option" where
  "archive_acknowledge_returned can now call_time ii q n r a =
     (case r of
        Inl (code, message) \<Rightarrow>
          store_call_error
            \<lparr>cei_time = call_time, cei_canister = ii, cei_method = ''acknowledge_entries'', cei_argument = can_u64 can q,
             cei_rejection_code = code, cei_message = message\<rparr> a
      | Inr _ \<Rightarrow> Some (fetch_succeeded now n a))"

section \<open>Reading\<close>

definition limit_or_default :: "u16 option \<Rightarrow> archive_canister \<Rightarrow> nat option" where
  "limit_or_default limit a =
     (case av_config a of
        Uninitialized \<Rightarrow> None
      | Initialized config \<Rightarrow>
          Some (unat (case limit of
                        None \<Rightarrow> acc_max_entries_per_call config
                      | Some l \<Rightarrow> min l (acc_max_entries_per_call config))))"

definition archive_get_entries ::
  "archive_candid \<Rightarrow> u64 option \<Rightarrow> u16 option \<Rightarrow> archive_canister \<Rightarrow> archive_entry list option" where
  "archive_get_entries can index limit a =
     (case limit_or_default limit a of
        None \<Rightarrow> None
      | Some limit \<Rightarrow>
          (let start = (case index of
                          None \<Rightarrow> saturating_sub64 (of_nat (length (av_log a))) (of_nat limit)
                        | Some i \<Rightarrow> i) in
           those (map (\<lambda>i. can_decode can (av_log a ! i))
             (takeWhile (\<lambda>i. i < length (av_log a)) [unat start ..< unat (start + of_nat limit)]))))"

datatype cursor = TimestampCursor timestamp | NextToken bytes

definition cursor_start :: "anchor_number \<Rightarrow> cursor option \<Rightarrow> anchor_index_key option" where
  "cursor_start anchor cursor =
     (case cursor of
        None \<Rightarrow> Some (anchor, 0, 0)
      | Some (NextToken token) \<Rightarrow>
          (case index_key_from_bytes token of
             None \<Rightarrow> None
           | Some key \<Rightarrow> if fst key = anchor then Some key else None)
      | Some (TimestampCursor t) \<Rightarrow> Some (anchor, t, 0))"

definition log_entry :: "archive_candid \<Rightarrow> archive_canister \<Rightarrow> anchor_index_key \<Rightarrow> archive_entry option option" where
  "log_entry can a key = (case key of (_, _, i) \<Rightarrow> can_decode_opt can (av_log a ! unat i))"

definition archive_get_anchor_entries ::
  "archive_candid \<Rightarrow> anchor_number \<Rightarrow> cursor option \<Rightarrow> u16 option \<Rightarrow> archive_canister
     \<Rightarrow> (archive_entry option list \<times> cursor option) option" where
  "archive_get_anchor_entries can anchor cursor limit a =
     (case (limit_or_default limit a, cursor_start anchor cursor) of
        (Some limit, Some start) \<Rightarrow>
          (let keys = take (limit + 1)
                 (map fst (om_range (\<lambda>key. start \<le> key \<and> key < (anchor + 1, 0, 0)) (av_index a)));
               next_cursor = (if length keys > limit then Some (NextToken (index_key_to_bytes (last keys))) else None) in
           if \<not> list_all (\<lambda>(_, _, i). unat i < length (av_log a)) keys then None
           else map_option (\<lambda>es. (es, next_cursor)) (those (map (log_entry can a) (take limit keys))))
      | _ \<Rightarrow> None)"

section \<open>What the archive holds\<close>

text \<open>The written entries, with the anchor and the time each is indexed under.\<close>

definition archive_holds :: "(anchor_number \<times> timestamp \<times> bytes) list \<Rightarrow> archive_canister \<Rightarrow> bool" where
  "archive_holds ws a \<longleftrightarrow>
     length ws < 2 ^ 64 \<and> av_log a = map (\<lambda>(_, _, b). b) ws
     \<and> (\<forall>n t i. om_contains (av_index a) (n, t, i)
          \<longleftrightarrow> unat i < length ws \<and> fst (ws ! unat i) = n \<and> fst (snd (ws ! unat i)) = t)"

lemma archive_holds_write:
  assumes "archive_holds ws a" and "length ws + 1 < 2 ^ 64"
  shows "archive_holds (ws @ [(n, t, b)]) (write_entry_internal n t b a)"
proof -
  have "(i = of_nat (length ws)) = (unat i = length ws)" for i :: u64
    using assms(2) by (auto simp: unat_of_nat64 intro!: unat64_eqI)
  then show ?thesis
    using assms unfolding archive_holds_def
    by (auto simp: write_entry_internal_def nth_append less_Suc_eq)
qed

lemma archive_holds_writes:
  "archive_holds ws a \<Longrightarrow> length ws + length es < 2 ^ 64 \<Longrightarrow>
   archive_holds (ws @ map (\<lambda>e. (be_anchor_number e, be_timestamp e, be_entry e)) es)
     (fold (\<lambda>e. write_entry_internal (be_anchor_number e) (be_timestamp e) (be_entry e)) es a)"
proof (induction es arbitrary: ws a)
  case (Cons e es)
  have "archive_holds (ws @ [(be_anchor_number e, be_timestamp e, be_entry e)])
      (write_entry_internal (be_anchor_number e) (be_timestamp e) (be_entry e) a)"
    using Cons.prems by (intro archive_holds_write) simp_all
  from Cons.IH [OF this] Cons.prems(2) show ?case by simp
qed simp

lemma archive_holds_cong:
  "av_log a' = av_log a \<Longrightarrow> av_index a' = av_index a \<Longrightarrow> archive_holds ws a' = archive_holds ws a"
  by (simp add: archive_holds_def)

lemma writes_config [simp]:
  "av_config (fold (\<lambda>e. write_entry_internal (f e) (g e) (h e)) es a) = av_config a"
  by (induction es arbitrary: a) (simp_all add: write_entry_internal_def)

end
