(* ===== verification/Archive_Pages.thy ===== *)
theory Archive_Pages
  imports Archive_Canister
begin

text \<open>
  Reading the archive: the keys of its index as bytes, and what a client obtains that walks through
  the pages of an anchor.
\<close>

section \<open>Keys of the index as bytes\<close>

lemma length_be_bytes [simp]: "length (be_bytes w) = 8"
  by (simp add: be_bytes_def)

lemma be_round_trip [simp]: "be_value (be_bytes w) = w"
  by (simp add: be_value_def be_bytes_def)

lemma index_key_round_trip [simp]: "index_key_from_bytes (index_key_to_bytes key) = Some key"
  by (cases key) (simp add: index_key_from_bytes_def)

section \<open>Walking the pages\<close>

text \<open>What a client obtains that follows the cursor, for a number of pages at most.\<close>

fun anchor_pages ::
  "nat \<Rightarrow> archive_candid \<Rightarrow> anchor_number \<Rightarrow> cursor option \<Rightarrow> u16 option \<Rightarrow> archive_canister
     \<Rightarrow> archive_entry option list option" where
  "anchor_pages 0 can n cursor limit a = None"
| "anchor_pages (Suc pages) can n cursor limit a =
     (case archive_get_anchor_entries can n cursor limit a of
        None \<Rightarrow> None
      | Some (es, None) \<Rightarrow> Some es
      | Some (es, Some next_cursor) \<Rightarrow> map_option (\<lambda>rest. es @ rest) (anchor_pages pages can n (Some next_cursor) limit a))"

definition anchor_keys :: "anchor_number \<Rightarrow> archive_canister \<Rightarrow> anchor_index_key list" where
  "anchor_keys n a = filter (\<lambda>key. fst key = n) (om_keys (av_index a))"

lemma sorted_anchor_keys: "sorted_wrt (<) (anchor_keys n a)"
  unfolding anchor_keys_def om_keys_def by (rule sorted_wrt_filter) simp

lemma anchor_range:
  fixes n :: anchor_number and start key :: anchor_index_key
  assumes "n \<noteq> - 1" and "fst start = n"
  shows "start \<le> key \<and> key < (n + 1, 0, 0) \<longleftrightarrow> fst key = n \<and> start \<le> key"
proof -
  have succ: "unat (n + 1) = Suc (unat n)"
  proof -
    have "unat n \<noteq> 2 ^ 64 - 1" using assms(1) unat64_eqI [of n "- 1"]
      by (auto simp: unsigned_minus_1_eq_mask mask_eq_exp_minus_1)
    then have "unat n + 1 < 2 ^ 64" using unat64_bound [of n] by simp
    then show ?thesis by (simp add: unat_word_ariths)
  qed
  have "m < n + 1 \<longleftrightarrow> m \<le> n" for m using succ by (auto simp: word_less_nat_alt word_le_nat_alt)
  moreover obtain m u where key: "key = (m, u)" by (cases key)
  moreover have "\<not> u < (0, 0)" by (cases u) (simp add: less_prod_def word_less_nat_alt)
  ultimately have "key < (n + 1, 0, 0) \<longleftrightarrow> m \<le> n" by (auto simp: less_prod_def)
  moreover have "n \<le> m" if "start \<le> key" using that assms(2) by (cases start) (auto simp: key less_eq_prod_def)
  ultimately show ?thesis unfolding key by auto
qed

lemma filter_from_key:
  fixes K :: "'a::linorder list"
  assumes "sorted_wrt (<) K" and "j < length K"
  shows "filter (\<lambda>k. K ! j \<le> k) K = drop j K"
  using assms
proof (induction K arbitrary: j)
  case (Cons k K)
  show ?case
  proof (cases j)
    case 0
    then show ?thesis using Cons.prems by (auto simp: filter_id_conv less_imp_le)
  next
    case (Suc i)
    then have "k < K ! i" using Cons.prems by simp
    then show ?thesis using Cons.IH [of i] Cons.prems Suc by (simp add: not_le)
  qed
qed simp

lemma range_keys:
  assumes "n \<noteq> - 1" and "fst start = n"
  shows "map fst (om_range (\<lambda>key. start \<le> key \<and> key < (n + 1, 0, 0)) (av_index a)) = filter (\<lambda>k. start \<le> k) (anchor_keys n a)"
  unfolding anchor_range [OF assms] om_range_def anchor_keys_def om_keys_def
  by (simp add: filter_map comp_def conj_commute)

lemma sorted_wrt_distinct: "sorted_wrt P xs \<Longrightarrow> (\<And>x. \<not> P x x) \<Longrightarrow> distinct xs"
  by (induction xs) auto

lemma those_Some: "\<forall>x \<in> set xs. f x \<noteq> None \<Longrightarrow> those (map f xs) = Some (map (\<lambda>x. the (f x)) xs)"
  by (induction xs) auto

lemma anchor_entries_page:
  assumes n: "n \<noteq> - 1" "fst start = n" and from_here: "filter (\<lambda>k. start \<le> k) (anchor_keys n a) = drop j (anchor_keys n a)"
    and cursor: "cursor_start n cursor = Some start" and limit: "limit_or_default limit a = Some l"
    and stored: "\<forall>key \<in> set (anchor_keys n a). unat (snd (snd key)) < length (av_log a) \<and> log_entry can a key \<noteq> None"
  shows "archive_get_anchor_entries can n cursor limit a =
    Some (map (\<lambda>key. the (log_entry can a key)) (take l (drop j (anchor_keys n a))),
      if j + l < length (anchor_keys n a) then Some (NextToken (index_key_to_bytes (anchor_keys n a ! (j + l)))) else None)"
proof -
  let ?K = "anchor_keys n a"
  have "last (take (l + 1) (drop j ?K)) = ?K ! (j + l)" if "j + l < length ?K"
    using that by (simp add: take_Suc_conv_app_nth)
  moreover have "list_all (\<lambda>(_, _, i). unat i < length (av_log a)) (take (l + 1) (drop j ?K))"
    using stored by (auto simp: list_all_iff dest!: in_set_takeD in_set_dropD)
  moreover have "those (map (log_entry can a) (take l (drop j ?K))) = Some (map (\<lambda>key. the (log_entry can a key)) (take l (drop j ?K)))"
    by (rule those_Some) (use stored in \<open>auto dest!: in_set_takeD in_set_dropD\<close>)
  moreover have "l < length (take (l + 1) (drop j ?K)) \<longleftrightarrow> j + l < length ?K" by auto
  moreover have "take l (take (l + 1) (drop j ?K)) = take l (drop j ?K)" by simp
  ultimately show ?thesis
    by (simp only: archive_get_anchor_entries_def limit cursor range_keys [OF n] from_here Let_def option.case prod.case
        not_True_eq_False if_False option.map if_cancel cong: if_cong)
qed

lemma anchor_pages_from:
  assumes n: "n \<noteq> - 1" "fst start = n" and from_here: "filter (\<lambda>k. start \<le> k) (anchor_keys n a) = drop j (anchor_keys n a)"
    and cursor: "cursor_start n cursor = Some start" and limit: "limit_or_default limit a = Some l" "0 < l"
    and stored: "\<forall>key \<in> set (anchor_keys n a). unat (snd (snd key)) < length (av_log a) \<and> log_entry can a key \<noteq> None"
    and fuel: "length (anchor_keys n a) - j < pages"
  shows "anchor_pages pages can n cursor limit a = Some (map (\<lambda>key. the (log_entry can a key)) (drop j (anchor_keys n a)))"
  using n(2) from_here cursor fuel
proof (induction pages arbitrary: start j cursor)
  case (Suc pages)
  let ?K = "anchor_keys n a"
  note page = anchor_entries_page [OF n(1) Suc.prems(1-3) limit(1) stored]
  show ?case
  proof (cases "j + l < length ?K")
    case True
    let ?key = "?K ! (j + l)"
    have key: "fst ?key = n" using nth_mem [OF True] by (simp add: anchor_keys_def)
    have "cursor_start n (Some (NextToken (index_key_to_bytes ?key))) = Some ?key"
      by (simp add: cursor_start_def key)
    moreover have "length ?K - (j + l) < pages" using Suc.prems(4) True limit(2) by linarith
    ultimately have "anchor_pages pages can n (Some (NextToken (index_key_to_bytes ?key))) limit a
        = Some (map (\<lambda>key. the (log_entry can a key)) (drop (j + l) ?K))"
      by (rule Suc.IH [OF key filter_from_key [OF sorted_anchor_keys True]])
    moreover have "take l (drop j ?K) @ drop (j + l) ?K = drop j ?K"
      using append_take_drop_id [of l "drop j ?K"] by (simp add: add.commute)
    moreover have "anchor_pages (Suc pages) can n cursor limit a
        = map_option (\<lambda>rest. map (\<lambda>key. the (log_entry can a key)) (take l (drop j ?K)) @ rest)
            (anchor_pages pages can n (Some (NextToken (index_key_to_bytes ?key))) limit a)"
      by (simp only: anchor_pages.simps page True if_True option.case prod.case)
    ultimately show ?thesis by (simp only: option.map map_append [symmetric])
  next
    case False
    with page show ?thesis by simp
  qed
qed simp

text \<open>
  Property C23. Walking the pages of an anchor yields each of its operations exactly once, in the order
  of their times (and of their positions in the log where the times are equal), whatever the page
  size, as long as it is positive; it ends after one page more than there are operations at most.
\<close>

theorem anchor_pages_complete:
  assumes "archive_holds ws a" and "n \<noteq> - 1" and "limit_or_default limit a = Some l" and "0 < l"
    and "\<forall>(_, _, b) \<in> set ws. can_decode_opt can b \<noteq> None" and "length ws < pages"
  shows "\<exists>is. sorted_wrt (\<lambda>i j. fst (snd (ws ! i)) < fst (snd (ws ! j)) \<or> fst (snd (ws ! i)) = fst (snd (ws ! j)) \<and> i < j) is
    \<and> set is = {i. i < length ws \<and> fst (ws ! i) = n}
    \<and> anchor_pages pages can n None limit a = Some (map (\<lambda>i. the (can_decode_opt can (snd (snd (ws ! i))))) is)"
proof -
  let ?K = "anchor_keys n a"
  define js where "js = map (\<lambda>key. unat (snd (snd key))) ?K"
  have keys: "key \<in> set ?K \<longleftrightarrow> unat (snd (snd key)) < length ws \<and> fst (ws ! unat (snd (snd key))) = n
      \<and> key = (n, fst (snd (ws ! unat (snd (snd key)))), snd (snd key))" for key
  proof -
    have "key \<in> set ?K \<longleftrightarrow> fst key = n \<and> om_contains (av_index a) key"
      by (auto simp: anchor_keys_def om_in_keys om_contains_def)
    then show ?thesis using assms(1) by (cases key) (auto simp: archive_holds_def)
  qed
  have log: "av_log a ! i = snd (snd (ws ! i))" "length (av_log a) = length ws" if "i < length ws" for i
    using assms(1) that by (auto simp: archive_holds_def split_beta)
  have js: "set js = {i. i < length ws \<and> fst (ws ! i) = n}"
  proof (intro set_eqI iffI)
    fix i
    assume i: "i \<in> {i. i < length ws \<and> fst (ws ! i) = n}"
    then have u: "unat (of_nat i :: u64) = i" using assms(1) by (simp add: archive_holds_def unat_of_nat64)
    have "(n, fst (snd (ws ! i)), of_nat i) \<in> set ?K" using i by (simp add: keys u)
    then show "i \<in> set js" unfolding js_def using u by (force simp: image_iff)
  qed (auto simp: js_def keys)
  have "sorted_wrt (\<lambda>i j. fst (snd (ws ! i)) < fst (snd (ws ! j)) \<or> fst (snd (ws ! i)) = fst (snd (ws ! j)) \<and> i < j) js"
    unfolding js_def sorted_wrt_map
  proof (rule sorted_wrt_mono_rel [OF _ sorted_anchor_keys])
    fix x y
    assume "x \<in> set ?K" "y \<in> set ?K" and less: "x < y"
    then obtain t i t' i' where x: "x = (n, t, i)" "t = fst (snd (ws ! unat i))"
      and y: "y = (n, t', i')" "t' = fst (snd (ws ! unat i'))" by (metis keys prod.collapse)
    with less show "fst (snd (ws ! unat (snd (snd x)))) < fst (snd (ws ! unat (snd (snd y))))
        \<or> fst (snd (ws ! unat (snd (snd x)))) = fst (snd (ws ! unat (snd (snd y))))
          \<and> unat (snd (snd x)) < unat (snd (snd y))"
      by (auto simp: less_prod_def order.order_iff_strict unat_mono)
  qed
  moreover have "anchor_pages pages can n None limit a = Some (map (\<lambda>key. the (log_entry can a key)) (drop 0 ?K))"
  proof (rule anchor_pages_from [OF assms(2) _ _ _ assms(3,4)])
    show "fst (n, 0 :: u64, 0 :: u64) = n" by simp
    show "filter (\<lambda>k. (n, 0, 0) \<le> k) ?K = drop 0 ?K"
    proof -
      have "\<forall>k \<in> set ?K. (n, 0, 0) \<le> k" by (auto simp: anchor_keys_def less_eq_prod_def)
      then show ?thesis by (simp add: filter_id_conv)
    qed
    show "cursor_start n None = Some (n, 0, 0)" by (simp add: cursor_start_def)
    show "\<forall>key \<in> set ?K. unat (snd (snd key)) < length (av_log a) \<and> log_entry can a key \<noteq> None"
    proof
      fix key
      assume "key \<in> set ?K"
      then have "unat (snd (snd key)) < length ws" by (simp only: keys)
      moreover from nth_mem [OF this] assms(5) have "can_decode_opt can (snd (snd (ws ! unat (snd (snd key))))) \<noteq> None"
        by (auto simp: split_beta)
      ultimately show "unat (snd (snd key)) < length (av_log a) \<and> log_entry can a key \<noteq> None"
        by (simp add: log_entry_def split_beta log)
    qed
    have "distinct js" using calculation by (rule sorted_wrt_distinct) simp
    then have "length js = card (set js)" by (simp add: distinct_card)
    also have "\<dots> \<le> card {..<length ws}" unfolding js by (rule card_mono) auto
    finally have "length js \<le> length ws" by simp
    then show "length ?K - 0 < pages" using assms(6) by (simp add: js_def)
  qed
  moreover have "map (\<lambda>key. the (log_entry can a key)) (drop 0 ?K) = map (\<lambda>i. the (can_decode_opt can (snd (snd (ws ! i))))) js"
    unfolding js_def by (auto simp: log_entry_def split_beta log keys)
  ultimately show ?thesis using js by (intro exI [of _ js]) simp
qed


section \<open>An archive with three operations\<close>

definition sample_operations :: "(anchor_number \<times> timestamp \<times> bytes) list" where
  "sample_operations = [(5, 20, [1]), (6, 10, [2]), (5, 10, [3])]"

definition sample_pages_archive :: archive_canister where
  "sample_pages_archive =
     fold (\<lambda>(n, t, b). write_entry_internal n t b) sample_operations
       (archive_initialize 1 \<lparr>ari_ii_canister = [], ari_max_entries_per_call = 1, ari_polling_interval_ns = 1,
           ari_error_buffer_limit = 1\<rparr> no_archive)"

definition sample_decoder :: archive_candid where
  "sample_decoder =
     \<lparr>can_unit = [], can_u64 = (\<lambda>_. []), can_decode = (\<lambda>_. None),
      can_decode_opt = (\<lambda>b. Some (if b = [3] then None else
        Some \<lparr>ae_anchor = 5, ae_operation = AddName, ae_timestamp = 1, ae_caller = b, ae_sequence_number = 0\<rparr>))\<rparr>"

lemma sample_pages_holds: "archive_holds sample_operations sample_pages_archive"
proof -
  let ?a = "archive_initialize 1 \<lparr>ari_ii_canister = [], ari_max_entries_per_call = 1, ari_polling_interval_ns = 1,
           ari_error_buffer_limit = 1\<rparr> no_archive"
  have "archive_holds [] ?a" by (simp add: archive_holds_def archive_initialize_def no_archive_def)
  from archive_holds_write [OF archive_holds_write [OF archive_holds_write [OF this]]]
  show ?thesis by (simp add: sample_pages_archive_def sample_operations_def)
qed

theorem anchor_pages_complete_witness:
  "\<exists>es. anchor_pages 4 sample_decoder 5 None None sample_pages_archive = Some es \<and> length es = 2"
proof -
  have limit: "limit_or_default None sample_pages_archive = Some 1"
    by (simp add: sample_pages_archive_def sample_operations_def write_entry_internal_def limit_or_default_def archive_initialize_def)
  have "\<forall>(_, _, b) \<in> set sample_operations. can_decode_opt sample_decoder b \<noteq> None"
    by (simp add: sample_decoder_def split_beta)
  moreover have "length sample_operations < 4" by (simp add: sample_operations_def)
  ultimately obtain "is" where sorted: "sorted_wrt (\<lambda>i j. fst (snd (sample_operations ! i)) < fst (snd (sample_operations ! j))
        \<or> fst (snd (sample_operations ! i)) = fst (snd (sample_operations ! j)) \<and> i < j) is"
      and set: "set is = {i. i < length sample_operations \<and> fst (sample_operations ! i) = 5}"
      and pages: "anchor_pages 4 sample_decoder 5 None None sample_pages_archive
        = Some (map (\<lambda>i. the (can_decode_opt sample_decoder (snd (snd (sample_operations ! i))))) is)"
    using anchor_pages_complete [OF sample_pages_holds _ limit, of 5 sample_decoder 4] by auto
  have "set is = {0, 2}"
    unfolding set by (auto simp: sample_operations_def less_Suc_eq numeral_eq_Suc)
  moreover have "distinct is" using sorted by (rule sorted_wrt_distinct) simp
  ultimately have "length is = 2" using distinct_card [of "is"] by simp
  with pages show ?thesis by simp
qed

end
