(* ===== verification/Archive_Protocol.thy ===== *)
theory Archive_Protocol
  imports Archive_Canister
begin

text \<open>
  Internet Identity and its archive together: operations are archived, the archive polls, calls and
  answers travel, overtake each other, fail and get lost, and both sides are upgraded, in any
  order. The theorem says what survives all of this.
\<close>

section \<open>The system\<close>

text \<open>A call or an answer on its way; the archive's locals travel with it.\<close>

datatype traffic =
    CallSent archive_call
  | FetchAnswered timestamp principal "call_rejection + buffered_entry list"
  | AcknowledgeAnswered timestamp principal u64 nat "call_rejection + unit"

fun calls_of :: "archive_call option \<Rightarrow> traffic list" where
  "calls_of None = []"
| "calls_of (Some call) = [CallSent call]"

text \<open>
  The state of Internet Identity with the log of all operations archived so far and the number of
  acknowledged ones, the archive, and the traffic. \<open>ii\<close> and \<open>self\<close> are the two canisters. The call of
  \<open>acknowledge_entries\<close> may be answered with an error although it was executed.
\<close>

type_synonym archive_system =
  "((storage \<times> archive_state) \<times> buffered_entry list \<times> nat) \<times> archive_canister \<times> traffic list"

inductive archive_system_step ::
  "(archive_entry \<Rightarrow> bytes) \<Rightarrow> archive_candid \<Rightarrow> principal \<Rightarrow> principal \<Rightarrow> archive_system \<Rightarrow> archive_system \<Rightarrow> bool"
  for encode can ii self where
  operation: "archive_operation encode now n caller op s = Some s' \<Longrightarrow>
     archive_system_step encode can ii self ((s, log, acked), a, ms)
       ((s', log @ [new_buffered_entry encode now n caller op (of_nat (length log))], acked), a, ms)"
| poll: "archive_fetch_start now a = Some call \<Longrightarrow>
     archive_system_step encode can ii self (st, a, ms) (st, a, CallSent call # ms)"
| fetched: "fetch_entries self s = Some es \<Longrightarrow>
     archive_system_step encode can ii self ((s, log, acked), a, xs @ CallSent (AwaitFetch t ii) # ys)
       ((s, log, acked), a, FetchAnswered t ii (Inr es) # xs @ ys)"
| fetch_failed: "archive_system_step encode can ii self (st, a, xs @ CallSent (AwaitFetch t p) # ys)
       (st, a, FetchAnswered t p (Inl e) # xs @ ys)"
| archive: "archive_fetch_returned can now t p r a = Some (a', next_call) \<Longrightarrow>
     archive_system_step encode can ii self (st, a, xs @ FetchAnswered t p r # ys)
       (st, a', calls_of next_call @ xs @ ys)"
| acknowledged: "acknowledge_entries self q s = Some s' \<Longrightarrow>
     archive_system_step encode can ii self ((s, log, acked), a, xs @ CallSent (AwaitAcknowledge t ii q k) # ys)
       ((s', log, max acked (min (Suc (unat q)) (length log))), a, AcknowledgeAnswered t ii q k r # xs @ ys)"
| acknowledge_failed: "archive_system_step encode can ii self (st, a, xs @ CallSent (AwaitAcknowledge t p q k) # ys)
       (st, a, AcknowledgeAnswered t p q k (Inl e) # xs @ ys)"
| finish: "archive_acknowledge_returned can now t p q k r a = Some a' \<Longrightarrow>
     archive_system_step encode can ii self (st, a, xs @ AcknowledgeAnswered t p q k r # ys) (st, a', xs @ ys)"
| lost: "archive_system_step encode can ii self (st, a, xs @ m # ys) (st, a, xs @ ys)"
| upgrade: "ari_ii_canister arg = ii \<Longrightarrow>
     archive_system_step encode can ii self (st, a, ms) (st, archive_initialize now arg a, ms)"

definition archive_system_reachable where
  "archive_system_reachable encode can ii self = (archive_system_step encode can ii self)\<^sup>*\<^sup>*"

section \<open>The invariant\<close>

text \<open>
  \<open>h\<close> operations have reached the archive. An answer holds consecutive operations that begin no later
  than the next one the archive needs, and no acknowledgement in flight goes beyond \<open>h\<close>.
\<close>

abbreviation written :: "buffered_entry list \<Rightarrow> (anchor_number \<times> timestamp \<times> bytes) list" where
  "written es \<equiv> map (\<lambda>e. (be_anchor_number e, be_timestamp e, be_entry e)) es"

fun traffic_ok :: "buffered_entry list \<Rightarrow> nat \<Rightarrow> traffic \<Rightarrow> bool" where
  "traffic_ok log h (CallSent (AwaitAcknowledge _ _ q _)) \<longleftrightarrow> unat q < h"
| "traffic_ok log h (FetchAnswered _ _ (Inr es)) \<longleftrightarrow>
     (\<exists>i k. i \<le> h \<and> i + k \<le> length log \<and> es = take k (drop i log))"
| "traffic_ok log h _ \<longleftrightarrow> True"

definition archive_in_step :: "buffered_entry list \<Rightarrow> nat \<Rightarrow> archive_canister \<Rightarrow> bool" where
  "archive_in_step log h a \<longleftrightarrow>
     h \<le> length log \<and> archive_holds (written (take h log)) a
     \<and> archive_highest_sequence_number a = (if h = 0 then None else Some (of_nat (h - 1)))"

definition archive_system_ok :: "principal \<Rightarrow> archive_config \<Rightarrow> archive_system \<Rightarrow> bool" where
  "archive_system_ok self config sys \<longleftrightarrow>
     (case sys of ((s, log, acked), a, ms) \<Rightarrow>
        buffer_holds self config s log acked
        \<and> (\<exists>h. archive_in_step log h a \<and> acked \<le> h \<and> list_all (traffic_ok log h) ms))"

lemma traffic_ok_mono:
  "traffic_ok log h m \<Longrightarrow> h \<le> h' \<Longrightarrow> traffic_ok (log @ es) h' m"
proof (induction log h m rule: traffic_ok.induct)
  case (2 log h t p es')
  then obtain i k where "i \<le> h" "i + k \<le> length log" "es' = take k (drop i log)" by auto
  with 2(2) have "i \<le> h'" "i + k \<le> length (log @ es)" "es' = take k (drop i (log @ es))" by simp_all
  then show ?case unfolding traffic_ok.simps by blast
qed auto

lemmas traffic_ok_later = traffic_ok_mono [where es = "[]", simplified]

lemma list_all_traffic:
  "list_all (traffic_ok log h) ms \<Longrightarrow> h \<le> h' \<Longrightarrow> list_all (traffic_ok (log @ es) h') ms"
  by (auto simp: list_all_iff intro: traffic_ok_mono)

lemma in_step_snoc: "archive_in_step log h a \<Longrightarrow> archive_in_step (log @ es) h a"
  by (simp add: archive_in_step_def)

lemma in_step_cong:
  "av_log a' = av_log a \<Longrightarrow> av_index a' = av_index a
   \<Longrightarrow> archive_highest_sequence_number a' = archive_highest_sequence_number a
   \<Longrightarrow> archive_in_step log h a' = archive_in_step log h a"
  by (simp add: archive_in_step_def archive_holds_def)

lemma store_call_error_Some: "store_call_error e a = Some a' \<Longrightarrow> \<exists>info. a' = a\<lparr>av_call_info := info\<rparr>"
  by (auto simp: store_call_error_def Let_def split: config_state.splits option.splits if_splits list.splits)

lemma store_call_error_keeps:
  "store_call_error e a = Some a' \<Longrightarrow> archive_in_step log h a' = archive_in_step log h a"
  by (drule store_call_error_Some, rule in_step_cong) (auto simp: archive_highest_sequence_number_def)

lemma fetch_succeeded_keeps: "archive_in_step log h (fetch_succeeded now n a) = archive_in_step log h a"
  by (rule in_step_cong) (simp_all add: fetch_succeeded_def archive_highest_sequence_number_def)

lemma initialize_keeps: "archive_in_step log h (archive_initialize now arg a) = archive_in_step log h a"
  by (rule in_step_cong) (simp_all add: archive_initialize_def archive_highest_sequence_number_def)

section \<open>A fetched batch\<close>

lemma numbered_slice:
  assumes "\<forall>i < length log. be_sequence_number (log ! i) = of_nat i" and "i + k \<le> length log" and "0 < k"
  shows "be_sequence_number (hd (take k (drop i log))) = of_nat i"
    and "be_sequence_number (last (take k (drop i log))) = of_nat (i + k - 1)"
proof -
  show "be_sequence_number (hd (take k (drop i log))) = of_nat i"
    using assms by (simp add: hd_drop_conv_nth)
  have "last (take k (drop i log)) = log ! (i + k - 1)"
    using assms(2,3) by (subst last_conv_nth) auto
  then show "be_sequence_number (last (take k (drop i log))) = of_nat (i + k - 1)"
    using assms by simp
qed

lemma filter_from:
  assumes "\<forall>i < length log. be_sequence_number (log ! i) = of_nat i" and "i + k \<le> length log" and "length log < 2 ^ 64"
    and "i \<le> h" and "h \<le> length log"
  shows "filter (\<lambda>e. be_sequence_number e \<ge> of_nat h) (take k (drop i log)) = drop (h - i) (take k (drop i log))"
  using assms(2,4)
proof (induction k arbitrary: i)
  case (Suc k)
  have i: "i < length log" using Suc.prems by simp
  have le: "(of_nat h \<le> (of_nat i :: u64)) = (h \<le> i)"
    using i assms(3,5) by (simp add: word_le_nat_alt unat_of_nat64)
  show ?case
  proof (cases "h \<le> i")
    case True
    then have "h = i" using Suc.prems by simp
    moreover have "filter (\<lambda>e. be_sequence_number e \<ge> of_nat i) (take (Suc k) (drop i log)) = take (Suc k) (drop i log)"
      unfolding filter_id_conv
    proof
      fix e
      assume "e \<in> set (take (Suc k) (drop i log))"
      then obtain j where j: "j < Suc k" "e = log ! (i + j)"
        using Suc.prems(1) by (auto simp: in_set_conv_nth)
      then have "be_sequence_number e = of_nat (i + j)" using assms(1) Suc.prems(1) by simp
      with j(1) Suc.prems(1) assms(3) show "of_nat i \<le> be_sequence_number e"
        by (simp add: word_le_nat_alt unat_of_nat64 del: of_nat_add)
    qed
    ultimately show ?thesis by simp
  next
    case False
    with Suc.IH [of "Suc i"] Suc.prems le assms(1) i show ?thesis
      by (simp add: Cons_nth_drop_Suc [symmetric] Suc_diff_Suc [symmetric])
  qed
qed simp

lemma archive_entries_in_step:
  assumes log: "\<forall>i < length log. be_sequence_number (log ! i) = of_nat i" "length log < 2 ^ 64"
    and step: "archive_in_step log h a" and slice: "i \<le> h" "i + k \<le> length log" "0 < k"
    and run: "archive_entries (take k (drop i log)) a = Some a'"
  shows "archive_in_step log (max h (i + k)) a'"
proof -
  let ?es = "take k (drop i log)"
  have h: "h \<le> length log" and holds: "archive_holds (written (take h log)) a"
    and highest: "archive_highest_sequence_number a = (if h = 0 then None else Some (of_nat (h - 1)))"
    using step by (simp_all add: archive_in_step_def)
  note ends = numbered_slice [OF log(1) slice(2,3)]
  have "(of_nat (h - 1) :: u64) + 1 = of_nat h" if "h \<noteq> 0"
    using that by (metis Suc_pred' not_gr_zero of_nat_Suc add.commute)
  then have expected: "expected_sequence_number ?es a = of_nat h"
    using slice(1) ends(1) by (cases "h = 0") (simp_all add: expected_sequence_number_def highest)
  have le: "((of_nat h :: u64) \<le> of_nat (i + k - 1)) = (h < i + k)"
  proof -
    define m where "m = i + k - 1"
    then have "m < 2 ^ 64" "h < i + k \<longleftrightarrow> h \<le> m" using log(2) slice(2,3) by auto
    then show ?thesis using h log(2) unfolding m_def [symmetric] by (simp add: word_le_nat_alt unat_of_nat64)
  qed
  show ?thesis
  proof (cases "h < i + k")
    case True
    let ?new = "drop (h - i) ?es"
    have flt: "filter (\<lambda>e. be_sequence_number e \<ge> of_nat h) ?es = ?new"
      using filter_from [OF log(1) slice(2) log(2) slice(1) h] .
    have "take (i + k) log = take h log @ ?new"
      using True slice(1) by (simp add: drop_take take_add [symmetric] add.commute)
    then have app: "written (take (i + k) log) = written (take h log) @ written ?new" by simp
    have "length (written (take h log)) + length ?new < 2 ^ 64"
      using log(2) slice(1,2) h by simp
    from archive_holds_writes [OF holds this] run True expected flt le ends(2) app slice(2,3)
    show ?thesis
      by (auto simp: archive_entries_def set_highest_sequence_number_def archive_in_step_def max_def
          archive_highest_sequence_number_def archive_holds_def split: config_state.splits)
  next
    case False
    with run expected le ends(2) step show ?thesis by (simp add: archive_entries_def max_def)
  qed
qed

lemma fetch_entries_slice:
  assumes "buffer_holds self config s log acked" and "fetch_entries p s = Some es"
  shows "\<exists>k. acked + k \<le> length log \<and> es = take k (drop acked log)"
proof -
  obtain storage st where s: "s = (storage, st)" by (cases s)
  have entries: "om_entries (st_archive_buffer storage) = numbered log acked"
    and st: "st = Created \<lparr>ard_sequence_number = of_nat (length log), ard_archive_canister = self\<rparr> config"
    and le: "acked \<le> length log"
    using assms(1) by (simp_all add: buffer_holds_def s)
  have "map snd (numbered log acked) = drop acked log"
    by (rule nth_equalityI) (simp_all add: numbered_def)
  then have "es = take (unat (arc_entries_fetch_limit config)) (drop acked log)"
    using assms(2) by (simp add: s st fetch_entries_def get_archive_entries_def entries take_map [symmetric] split: if_splits)
  then have "es = take (min (unat (arc_entries_fetch_limit config)) (length log - acked)) (drop acked log)"
    by (simp add: min_def)
  then show ?thesis using le by (intro exI [of _ "min (unat (arc_entries_fetch_limit config)) (length log - acked)"]) simp
qed


section \<open>Every step\<close>

lemma fetch_returned_in_step:
  assumes buf: "buffer_holds self config s log acked" and room: "length log < 2 ^ 64"
    and step: "archive_in_step log h a" and ok: "traffic_ok log h (FetchAnswered t p r)"
    and run: "archive_fetch_returned can now t p r a = Some (a', next_call)"
  shows "\<exists>h' \<ge> h. archive_in_step log h' a' \<and> list_all (traffic_ok log h') (calls_of next_call)"
proof (cases r)
  case (Inl e)
  with run step show ?thesis
    by (intro exI [of _ h]) (auto simp: archive_fetch_returned_def store_call_error_keeps split: prod.splits)
next
  case (Inr es)
  with ok obtain i k where slice: "i \<le> h" "i + k \<le> length log" and es: "es = take k (drop i log)" by auto
  show ?thesis
  proof (cases "es = []")
    case True
    with run Inr step show ?thesis
      by (intro exI [of _ h]) (auto simp: archive_fetch_returned_def fetch_succeeded_keeps)
  next
    case False
    then have k: "0 < k" using es by (cases k) auto
    have log: "\<forall>i < length log. be_sequence_number (log ! i) = of_nat i"
      using buf by (simp add: buffer_holds_def split: prod.splits)
    from run Inr False es have run': "archive_entries (take k (drop i log)) a = Some a'"
      and next_call: "next_call = Some (AwaitAcknowledge now p (be_sequence_number (last es)) (length es))"
      by (auto simp: archive_fetch_returned_def)
    define m where "m = i + k - 1"
    then have "m < 2 ^ 64" "m < max h (i + k)" using k slice(2) room by auto
    moreover have "be_sequence_number (last es) = of_nat m"
      using numbered_slice(2) [OF log slice(2) k] by (simp add: es m_def)
    ultimately have "unat (be_sequence_number (last es)) < max h (i + k)" by (simp add: unat_of_nat64)
    with archive_entries_in_step [OF log room step slice k run'] next_call show ?thesis
      by (intro exI [of _ "max h (i + k)"]) simp
  qed
qed

lemma archive_system_step_ok:
  assumes "archive_system_step encode can ii self (x, a, ms) (y, a', ms')"
    and "length (fst (snd y)) < 2 ^ 64" and ok: "archive_system_ok self config (x, a, ms)"
  shows "archive_system_ok self config (y, a', ms') \<and> length (fst (snd x)) \<le> length (fst (snd y))"
proof -
  obtain s log acked where x: "x = (s, log, acked)" by (cases x)
  obtain h where buf: "buffer_holds self config s log acked" and step: "archive_in_step log h a"
    and acked: "acked \<le> h" and traffic: "list_all (traffic_ok log h) ms"
    using ok by (auto simp: archive_system_ok_def x)
  have okI: "archive_system_ok self config ((s', log', acked'), b, ns)"
    if "buffer_holds self config s' log' acked'" "archive_in_step log' h' b" "acked' \<le> h'" "list_all (traffic_ok log' h') ns"
    for s' log' acked' b ns h'
    using that by (auto simp: archive_system_ok_def)
  from assms(1) show ?thesis
  proof (cases rule: archive_system_step.cases)
    case (operation now n caller op s0 s' log0 acked0)
    with assms(2) x have s: "s0 = s" "log0 = log" "acked0 = acked" "length log < 2 ^ 64" by auto
    have "buffer_holds self config s' (log @ [new_buffered_entry encode now n caller op (of_nat (length log))]) acked"
      using buffer_holds_archived [OF buf s(4)] operation s by blast
    with operation s in_step_snoc [OF step] list_all_traffic [OF traffic order.refl] acked
    show ?thesis by (auto simp: x intro!: okI)
  next
    case (poll now call)
    with x buf step acked traffic show ?thesis
      by (auto simp: archive_fetch_start_def split: config_state.splits intro!: okI)
  next
    case (fetched s0 es log0 acked0 xs t ys)
    with x have s: "s0 = s" "log0 = log" "acked0 = acked" by auto
    have "fetch_entries self s = Some es" using fetched s by simp
    from fetch_entries_slice [OF buf this] obtain k where "acked + k \<le> length log" "es = take k (drop acked log)" by blast
    with acked have "traffic_ok log h (FetchAnswered t ii (Inr es))" by auto
    with fetched s x buf step acked traffic show ?thesis by (auto simp del: traffic_ok.simps intro!: okI)
  next
    case (fetch_failed xs t p ys e)
    with x buf step acked traffic show ?thesis by (auto intro!: okI)
  next
    case (archive now t p r next_call xs ys)
    with traffic have m: "traffic_ok log h (FetchAnswered t p r)" by simp
    have room: "length log < 2 ^ 64" using assms(2) archive x by simp
    from fetch_returned_in_step [OF buf room step m archive(4)] obtain h' where
      "h \<le> h'" "archive_in_step log h' a'" "list_all (traffic_ok log h') (calls_of next_call)" by blast
    with archive x buf acked traffic list_all_traffic [of log h "xs @ ys" h' "[]"] show ?thesis by (auto intro!: okI)
  next
    case (acknowledged q s0 s' log0 acked0 xs t k ys r)
    with x have s: "s0 = s" "log0 = log" "acked0 = acked" by auto
    have room: "length log < 2 ^ 64" using assms(2) acknowledged s by simp
    have "max acked (min (Suc (unat q)) (length log)) \<le> h"
      using acknowledged traffic acked s by auto
    moreover have "buffer_holds self config s' log (max acked (min (Suc (unat q)) (length log)))"
      using buffer_holds_acknowledged [OF buf room] acknowledged s by blast
    ultimately show ?thesis using acknowledged s x step traffic by (auto intro!: okI)
  next
    case (acknowledge_failed xs t p q k ys e)
    with x buf step acked traffic show ?thesis by (auto intro!: okI)
  next
    case (finish now t p q k r xs ys)
    then have "archive_in_step log h a'"
      using step by (auto simp: archive_acknowledge_returned_def store_call_error_keeps fetch_succeeded_keeps
          split: sum.splits prod.splits)
    with finish x buf acked traffic show ?thesis by (auto intro!: okI)
  next
    case (lost xs m ys)
    with x buf step acked traffic show ?thesis by (auto intro!: okI)
  next
    case (upgrade arg now)
    with x buf step acked traffic show ?thesis by (auto simp: initialize_keeps intro!: okI)
  qed
qed

lemma archive_system_reachable_ok:
  assumes "archive_system_reachable encode can ii self sys0 (y, a', ms')"
    and "length (fst (snd y)) < 2 ^ 64" and "archive_system_ok self config sys0"
  shows "archive_system_ok self config (y, a', ms')"
  using assms(1,2) unfolding archive_system_reachable_def
proof (induction "(y, a', ms')" arbitrary: y a' ms' rule: rtranclp_induct)
  case base
  then show ?case using assms(3) by simp
next
  case (step z)
  obtain x a ms where z: "z = (x, a, ms)" by (cases z)
  have grows: "length (fst (snd x)) \<le> length (fst (snd y))"
    using step(2) unfolding z by (cases rule: archive_system_step.cases) auto
  with step(4) have "archive_system_ok self config (x, a, ms)" by (intro step(3) [OF z]) simp
  from archive_system_step_ok [OF step(2) [unfolded z] step(4) this] show ?case by blast
qed

lemma archive_system_start:
  "st_archive_buffer storage = om_empty \<Longrightarrow>
   archive_system_ok self config
     (((storage, Created \<lparr>ard_sequence_number = 0, ard_archive_canister = self\<rparr> config), [], 0), no_archive, [])"
  by (auto simp: archive_system_ok_def buffer_holds_def numbered_def archive_in_step_def archive_holds_def no_archive_def
      archive_highest_sequence_number_def)

text \<open>
  Property C21. No archived operation is lost, duplicated or reordered. From the creation of the archive on, whatever
  polls, calls and answers do (overlapping fetches, answers that overtake each other, failed and lost
  messages, acknowledgements executed or not, upgrades of the archive), the log of the archive
  canister is exactly the first operations that Internet Identity archived, in order and each
  once; every later one is still buffered under its number; and the index leads from an anchor
  to exactly its operations in the log.
\<close>

theorem operations_reach_archive:
  assumes "st_archive_buffer storage = om_empty"
    and "archive_system_reachable encode can ii self
      (((storage, Created \<lparr>ard_sequence_number = 0, ard_archive_canister = self\<rparr> config), [], 0), no_archive, [])
      ((s, log, acked), a, ms)"
    and "length log < 2 ^ 64"
  shows "\<exists>h \<le> length log. av_log a = map be_entry (take h log)
    \<and> (\<forall>i < length log. h \<le> i \<longrightarrow> om_get (st_archive_buffer (fst s)) (of_nat i) = Some (log ! i))
    \<and> (\<forall>n t i. om_contains (av_index a) (n, t, i)
         \<longleftrightarrow> unat i < h \<and> be_anchor_number (log ! unat i) = n \<and> be_timestamp (log ! unat i) = t)"
proof -
  have "archive_system_ok self config ((s, log, acked), a, ms)"
    using archive_system_reachable_ok [OF assms(2) _ archive_system_start [OF assms(1)]] assms(3) by simp
  then obtain h where buf: "buffer_holds self config s log acked" and h: "h \<le> length log" "acked \<le> h"
    and holds: "archive_holds (written (take h log)) a"
    by (auto simp: archive_system_ok_def archive_in_step_def)
  have "om_get (st_archive_buffer (fst s)) (of_nat i) = Some (log ! i)" if "i < length log" "h \<le> i" for i
  proof -
    have "(of_nat i, log ! i) \<in> set (om_entries (st_archive_buffer (fst s)))"
      using buf that h(2) by (auto simp: buffer_holds_def numbered_def)
    then show ?thesis by (simp add: om_in_entries)
  qed
  with holds h show ?thesis
    by (intro exI [of _ h]) (auto simp: archive_holds_def comp_def)
qed

section \<open>Catching up\<close>

lemma steps_4: "R a b \<Longrightarrow> R b c \<Longrightarrow> R c d \<Longrightarrow> R d e \<Longrightarrow> R\<^sup>*\<^sup>* a e"
  by (meson rtranclp.rtrancl_into_rtrancl rtranclp.rtrancl_refl)

lemma archive_entries_Some:
  assumes "av_config a = Initialized acfg" and "acc_ii_canister acfg = ii"
  obtains a' acfg' where "archive_entries es a = Some a'" and "av_config a' = Initialized acfg'"
    and "acc_ii_canister acfg' = ii"
proof (cases "be_sequence_number (last es) \<ge> expected_sequence_number es a")
  case True
  with assms show thesis
    by (intro that [of "the (archive_entries es a)" "acfg\<lparr>acc_highest_sequence_number := Some (be_sequence_number (last es))\<rparr>"])
      (simp_all add: archive_entries_def set_highest_sequence_number_def Let_def)
next
  case False
  with assms show thesis by (intro that [of a acfg]) (simp_all add: archive_entries_def Let_def)
qed

lemma undisturbed_round:
  assumes ok: "archive_system_ok self config ((s, log, acked), a, ms)" and room: "length log < 2 ^ 64"
    and init: "av_config a = Initialized acfg" "acc_ii_canister acfg = ii"
    and limit: "0 < unat (arc_entries_fetch_limit config)" and behind: "acked < length log"
  obtains s' acked' a' acfg' where "archive_system_reachable encode can ii self ((s, log, acked), a, ms) ((s', log, acked'), a', ms)"
    and "acked < acked'" and "av_config a' = Initialized acfg'" and "acc_ii_canister acfg' = ii"
proof -
  let ?k = "min (unat (arc_entries_fetch_limit config)) (length log - acked)"
  obtain storage st where s: "s = (storage, st)" by (cases s)
  have buf: "buffer_holds self config s log acked" using ok by (simp add: archive_system_ok_def)
  then have entries: "om_entries (st_archive_buffer storage) = numbered log acked"
    and st: "st = Created \<lparr>ard_sequence_number = of_nat (length log), ard_archive_canister = self\<rparr> config"
    and log: "\<forall>i < length log. be_sequence_number (log ! i) = of_nat i"
    by (simp_all add: buffer_holds_def s)
  have "map snd (numbered log acked) = drop acked log"
    by (rule nth_equalityI) (simp_all add: numbered_def)
  then have fetch: "fetch_entries self s = Some (take ?k (drop acked log))"
    by (simp add: s st fetch_entries_def get_archive_entries_def entries take_map [symmetric] min_def)
  have k: "0 < ?k" "acked + ?k \<le> length log" using limit behind by auto
  define q :: u64 where "q = be_sequence_number (last (take ?k (drop acked log)))"
  define m where "m = acked + ?k - 1"
  have "q = of_nat m" unfolding q_def m_def by (rule numbered_slice(2) [OF log k(2,1)])
  moreover have m: "m < 2 ^ 64" "m < length log" "acked < Suc m" using k room behind by (auto simp: m_def)
  ultimately have q: "unat q = m" by (simp add: unat_of_nat64)
  have "archive_fetch_start 0 a = Some (AwaitFetch 0 ii)" by (simp add: archive_fetch_start_def init)
  from poll [OF this] have 1: "archive_system_step encode can ii self ((s, log, acked), a, ms)
      ((s, log, acked), a, CallSent (AwaitFetch 0 ii) # ms)" .
  have 2: "archive_system_step encode can ii self ((s, log, acked), a, CallSent (AwaitFetch 0 ii) # ms)
      ((s, log, acked), a, FetchAnswered 0 ii (Inr (take ?k (drop acked log))) # ms)"
    by (rule fetched [OF fetch, where xs = "[]", unfolded append_Nil])
  obtain a1 acfg1 where archived: "archive_entries (take ?k (drop acked log)) a = Some a1"
    and a1: "av_config a1 = Initialized acfg1" "acc_ii_canister acfg1 = ii"
    by (rule archive_entries_Some [OF init])
  have "take ?k (drop acked log) \<noteq> []" using k behind by simp
  with archived have returned: "archive_fetch_returned can 0 0 ii (Inr (take ?k (drop acked log))) a
      = Some (a1, Some (AwaitAcknowledge 0 ii q (length (take ?k (drop acked log)))))"
    unfolding q_def by (simp add: archive_fetch_returned_def)
  have 3: "archive_system_step encode can ii self
      ((s, log, acked), a, FetchAnswered 0 ii (Inr (take ?k (drop acked log))) # ms)
      ((s, log, acked), a1, CallSent (AwaitAcknowledge 0 ii q (length (take ?k (drop acked log)))) # ms)"
    by (rule archive [OF returned, where xs = "[]", unfolded append_Nil calls_of.simps append_Cons])
  obtain s' where ack: "acknowledge_entries self q s = Some s'"
    by (simp add: acknowledge_entries_def s st)
  have 4: "archive_system_step encode can ii self
      ((s, log, acked), a1, CallSent (AwaitAcknowledge 0 ii q (length (take ?k (drop acked log)))) # ms)
      ((s', log, max acked (min (Suc (unat q)) (length log))), a1,
       AcknowledgeAnswered 0 ii q (length (take ?k (drop acked log))) (Inr ()) # ms)"
    by (rule acknowledged [OF ack, where xs = "[]", unfolded append_Nil])
  have finished: "archive_acknowledge_returned can 0 0 ii q (length (take ?k (drop acked log))) (Inr ()) a1
      = Some (fetch_succeeded 0 (length (take ?k (drop acked log))) a1)"
    by (simp add: archive_acknowledge_returned_def)
  have 5: "archive_system_step encode can ii self
      ((s', log, max acked (min (Suc (unat q)) (length log))), a1,
       AcknowledgeAnswered 0 ii q (length (take ?k (drop acked log))) (Inr ()) # ms)
      ((s', log, max acked (min (Suc (unat q)) (length log))), fetch_succeeded 0 (length (take ?k (drop acked log))) a1, ms)"
    by (rule finish [OF finished, where xs = "[]", unfolded append_Nil])
  have "archive_system_reachable encode can ii self ((s, log, acked), a, ms)
      ((s', log, max acked (min (Suc (unat q)) (length log))), fetch_succeeded 0 (length (take ?k (drop acked log))) a1, ms)"
    unfolding archive_system_reachable_def using steps_4 [where R = "archive_system_step encode can ii self", OF 1 2 3 4] 5 by (rule rtranclp.rtrancl_into_rtrancl)
  moreover have "acked < max acked (min (Suc (unat q)) (length log))" using q m by simp
  moreover have "av_config (fetch_succeeded 0 (length (take ?k (drop acked log))) a1) = Initialized acfg1"
    by (simp add: fetch_succeeded_def a1)
  ultimately show thesis using a1(2) by (rule that)
qed

lemma archive_rounds:
  assumes "archive_system_ok self config ((s, log, acked), a, ms)" and "length log < 2 ^ 64"
    and "av_config a = Initialized acfg" and "acc_ii_canister acfg = ii" and "0 < unat (arc_entries_fetch_limit config)"
  shows "\<exists>s' a' acked'. archive_system_reachable encode can ii self ((s, log, acked), a, ms) ((s', log, acked'), a', ms)
    \<and> length log \<le> acked'"
  using assms
proof (induction "length log - acked" arbitrary: s acked a acfg rule: less_induct)
  case less
  show ?case
  proof (cases "acked < length log")
    case True
    with less.prems obtain s1 acked1 a1 acfg1
      where run: "archive_system_reachable encode can ii self ((s, log, acked), a, ms) ((s1, log, acked1), a1, ms)"
        and more: "acked < acked1" and a1: "av_config a1 = Initialized acfg1" "acc_ii_canister acfg1 = ii"
      by (elim undisturbed_round [where encode = encode and can = can])
    have ok: "archive_system_ok self config ((s1, log, acked1), a1, ms)"
      using archive_system_reachable_ok [OF run _ less.prems(1)] less.prems(2) by simp
    have "length log - acked1 < length log - acked" using True more by simp
    from less.hyps [OF this ok less.prems(2) a1 less.prems(5)] run show ?thesis
      unfolding archive_system_reachable_def by (meson rtranclp_trans)
  next
    case False
    then show ?thesis unfolding archive_system_reachable_def
      by (intro exI [of _ s] exI [of _ a] exI [of _ acked]) simp
  qed
qed

text \<open>
  Property C22. The archive can always catch up. In whatever state the failures have left the two canisters,
  an installed archive that polls undisturbed (with a positive fetch limit) reaches a state in which
  every operation archived so far is in its log and the buffer of Internet Identity is empty.
\<close>

theorem archive_catches_up:
  assumes "st_archive_buffer storage = om_empty"
    and "archive_system_reachable encode can ii self
      (((storage, Created \<lparr>ard_sequence_number = 0, ard_archive_canister = self\<rparr> config), [], 0), no_archive, [])
      ((s, log, acked), a, ms)"
    and "length log < 2 ^ 64" and "av_config a = Initialized acfg" and "acc_ii_canister acfg = ii"
    and "0 < arc_entries_fetch_limit config"
  shows "\<exists>s' acked' a'. archive_system_reachable encode can ii self ((s, log, acked), a, ms) ((s', log, acked'), a', ms)
    \<and> av_log a' = map be_entry log \<and> buffered_entries (fst s') = []"
proof -
  have ok: "archive_system_ok self config ((s, log, acked), a, ms)"
    using archive_system_reachable_ok [OF assms(2) _ archive_system_start [OF assms(1)]] assms(3) by simp
  have "0 < unat (arc_entries_fetch_limit config)" using assms(6) by (simp add: word_less_nat_alt)
  from archive_rounds [OF ok assms(3-5) this] obtain s' a' acked'
    where run: "archive_system_reachable encode can ii self ((s, log, acked), a, ms) ((s', log, acked'), a', ms)"
      and all: "length log \<le> acked'" by blast
  have "archive_system_ok self config ((s', log, acked'), a', ms)"
    using archive_system_reachable_ok [OF run _ ok] assms(3) by simp
  then obtain h where buf: "buffer_holds self config s' log acked'" and h: "h \<le> length log" "acked' \<le> h"
    and holds: "archive_holds (written (take h log)) a'"
    by (auto simp: archive_system_ok_def archive_in_step_def)
  have "om_entries (st_archive_buffer (fst s')) = []" using buf all by (simp add: buffer_holds_def numbered_def)
  moreover have "av_log a' = map be_entry log" using holds h all by (simp add: archive_holds_def comp_def)
  ultimately show ?thesis
    using run by (intro exI [of _ s'] exI [of _ acked'] exI [of _ a']) (simp add: buffered_entries_def)
qed


section \<open>A run\<close>

definition sample_candid :: archive_candid where
  "sample_candid = \<lparr>can_unit = [], can_u64 = (\<lambda>_. []), can_decode = (\<lambda>_. None), can_decode_opt = (\<lambda>_. Some None)\<rparr>"

abbreviation sample_operation :: buffered_entry where
  "sample_operation \<equiv> new_buffered_entry (\<lambda>_. [7]) 1 10000 [2] AddName 0"

definition sample_system_config :: archive_config where
  "sample_system_config =
     \<lparr>arc_module_hash = [], arc_entries_buffer_limit = 10, arc_polling_interval_ns = 1, arc_entries_fetch_limit = 5\<rparr>"

definition installed_archive :: archive_canister where
  "installed_archive = archive_initialize 1 (config_to_init [0] sample_system_config) no_archive"

text \<open>An operation is archived, the archive is installed, and its first call of \<open>fetch_entries\<close> is lost.\<close>

lemma sample_archive_run:
  obtains s where "archive_system_reachable (\<lambda>_. [7]) sample_candid [0] [1]
      (((sample_storage, Created \<lparr>ard_sequence_number = 0, ard_archive_canister = [1]\<rparr> sample_system_config), [], 0), no_archive, [])
      ((s, [sample_operation], 0), installed_archive, [])"
    and "om_get (st_archive_buffer (fst s)) 0 = Some sample_operation"
proof -
  let ?s = "(sample_storage, Created \<lparr>ard_sequence_number = 0, ard_archive_canister = [1]\<rparr> sample_system_config)"
  have empty: "st_archive_buffer sample_storage = om_empty"
    by (simp add: sample_storage_def storage_new_def MAX_ENTRIES_value init_with_header_def flush_def empty_storage_def)
  obtain s where op: "archive_operation (\<lambda>_. [7]) 1 10000 [2] AddName ?s = Some s"
    and buffered: "om_get (st_archive_buffer (fst s)) 0 = Some sample_operation"
    by (simp add: archive_operation_def archive_entries_count_def empty sample_system_config_def add_archive_entry_def
        new_buffered_entry_def)
  let ?step = "archive_system_step (\<lambda>_. [7]) sample_candid [0] [1]"
  have 1: "?step ((?s, [], 0), no_archive, []) ((s, [sample_operation], 0), no_archive, [])"
    using operation [OF op, of sample_candid "[0]" "[1]" "[]"] by simp
  have 2: "?step ((s, [sample_operation], 0), no_archive, []) ((s, [sample_operation], 0), installed_archive, [])"
    unfolding installed_archive_def by (rule upgrade) (simp add: config_to_init_def)
  have "archive_fetch_start 2 installed_archive = Some (AwaitFetch 2 [0])"
    by (simp add: archive_fetch_start_def installed_archive_def archive_initialize_def config_to_init_def)
  then have 3: "?step ((s, [sample_operation], 0), installed_archive, [])
      ((s, [sample_operation], 0), installed_archive, [CallSent (AwaitFetch 2 [0])])" by (rule poll)
  have 4: "?step ((s, [sample_operation], 0), installed_archive, [CallSent (AwaitFetch 2 [0])])
      ((s, [sample_operation], 0), installed_archive, [])"
    by (rule lost [where xs = "[]", unfolded append_Nil])
  have "archive_system_reachable (\<lambda>_. [7]) sample_candid [0] [1] ((?s, [], 0), no_archive, [])
      ((s, [sample_operation], 0), installed_archive, [])"
    unfolding archive_system_reachable_def by (rule steps_4 [where R = ?step, OF 1 2 3 4])
  then show thesis using buffered by (rule that)
qed

lemma sample_storage_buffer: "st_archive_buffer sample_storage = om_empty"
  by (simp add: sample_storage_def storage_new_def MAX_ENTRIES_value init_with_header_def flush_def empty_storage_def)

theorem operations_reach_archive_witness:
  "\<exists>s. archive_system_reachable (\<lambda>_. [7]) sample_candid [0] [1]
      (((sample_storage, Created \<lparr>ard_sequence_number = 0, ard_archive_canister = [1]\<rparr> sample_system_config), [], 0), no_archive, [])
      ((s, [sample_operation], 0), installed_archive, [])
    \<and> om_get (st_archive_buffer (fst s)) 0 = Some sample_operation"
proof (rule sample_archive_run)
  fix s
  assume run: "archive_system_reachable (\<lambda>_. [7]) sample_candid [0] [1]
      (((sample_storage, Created \<lparr>ard_sequence_number = 0, ard_archive_canister = [1]\<rparr> sample_system_config), [], 0), no_archive, [])
      ((s, [sample_operation], 0), installed_archive, [])"
  from operations_reach_archive [OF sample_storage_buffer run] obtain h
    where "av_log installed_archive = map be_entry (take h [sample_operation])"
      and rest: "h \<le> 0 \<longrightarrow> om_get (st_archive_buffer (fst s)) 0 = Some sample_operation"
    by (auto simp del: take_Suc_Cons)
  moreover have "av_log installed_archive = []"
    by (simp add: installed_archive_def archive_initialize_def no_archive_def)
  ultimately have "h = 0" by (cases h) simp_all
  with rest run show ?thesis by (intro exI [of _ s]) simp
qed

theorem archive_catches_up_witness:
  "\<exists>s s' acked a'. archive_system_reachable (\<lambda>_. [7]) sample_candid [0] [1] ((s, [sample_operation], 0), installed_archive, [])
      ((s', [sample_operation], acked), a', []) \<and> av_log a' = [[7]]"
proof (rule sample_archive_run)
  fix s
  assume run: "archive_system_reachable (\<lambda>_. [7]) sample_candid [0] [1]
      (((sample_storage, Created \<lparr>ard_sequence_number = 0, ard_archive_canister = [1]\<rparr> sample_system_config), [], 0), no_archive, [])
      ((s, [sample_operation], 0), installed_archive, [])"
  obtain acfg where acfg: "av_config installed_archive = Initialized acfg" "acc_ii_canister acfg = [0]"
    by (simp add: installed_archive_def archive_initialize_def config_to_init_def)
  have limit: "0 < arc_entries_fetch_limit sample_system_config"
    by (simp add: sample_system_config_def word_less_nat_alt)
  from archive_catches_up [OF sample_storage_buffer run _ acfg limit] obtain s' acked a'
    where "archive_system_reachable (\<lambda>_. [7]) sample_candid [0] [1] ((s, [sample_operation], 0), installed_archive, [])
        ((s', [sample_operation], acked), a', [])" and "av_log a' = map be_entry [sample_operation]" by auto
  then show ?thesis
    by (intro exI [of _ s] exI [of _ s'] exI [of _ acked] exI [of _ a']) (simp add: new_buffered_entry_def)
qed

end
