(* ===== verification/Registration_Rates.thy ===== *)
theory Registration_Rates
  imports Interface_Types Complex_Main "HOL-Library.Multiset"
begin

text \<open>
  \<open>storage/registration_rates.rs\<close> and \<open>captcha_required\<close> of \<open>registration_flow_v2.rs\<close>: the rates of
  registrations that switch the captcha on. A stable min heap is the sorted list of its elements.
  The rates are real numbers here and \<open>f64\<close> in the code, whose rounding is not modelled; the sampling
  intervals are assumed not to be zero (the code then divides by zero).
\<close>

datatype static_captcha_trigger = CaptchaEnabled | CaptchaDisabled

datatype captcha_trigger =
    DynamicTrigger (threshold_pct: u16) (current_rate_sampling_interval_s: u64) (reference_rate_sampling_interval_s: u64)
  | StaticTrigger static_captcha_trigger

record captcha_config =
  cc_max_unsolved_captchas :: u64
  cc_captcha_trigger :: captcha_trigger

record registration_rates =
  rr_reference_rate_data :: "timestamp list"
  rr_reference_last_pruned_interval_ns :: "u64 option"
  rr_current_rate_data :: "timestamp list"
  rr_current_last_pruned_interval_ns :: "u64 option"

definition new_registration_rates :: "timestamp list \<Rightarrow> timestamp list \<Rightarrow> registration_rates" where
  "new_registration_rates reference current =
     \<lparr>rr_reference_rate_data = reference, rr_reference_last_pruned_interval_ns = None,
      rr_current_rate_data = current, rr_current_last_pruned_interval_ns = None\<rparr>"

record dynamic_captcha_config =
  dcc_reference_rate_retention_ns :: u64
  dcc_current_rate_retention_ns :: u64
  dcc_threshold_multiplier :: real

definition dynamic_config :: "captcha_config \<Rightarrow> dynamic_captcha_config option" where
  "dynamic_config config =
     (case cc_captcha_trigger config of
        StaticTrigger _ \<Rightarrow> None
      | DynamicTrigger pct current reference \<Rightarrow>
          Some \<lparr>dcc_reference_rate_retention_ns = secs_to_nanos reference,
                dcc_current_rate_retention_ns = secs_to_nanos current,
                dcc_threshold_multiplier = 1 + real (unat pct) / 100\<rparr>)"

fun prune_data_loop ::
  "nat \<Rightarrow> timestamp \<Rightarrow> u64 \<Rightarrow> u64 option \<Rightarrow> timestamp list \<Rightarrow> timestamp list \<times> u64 option" where
  "prune_data_loop 0 now interval_ns pruned data = (data, pruned)"
| "prune_data_loop (Suc n) now interval_ns pruned [] = ([], pruned)"
| "prune_data_loop (Suc n) now interval_ns pruned (t # data) =
     (if t > now - interval_ns then (t # data, pruned)
      else prune_data_loop n now interval_ns (Some (now - t)) data)"

definition prune_data :: "timestamp \<Rightarrow> u64 \<Rightarrow> timestamp list \<Rightarrow> timestamp list \<times> u64 option" where
  "prune_data now interval_ns data = prune_data_loop 100 now interval_ns None data"

definition or_else :: "'a option \<Rightarrow> 'a option \<Rightarrow> 'a option" where
  "or_else a b = (case a of None \<Rightarrow> b | Some _ \<Rightarrow> a)"

definition rates_prune_expired :: "timestamp \<Rightarrow> captcha_config \<Rightarrow> registration_rates \<Rightarrow> registration_rates" where
  "rates_prune_expired now config r =
     (case dynamic_config config of
        None \<Rightarrow> r
      | Some c \<Rightarrow>
          (let (reference, reference_pruned) =
                 prune_data now (dcc_reference_rate_retention_ns c) (rr_reference_rate_data r);
               (current, current_pruned) =
                 prune_data now (dcc_current_rate_retention_ns c) (rr_current_rate_data r) in
           \<lparr>rr_reference_rate_data = reference,
            rr_reference_last_pruned_interval_ns = or_else reference_pruned (rr_reference_last_pruned_interval_ns r),
            rr_current_rate_data = current,
            rr_current_last_pruned_interval_ns = or_else current_pruned (rr_current_last_pruned_interval_ns r)\<rparr>))"

definition new_registration :: "timestamp \<Rightarrow> captcha_config \<Rightarrow> registration_rates \<Rightarrow> registration_rates" where
  "new_registration now config r =
     (let r = rates_prune_expired now config r in
      (case dynamic_config config of
         None \<Rightarrow> r
       | Some _ \<Rightarrow>
           r\<lparr>rr_reference_rate_data := insort now (rr_reference_rate_data r),
             rr_current_rate_data := insort now (rr_current_rate_data r)\<rparr>))"

record normalized_registration_rates =
  nr_reference_rate_per_second :: real
  nr_current_rate_per_second :: real
  nr_captcha_threshold_rate :: real
  nr_is_reference_data_insufficient :: bool
  nr_is_current_data_insufficient :: bool

definition rate_per_second :: "nat \<Rightarrow> u64 \<Rightarrow> real" where
  "rate_per_second entries duration_ns = real entries / (real (unat duration_ns) / 10 ^ 9)"

definition insufficient :: "u64 option \<Rightarrow> u64 \<Rightarrow> bool" where
  "insufficient pruned retention = (case pruned of None \<Rightarrow> False | Some interval \<Rightarrow> interval < retention)"

definition normalized_rates :: "captcha_config \<Rightarrow> registration_rates \<Rightarrow> normalized_registration_rates option" where
  "normalized_rates config r =
     (case dynamic_config config of
        None \<Rightarrow> None
      | Some c \<Rightarrow>
          (let reference = rate_per_second (length (rr_reference_rate_data r)) (dcc_reference_rate_retention_ns c);
               current = rate_per_second (length (rr_current_rate_data r)) (dcc_current_rate_retention_ns c) in
           Some \<lparr>nr_reference_rate_per_second = reference, nr_current_rate_per_second = current,
                 nr_captcha_threshold_rate = reference * dcc_threshold_multiplier c,
                 nr_is_reference_data_insufficient =
                   insufficient (rr_reference_last_pruned_interval_ns r) (dcc_reference_rate_retention_ns c),
                 nr_is_current_data_insufficient =
                   insufficient (rr_current_last_pruned_interval_ns r) (dcc_current_rate_retention_ns c)\<rparr>))"

definition rates_captcha_required :: "normalized_registration_rates \<Rightarrow> bool" where
  "rates_captcha_required n \<longleftrightarrow>
     nr_is_current_data_insufficient n \<or> nr_is_reference_data_insufficient n
     \<or> nr_current_rate_per_second n > nr_captcha_threshold_rate n"

definition captcha_required :: "captcha_config \<Rightarrow> registration_rates \<Rightarrow> bool" where
  "captcha_required config r =
     (case cc_captcha_trigger config of
        StaticTrigger CaptchaEnabled \<Rightarrow> True
      | StaticTrigger CaptchaDisabled \<Rightarrow> False
      | DynamicTrigger _ _ _ \<Rightarrow>
          (case normalized_rates config r of None \<Rightarrow> True | Some rates \<Rightarrow> rates_captcha_required rates))"

section \<open>Properties\<close>

text \<open>Pruning drops a prefix of the heap, at most a hundred entries, all of them expired.\<close>

lemma prune_data_loop_drops:
  "\<exists>k \<le> n. fst (prune_data_loop n now i p data) = drop k data
     \<and> (\<forall>t \<in> set (take k data). \<not> t > now - i)
     \<and> (k < n \<and> k < length data \<longrightarrow> data ! k > now - i)"
proof (induction n now i p data rule: prune_data_loop.induct)
  case (3 n now i p t data)
  show ?case
  proof (cases "t > now - i")
    case True
    then show ?thesis by (intro exI [of _ 0]) simp
  next
    case False
    with 3 obtain k where "k \<le> n" "fst (prune_data_loop n now i (Some (now - t)) data) = drop k data"
      "\<forall>u \<in> set (take k data). \<not> u > now - i" "k < n \<and> k < length data \<longrightarrow> data ! k > now - i" by blast
    with False show ?thesis by (intro exI [of _ "Suc k"]) auto
  qed
qed (auto intro: exI [of _ 0])

lemma prune_data_recent:
  "filter (\<lambda>t. t > now - i) (fst (prune_data now i data)) = filter (\<lambda>t. t > now - i) data"
proof -
  obtain k where k: "fst (prune_data now i data) = drop k data" "\<forall>t \<in> set (take k data). \<not> t > now - i"
    using prune_data_loop_drops [of 100 now i None data] by (auto simp: prune_data_def)
  have "filter (\<lambda>t. t > now - i) (take k data) = []" using k(2) by (simp add: filter_empty_conv)
  then show ?thesis unfolding k(1) by (metis append_take_drop_id filter_append append_Nil)
qed

lemma sorted_prune_data: "sorted data \<Longrightarrow> sorted (fst (prune_data now i data))"
  using prune_data_loop_drops [of 100 now i None data] by (auto simp: prune_data_def sorted_wrt_drop)

text \<open>A history of registrations under one configuration.\<close>

definition registration_history :: "captcha_config \<Rightarrow> timestamp list \<Rightarrow> registration_rates \<Rightarrow> registration_rates" where
  "registration_history config ts r = fold (\<lambda>now. new_registration now config) ts r"

lemma new_registration_dynamic:
  assumes "dynamic_config config = Some c"
  shows "rr_current_rate_data (new_registration now config r) =
      insort now (fst (prune_data now (dcc_current_rate_retention_ns c) (rr_current_rate_data r)))"
    and "rr_reference_rate_data (new_registration now config r) =
      insort now (fst (prune_data now (dcc_reference_rate_retention_ns c) (rr_reference_rate_data r)))"
  by (simp_all add: new_registration_def rates_prune_expired_def assms Let_def split: prod.split)

lemma filter_insort_new:
  fixes xs :: "'a :: linorder list"
  assumes "sorted xs" and "P x"
  shows "filter P (insort x xs) = insort x (filter P xs)"
  using assms by (simp add: filter_insort)

text \<open>One heap on its own: every registration prunes it and then pushes its time.\<close>

definition heap_history :: "u64 \<Rightarrow> timestamp list \<Rightarrow> timestamp list" where
  "heap_history i ts = fold (\<lambda>now data. insort now (fst (prune_data now i data))) ts []"

lemma heap_history_simps [simp]:
  "heap_history i [] = []"
  "heap_history i (ts @ [t]) = insort t (fst (prune_data t i (heap_history i ts)))"
  by (simp_all add: heap_history_def)

lemma registration_history_heaps:
  assumes "dynamic_config config = Some c"
  defines "r ts \<equiv> registration_history config ts (new_registration_rates [] [])"
  shows "rr_current_rate_data (r ts) = heap_history (dcc_current_rate_retention_ns c) ts"
    and "rr_reference_rate_data (r ts) = heap_history (dcc_reference_rate_retention_ns c) ts"
proof (induction ts rule: rev_induct)
  case Nil
  { case 1 then show ?case by (simp add: r_def registration_history_def new_registration_rates_def) }
  { case 2 then show ?case by (simp add: r_def registration_history_def new_registration_rates_def) }
next
  case (snoc t ts)
  { case 1 show ?case using snoc(1) by (simp add: r_def registration_history_def new_registration_dynamic [OF assms(1)]) }
  { case 2 show ?case using snoc(2) by (simp add: r_def registration_history_def new_registration_dynamic [OF assms(1)]) }
qed

lemma sorted_heap_history [simp]: "sorted (heap_history i ts)"
  by (induction ts rule: rev_induct) (simp_all add: sorted_insort sorted_prune_data)

lemma prune_data_subset: "mset (fst (prune_data now i data)) \<subseteq># mset data"
proof -
  obtain k where "fst (prune_data now i data) = drop k data"
    using prune_data_loop_drops [of 100 now i None data] by (auto simp: prune_data_def)
  then show ?thesis by (metis append_take_drop_id mset_append mset_subset_eq_add_right)
qed

lemma heap_history_registered: "mset (heap_history i ts) \<subseteq># mset ts"
proof (induction ts rule: rev_induct)
  case (snoc t ts)
  then show ?case using subset_mset.order_trans [OF prune_data_subset snoc] by simp
qed simp

lemma filter_insort_last:
  fixes t :: "'a :: linorder"
  assumes "sorted ys" "filter P ys = filter P ts" "sorted (ts @ [t])"
  shows "filter P (insort t ys) = filter P (ts @ [t])"
proof (cases "P t")
  case True
  have "sorted (filter P ts)" "\<forall>u \<in> set (filter P ts). u \<le> t"
    using assms(3) by (auto simp: sorted_append sorted_wrt_filter)
  then show ?thesis using True assms(1, 2) by (simp add: filter_insort sorted_insort_is_snoc)
qed (simp add: filter_insort_triv assms(2))

lemma recent_in_heap:
  assumes "sorted (ts @ [now])" and "\<forall>t \<in> set (ts @ [now]). i \<le> t"
  shows "filter (\<lambda>t. t > now - i) (heap_history i ts) = filter (\<lambda>t. t > now - i) ts"
  using assms
proof (induction ts arbitrary: now rule: rev_induct)
  case (snoc t ts)
  let ?heap = "heap_history i ts" and ?pruned = "fst (prune_data t i (heap_history i ts))"
  have ts: "sorted (ts @ [t])" using snoc.prems(1) by (simp add: sorted_append)
  have "t \<le> now" "i \<le> t" "i \<le> now" using snoc.prems by (simp_all add: sorted_append)
  then have mono: "t - i \<le> now - i" by (simp add: word_le_nat_alt unat64_sub)
  have split: "filter (\<lambda>u. u > now - i) xs = filter (\<lambda>u. u > now - i) (filter (\<lambda>u. u > t - i) xs)" for xs
    using mono by (auto intro!: filter_cong dest: order.strict_trans1)
  have IH: "filter (\<lambda>u. u > t - i) ?heap = filter (\<lambda>u. u > t - i) ts"
    using snoc.IH [OF ts] snoc.prems(2) by simp
  have "filter (\<lambda>u. u > now - i) ?pruned = filter (\<lambda>u. u > now - i) ts"
    by (subst split, subst prune_data_recent, subst IH, rule split [symmetric])
  then show ?case using filter_insort_last [OF sorted_prune_data _ ts] by simp
qed simp

text \<open>
  Property C27. Under a dynamic captcha configuration the rates are computed from real registrations
  and miss none of the sampling window: after any history of registrations in time order, the entries
  of either heap are registrations of the history, and those younger than the sampling interval are
  exactly the registrations of that interval, although one registration prunes at most a hundred
  entries. While no data is marked insufficient, a captcha is required exactly when the current rate
  exceeds the reference rate by more than the configured percentage.
\<close>

theorem registration_rates_count_window:
  assumes config: "dynamic_config config = Some c"
    and ordered: "sorted (ts @ [now])"
    and late: "\<forall>t \<in> set (ts @ [now]). dcc_current_rate_retention_ns c \<le> t \<and> dcc_reference_rate_retention_ns c \<le> t"
  defines "r \<equiv> registration_history config ts (new_registration_rates [] [])"
  shows "mset (rr_current_rate_data r) \<subseteq># mset ts \<and> mset (rr_reference_rate_data r) \<subseteq># mset ts
    \<and> filter (\<lambda>t. t > now - dcc_current_rate_retention_ns c) (rr_current_rate_data r)
      = filter (\<lambda>t. t > now - dcc_current_rate_retention_ns c) ts
    \<and> filter (\<lambda>t. t > now - dcc_reference_rate_retention_ns c) (rr_reference_rate_data r)
      = filter (\<lambda>t. t > now - dcc_reference_rate_retention_ns c) ts
    \<and> (\<forall>n. normalized_rates config r = Some n
         \<and> \<not> nr_is_current_data_insufficient n \<and> \<not> nr_is_reference_data_insufficient n \<longrightarrow>
         (captcha_required config r \<longleftrightarrow>
            rate_per_second (length (rr_current_rate_data r)) (dcc_current_rate_retention_ns c)
            > dcc_threshold_multiplier c
              * rate_per_second (length (rr_reference_rate_data r)) (dcc_reference_rate_retention_ns c)))"
proof (intro conjI allI impI)
  have heaps: "rr_current_rate_data r = heap_history (dcc_current_rate_retention_ns c) ts"
    "rr_reference_rate_data r = heap_history (dcc_reference_rate_retention_ns c) ts"
    unfolding r_def by (rule registration_history_heaps [OF config])+
  show "mset (rr_current_rate_data r) \<subseteq># mset ts" "mset (rr_reference_rate_data r) \<subseteq># mset ts"
    unfolding heaps by (rule heap_history_registered)+
  show "filter (\<lambda>t. t > now - dcc_current_rate_retention_ns c) (rr_current_rate_data r)
      = filter (\<lambda>t. t > now - dcc_current_rate_retention_ns c) ts"
    "filter (\<lambda>t. t > now - dcc_reference_rate_retention_ns c) (rr_reference_rate_data r)
      = filter (\<lambda>t. t > now - dcc_reference_rate_retention_ns c) ts"
    unfolding heaps by (rule recent_in_heap [OF ordered], use late in simp)+
  fix n
  assume "normalized_rates config r = Some n
    \<and> \<not> nr_is_current_data_insufficient n \<and> \<not> nr_is_reference_data_insufficient n"
  then show "captcha_required config r \<longleftrightarrow>
      rate_per_second (length (rr_current_rate_data r)) (dcc_current_rate_retention_ns c)
      > dcc_threshold_multiplier c
        * rate_per_second (length (rr_reference_rate_data r)) (dcc_reference_rate_retention_ns c)"
    using config
    by (auto simp: captcha_required_def normalized_rates_def rates_captcha_required_def Let_def mult.commute
        dynamic_config_def split: captcha_trigger.splits)
qed

theorem registration_rates_count_window_witness:
  "let config = \<lparr>cc_max_unsolved_captchas = 10, cc_captcha_trigger = DynamicTrigger 20 1 2\<rparr>;
       ts = [3000000000, 5000000000, 5500000000];
       r = registration_history config ts (new_registration_rates [] []) in
   filter (\<lambda>t. t > 6000000000 - 1000000000) (rr_current_rate_data r)
     = filter (\<lambda>t. t > 6000000000 - 1000000000) ts"
proof -
  let ?config = "\<lparr>cc_max_unsolved_captchas = 10, cc_captcha_trigger = DynamicTrigger 20 1 2\<rparr>"
  let ?c = "\<lparr>dcc_reference_rate_retention_ns = 2000000000, dcc_current_rate_retention_ns = 1000000000,
             dcc_threshold_multiplier = 1 + 20 / 100\<rparr>"
  have "dynamic_config ?config = Some ?c" by (simp add: dynamic_config_def secs_to_nanos_def)
  from registration_rates_count_window [OF this, of "[3000000000, 5000000000, 5500000000]" 6000000000]
  show ?thesis by (simp add: Let_def word_le_nat_alt)
qed

end
