(* ===== verification/Authn_Methods.thy ===== *)
theory Authn_Methods
  imports Anchor
begin

text \<open>
  The conversions between the devices of the legacy interface and the authentication methods of
  the second interface (\<open>conversions.rs\<close>, \<open>authn_method.rs\<close>, \<open>types/api_v2.rs\<close>). An authentication
  method keeps the alias, the origin and the key type of a device in its metadata.
\<close>

section \<open>The types\<close>

datatype authn_method_protection = AuthnMethodProtected | AuthnMethodUnprotected

datatype authn_method_purpose = AuthnMethodRecovery | AuthnMethodAuthentication

datatype authn_method =
    WebAuthn device_key credential_id "bytes option"
  | PubKey device_key

record authn_method_security_settings =
  ams_protection :: authn_method_protection
  ams_purpose :: authn_method_purpose

record authn_method_data =
  amd_authn_method :: authn_method
  amd_security_settings :: authn_method_security_settings
  amd_metadata :: metadata_v2
  amd_last_authentication :: "timestamp option"

fun authn_method_public_key :: "authn_method_data \<Rightarrow> device_key" where
  "authn_method_public_key d =
     (case amd_authn_method d of WebAuthn pubkey _ _ \<Rightarrow> pubkey | PubKey pubkey \<Rightarrow> pubkey)"

section \<open>From devices\<close>

fun protection_to_v2 :: "device_protection \<Rightarrow> authn_method_protection" where
  "protection_to_v2 Protected = AuthnMethodProtected"
| "protection_to_v2 Unprotected = AuthnMethodUnprotected"

fun protection_from_v2 :: "authn_method_protection \<Rightarrow> device_protection" where
  "protection_from_v2 AuthnMethodProtected = Protected"
| "protection_from_v2 AuthnMethodUnprotected = Unprotected"

fun purpose_to_v2 :: "purpose \<Rightarrow> authn_method_purpose" where
  "purpose_to_v2 Recovery = AuthnMethodRecovery"
| "purpose_to_v2 Authentication = AuthnMethodAuthentication"

fun purpose_from_v2 :: "authn_method_purpose \<Rightarrow> purpose" where
  "purpose_from_v2 AuthnMethodRecovery = Recovery"
| "purpose_from_v2 AuthnMethodAuthentication = Authentication"

fun entry_to_v2 :: "metadata_entry \<Rightarrow> metadata_entry_v2" where
  "entry_to_v2 (MetadataString s) = StringV2 s"
| "entry_to_v2 (MetadataBytes b) = BytesV2 b"
| "entry_to_v2 (MetadataMap m) = MapV2 (map (\<lambda>e. (fst e, entry_to_v2 (snd e))) m)"

fun entry_from_v2 :: "metadata_entry_v2 \<Rightarrow> metadata_entry" where
  "entry_from_v2 (StringV2 s) = MetadataString s"
| "entry_from_v2 (BytesV2 b) = MetadataBytes b"
| "entry_from_v2 (MapV2 m) = MetadataMap (map (\<lambda>e. (fst e, entry_from_v2 (snd e))) m)"

definition metadata_to_v2 :: "metadata \<Rightarrow> metadata_v2" where
  "metadata_to_v2 m = map (\<lambda>e. (fst e, entry_to_v2 (snd e))) m"

definition metadata_from_v2 :: "metadata_v2 \<Rightarrow> metadata" where
  "metadata_from_v2 m = map (\<lambda>e. (fst e, entry_from_v2 (snd e))) m"

fun key_type_metadata :: "key_type \<Rightarrow> metadata \<Rightarrow> metadata" where
  "key_type_metadata Platform m = ins_entry ''authenticator_attachment'' (MetadataString ''platform'') m"
| "key_type_metadata CrossPlatform m =
     ins_entry ''authenticator_attachment'' (MetadataString ''cross_platform'') m"
| "key_type_metadata SeedPhrase m = ins_entry ''usage'' (MetadataString ''recovery_phrase'') m"
| "key_type_metadata BrowserStorageKey m = ins_entry ''usage'' (MetadataString ''browser_storage_key'') m"
| "key_type_metadata Unknown m = m"

definition authn_method_from_device :: "device \<Rightarrow> authn_method_data" where
  "authn_method_from_device d =
     (let metadata = (case dev_metadata d of None \<Rightarrow> [] | Some m \<Rightarrow> m);
          metadata = (if dev_alias d \<noteq> [] then ins_entry ''alias'' (MetadataString (dev_alias d)) metadata
                      else metadata);
          metadata = (case dev_origin d of
                        Some origin \<Rightarrow> ins_entry ''origin'' (MetadataString origin) metadata
                      | None \<Rightarrow> metadata);
          metadata = key_type_metadata (dev_key_type d) metadata in
      \<lparr>amd_authn_method =
         (case dev_credential_id d of
            Some credential_id \<Rightarrow> WebAuthn (dev_pubkey d) credential_id (dev_aaguid d)
          | None \<Rightarrow> PubKey (dev_pubkey d)),
       amd_security_settings =
         \<lparr>ams_protection = protection_to_v2 (dev_protection d), ams_purpose = purpose_to_v2 (dev_purpose d)\<rparr>,
       amd_metadata = metadata_to_v2 metadata,
       amd_last_authentication = dev_last_usage d\<rparr>)"

section \<open>To devices\<close>

datatype authn_method_conversion_error = InvalidMetadataType string | InvalidAaguid nat

definition remove_metadata_string ::
  "string \<Rightarrow> metadata_v2 \<Rightarrow> authn_method_conversion_error + metadata_v2 \<times> string option" where
  "remove_metadata_string key m =
     (let rest = filter (\<lambda>e. fst e \<noteq> key) m in
      (case map_of m key of
         None \<Rightarrow> Inr (rest, None)
       | Some (StringV2 s) \<Rightarrow> Inr (rest, Some s)
       | Some _ \<Rightarrow> Inl (InvalidMetadataType key)))"

definition attachment_key_type :: "string option \<Rightarrow> key_type" where
  "attachment_key_type v =
     (if v = Some ''platform'' then Platform
      else if v = Some ''cross_platform'' then CrossPlatform else Unknown)"

definition usage_key_type :: "string option \<Rightarrow> key_type" where
  "usage_key_type v =
     (if v = Some ''recovery_phrase'' then SeedPhrase
      else if v = Some ''browser_storage_key'' then BrowserStorageKey else Unknown)"

definition remove_key_type :: "metadata_v2 \<Rightarrow> authn_method_conversion_error + metadata_v2 \<times> key_type" where
  "remove_key_type m =
     (case remove_metadata_string ''authenticator_attachment'' m of
        Inl e \<Rightarrow> Inl e
      | Inr (m, attachment) \<Rightarrow>
          if attachment_key_type attachment \<noteq> Unknown then Inr (m, attachment_key_type attachment)
          else
            (case remove_metadata_string ''usage'' m of
               Inl e \<Rightarrow> Inl e
             | Inr (m, usage) \<Rightarrow> Inr (m, usage_key_type usage)))"

definition check_aaguid :: "bytes option \<Rightarrow> authn_method_conversion_error + bytes option" where
  "check_aaguid aaguid =
     (case aaguid of
        None \<Rightarrow> Inr None
      | Some b \<Rightarrow> if length b = 16 then Inr (Some b) else Inl (InvalidAaguid (length b)))"

definition device_from_authn_method ::
  "authn_method_data \<Rightarrow> authn_method_conversion_error + device" where
  "device_from_authn_method data =
     (case remove_metadata_string ''alias'' (amd_metadata data) of
        Inl e \<Rightarrow> Inl e
      | Inr (m, alias) \<Rightarrow>
          (case remove_metadata_string ''origin'' m of
             Inl e \<Rightarrow> Inl e
           | Inr (m, origin) \<Rightarrow>
               (case remove_key_type m of
                  Inl e \<Rightarrow> Inl e
                | Inr (m, key_type) \<Rightarrow>
                    (case (case amd_authn_method data of
                             WebAuthn pubkey credential_id aaguid \<Rightarrow> (pubkey, Some credential_id, aaguid)
                           | PubKey pubkey \<Rightarrow> (pubkey, None, None)) of
                       (pubkey, credential_id, aaguid) \<Rightarrow>
                         (case check_aaguid aaguid of
                            Inl e \<Rightarrow> Inl e
                          | Inr aaguid \<Rightarrow>
                              Inr \<lparr>dev_pubkey = pubkey, dev_alias = (case alias of None \<Rightarrow> [] | Some s \<Rightarrow> s),
                                   dev_credential_id = credential_id, dev_aaguid = aaguid,
                                   dev_purpose = purpose_from_v2 (ams_purpose (amd_security_settings data)),
                                   dev_key_type = key_type,
                                   dev_protection = protection_from_v2 (ams_protection (amd_security_settings data)),
                                   dev_origin = origin, dev_metadata = Some (metadata_from_v2 m),
                                   dev_last_usage = amd_last_authentication data\<rparr>)))))"

section \<open>Properties\<close>

lemma entry_round_trip [simp]: "entry_from_v2 (entry_to_v2 e) = e"
proof (induction e rule: entry_to_v2.induct)
  case (3 m)
  then have "map (\<lambda>e. (fst e, entry_from_v2 (entry_to_v2 (snd e)))) m = m"
    by (intro map_idI) (metis prod.collapse)
  then show ?case by (simp add: comp_def)
qed simp_all

lemma metadata_round_trip [simp]: "metadata_from_v2 (metadata_to_v2 m) = m"
  by (simp add: metadata_from_v2_def metadata_to_v2_def comp_def)

lemma v2_protection_round_trip [simp]: "protection_from_v2 (protection_to_v2 p) = p" by (cases p) simp_all

lemma v2_purpose_round_trip [simp]: "purpose_from_v2 (purpose_to_v2 p) = p" by (cases p) simp_all

lemma map_of_metadata_to_v2: "map_of (metadata_to_v2 m) k = map_option entry_to_v2 (map_of m k)"
  by (induction m) (auto simp: metadata_to_v2_def)

lemma filter_metadata_to_v2:
  "filter (\<lambda>e. fst e \<noteq> k) (metadata_to_v2 m) = metadata_to_v2 (filter (\<lambda>e. fst e \<noteq> k) m)"
  by (simp add: metadata_to_v2_def filter_map comp_def)

lemma remove_metadata_string_to_v2:
  "remove_metadata_string k (metadata_to_v2 m) =
     (case map_of m k of
        None \<Rightarrow> Inr (metadata_to_v2 (filter (\<lambda>e. fst e \<noteq> k) m), None)
      | Some (MetadataString s) \<Rightarrow> Inr (metadata_to_v2 (filter (\<lambda>e. fst e \<noteq> k) m), Some s)
      | Some _ \<Rightarrow> Inl (InvalidMetadataType k))"
  by (simp add: remove_metadata_string_def map_of_metadata_to_v2 filter_metadata_to_v2 Let_def
      split: option.split metadata_entry.split)

lemma map_of_filter_key: "map_of (filter (\<lambda>e. fst e \<noteq> k) m) j = (if j = k then None else map_of m j)"
  by (induction m) auto

lemma key_type_metadata_get:
  "map_of (key_type_metadata t m) k =
     (if k = ''authenticator_attachment'' \<and> t \<in> {Platform, CrossPlatform}
      then Some (MetadataString (if t = Platform then ''platform'' else ''cross_platform''))
      else if k = ''usage'' \<and> t \<in> {SeedPhrase, BrowserStorageKey}
      then Some (MetadataString (if t = SeedPhrase then ''recovery_phrase'' else ''browser_storage_key''))
      else map_of m k)"
  by (cases t) (auto simp: map_of_ins_entry)

lemma sorted_key_type_metadata: "sorted_entries m \<Longrightarrow> sorted_entries (key_type_metadata t m)"
  by (cases t) (simp_all add: sorted_ins_entry del: sorted_wrt_map)

text \<open>The metadata \<open>authn_method_from_device\<close> builds, before its entries are converted.\<close>

definition device_metadata_entries :: "device \<Rightarrow> metadata" where
  "device_metadata_entries d =
     (let metadata = (case dev_metadata d of None \<Rightarrow> [] | Some m \<Rightarrow> m);
          metadata = (if dev_alias d \<noteq> [] then ins_entry ''alias'' (MetadataString (dev_alias d)) metadata
                      else metadata);
          metadata = (case dev_origin d of
                        Some origin \<Rightarrow> ins_entry ''origin'' (MetadataString origin) metadata
                      | None \<Rightarrow> metadata) in
      key_type_metadata (dev_key_type d) metadata)"

definition own_metadata :: "device \<Rightarrow> metadata" where
  "own_metadata d = (case dev_metadata d of None \<Rightarrow> [] | Some m \<Rightarrow> m)"

lemma reserved_absent:
  assumes "reserved_metadata_key d = None" and "k \<in> set RESERVED_KEYS"
  shows "map_of (own_metadata d) k = None"
  using assms by (auto simp: reserved_metadata_key_def own_metadata_def find_None_iff map_of_eq_None_iff
      split: option.splits)

lemma dedicated_keys_reserved:
  "{''alias'', ''origin'', ''authenticator_attachment'', ''usage''} \<subseteq> set RESERVED_KEYS"
  unfolding RESERVED_KEYS_def list.set
  by (simp only: insert_subset insert_iff empty_subsetI simp_thms)

lemma device_metadata_entries_get:
  assumes "reserved_metadata_key d = None"
  shows "map_of (device_metadata_entries d) ''alias'' =
      (if dev_alias d = [] then None else Some (MetadataString (dev_alias d)))"
    and "map_of (device_metadata_entries d) ''origin'' = map_option MetadataString (dev_origin d)"
    and "map_of (device_metadata_entries d) ''authenticator_attachment'' =
      (case dev_key_type d of Platform \<Rightarrow> Some (MetadataString ''platform'')
        | CrossPlatform \<Rightarrow> Some (MetadataString ''cross_platform'') | _ \<Rightarrow> None)"
    and "map_of (device_metadata_entries d) ''usage'' =
      (case dev_key_type d of SeedPhrase \<Rightarrow> Some (MetadataString ''recovery_phrase'')
        | BrowserStorageKey \<Rightarrow> Some (MetadataString ''browser_storage_key'') | _ \<Rightarrow> None)"
    and "k \<notin> {''alias'', ''origin'', ''authenticator_attachment'', ''usage''} \<Longrightarrow>
      map_of (device_metadata_entries d) k = map_of (own_metadata d) k"
proof -
  note absent = reserved_absent [OF assms, unfolded own_metadata_def]
  have [simp]: "map_of (case dev_metadata d of None \<Rightarrow> [] | Some m \<Rightarrow> m) k = None"
    if "k \<in> {''alias'', ''origin'', ''authenticator_attachment'', ''usage''}" for k
    using absent [OF subsetD [OF dedicated_keys_reserved that]] .
  note defs = device_metadata_entries_def own_metadata_def Let_def key_type_metadata_get map_of_ins_entry
  show "map_of (device_metadata_entries d) ''alias'' =
      (if dev_alias d = [] then None else Some (MetadataString (dev_alias d)))"
    by (simp add: defs split: option.split)
  show "map_of (device_metadata_entries d) ''origin'' = map_option MetadataString (dev_origin d)"
    by (simp add: defs split: option.split)
  show "map_of (device_metadata_entries d) ''authenticator_attachment'' =
      (case dev_key_type d of Platform \<Rightarrow> Some (MetadataString ''platform'')
        | CrossPlatform \<Rightarrow> Some (MetadataString ''cross_platform'') | _ \<Rightarrow> None)"
    by (cases "dev_key_type d") (simp_all add: defs split: option.split)
  show "map_of (device_metadata_entries d) ''usage'' =
      (case dev_key_type d of SeedPhrase \<Rightarrow> Some (MetadataString ''recovery_phrase'')
        | BrowserStorageKey \<Rightarrow> Some (MetadataString ''browser_storage_key'') | _ \<Rightarrow> None)"
    by (cases "dev_key_type d") (simp_all add: defs split: option.split)
  show "map_of (device_metadata_entries d) k = map_of (own_metadata d) k"
    if "k \<notin> {''alias'', ''origin'', ''authenticator_attachment'', ''usage''}"
    using that by (simp add: defs split: option.split)
qed

lemma sorted_device_metadata_entries:
  "sorted_entries (own_metadata d) \<Longrightarrow> sorted_entries (device_metadata_entries d)"
  by (simp add: device_metadata_entries_def own_metadata_def Let_def sorted_key_type_metadata sorted_ins_entry
      split: option.split del: sorted_wrt_map)

abbreviation without :: "string \<Rightarrow> metadata \<Rightarrow> metadata" where
  "without k \<equiv> filter (\<lambda>e. fst e \<noteq> k)"

lemma without_reserved:
  assumes "reserved_metadata_key d = None" and "sorted_entries (own_metadata d)"
  shows "without ''usage'' (without ''authenticator_attachment''
      (without ''origin'' (without ''alias'' (device_metadata_entries d)))) = own_metadata d"
    and "dev_key_type d \<in> {Platform, CrossPlatform} \<Longrightarrow>
      without ''authenticator_attachment'' (without ''origin'' (without ''alias'' (device_metadata_entries d)))
      = own_metadata d"
proof -
  note s = sorted_device_metadata_entries [OF assms(2)]
  have absent: "map_of (own_metadata d) k = None"
    if "k \<in> {''alias'', ''origin'', ''authenticator_attachment'', ''usage''}" for k
    using reserved_absent [OF assms(1) subsetD [OF dedicated_keys_reserved that]] .
  show "without ''usage'' (without ''authenticator_attachment''
      (without ''origin'' (without ''alias'' (device_metadata_entries d)))) = own_metadata d"
  proof (rule sorted_entries_unique)
    show "map_of (without ''usage'' (without ''authenticator_attachment''
        (without ''origin'' (without ''alias'' (device_metadata_entries d))))) = map_of (own_metadata d)"
      by (rule ext) (simp add: map_of_filter_key absent device_metadata_entries_get(5) [OF assms(1)]
          del: filter_filter)
  qed (use s assms(2) in \<open>simp_all add: sorted_filter_entries del: sorted_wrt_map\<close>)
  assume t: "dev_key_type d \<in> {Platform, CrossPlatform}"
  then have usage: "map_of (device_metadata_entries d) ''usage'' = None"
    by (auto simp: device_metadata_entries_get(4) [OF assms(1)])
  show "without ''authenticator_attachment'' (without ''origin'' (without ''alias'' (device_metadata_entries d)))
      = own_metadata d"
  proof (rule sorted_entries_unique)
    show "map_of (without ''authenticator_attachment'' (without ''origin''
        (without ''alias'' (device_metadata_entries d)))) = map_of (own_metadata d)"
    proof (rule ext)
      fix k
      show "map_of (without ''authenticator_attachment'' (without ''origin''
          (without ''alias'' (device_metadata_entries d)))) k = map_of (own_metadata d) k"
        by (cases "k = ''usage''")
          (simp_all add: map_of_filter_key absent usage device_metadata_entries_get(5) [OF assms(1)]
            del: filter_filter)
    qed
  qed (use s assms(2) in \<open>simp_all add: sorted_filter_entries del: sorted_wrt_map\<close>)
qed

lemma authn_method_from_device_eq:
  "authn_method_from_device d =
     \<lparr>amd_authn_method =
        (case dev_credential_id d of
           Some credential_id \<Rightarrow> WebAuthn (dev_pubkey d) credential_id (dev_aaguid d)
         | None \<Rightarrow> PubKey (dev_pubkey d)),
      amd_security_settings =
        \<lparr>ams_protection = protection_to_v2 (dev_protection d), ams_purpose = purpose_to_v2 (dev_purpose d)\<rparr>,
      amd_metadata = metadata_to_v2 (device_metadata_entries d),
      amd_last_authentication = dev_last_usage d\<rparr>"
  by (simp add: authn_method_from_device_def device_metadata_entries_def Let_def)

lemma attachment_key_type_None [simp]: "attachment_key_type None = Unknown"
  by (simp add: attachment_key_type_def)

lemma usage_key_type_None [simp]: "usage_key_type None = Unknown"
  by (simp add: usage_key_type_def)

lemma remove_key_type_of_device:
  assumes "reserved_metadata_key d = None" and "sorted_entries (own_metadata d)"
  shows "remove_key_type (metadata_to_v2 (without ''origin'' (without ''alias'' (device_metadata_entries d)))) =
    Inr (metadata_to_v2 (own_metadata d), dev_key_type d)"
proof -
  note get = device_metadata_entries_get(3,4) [OF assms(1)]
  have attachment: "map_of (without ''origin'' (without ''alias'' (device_metadata_entries d))) ''authenticator_attachment''
      = map_of (device_metadata_entries d) ''authenticator_attachment''"
    by (simp add: map_of_filter_key del: filter_filter)
  have usage: "map_of (without ''authenticator_attachment'' (without ''origin'' (without ''alias'' (device_metadata_entries d)))) ''usage''
      = map_of (device_metadata_entries d) ''usage''"
    by (simp add: map_of_filter_key del: filter_filter)
  show ?thesis
    unfolding remove_key_type_def remove_metadata_string_to_v2 attachment get
    using without_reserved [OF assms]
    by (cases "dev_key_type d")
      (simp_all add: remove_metadata_string_to_v2 usage get attachment_key_type_def usage_key_type_def
        del: filter_filter)
qed

lemma device_of_its_authn_method:
  assumes "check_device_invariants d = Inr ()" and "sorted_entries (own_metadata d)"
    and "\<forall>b. dev_aaguid d = Some b \<longrightarrow> length b = 16"
  shows "device_from_authn_method (authn_method_from_device d) =
    Inr (d\<lparr>dev_metadata := Some (own_metadata d),
           dev_aaguid := (if dev_credential_id d = None then None else dev_aaguid d)\<rparr>)"
proof -
  have r: "reserved_metadata_key d = None"
    using assms(1) by (simp add: check_device_invariants_def split: option.splits)
  note get = device_metadata_entries_get [OF r]
  have al: "remove_metadata_string ''alias'' (metadata_to_v2 (device_metadata_entries d)) =
      Inr (metadata_to_v2 (without ''alias'' (device_metadata_entries d)),
        if dev_alias d = [] then None else Some (dev_alias d))"
    by (simp add: remove_metadata_string_to_v2 get(1))
  have "map_of (without ''alias'' (device_metadata_entries d)) ''origin'' = map_option MetadataString (dev_origin d)"
    by (simp add: map_of_filter_key get(2))
  then have origin: "remove_metadata_string ''origin'' (metadata_to_v2 (without ''alias'' (device_metadata_entries d))) =
      Inr (metadata_to_v2 (without ''origin'' (without ''alias'' (device_metadata_entries d))), dev_origin d)"
    by (cases "dev_origin d") (simp_all add: remove_metadata_string_to_v2 del: filter_filter)
  note key_type = remove_key_type_of_device [OF r assms(2)]
  show ?thesis
    using assms(3)
    by (cases "dev_credential_id d"; cases "dev_aaguid d")
      (simp_all add: device_from_authn_method_def authn_method_from_device_eq al origin key_type check_aaguid_def
        device.equality del: filter_filter)
qed

text \<open>
  Property C37. A device that satisfies the invariants of an anchor keeps all its fields through the second
  interface, converted to an authentication method and back: the alias, origin and key type, too, which travel as
  metadata. But missing metadata comes back empty, and the AAGUID of a device without credential id is lost.
  The other two hypotheses are about the types: the metadata is a map, listed in the order of its keys, and an
  AAGUID has 16 bytes.
\<close>

theorem device_authn_method_round_trip:
  assumes "check_device_invariants d = Inr ()" and "sorted_entries (own_metadata d)"
    and "\<forall>b. dev_aaguid d = Some b \<longrightarrow> length b = 16"
  shows "device_from_authn_method (authn_method_from_device d) =
    Inr (d\<lparr>dev_metadata := Some (own_metadata d),
           dev_aaguid := (if dev_credential_id d = None then None else dev_aaguid d)\<rparr>)"
  using assms by (rule device_of_its_authn_method)

theorem device_authn_method_round_trip_witness:
  "let d = sample_passkey\<lparr>dev_aaguid := Some (replicate 16 1), dev_metadata := Some [(''name'', MetadataString ''x'')]\<rparr> in
   device_from_authn_method (authn_method_from_device d) = Inr d"
proof -
  let ?d = "sample_passkey\<lparr>dev_aaguid := Some (replicate 16 1), dev_metadata := Some [(''name'', MetadataString ''x'')]\<rparr>"
  have "check_device_invariants ?d = Inr ()" "sorted_entries (own_metadata ?d)"
    by (simp_all add: sample_passkey_def own_metadata_def check_device_invariants_def reserved_metadata_key_def
      check_device_limits_def opt_len_def RESERVED_KEYS_def ID_AI_ORIGIN_def opt_metadata_len_def variable_fields_len_def)
  moreover have "\<forall>b. dev_aaguid ?d = Some b \<longrightarrow> length b = 16" by simp
  ultimately have "device_from_authn_method (authn_method_from_device ?d) =
      Inr (?d\<lparr>dev_metadata := Some (own_metadata ?d),
             dev_aaguid := (if dev_credential_id ?d = None then None else dev_aaguid ?d)\<rparr>)"
    by (rule device_authn_method_round_trip)
  then show ?thesis by (simp add: own_metadata_def) (simp add: sample_passkey_def)
qed

text \<open>A key of the browser storage with an AAGUID and no credential id satisfies the invariants and loses the AAGUID.\<close>

lemma aaguid_without_credential_lost:
  defines "d \<equiv> sample_phrase\<lparr>dev_key_type := BrowserStorageKey, dev_protection := Unprotected,
      dev_aaguid := Some (replicate 16 1), dev_metadata := Some []\<rparr>"
  shows "check_device_invariants d = Inr ()"
    and "device_from_authn_method (authn_method_from_device d) = Inr (d\<lparr>dev_aaguid := None\<rparr>)"
proof -
  show inv: "check_device_invariants d = Inr ()"
    by (simp add: d_def sample_phrase_def check_device_invariants_def reserved_metadata_key_def
      check_device_limits_def opt_len_def RESERVED_KEYS_def opt_metadata_len_def variable_fields_len_def)
  have "sorted_entries (own_metadata d)" "\<forall>b. dev_aaguid d = Some b \<longrightarrow> length b = 16"
    by (simp_all add: d_def own_metadata_def)
  from device_of_its_authn_method [OF inv this]
  show "device_from_authn_method (authn_method_from_device d) = Inr (d\<lparr>dev_aaguid := None\<rparr>)"
    by (simp add: d_def own_metadata_def sample_phrase_def)
qed

text \<open>
  The second direction fails exactly when one of the entries that become fields is not a string
  or the aaguid does not have 16 bytes. A method with a known attachment keeps its \<open>usage\<close> entry:
  the key is reserved, so an anchor refuses that device.
\<close>

definition string_entry :: "metadata_v2 \<Rightarrow> string \<Rightarrow> bool" where
  "string_entry m k = (case map_of m k of None \<Rightarrow> True | Some v \<Rightarrow> (case v of StringV2 _ \<Rightarrow> True | _ \<Rightarrow> False))"

definition known_attachment :: "metadata_v2 \<Rightarrow> bool" where
  "known_attachment m \<longleftrightarrow>
     map_of m ''authenticator_attachment'' \<in> {Some (StringV2 ''platform''), Some (StringV2 ''cross_platform'')}"

lemma remove_metadata_string_Inr:
  "(\<exists>r v. remove_metadata_string k m = Inr (r, v)) \<longleftrightarrow> string_entry m k"
  by (simp add: remove_metadata_string_def string_entry_def Let_def split: option.split metadata_entry_v2.split)

lemma map_of_filter_key_v2:
  "map_of (filter (\<lambda>e. fst e \<noteq> k) (m :: metadata_v2)) j = (if j = k then None else map_of m j)"
  by (induction m) auto

lemma remove_metadata_string_InrD:
  assumes "remove_metadata_string k m = Inr (r, v)"
  shows "r = filter (\<lambda>e. fst e \<noteq> k) m" and "v = Some x \<longleftrightarrow> map_of m k = Some (StringV2 x)"
  using assms by (auto simp: remove_metadata_string_def Let_def split: option.splits metadata_entry_v2.splits)

lemma string_entry_filter: "j \<noteq> k \<Longrightarrow> string_entry (filter (\<lambda>e. fst e \<noteq> k) m) j = string_entry m j"
  by (simp add: string_entry_def map_of_filter_key_v2)

lemma remove_key_type_defined:
  "(\<exists>r. remove_key_type m = Inr r) \<longleftrightarrow>
     string_entry m ''authenticator_attachment'' \<and> (known_attachment m \<or> string_entry m ''usage'')"
proof (cases "remove_metadata_string ''authenticator_attachment'' m")
  case (Inl e)
  then have "\<not> string_entry m ''authenticator_attachment''"
    by (simp flip: remove_metadata_string_Inr)
  with Inl show ?thesis by (simp add: remove_key_type_def)
next
  case (Inr p)
  obtain r v where p: "p = (r, v)" by fastforce
  note D = remove_metadata_string_InrD [OF Inr [unfolded p]]
  have "string_entry m ''authenticator_attachment''" using Inr p by (simp flip: remove_metadata_string_Inr)
  moreover have "attachment_key_type v \<noteq> Unknown \<longleftrightarrow> known_attachment m"
    using D(2) [of "''platform''"] D(2) [of "''cross_platform''"]
    by (simp add: attachment_key_type_def known_attachment_def)
  moreover have "(\<exists>x. remove_metadata_string ''usage'' r = Inr x) \<longleftrightarrow> string_entry m ''usage''"
    using remove_metadata_string_Inr [of "''usage''" r] by (auto simp: D(1) string_entry_filter)
  ultimately show ?thesis
    using Inr p by (auto simp: remove_key_type_def split: sum.splits)
qed

text \<open>
  An authentication method converts to a device exactly when its alias, origin and
  authenticator attachment entries are strings, its usage entry is one or is not consulted because
  the attachment is known, and its aaguid has 16 bytes; every other method is refused with an
  error, so a metadata entry of the wrong type is never dropped silently.
\<close>

theorem authn_method_conversion_defined:
  "(\<exists>d. device_from_authn_method data = Inr d) \<longleftrightarrow>
     string_entry (amd_metadata data) ''alias'' \<and> string_entry (amd_metadata data) ''origin''
     \<and> string_entry (amd_metadata data) ''authenticator_attachment''
     \<and> (known_attachment (amd_metadata data) \<or> string_entry (amd_metadata data) ''usage'')
     \<and> (case amd_authn_method data of WebAuthn _ _ (Some b) \<Rightarrow> length b = 16 | _ \<Rightarrow> True)"
proof -
  let ?m = "amd_metadata data"
  have aaguid: "(\<exists>a. check_aaguid g = Inr a) \<longleftrightarrow> (case g of Some b \<Rightarrow> length b = 16 | None \<Rightarrow> True)" for g
    by (simp add: check_aaguid_def split: option.split)
  show ?thesis
  proof (cases "remove_metadata_string ''alias'' ?m")
    case (Inl e)
    then show ?thesis
      using remove_metadata_string_Inr [of "''alias''" ?m] by (simp add: device_from_authn_method_def)
  next
    case (Inr p)
    obtain m1 v1 where p: "p = (m1, v1)" by fastforce
    note m1 = remove_metadata_string_InrD(1) [OF Inr [unfolded p]]
    have ok1: "string_entry ?m ''alias''" using Inr p by (simp flip: remove_metadata_string_Inr)
    show ?thesis
    proof (cases "remove_metadata_string ''origin'' m1")
      case (Inl e)
      then show ?thesis
        using \<open>remove_metadata_string ''alias'' ?m = Inr p\<close> p remove_metadata_string_Inr [of "''origin''" m1]
        by (simp add: device_from_authn_method_def m1 string_entry_filter)
    next
      case (Inr q)
      obtain m2 v2 where q: "q = (m2, v2)" by fastforce
      note m2 = remove_metadata_string_InrD(1) [OF Inr [unfolded q]]
      have ok2: "string_entry ?m ''origin''"
        using Inr q remove_metadata_string_Inr [of "''origin''" m1] by (simp add: m1 string_entry_filter)
      have m2_get: "map_of m2 k = map_of ?m k" if "k \<noteq> ''alias''" "k \<noteq> ''origin''" for k
        using that by (simp add: m2 m1 map_of_filter_key_v2 del: filter_filter)
      have "string_entry m2 k = string_entry ?m k" if "k \<noteq> ''alias''" "k \<noteq> ''origin''" for k
        by (simp add: string_entry_def m2_get [OF that])
      moreover have "known_attachment m2 = known_attachment ?m" by (simp add: known_attachment_def m2_get)
      ultimately have key_type: "(\<exists>r. remove_key_type m2 = Inr r) \<longleftrightarrow>
          string_entry ?m ''authenticator_attachment'' \<and> (known_attachment ?m \<or> string_entry ?m ''usage'')"
        using remove_key_type_defined [of m2] by simp
      have "(\<exists>d. device_from_authn_method data = Inr d) \<longleftrightarrow>
          (\<exists>r. remove_key_type m2 = Inr r)
          \<and> (\<exists>a. check_aaguid (case amd_authn_method data of WebAuthn _ _ g \<Rightarrow> g | PubKey _ \<Rightarrow> None) = Inr a)"
        using \<open>remove_metadata_string ''alias'' ?m = Inr p\<close> p Inr q
        by (auto simp: device_from_authn_method_def split: sum.splits authn_method.splits prod.splits)
      then show ?thesis
        unfolding key_type aaguid using ok1 ok2
        by (auto split: authn_method.splits option.splits)
    qed
  qed
qed

end
