(* ===== verification/Canister.thy ===== *)
theory Canister
  imports Authn_Methods Account_Management Openid Archive_Client Registration_Rates Registration_Guards
    Tentative_Registration Expiring_Store Activity_Stats
begin

text \<open>
  The state of the canister (\<open>state.rs\<close>), the authorization of callers (\<open>authz_utils.rs\<close>) and the
  operations on one anchor with their bookkeeping (\<open>anchor_management.rs\<close>). The crates are collected
  in one record; the time and the caller of a message are arguments. \<open>None\<close> is a trap, which rolls
  the message back; a returned error keeps the changes made before it.
\<close>

section \<open>State\<close>

record ('w, 'k, 'r) crates =
  cr_sa :: "bytes \<Rightarrow> principal"
  cr_sha :: "bytes \<Rightarrow> bytes"
  cr_der :: "bytes \<Rightarrow> bytes"
  cr_encode :: "archive_entry \<Rightarrow> bytes"
  cr_fits :: "accounts_counter \<Rightarrow> bool"
  cr_fits_discrepancy :: "u64 \<Rightarrow> bool"
  cr_next_u32 :: "bytes \<Rightarrow> u32 \<times> bytes"
  cr_create_captcha :: "bytes \<Rightarrow> string \<times> string"
  cr_jose :: "('w, 'k, 'r) jose"

record 'k canister =
  cn_storage :: storage
  cn_rates :: registration_rates
  cn_temp_keys :: temp_keys
  cn_flows :: flow_states
  cn_challenges :: "(challenge_key, challenge_info) omap"
  cn_tentative :: tentative_state
  cn_rate_limit :: "rate_limit_state option"
  cn_anchor_operation_counter :: u64
  cn_archive_state :: archive_state
  cn_rate_limit_config :: rate_limit_config
  cn_captcha_config :: captcha_config
  cn_activity :: anchor_activity
  cn_openid :: "'k openid_state"

type_synonym ('k, 'e, 'a) message = "'k canister \<Rightarrow> ('k canister, 'e, 'a) op_result"

text \<open>\<open>state::anchor\<close>: reading traps on an error.\<close>

definition state_anchor :: "anchor_number \<Rightarrow> 'k canister \<Rightarrow> anchor option" where
  "state_anchor n c = (case storage_read (cn_storage c) n of Some (Inr a) \<Rightarrow> Some a | _ \<Rightarrow> None)"

text \<open>The methods of the legacy interface turn an error into a trap.\<close>

definition trap_on_error :: "('s, 'e, 'a) op_result \<Rightarrow> ('s, 'f, 'a) op_result" where
  "trap_on_error m = (case m of Some (s, Inr x) \<Rightarrow> Some (s, Inr x) | _ \<Rightarrow> None)"

section \<open>Authorization\<close>

fun authorizing_device ::
  "(bytes \<Rightarrow> principal) \<Rightarrow> timestamp \<Rightarrow> principal \<Rightarrow> anchor_number \<Rightarrow> device list \<Rightarrow> temp_keys
     \<Rightarrow> temp_keys \<times> device_key option" where
  "authorizing_device sa now caller n [] keys = (keys, None)"
| "authorizing_device sa now caller n (d # ds) keys =
     (if caller = sa (dev_pubkey d) then (keys, Some (dev_pubkey d))
      else
        (case check_temp_key now caller (dev_pubkey d) n keys of
           (keys, ok) \<Rightarrow>
             if ok then (keys, Some (dev_pubkey d)) else authorizing_device sa now caller n ds keys))"

text \<open>The principal of a credential needs the salt; without one its computation traps.\<close>

fun authorizing_credential ::
  "(openid_credential \<Rightarrow> principal option) \<Rightarrow> principal \<Rightarrow> openid_credential list
     \<Rightarrow> openid_credential option option" where
  "authorizing_credential principal_of caller [] = Some None"
| "authorizing_credential principal_of caller (c # cs) =
     (case principal_of c of
        None \<Rightarrow> None
      | Some p \<Rightarrow> if caller = p then Some (Some c) else authorizing_credential principal_of caller cs)"

definition credential_principal ::
  "('w, 'k, 'r) crates \<Rightarrow> storage \<Rightarrow> anchor_number \<Rightarrow> openid_credential \<Rightarrow> principal option" where
  "credential_principal cr s n cred =
     (case storage_salt s of
        None \<Rightarrow> None
      | Some salt \<Rightarrow> Some (openid_principal (cr_sha cr) (cr_der cr) (cr_sa cr) salt cred n))"

definition check_authorization ::
  "('w, 'k, 'r) crates \<Rightarrow> timestamp \<Rightarrow> principal \<Rightarrow> anchor_number
     \<Rightarrow> ('k, principal, anchor \<times> authorization_key) message" where
  "check_authorization cr now caller n c =
     (case state_anchor n c of
        None \<Rightarrow> None
      | Some anchor \<Rightarrow>
          (case authorizing_device (cr_sa cr) now caller n (a_devices anchor) (cn_temp_keys c) of
             (keys, Some pubkey) \<Rightarrow> Some (c\<lparr>cn_temp_keys := keys\<rparr>, Inr (anchor, DeviceKey pubkey))
           | (keys, None) \<Rightarrow>
               (case authorizing_credential (credential_principal cr (cn_storage c) n) caller
                       (a_openid_credentials anchor) of
                  None \<Rightarrow> None
                | Some None \<Rightarrow> Some (c\<lparr>cn_temp_keys := keys\<rparr>, Inl caller)
                | Some (Some cred) \<Rightarrow>
                    Some (c\<lparr>cn_temp_keys := keys\<rparr>,
                      Inr (anchor, OpenIdCredentialKey (oc_key cred) (config_issuer (cn_openid c) cred))))))"

definition is_self_authenticating :: "(bytes \<Rightarrow> principal) \<Rightarrow> principal \<Rightarrow> bool" where
  "is_self_authenticating sa p \<longleftrightarrow> length p = 29 \<and> last p = last (sa [0xde, 0xad, 0xbe, 0xef])"

section \<open>Bookkeeping\<close>

definition activity_bookkeeping ::
  "timestamp \<Rightarrow> anchor \<Rightarrow> authorization_key \<Rightarrow> anchor_activity \<Rightarrow> (anchor \<times> anchor_activity) option" where
  "activity_bookkeeping now anchor key activity =
     (case (case key of
              DeviceKey device_key \<Rightarrow> set_device_usage_timestamp anchor device_key now
            | OpenIdCredentialKey credential_key _ \<Rightarrow>
                set_openid_credential_usage_timestamp anchor credential_key now) of
        Inl _ \<Rightarrow> None
      | Inr anchor' \<Rightarrow> Some (anchor', update_activity_stats now anchor key activity))"

definition post_operation_bookkeeping ::
  "('w, 'k, 'r) crates \<Rightarrow> timestamp \<Rightarrow> principal \<Rightarrow> anchor_number \<Rightarrow> operation \<Rightarrow> 'k canister \<Rightarrow> 'k canister option" where
  "post_operation_bookkeeping cr now caller n op c =
     (case archive_operation (cr_encode cr) now n caller op (cn_storage c, cn_archive_state c) of
        None \<Rightarrow> None
      | Some (s, ar) \<Rightarrow>
          Some (c\<lparr>cn_storage := s, cn_archive_state := ar,
                  cn_anchor_operation_counter := cn_anchor_operation_counter c + 1\<rparr>))"

datatype identity_update_error =
    Unauthorized principal
  | IdentityStorageError anchor_number storage_error

text \<open>\<open>storage.write\<close> of the anchor, then the bookkeeping after a successful operation.\<close>

definition write_anchor ::
  "('w, 'k, 'r) crates \<Rightarrow> anchor \<Rightarrow> ('k, storage_error, unit) message" where
  "write_anchor cr anchor c =
     (case storage_write (cr_sa cr) (cn_storage c) anchor of
        Inl e \<Rightarrow> Some (c, Inl e)
      | Inr s \<Rightarrow> Some (c\<lparr>cn_storage := s\<rparr>, Inr ()))"

definition anchor_operation_with_authz_check ::
  "('w, 'k, 'r) crates \<Rightarrow> timestamp \<Rightarrow> principal \<Rightarrow> (identity_update_error \<Rightarrow> 'e) \<Rightarrow> anchor_number
     \<Rightarrow> (anchor \<Rightarrow> ('k, 'e, 'a \<times> operation \<times> anchor) message) \<Rightarrow> ('k, 'e, 'a) message" where
  "anchor_operation_with_authz_check cr now caller conv n op c =
     op_bind (op_map_err (\<lambda>p. conv (Unauthorized p)) (check_authorization cr now caller n c))
       (\<lambda>(anchor, key) c.
          case activity_bookkeeping now anchor key (cn_activity c) of
            None \<Rightarrow> None
          | Some (anchor, activity) \<Rightarrow>
              op_bind (op anchor (c\<lparr>cn_activity := activity\<rparr>))
                (\<lambda>(ret, operation, anchor) c.
                   op_bind (op_map_err (\<lambda>e. conv (IdentityStorageError n e)) (write_anchor cr anchor c))
                     (\<lambda>_ c.
                        case post_operation_bookkeeping cr now caller n operation c of
                          None \<Rightarrow> None
                        | Some c \<Rightarrow> Some (c, Inr ret))))"

definition check_authz_and_record_activity ::
  "('w, 'k, 'r) crates \<Rightarrow> timestamp \<Rightarrow> principal \<Rightarrow> anchor_number
     \<Rightarrow> ('k, identity_update_error, ii_domain option) message" where
  "check_authz_and_record_activity cr now caller n c =
     op_bind (op_map_err Unauthorized (check_authorization cr now caller n c))
       (\<lambda>(anchor, key) c.
          case (case key of
                  DeviceKey device_key \<Rightarrow> map_option device_ii_domain (anchor_device anchor device_key)
                | OpenIdCredentialKey _ _ \<Rightarrow> Some None) of
            None \<Rightarrow> None
          | Some maybe_domain \<Rightarrow>
              (case activity_bookkeeping now anchor key (cn_activity c) of
                 None \<Rightarrow> None
               | Some (anchor, activity) \<Rightarrow>
                   op_bind (op_map_err (IdentityStorageError n)
                              (write_anchor cr anchor (c\<lparr>cn_activity := activity\<rparr>)))
                     (\<lambda>_ c. Some (c, Inr maybe_domain))))"

section \<open>Operations on one anchor\<close>

text \<open>Errors of the anchor module trap in these operations (\<open>None\<close>).\<close>

definition management_add_device :: "anchor \<Rightarrow> device_data \<Rightarrow> (operation \<times> anchor) option" where
  "management_add_device anchor data =
     (let new_device = device_from_data data in
      case add_device anchor new_device of
        Inl _ \<Rightarrow> None
      | Inr anchor \<Rightarrow> Some (AddDevice (device_without_alias new_device), anchor))"

definition management_update_device ::
  "(bytes \<Rightarrow> principal) \<Rightarrow> principal \<Rightarrow> anchor \<Rightarrow> device_key \<Rightarrow> device_data \<Rightarrow> (operation \<times> anchor) option" where
  "management_update_device sa caller anchor device_key data =
     (case anchor_device anchor device_key of
        None \<Rightarrow> None
      | Some existing_device \<Rightarrow>
          (let new_device = apply_device_data existing_device data in
           case modify_device sa caller anchor device_key new_device of
             Inl _ \<Rightarrow> None
           | Inr anchor \<Rightarrow> Some (UpdateDevice device_key (device_diff existing_device new_device), anchor)))"

definition management_replace_device ::
  "(bytes \<Rightarrow> principal) \<Rightarrow> principal \<Rightarrow> anchor_number \<Rightarrow> anchor \<Rightarrow> device_key \<Rightarrow> device_data \<Rightarrow> temp_keys
     \<Rightarrow> (operation \<times> anchor \<times> temp_keys) option" where
  "management_replace_device sa caller n anchor old_device data keys =
     (case remove_device sa caller anchor old_device of
        Inl _ \<Rightarrow> None
      | Inr anchor \<Rightarrow>
          (let new_device = device_from_data data in
           case add_device anchor new_device of
             Inl _ \<Rightarrow> None
           | Inr anchor \<Rightarrow>
               Some (ReplaceDevice old_device (device_without_alias new_device), anchor,
                     remove_temp_key (n, old_device) keys)))"

definition management_remove_device ::
  "(bytes \<Rightarrow> principal) \<Rightarrow> principal \<Rightarrow> anchor_number \<Rightarrow> anchor \<Rightarrow> device_key \<Rightarrow> temp_keys
     \<Rightarrow> (operation \<times> anchor \<times> temp_keys) option" where
  "management_remove_device sa caller n anchor device_key keys =
     (case remove_device sa caller anchor device_key of
        Inl _ \<Rightarrow> None
      | Inr anchor \<Rightarrow> Some (RemoveDevice device_key, anchor, remove_temp_key (n, device_key) keys))"

definition management_metadata_replace :: "anchor \<Rightarrow> metadata \<Rightarrow> anchor_error + operation \<times> anchor" where
  "management_metadata_replace anchor metadata =
     (case replace_identity_metadata anchor metadata of
        Inl e \<Rightarrow> Inl e
      | Inr anchor \<Rightarrow> Inr (IdentityMetadataReplace (map fst metadata), anchor))"

definition management_set_name :: "anchor \<Rightarrow> string option \<Rightarrow> anchor_error + operation \<times> anchor" where
  "management_set_name anchor name =
     (case anchor_set_name anchor name of
        Inl e \<Rightarrow> Inl e
      | Inr anchor' \<Rightarrow>
          Inr (case (a_name anchor, name) of
                 (None, Some _) \<Rightarrow> AddName
               | (Some _, None) \<Rightarrow> RemoveName
               | _ \<Rightarrow> UpdateName, anchor'))"

definition check_openid_credential_is_unique :: "storage \<Rightarrow> openid_credential_key \<Rightarrow> anchor_error + unit" where
  "check_openid_credential_is_unique s key =
     (if lookup_anchor_with_openid_credential s key \<noteq> None then Inl OpenIdCredentialAlreadyRegistered
      else Inr ())"

definition add_openid_credential_skip_checks ::
  "anchor \<Rightarrow> openid_credential \<Rightarrow> anchor_error + operation \<times> anchor" where
  "add_openid_credential_skip_checks anchor cred =
     (case add_openid_credential anchor cred of
        Inl e \<Rightarrow> Inl e
      | Inr anchor \<Rightarrow> Inr (AddOpenIdCredential (oc_iss cred), anchor))"

definition management_add_openid_credential ::
  "storage \<Rightarrow> anchor \<Rightarrow> openid_credential \<Rightarrow> anchor_error + operation \<times> anchor" where
  "management_add_openid_credential s anchor cred =
     (case check_openid_credential_is_unique s (oc_key cred) of
        Inl e \<Rightarrow> Inl e
      | Inr _ \<Rightarrow> add_openid_credential_skip_checks anchor cred)"

definition management_remove_openid_credential ::
  "anchor \<Rightarrow> openid_credential_key \<Rightarrow> anchor_error + operation \<times> anchor" where
  "management_remove_openid_credential anchor key =
     (case remove_openid_credential anchor key of
        Inl e \<Rightarrow> Inl e
      | Inr anchor \<Rightarrow> Inr (RemoveOpenIdCredential (fst key), anchor))"

definition check_passkey_pubkey_is_not_used ::
  "(bytes \<Rightarrow> principal) \<Rightarrow> storage \<Rightarrow> device_key \<Rightarrow> bool" where
  "check_passkey_pubkey_is_not_used sa s pubkey \<longleftrightarrow> lookup_anchor_with_passkey_pubkey sa s pubkey = None"

definition lookup_device_key_with_credential_id ::
  "credential_id \<Rightarrow> 'k canister \<Rightarrow> (device_key \<times> anchor_number) option option" where
  "lookup_device_key_with_credential_id credential_id c =
     (case lookup_anchor_with_device_credential (cn_storage c) credential_id of
        None \<Rightarrow> Some None
      | Some n \<Rightarrow>
          (case state_anchor n c of
             None \<Rightarrow> None
           | Some anchor \<Rightarrow>
               Some (map_option (\<lambda>d. (dev_pubkey d, n))
                 (find (\<lambda>d. dev_credential_id d = Some credential_id) (a_devices anchor)))))"

end
