(* ===== verification/Registration.thy ===== *)
theory Registration
  imports Canister
begin

text \<open>
  The creation of identities: the legacy \<open>register\<close> (\<open>registration.rs\<close>) and the registration flow
  (\<open>registration_flow_v2.rs\<close>). An asynchronous function is split at its awaits; the randomness that
  arrives after the await is the argument \<open>seed\<close>.
\<close>

section \<open>The legacy registration\<close>

datatype register_response = Registered anchor_number | BadChallenge | CanisterFull

definition verify_caller_is_device_or_temp_key :: "principal \<Rightarrow> principal option \<Rightarrow> principal \<Rightarrow> bool" where
  "verify_caller_is_device_or_temp_key caller temp_key device_principal \<longleftrightarrow>
     (if caller \<noteq> device_principal
      then (case temp_key of Some k \<Rightarrow> \<not> caller \<noteq> k | None \<Rightarrow> False)
      else True)"

text \<open>From the passed captcha on.\<close>

definition register_device ::
  "('w, 'k, 'r) crates \<Rightarrow> timestamp \<Rightarrow> principal \<Rightarrow> device_data \<Rightarrow> principal option
     \<Rightarrow> 'k canister \<Rightarrow> ('k canister \<times> register_response) option" where
  "register_device cr now caller data temp_key c =
     (let device = device_from_data data; device_principal = cr_sa cr (dev_pubkey device) in
      if temp_key = Some device_principal then None
      else if \<not> verify_caller_is_device_or_temp_key caller temp_key device_principal then None
      else
        (case allocate_anchor (cn_storage c) now of
           (s, None) \<Rightarrow> Some (c\<lparr>cn_storage := s\<rparr>, CanisterFull)
         | (s, Some anchor) \<Rightarrow>
             (case add_device anchor device of
                Inl _ \<Rightarrow> None
              | Inr anchor \<Rightarrow>
                  (case activity_bookkeeping now anchor (DeviceKey (dev_pubkey device)) (cn_activity c) of
                     None \<Rightarrow> None
                   | Some (anchor, activity) \<Rightarrow>
                       (case storage_write (cr_sa cr) s anchor of
                          Inl _ \<Rightarrow> None
                        | Inr s \<Rightarrow>
                            (case post_operation_bookkeeping cr now caller (a_number anchor)
                                    (RegisterAnchor (device_without_alias device))
                                    (c\<lparr>cn_storage := s, cn_activity := activity,
                                       cn_rates := new_registration now (cn_captcha_config c) (cn_rates c),
                                       cn_temp_keys :=
                                         (case temp_key of
                                            Some k \<Rightarrow> add_temp_key now (dev_pubkey device) (a_number anchor) k (cn_temp_keys c)
                                          | None \<Rightarrow> cn_temp_keys c)\<rparr>) of
                               None \<Rightarrow> None
                             | Some c \<Rightarrow> Some (c, Registered (a_number anchor))))))))"

definition register ::
  "('w, 'k, 'r) crates \<Rightarrow> timestamp \<Rightarrow> principal \<Rightarrow> device_data \<Rightarrow> challenge_key \<Rightarrow> string \<Rightarrow> principal option
     \<Rightarrow> 'k canister \<Rightarrow> ('k canister \<times> register_response) option" where
  "register cr now caller data key chars temp_key c =
     (case process_rate_limit now (cn_rate_limit_config c) (cn_rate_limit c) of
        None \<Rightarrow> None
      | Some (_, False) \<Rightarrow> None
      | Some (rate_limit, True) \<Rightarrow>
          (let c = c\<lparr>cn_rate_limit := Some rate_limit\<rparr> in
           if captcha_required (cn_captcha_config c) (cn_rates c)
           then
             (case check_challenge now key chars (cn_challenges c) of
                (challenges, False) \<Rightarrow> Some (c\<lparr>cn_challenges := challenges\<rparr>, BadChallenge)
              | (challenges, True) \<Rightarrow>
                  register_device cr now caller data temp_key (c\<lparr>cn_challenges := challenges\<rparr>))
           else register_device cr now caller data temp_key c))"

text \<open>\<open>create_challenge\<close>, after the randomness has arrived.\<close>

definition create_challenge_method ::
  "('w, 'k, 'r) crates \<Rightarrow> timestamp \<Rightarrow> bytes \<Rightarrow> 'k canister \<Rightarrow> ('k canister \<times> string \<times> challenge_key) option" where
  "create_challenge_method cr now seed c =
     (case create_challenge (cr_next_u32 cr) (cr_create_captcha cr) now
             (cc_max_unsolved_captchas (cn_captcha_config c)) seed (cn_challenges c) of
        None \<Rightarrow> None
      | Some (challenges, png, key) \<Rightarrow> Some (c\<lparr>cn_challenges := challenges\<rparr>, png, key))"

section \<open>The registration flow\<close>

datatype registration_flow_next_step = CheckCaptchaStep string | FinishStep

fun to_flow_next_step :: "registration_flow_state \<Rightarrow> registration_flow_next_step" where
  "to_flow_next_step (CheckCaptchaFlow _ _ png) = CheckCaptchaStep png"
| "to_flow_next_step (FinishRegistrationFlow _) = FinishStep"

datatype id_reg_start_error = RateLimitExceeded | InvalidCaller | FlowAlreadyInProgress

text \<open>\<open>Principal::anonymous()\<close>.\<close>

definition anonymous :: principal where "anonymous = [4]"

text \<open>The last segment of a start: the flow is stored unless the caller has one.\<close>

definition store_new_flow ::
  "timestamp \<Rightarrow> principal \<Rightarrow> registration_flow_state \<Rightarrow> 'k canister
     \<Rightarrow> 'k canister \<times> (id_reg_start_error + registration_flow_next_step)" where
  "store_new_flow now caller flow c =
     (case new_registration_flow now caller flow (cn_flows c) of
        (flows, ok) \<Rightarrow>
          (c\<lparr>cn_flows := flows\<rparr>, if ok then Inr (to_flow_next_step flow) else Inl FlowAlreadyInProgress))"

text \<open>The answer of a start, or the captcha it waits for with the creation time of the flow.\<close>

datatype start_outcome =
    StartAnswered "id_reg_start_error + registration_flow_next_step"
  | StartAwaitsCaptcha timestamp

definition identity_registration_start ::
  "timestamp \<Rightarrow> principal \<Rightarrow> 'k canister \<Rightarrow> ('k canister \<times> start_outcome) option" where
  "identity_registration_start now caller c =
     (case process_rate_limit now (cn_rate_limit_config c) (cn_rate_limit c) of
        None \<Rightarrow> None
      | Some (rate_limit, accepted) \<Rightarrow>
          (let c = c\<lparr>cn_rate_limit := Some rate_limit\<rparr> in
           Some
             (if \<not> accepted then (c, StartAnswered (Inl RateLimitExceeded))
              else if caller = anonymous then (c, StartAnswered (Inl InvalidCaller))
              else if captcha_required (cn_captcha_config c) (cn_rates c) then (c, StartAwaitsCaptcha now)
              else
                (case store_new_flow now caller (FinishRegistrationFlow now) c of
                   (c, r) \<Rightarrow> (c, StartAnswered r)))))"

definition captcha_flow_state ::
  "('w, 'k, 'r) crates \<Rightarrow> bytes \<Rightarrow> timestamp \<Rightarrow> string \<times> registration_flow_state" where
  "captcha_flow_state cr seed flow_created =
     (case cr_create_captcha cr seed of
        (png, solution) \<Rightarrow> (png, CheckCaptchaFlow flow_created solution png))"

definition registration_start_captcha_ready ::
  "('w, 'k, 'r) crates \<Rightarrow> timestamp \<Rightarrow> principal \<Rightarrow> timestamp \<Rightarrow> bytes \<Rightarrow> 'k canister
     \<Rightarrow> 'k canister \<times> (id_reg_start_error + registration_flow_next_step)" where
  "registration_start_captcha_ready cr now caller flow_created seed c =
     store_new_flow now caller (snd (captcha_flow_state cr seed flow_created)) c"

datatype check_captcha_error =
    WrongSolution string
  | UnexpectedCheckCall registration_flow_next_step
  | NoRegistrationFlowToCheck

datatype check_outcome =
    CheckAnswered "check_captcha_error + registration_flow_next_step"
  | CheckAwaitsCaptcha timestamp

definition check_captcha ::
  "timestamp \<Rightarrow> principal \<Rightarrow> string \<Rightarrow> 'k canister \<Rightarrow> 'k canister \<times> check_outcome" where
  "check_captcha now caller solution c =
     (case lookup_registration_flow now caller (cn_flows c) of
        None \<Rightarrow> (c, CheckAnswered (Inl NoRegistrationFlowToCheck))
      | Some (FinishRegistrationFlow created) \<Rightarrow>
          (c, CheckAnswered (Inl (UnexpectedCheckCall (to_flow_next_step (FinishRegistrationFlow created)))))
      | Some (CheckCaptchaFlow created expected _) \<Rightarrow>
          if \<not> check_captcha_solution solution expected then (c, CheckAwaitsCaptcha created)
          else
            (case update_registration_flow now caller (FinishRegistrationFlow created) (cn_flows c) of
               (flows, ok) \<Rightarrow>
                 (c\<lparr>cn_flows := flows\<rparr>,
                  CheckAnswered (if ok then Inr FinishStep else Inl NoRegistrationFlowToCheck))))"

definition check_captcha_captcha_ready ::
  "('w, 'k, 'r) crates \<Rightarrow> timestamp \<Rightarrow> principal \<Rightarrow> timestamp \<Rightarrow> bytes \<Rightarrow> 'k canister
     \<Rightarrow> 'k canister \<times> (check_captcha_error + registration_flow_next_step)" where
  "check_captcha_captcha_ready cr now caller flow_created seed c =
     (case captcha_flow_state cr seed flow_created of
        (png, flow) \<Rightarrow>
          (case update_registration_flow now caller flow (cn_flows c) of
             (flows, ok) \<Rightarrow>
               (c\<lparr>cn_flows := flows\<rparr>, Inl (if ok then WrongSolution png else NoRegistrationFlowToCheck))))"

section \<open>Creating the identity\<close>

datatype create_identity_data =
    PubkeyAuthn authn_method_data "string option"
  | OpenIdRegistration string bytes string

datatype id_reg_finish_error =
    UnexpectedCall registration_flow_next_step
  | NoRegistrationFlow
  | InvalidAuthnMethod
  | RegistrationStorageError

datatype validated_create_identity_data =
    ValidatedPubkeyAuthn authn_method_data "string option"
  | ValidatedOpenId string openid_credential string

definition create_openid_credential_and_config ::
  "('w, 'k, 'r) crates \<Rightarrow> timestamp \<Rightarrow> principal \<Rightarrow> 'k openid_state \<Rightarrow> string \<Rightarrow> bytes
     \<Rightarrow> openid_jwt_error + openid_credential \<times> string" where
  "create_openid_credential_and_config cr now caller os jwt salt =
     with_provider (cr_jose cr) os jwt
       (\<lambda>p. case provider_issuer (os_tasks os) p of
              None \<Rightarrow> Inl GenericError
            | Some issuer \<Rightarrow>
                (case provider_verify (cr_jose cr) (os_tasks os) now caller p jwt salt of
                   Inl e \<Rightarrow> Inl e
                 | Inr cred \<Rightarrow> Inr (cred, issuer)))"

definition validate_identity_data ::
  "('w, 'k, 'r) crates \<Rightarrow> timestamp \<Rightarrow> principal \<Rightarrow> 'k openid_state \<Rightarrow> storage \<Rightarrow> create_identity_data
     \<Rightarrow> id_reg_finish_error + validated_create_identity_data" where
  "validate_identity_data cr now caller os s arg =
     (case arg of
        PubkeyAuthn authn_method name \<Rightarrow> Inr (ValidatedPubkeyAuthn authn_method name)
      | OpenIdRegistration jwt salt name \<Rightarrow>
          (case create_openid_credential_and_config cr now caller os jwt salt of
             Inl _ \<Rightarrow> Inl InvalidAuthnMethod
           | Inr (cred, config_iss) \<Rightarrow>
               (case check_openid_credential_is_unique s (oc_key cred) of
                  Inl _ \<Rightarrow> Inl InvalidAuthnMethod
                | Inr _ \<Rightarrow> Inr (ValidatedOpenId name cred config_iss))))"

text \<open>
  The callback of the allocation. Its error is \<open>None\<close> when the bookkeeping traps. The statistics
  it updates are returned with the operation.
\<close>

definition identity_with_method ::
  "anchor \<Rightarrow> validated_create_identity_data
     \<Rightarrow> id_reg_finish_error + authorization_key \<times> operation \<times> anchor" where
  "identity_with_method identity arg =
     (case arg of
        ValidatedPubkeyAuthn authn_method _ \<Rightarrow>
          (case device_from_authn_method authn_method of
             Inl _ \<Rightarrow> Inl InvalidAuthnMethod
           | Inr d \<Rightarrow>
               (let device = device_from_data (device_data_from d) in
                case add_device identity device of
                  Inl _ \<Rightarrow> Inl InvalidAuthnMethod
                | Inr identity \<Rightarrow>
                    Inr (DeviceKey (dev_pubkey device), RegisterAnchor (device_without_alias device), identity)))
      | ValidatedOpenId _ cred config_iss \<Rightarrow>
          (case add_openid_credential_skip_checks identity cred of
             Inl _ \<Rightarrow> Inl InvalidAuthnMethod
           | Inr (_, identity) \<Rightarrow>
               Inr (OpenIdCredentialKey (oc_key cred) (Some config_iss),
                    RegisterAnchorWithOpenIdCredential config_iss, identity)))"

fun validated_name :: "validated_create_identity_data \<Rightarrow> string option" where
  "validated_name (ValidatedPubkeyAuthn _ name) = name"
| "validated_name (ValidatedOpenId name _ _) = Some name"

definition apply_identity_data ::
  "timestamp \<Rightarrow> anchor_activity \<Rightarrow> validated_create_identity_data \<Rightarrow> anchor
     \<Rightarrow> id_reg_finish_error option + (operation \<times> anchor_activity) \<times> anchor" where
  "apply_identity_data now activity arg identity =
     (case management_set_name identity (validated_name arg) of
        Inl _ \<Rightarrow> Inl (Some RegistrationStorageError)
      | Inr (_, identity) \<Rightarrow>
          (case identity_with_method identity arg of
             Inl e \<Rightarrow> Inl (Some e)
           | Inr (key, operation, identity) \<Rightarrow>
               (case activity_bookkeeping now identity key activity of
                  None \<Rightarrow> Inl None
                | Some (identity, activity) \<Rightarrow> Inr ((operation, activity), identity))))"

text \<open>The passkeys whose uniqueness is checked before anything else.\<close>

definition registration_passkey :: "create_identity_data \<Rightarrow> device_key option" where
  "registration_passkey arg =
     (case arg of
        PubkeyAuthn authn_method _ \<Rightarrow>
          (case amd_authn_method authn_method of WebAuthn pubkey _ _ \<Rightarrow> Some pubkey | PubKey _ \<Rightarrow> None)
      | OpenIdRegistration _ _ _ \<Rightarrow> None)"

definition passkey_taken :: "(bytes \<Rightarrow> principal) \<Rightarrow> storage \<Rightarrow> device_key option \<Rightarrow> bool" where
  "passkey_taken sa s pubkey =
     (case pubkey of None \<Rightarrow> False | Some k \<Rightarrow> \<not> check_passkey_pubkey_is_not_used sa s k)"

definition create_identity ::
  "('w, 'k, 'r) crates \<Rightarrow> timestamp \<Rightarrow> principal \<Rightarrow> create_identity_data
     \<Rightarrow> ('k, id_reg_finish_error, anchor_number) message" where
  "create_identity cr now caller arg c =
     (if passkey_taken (cr_sa cr) (cn_storage c) (registration_passkey arg)
      then Some (c, Inl InvalidAuthnMethod)
      else
        (case validate_identity_data cr now caller (cn_openid c) (cn_storage c) arg of
           Inl e \<Rightarrow> Some (c, Inl e)
         | Inr data \<Rightarrow>
             (case allocate_anchor_safe (cr_sa cr) (\<lambda>_. Some RegistrationStorageError) (cn_storage c) now
                     (\<lambda>identity.
                        case apply_identity_data now (cn_activity c) data identity of
                          Inl e \<Rightarrow> Inl e
                        | Inr (r, identity) \<Rightarrow> Inr ((a_number identity, r), identity)) of
                (s, Inl None) \<Rightarrow> None
              | (s, Inl (Some e)) \<Rightarrow> Some (c\<lparr>cn_storage := s\<rparr>, Inl e)
              | (s, Inr (n, operation, activity)) \<Rightarrow>
                  (case post_operation_bookkeeping cr now caller n operation
                          (c\<lparr>cn_storage := s, cn_activity := activity,
                             cn_rates := new_registration now (cn_captcha_config c) (cn_rates c)\<rparr>) of
                     None \<Rightarrow> None
                   | Some c \<Rightarrow> Some (c, Inr n)))))"

definition identity_registration_finish ::
  "('w, 'k, 'r) crates \<Rightarrow> timestamp \<Rightarrow> principal \<Rightarrow> create_identity_data
     \<Rightarrow> ('k, id_reg_finish_error, anchor_number) message" where
  "identity_registration_finish cr now caller arg c =
     (case lookup_registration_flow now caller (cn_flows c) of
        None \<Rightarrow> Some (c, Inl NoRegistrationFlow)
      | Some (CheckCaptchaFlow created solution png) \<Rightarrow>
          Some (c, Inl (UnexpectedCall (to_flow_next_step (CheckCaptchaFlow created solution png))))
      | Some (FinishRegistrationFlow _) \<Rightarrow>
          op_bind (create_identity cr now caller arg c)
            (\<lambda>n c.
               Some (c\<lparr>cn_flows := remove_registration_flow now caller (cn_flows c),
                       cn_temp_keys :=
                         (case arg of
                            PubkeyAuthn authn_method _ \<Rightarrow>
                              add_temp_key now (authn_method_public_key authn_method) n caller (cn_temp_keys c)
                          | OpenIdRegistration _ _ _ \<Rightarrow> cn_temp_keys c)\<rparr>, Inr n)))"

text \<open>\<open>openid_identity_registration_finish\<close> of \<open>main.rs\<close> verifies the token first.\<close>

definition openid_identity_registration_finish ::
  "('w, 'k, 'r) crates \<Rightarrow> timestamp \<Rightarrow> principal \<Rightarrow> string \<Rightarrow> bytes \<Rightarrow> string
     \<Rightarrow> ('k, id_reg_finish_error, anchor_number) message" where
  "openid_identity_registration_finish cr now caller jwt salt name c =
     (case verify_jwt (cr_jose cr) (cn_openid c) now caller jwt salt of
        Inl _ \<Rightarrow> Some (c, Inl InvalidAuthnMethod)
      | Inr _ \<Rightarrow> identity_registration_finish cr now caller (OpenIdRegistration jwt salt name) c)"

end
