(* ===== verification/Canister_Methods.thy ===== *)
theory Canister_Methods
  imports Registration
begin

text \<open>
  The methods of the canister that change its state (\<open>main.rs\<close>). An asynchronous method is split at
  its awaits. The certified signatures and the usage statistics of delegations are not part of the
  state.
\<close>

section \<open>Devices\<close>

definition add_method ::
  "('w, 'k, 'r) crates \<Rightarrow> timestamp \<Rightarrow> principal \<Rightarrow> anchor_number \<Rightarrow> device_data \<Rightarrow> ('k, unit, unit) message" where
  "add_method cr now caller n data c =
     trap_on_error
       (anchor_operation_with_authz_check cr now caller (\<lambda>_. ()) n
          (\<lambda>anchor c.
             if \<not> check_passkey_pubkey_is_not_used (cr_sa cr) (cn_storage c) (dev_pubkey data)
             then Some (c, Inl ())
             else
               (case management_add_device anchor data of
                  None \<Rightarrow> None
                | Some (operation, anchor) \<Rightarrow> Some (c, Inr ((), operation, anchor)))) c)"

definition update_method ::
  "('w, 'k, 'r) crates \<Rightarrow> timestamp \<Rightarrow> principal \<Rightarrow> anchor_number \<Rightarrow> device_key \<Rightarrow> device_data
     \<Rightarrow> ('k, unit, unit) message" where
  "update_method cr now caller n device_key data c =
     trap_on_error
       (anchor_operation_with_authz_check cr now caller (\<lambda>_. ()) n
          (\<lambda>anchor c.
             if device_key \<noteq> dev_pubkey data
                \<and> \<not> check_passkey_pubkey_is_not_used (cr_sa cr) (cn_storage c) (dev_pubkey data)
             then Some (c, Inl ())
             else
               (case management_update_device (cr_sa cr) caller anchor device_key data of
                  None \<Rightarrow> None
                | Some (operation, anchor) \<Rightarrow> Some (c, Inr ((), operation, anchor)))) c)"

definition replace_method ::
  "('w, 'k, 'r) crates \<Rightarrow> timestamp \<Rightarrow> principal \<Rightarrow> anchor_number \<Rightarrow> device_key \<Rightarrow> device_data
     \<Rightarrow> ('k, unit, unit) message" where
  "replace_method cr now caller n device_key data c =
     trap_on_error
       (anchor_operation_with_authz_check cr now caller (\<lambda>_. ()) n
          (\<lambda>anchor c.
             if device_key \<noteq> dev_pubkey data
                \<and> \<not> check_passkey_pubkey_is_not_used (cr_sa cr) (cn_storage c) (dev_pubkey data)
             then Some (c, Inl ())
             else
               (case management_replace_device (cr_sa cr) caller n anchor device_key data (cn_temp_keys c) of
                  None \<Rightarrow> None
                | Some (operation, anchor, keys) \<Rightarrow>
                    Some (c\<lparr>cn_temp_keys := keys\<rparr>, Inr ((), operation, anchor)))) c)"

definition remove_method ::
  "('w, 'k, 'r) crates \<Rightarrow> timestamp \<Rightarrow> principal \<Rightarrow> anchor_number \<Rightarrow> device_key \<Rightarrow> ('k, unit, unit) message" where
  "remove_method cr now caller n device_key c =
     trap_on_error
       (anchor_operation_with_authz_check cr now caller (\<lambda>_. ()) n
          (\<lambda>anchor c.
             case management_remove_device (cr_sa cr) caller n anchor device_key (cn_temp_keys c) of
               None \<Rightarrow> None
             | Some (operation, anchor, keys) \<Rightarrow>
                 Some (c\<lparr>cn_temp_keys := keys\<rparr>, Inr ((), operation, anchor))) c)"

section \<open>Information about an anchor\<close>

record identity_anchor_info =
  iai_devices :: "device list"
  iai_device_registration :: "device_registration_info option"
  iai_openid_credentials :: "(openid_credential \<times> string option \<times> string option) list"
  iai_name :: "string option"
  iai_created_at :: "timestamp option"

text \<open>\<open>get_anchor_info\<close> of \<open>anchor_management.rs\<close>; asking for the registration prunes expired ones.\<close>

definition management_get_anchor_info ::
  "timestamp \<Rightarrow> anchor_number \<Rightarrow> 'k canister \<Rightarrow> ('k canister \<times> identity_anchor_info) option" where
  "management_get_anchor_info now n c =
     (case state_anchor n c of
        None \<Rightarrow> None
      | Some anchor \<Rightarrow>
          (case get_tentative_registration now n (cn_tentative c) of
             (tentative, registration) \<Rightarrow>
               Some (c\<lparr>cn_tentative := tentative\<rparr>,
                 \<lparr>iai_devices = a_devices anchor, iai_device_registration = registration,
                  iai_openid_credentials =
                    map (\<lambda>cred. (cred, sso_fields_for (cn_openid c) (oc_iss cred) (oc_aud cred)))
                      (a_openid_credentials anchor),
                  iai_name = a_name anchor, iai_created_at = a_created_at anchor\<rparr>)))"

definition get_anchor_info_method ::
  "('w, 'k, 'r) crates \<Rightarrow> timestamp \<Rightarrow> principal \<Rightarrow> anchor_number
     \<Rightarrow> ('k, unit, identity_anchor_info) message" where
  "get_anchor_info_method cr now caller n c =
     op_bind (trap_on_error (check_authz_and_record_activity cr now caller n c))
       (\<lambda>_ c.
          case management_get_anchor_info now n c of
            None \<Rightarrow> None
          | Some (c, info) \<Rightarrow> Some (c, Inr info))"

record identity_info =
  ii_authn_methods :: "authn_method_data list"
  ii_authn_method_registration :: "(timestamp \<times> authn_method_data option \<times> principal option) option"
  ii_openid_credentials :: "(openid_credential \<times> string option \<times> string option) list"
  ii_metadata :: metadata_v2
  ii_name :: "string option"
  ii_created_at :: "timestamp option"

definition identity_info_method ::
  "('w, 'k, 'r) crates \<Rightarrow> timestamp \<Rightarrow> principal \<Rightarrow> anchor_number
     \<Rightarrow> ('k, identity_update_error, identity_info) message" where
  "identity_info_method cr now caller n c =
     op_bind (check_authz_and_record_activity cr now caller n c)
       (\<lambda>_ c.
          case management_get_anchor_info now n c of
            None \<Rightarrow> None
          | Some (c, info) \<Rightarrow>
              (case state_anchor n c of
                 None \<Rightarrow> None
               | Some anchor \<Rightarrow>
                   Some (c, Inr
                     \<lparr>ii_authn_methods = map authn_method_from_device (iai_devices info),
                      ii_authn_method_registration =
                        map_option (\<lambda>r. (dri_expiration r,
                            map_option (\<lambda>d. authn_method_from_device (device_from_data d)) (dri_tentative_device r),
                            dri_tentative_session r)) (iai_device_registration info),
                      ii_openid_credentials = iai_openid_credentials info,
                      ii_metadata = metadata_to_v2 (case a_metadata anchor of None \<Rightarrow> [] | Some m \<Rightarrow> m),
                      ii_name = iai_name info, ii_created_at = iai_created_at info\<rparr>)))"

section \<open>Authentication methods\<close>

text \<open>The second interface converts and calls the legacy methods, whose errors trap.\<close>

definition lift_unit :: "('s, unit, 'a) op_result \<Rightarrow> ('s, 'e, 'a) op_result" where
  "lift_unit m = trap_on_error m"

definition authn_method_add ::
  "('w, 'k, 'r) crates \<Rightarrow> timestamp \<Rightarrow> principal \<Rightarrow> anchor_number \<Rightarrow> authn_method_data
     \<Rightarrow> ('k, authn_method_conversion_error, unit) message" where
  "authn_method_add cr now caller n authn_method c =
     (case device_from_authn_method authn_method of
        Inl e \<Rightarrow> Some (c, Inl e)
      | Inr device \<Rightarrow> lift_unit (add_method cr now caller n (device_data_from device) c))"

definition authn_method_remove ::
  "('w, 'k, 'r) crates \<Rightarrow> timestamp \<Rightarrow> principal \<Rightarrow> anchor_number \<Rightarrow> device_key \<Rightarrow> ('k, unit, unit) message" where
  "authn_method_remove cr now caller n pubkey c = remove_method cr now caller n pubkey c"

definition authn_method_replace ::
  "('w, 'k, 'r) crates \<Rightarrow> timestamp \<Rightarrow> principal \<Rightarrow> anchor_number \<Rightarrow> device_key \<Rightarrow> authn_method_data
     \<Rightarrow> ('k, authn_method_conversion_error, unit) message" where
  "authn_method_replace cr now caller n authn_method_pk new_authn_method c =
     (case device_from_authn_method new_authn_method of
        Inl e \<Rightarrow> Some (c, Inl e)
      | Inr device \<Rightarrow> lift_unit (replace_method cr now caller n authn_method_pk (device_data_from device) c))"

datatype authn_method_replace_error = AuthnMethodNotFound | InvalidMetadata authn_method_conversion_error

text \<open>Both replacements look the device up in the information about the anchor.\<close>

definition authn_method_metadata_replace ::
  "('w, 'k, 'r) crates \<Rightarrow> timestamp \<Rightarrow> principal \<Rightarrow> anchor_number \<Rightarrow> device_key \<Rightarrow> metadata_v2
     \<Rightarrow> ('k, authn_method_replace_error, unit) message" where
  "authn_method_metadata_replace cr now caller n authn_method_pk new_metadata c =
     op_bind (lift_unit (get_anchor_info_method cr now caller n c))
       (\<lambda>info c.
          case find (\<lambda>d. dev_pubkey d = authn_method_pk) (map device_data_from (iai_devices info)) of
            None \<Rightarrow> Some (c, Inl AuthnMethodNotFound)
          | Some device \<Rightarrow>
              (case device_from_authn_method
                      ((authn_method_from_device (device_from_data device))\<lparr>amd_metadata := new_metadata\<rparr>) of
                 Inl e \<Rightarrow> Some (c, Inl (InvalidMetadata e))
               | Inr device \<Rightarrow>
                   lift_unit (update_method cr now caller n authn_method_pk (device_data_from device) c)))"

definition authn_method_security_settings_replace ::
  "('w, 'k, 'r) crates \<Rightarrow> timestamp \<Rightarrow> principal \<Rightarrow> anchor_number \<Rightarrow> device_key \<Rightarrow> authn_method_security_settings
     \<Rightarrow> ('k, authn_method_replace_error, unit) message" where
  "authn_method_security_settings_replace cr now caller n authn_method_pk settings c =
     op_bind (lift_unit (get_anchor_info_method cr now caller n c))
       (\<lambda>info c.
          case find (\<lambda>d. dev_pubkey d = authn_method_pk) (map device_data_from (iai_devices info)) of
            None \<Rightarrow> Some (c, Inl AuthnMethodNotFound)
          | Some device \<Rightarrow>
              lift_unit (update_method cr now caller n authn_method_pk
                (device\<lparr>dev_protection := protection_from_v2 (ams_protection settings),
                        dev_purpose := purpose_from_v2 (ams_purpose settings)\<rparr>) c))"

datatype identity_replace_error =
    ReplaceUnauthorized principal
  | ReplaceStorageSpaceExceeded u64 u64
  | ReplaceNameTooLong u64
  | ReplaceInternalCanisterError

fun replace_error_from_update :: "identity_update_error \<Rightarrow> identity_replace_error" where
  "replace_error_from_update (Unauthorized p) = ReplaceUnauthorized p"
| "replace_error_from_update (IdentityStorageError _ (EntrySizeLimitExceeded available required)) =
     ReplaceStorageSpaceExceeded available required"
| "replace_error_from_update (IdentityStorageError _ _) = ReplaceInternalCanisterError"

fun metadata_error_from_anchor :: "anchor_error \<Rightarrow> identity_replace_error" where
  "metadata_error_from_anchor (CumulativeDataLimitExceeded len limit) =
     ReplaceStorageSpaceExceeded (of_nat limit) (of_nat len)"
| "metadata_error_from_anchor _ = ReplaceInternalCanisterError"

fun properties_error_from_anchor :: "anchor_error \<Rightarrow> identity_replace_error" where
  "properties_error_from_anchor (NameTooLong limit) = ReplaceNameTooLong (of_nat limit)"
| "properties_error_from_anchor _ = ReplaceInternalCanisterError"

text \<open>An operation on the anchor alone, as the operation of a method.\<close>

definition anchor_only ::
  "('e2 \<Rightarrow> 'e) \<Rightarrow> (anchor \<Rightarrow> 'e2 + operation \<times> anchor) \<Rightarrow> anchor
     \<Rightarrow> ('k, 'e, unit \<times> operation \<times> anchor) message" where
  "anchor_only conv f anchor c =
     Some (c, case f anchor of Inl e \<Rightarrow> Inl (conv e) | Inr (operation, anchor) \<Rightarrow> Inr ((), operation, anchor))"

definition identity_metadata_replace ::
  "('w, 'k, 'r) crates \<Rightarrow> timestamp \<Rightarrow> principal \<Rightarrow> anchor_number \<Rightarrow> metadata_v2
     \<Rightarrow> ('k, identity_replace_error, unit) message" where
  "identity_metadata_replace cr now caller n metadata =
     anchor_operation_with_authz_check cr now caller replace_error_from_update n
       (anchor_only metadata_error_from_anchor
          (\<lambda>anchor. management_metadata_replace anchor (metadata_from_v2 metadata)))"

definition identity_properties_replace ::
  "('w, 'k, 'r) crates \<Rightarrow> timestamp \<Rightarrow> principal \<Rightarrow> anchor_number \<Rightarrow> string option
     \<Rightarrow> ('k, identity_replace_error, unit) message" where
  "identity_properties_replace cr now caller n name =
     anchor_operation_with_authz_check cr now caller replace_error_from_update n
       (anchor_only properties_error_from_anchor (\<lambda>anchor. management_set_name anchor name))"

section \<open>Registration mode\<close>

definition enter_device_registration_mode_method ::
  "('w, 'k, 'r) crates \<Rightarrow> timestamp \<Rightarrow> principal \<Rightarrow> anchor_number \<Rightarrow> ('k, unit, timestamp) message" where
  "enter_device_registration_mode_method cr now caller n c =
     op_bind (trap_on_error (check_authz_and_record_activity cr now caller n c))
       (\<lambda>_ c.
          case enter_device_registration_mode now n None (cn_tentative c) of
            (tentative, Inl _) \<Rightarrow> None
          | (tentative, Inr expiration) \<Rightarrow> Some (c\<lparr>cn_tentative := tentative\<rparr>, Inr expiration))"

definition exit_device_registration_mode_method ::
  "('w, 'k, 'r) crates \<Rightarrow> timestamp \<Rightarrow> principal \<Rightarrow> anchor_number \<Rightarrow> ('k, unit, unit) message" where
  "exit_device_registration_mode_method cr now caller n c =
     op_bind (trap_on_error (check_authz_and_record_activity cr now caller n c))
       (\<lambda>_ c. Some (c\<lparr>cn_tentative := exit_device_registration_mode now n (cn_tentative c)\<rparr>, Inr ()))"

text \<open>Adding a device or a session waits for the randomness of the code first.\<close>

definition add_tentative_device_method ::
  "('w, 'k, 'r) crates \<Rightarrow> timestamp \<Rightarrow> bytes \<Rightarrow> anchor_number \<Rightarrow> device_data
     \<Rightarrow> ('k, authn_method_register_error, confirmation_code \<times> timestamp) message" where
  "add_tentative_device_method cr now randomness n data c =
     (case new_confirmation_code randomness of
        None \<Rightarrow> None
      | Some code \<Rightarrow>
          (case add_tentative_device (cr_sa cr) (cn_storage c) now code n data (cn_tentative c) of
             (tentative, r) \<Rightarrow> Some (c\<lparr>cn_tentative := tentative\<rparr>, r)))"

datatype authn_method_register_method_error =
    RegisterInvalidMetadata authn_method_conversion_error
  | NotSelfAuthenticating principal
  | RegisterError authn_method_register_error

definition authn_method_register ::
  "('w, 'k, 'r) crates \<Rightarrow> timestamp \<Rightarrow> bytes \<Rightarrow> anchor_number \<Rightarrow> authn_method_data
     \<Rightarrow> ('k, authn_method_register_method_error, confirmation_code \<times> timestamp) message" where
  "authn_method_register cr now randomness n authn_method c =
     (case device_from_authn_method authn_method of
        Inl e \<Rightarrow> Some (c, Inl (RegisterInvalidMetadata e))
      | Inr device \<Rightarrow>
          op_map_err RegisterError
            (add_tentative_device_method cr now randomness n (device_data_from device) c))"

definition authn_method_session_register ::
  "('w, 'k, 'r) crates \<Rightarrow> timestamp \<Rightarrow> bytes \<Rightarrow> principal \<Rightarrow> anchor_number
     \<Rightarrow> ('k, authn_method_register_method_error, confirmation_code \<times> timestamp) message" where
  "authn_method_session_register cr now randomness caller n c =
     (if \<not> is_self_authenticating (cr_sa cr) caller then Some (c, Inl (NotSelfAuthenticating caller))
      else
        (case new_confirmation_code randomness of
           None \<Rightarrow> None
         | Some code \<Rightarrow>
             (case add_tentative_session now code n caller (cn_tentative c) of
                (tentative, r) \<Rightarrow>
                  Some (c\<lparr>cn_tentative := tentative\<rparr>,
                    case r of Inl e \<Rightarrow> Inl (RegisterError e) | Inr x \<Rightarrow> Inr x))))"

datatype confirmation_method_error =
    ConfirmationUnauthorized principal
  | ConfirmationError authn_method_confirmation_error
  | ConfirmationStorageError storage_error

text \<open>\<open>authn_method_confirm\<close>: a confirmed device is added by the caller who confirms it.\<close>

definition authn_method_confirm ::
  "('w, 'k, 'r) crates \<Rightarrow> timestamp \<Rightarrow> principal \<Rightarrow> anchor_number \<Rightarrow> confirmation_code
     \<Rightarrow> ('k, confirmation_method_error, unit) message" where
  "authn_method_confirm cr now caller n code c =
     op_bind (op_map_err ConfirmationUnauthorized (check_authorization cr now caller n c))
       (\<lambda>(anchor, key) c.
          case confirm_tentative_device_or_session now n code (cn_tentative c) of
            (tentative, Inl e) \<Rightarrow> Some (c\<lparr>cn_tentative := tentative\<rparr>, Inl (ConfirmationError e))
          | (tentative, Inr None) \<Rightarrow> Some (c\<lparr>cn_tentative := tentative\<rparr>, Inr ())
          | (tentative, Inr (Some confirmed_device)) \<Rightarrow>
              (case activity_bookkeeping now anchor key (cn_activity c) of
                 None \<Rightarrow> None
               | Some (anchor, activity) \<Rightarrow>
                   (case management_add_device anchor confirmed_device of
                      None \<Rightarrow> None
                    | Some (operation, anchor) \<Rightarrow>
                        op_bind (op_map_err ConfirmationStorageError
                                   (write_anchor cr anchor (c\<lparr>cn_tentative := tentative, cn_activity := activity\<rparr>)))
                          (\<lambda>_ c.
                             case post_operation_bookkeeping cr now caller n operation c of
                               None \<Rightarrow> None
                             | Some c \<Rightarrow> Some (c, Inr ())))))"

text \<open>The legacy method is the same, but traps on the other two errors.\<close>

definition verify_tentative_device ::
  "('w, 'k, 'r) crates \<Rightarrow> timestamp \<Rightarrow> principal \<Rightarrow> anchor_number \<Rightarrow> confirmation_code
     \<Rightarrow> ('k, authn_method_confirmation_error, unit) message" where
  "verify_tentative_device cr now caller n code c =
     (case authn_method_confirm cr now caller n code c of
        Some (c, Inl (ConfirmationError e)) \<Rightarrow> Some (c, Inl e)
      | Some (c, Inr u) \<Rightarrow> Some (c, Inr u)
      | _ \<Rightarrow> None)"

datatype mode_enter_method_error =
    EnterUpdateError identity_update_error
  | EnterModeError mode_enter_error
  | EnterInvalidRegistrationId

definition authn_method_registration_mode_enter ::
  "('w, 'k, 'r) crates \<Rightarrow> timestamp \<Rightarrow> principal \<Rightarrow> anchor_number \<Rightarrow> string option
     \<Rightarrow> ('k, mode_enter_method_error, timestamp) message" where
  "authn_method_registration_mode_enter cr now caller n reg_id c =
     op_bind (op_map_err EnterUpdateError (check_authz_and_record_activity cr now caller n c))
       (\<lambda>_ c.
          case (case reg_id of
                  None \<Rightarrow> Some None
                | Some i \<Rightarrow> map_option Some (registration_id_try_new i)) of
            None \<Rightarrow> Some (c, Inl EnterInvalidRegistrationId)
          | Some validated \<Rightarrow>
              (case enter_device_registration_mode now n validated (cn_tentative c) of
                 (tentative, r) \<Rightarrow>
                   Some (c\<lparr>cn_tentative := tentative\<rparr>,
                     case r of Inl e \<Rightarrow> Inl (EnterModeError e) | Inr x \<Rightarrow> Inr x)))"

datatype mode_exit_method_error =
    ExitUnauthorized principal
  | ExitInvalidMetadata authn_method_conversion_error
  | ExitPasskeyAlreadyUsed
  | ExitStorageError storage_error
  | ExitUpdateError identity_update_error

text \<open>With a confirmed session its device is added; else the caller has to be authorized.\<close>

definition add_device_of_session ::
  "('w, 'k, 'r) crates \<Rightarrow> timestamp \<Rightarrow> principal \<Rightarrow> anchor_number \<Rightarrow> authn_method_data \<Rightarrow> principal
     \<Rightarrow> ('k, mode_exit_method_error, unit) message" where
  "add_device_of_session cr now caller n authn_method confirmed_session c =
     (if confirmed_session \<noteq> caller then Some (c, Inl (ExitUnauthorized caller))
      else
        (case device_from_authn_method authn_method of
           Inl e \<Rightarrow> Some (c, Inl (ExitInvalidMetadata e))
         | Inr device \<Rightarrow>
             (let data = device_data_from device in
              if \<not> check_passkey_pubkey_is_not_used (cr_sa cr) (cn_storage c) (dev_pubkey data)
              then Some (c, Inl ExitPasskeyAlreadyUsed)
              else
                (case state_anchor n c of
                   None \<Rightarrow> None
                 | Some anchor \<Rightarrow>
                     (case management_add_device anchor data of
                        None \<Rightarrow> None
                      | Some (operation, anchor) \<Rightarrow>
                          op_bind (op_map_err ExitStorageError (write_anchor cr anchor c))
                            (\<lambda>_ c.
                               case post_operation_bookkeeping cr now caller n operation c of
                                 None \<Rightarrow> None
                               | Some c \<Rightarrow>
                                   Some (c\<lparr>cn_temp_keys :=
                                     add_temp_key now (dev_pubkey data) n confirmed_session (cn_temp_keys c)\<rparr>,
                                     Inr ())))))))"

definition authn_method_registration_mode_exit ::
  "('w, 'k, 'r) crates \<Rightarrow> timestamp \<Rightarrow> principal \<Rightarrow> anchor_number \<Rightarrow> authn_method_data option
     \<Rightarrow> ('k, mode_exit_method_error, unit) message" where
  "authn_method_registration_mode_exit cr now caller n authn_method c =
     (case get_confirmed_session now n (cn_tentative c) of
        (tentative, confirmed_session) \<Rightarrow>
          (let c = c\<lparr>cn_tentative := tentative\<rparr> in
           op_bind
             (case (authn_method, confirmed_session) of
                (Some authn_method, Some confirmed_session) \<Rightarrow>
                  add_device_of_session cr now caller n authn_method confirmed_session c
              | _ \<Rightarrow>
                  op_bind (op_map_err ExitUpdateError (check_authz_and_record_activity cr now caller n c))
                    (\<lambda>_ c. Some (c, Inr ())))
             (\<lambda>_ c. Some (c\<lparr>cn_tentative := exit_device_registration_mode now n (cn_tentative c)\<rparr>, Inr ()))))"

section \<open>OpenID credentials\<close>

datatype openid_credential_add_error =
    AddUnauthorized principal
  | AddJwtError openid_jwt_error
  | AddAlreadyRegistered
  | AddInternalCanisterError

definition openid_credential_add ::
  "('w, 'k, 'r) crates \<Rightarrow> timestamp \<Rightarrow> principal \<Rightarrow> anchor_number \<Rightarrow> string \<Rightarrow> bytes
     \<Rightarrow> ('k, openid_credential_add_error, unit) message" where
  "openid_credential_add cr now caller n jwt salt =
     anchor_operation_with_authz_check cr now caller (\<lambda>_. AddUnauthorized caller) n
       (\<lambda>anchor c.
          case verify_jwt (cr_jose cr) (cn_openid c) now caller jwt salt of
            Inl e \<Rightarrow> Some (c, Inl (AddJwtError e))
          | Inr cred \<Rightarrow>
              anchor_only
                (\<lambda>e. if e = OpenIdCredentialAlreadyRegistered then AddAlreadyRegistered else AddInternalCanisterError)
                (\<lambda>anchor. management_add_openid_credential (cn_storage c) anchor cred) anchor c)"

datatype openid_credential_remove_error =
    RemoveUnauthorized principal
  | RemoveCredentialNotFound
  | RemoveInternalCanisterError

definition openid_credential_remove ::
  "('w, 'k, 'r) crates \<Rightarrow> timestamp \<Rightarrow> principal \<Rightarrow> anchor_number \<Rightarrow> openid_credential_key
     \<Rightarrow> ('k, openid_credential_remove_error, unit) message" where
  "openid_credential_remove cr now caller n key =
     anchor_operation_with_authz_check cr now caller (\<lambda>_. RemoveUnauthorized caller) n
       (anchor_only
          (\<lambda>e. if e = OpenIdCredentialNotFound then RemoveCredentialNotFound else RemoveInternalCanisterError)
          (\<lambda>anchor. management_remove_openid_credential anchor key))"

datatype openid_delegation_error = NoSuchAnchor | JwtVerificationFailed

text \<open>
  \<open>openid_prepare_delegation\<close> up to its await: the stored credential is updated from the token.
  After the await only the signature is added and the association looked up again.
\<close>

definition openid_prepare_delegation ::
  "('w, 'k, 'r) crates \<Rightarrow> timestamp \<Rightarrow> principal \<Rightarrow> string \<Rightarrow> bytes
     \<Rightarrow> ('k, openid_delegation_error, openid_credential \<times> anchor_number) message" where
  "openid_prepare_delegation cr now caller jwt salt c =
     (case verify_jwt (cr_jose cr) (cn_openid c) now caller jwt salt of
        Inl _ \<Rightarrow> Some (c, Inl JwtVerificationFailed)
      | Inr cred \<Rightarrow>
          (case lookup_anchor_with_openid_credential (cn_storage c) (oc_key cred) of
             None \<Rightarrow> Some (c, Inl NoSuchAnchor)
           | Some n \<Rightarrow>
               (case state_anchor n c of
                  None \<Rightarrow> None
                | Some anchor \<Rightarrow>
                    (case update_openid_credential anchor cred of
                       Inl _ \<Rightarrow> Some (c, Inl NoSuchAnchor)
                     | Inr anchor \<Rightarrow>
                         op_bind (op_map_err (\<lambda>_. NoSuchAnchor) (write_anchor cr anchor c))
                           (\<lambda>_ c. Some (c, Inr (cred, n)))))))"

definition openid_prepare_delegation_checked ::
  "openid_credential \<Rightarrow> anchor_number \<Rightarrow> 'k canister \<Rightarrow> openid_delegation_error + anchor_number" where
  "openid_prepare_delegation_checked cred n c =
     (case lookup_anchor_with_openid_credential (cn_storage c) (oc_key cred) of
        None \<Rightarrow> Inl NoSuchAnchor
      | Some still_n \<Rightarrow> if n \<noteq> still_n then Inl NoSuchAnchor else Inr n)"

section \<open>Accounts\<close>

fun post_operations ::
  "('w, 'k, 'r) crates \<Rightarrow> timestamp \<Rightarrow> principal \<Rightarrow> anchor_number \<Rightarrow> operation list \<Rightarrow> 'k canister \<Rightarrow> 'k canister option" where
  "post_operations cr now caller n [] c = Some c"
| "post_operations cr now caller n (operation # operations) c =
     (case post_operation_bookkeeping cr now caller n operation c of
        None \<Rightarrow> None
      | Some c \<Rightarrow> post_operations cr now caller n operations c)"

text \<open>An operation on the accounts of the storage, with the operations it archives.\<close>

definition account_operation ::
  "('w, 'k, 'r) crates \<Rightarrow> timestamp \<Rightarrow> principal \<Rightarrow> anchor_number
     \<Rightarrow> (storage \<Rightarrow> (storage, 'e, 'a \<times> operation list) op_result) \<Rightarrow> ('k, 'e, 'a) message" where
  "account_operation cr now caller n f c =
     (case f (cn_storage c) of
        None \<Rightarrow> None
      | Some (s, Inl e) \<Rightarrow> Some (c\<lparr>cn_storage := s\<rparr>, Inl e)
      | Some (s, Inr (x, operations)) \<Rightarrow>
          (case post_operations cr now caller n operations (c\<lparr>cn_storage := s\<rparr>) of
             None \<Rightarrow> None
           | Some c \<Rightarrow> Some (c, Inr x)))"

datatype 'e account_method_error = AccountUnauthorized principal | AccountError 'e

definition create_account_method ::
  "('w, 'k, 'r) crates \<Rightarrow> timestamp \<Rightarrow> principal \<Rightarrow> anchor_number \<Rightarrow> frontend_hostname \<Rightarrow> string
     \<Rightarrow> ('k, create_account_error account_method_error, account_info) message" where
  "create_account_method cr now caller n origin name c =
     op_bind (op_map_err AccountUnauthorized (check_authorization cr now caller n c))
       (\<lambda>_ c.
          op_bind (op_map_err AccountError
            (account_operation cr now caller n
               (\<lambda>s. create_account_for_origin (cr_sha cr) (cr_fits cr) (cr_fits_discrepancy cr) s n origin name) c))
            (\<lambda>account c. Some (c, Inr (account_to_info account))))"

definition update_account_method ::
  "('w, 'k, 'r) crates \<Rightarrow> timestamp \<Rightarrow> principal \<Rightarrow> anchor_number \<Rightarrow> frontend_hostname
     \<Rightarrow> account_number option \<Rightarrow> string option
     \<Rightarrow> ('k, update_account_error account_method_error, account_info) message" where
  "update_account_method cr now caller n origin k name c =
     op_bind (op_map_err AccountUnauthorized (check_authorization cr now caller n c))
       (\<lambda>_ c.
          op_bind (op_map_err AccountError
            (account_operation cr now caller n
               (\<lambda>s. update_account_for_origin (cr_sha cr) (cr_fits cr) (cr_fits_discrepancy cr) s n k origin name) c))
            (\<lambda>account c. Some (c, Inr (account_to_info account))))"

datatype set_default_account_method_error =
    SetDefaultUpdateError identity_update_error
  | SetDefaultError set_default_account_error

definition set_default_account_method ::
  "('w, 'k, 'r) crates \<Rightarrow> timestamp \<Rightarrow> principal \<Rightarrow> anchor_number \<Rightarrow> frontend_hostname
     \<Rightarrow> account_number option \<Rightarrow> ('k, set_default_account_method_error, account_info) message" where
  "set_default_account_method cr now caller n origin k =
     anchor_operation_with_authz_check cr now caller SetDefaultUpdateError n
       (\<lambda>anchor c.
          case set_default_account_for_origin (cr_sha cr) (cn_storage c) n origin k of
            None \<Rightarrow> None
          | Some (s, Inl e) \<Rightarrow> Some (c\<lparr>cn_storage := s\<rparr>, Inl (SetDefaultError e))
          | Some (s, Inr info) \<Rightarrow> Some (c\<lparr>cn_storage := s\<rparr>, Inr (info, SetDefaultAccount, anchor)))"

text \<open>
  \<open>prepare_delegation\<close> and \<open>prepare_account_delegation\<close>: the check of the caller, then, once the
  salt is set, the delegation, of which the state keeps the last use of the account.
\<close>

definition prepare_delegation_start ::
  "('w, 'k, 'r) crates \<Rightarrow> timestamp \<Rightarrow> principal \<Rightarrow> anchor_number
     \<Rightarrow> ('k, identity_update_error, ii_domain option) message" where
  "prepare_delegation_start cr now caller n c = check_authz_and_record_activity cr now caller n c"

definition prepare_delegation_finish ::
  "('w, 'k, 'r) crates \<Rightarrow> timestamp \<Rightarrow> principal \<Rightarrow> anchor_number \<Rightarrow> frontend_hostname
     \<Rightarrow> account_number option \<Rightarrow> bytes \<Rightarrow> u64 option \<Rightarrow> ('k, principal, bytes \<times> timestamp) message" where
  "prepare_delegation_finish cr now caller n origin k session_key max_ttl c =
     (case storage_salt (cn_storage c) of
        None \<Rightarrow> None
      | Some salt \<Rightarrow>
          (case prepare_account_delegation (cr_sha cr) (cr_der cr) (\<lambda>_ _ _ u. u) salt caller now
                  (cn_storage c) () n origin k session_key max_ttl of
             None \<Rightarrow> None
           | Some ((s, _), r) \<Rightarrow> Some (c\<lparr>cn_storage := s\<rparr>, r)))"

text \<open>
  \<open>prepare_id_alias\<close> up to its first await; what follows signs credentials with a crate and changes
  none of the state here.
\<close>

datatype prepare_id_alias_error = IdAliasUnauthorized principal | IdAliasInternalError

fun id_alias_error_from_update :: "identity_update_error \<Rightarrow> prepare_id_alias_error" where
  "id_alias_error_from_update (Unauthorized p) = IdAliasUnauthorized p"
| "id_alias_error_from_update _ = IdAliasInternalError"

definition prepare_id_alias_start ::
  "('w, 'k, 'r) crates \<Rightarrow> timestamp \<Rightarrow> principal \<Rightarrow> anchor_number
     \<Rightarrow> ('k, prepare_id_alias_error, ii_domain option) message" where
  "prepare_id_alias_start cr now caller n c =
     op_map_err id_alias_error_from_update (check_authz_and_record_activity cr now caller n c)"

section \<open>Archive, salt and migration\<close>

definition fetch_entries_method :: "principal \<Rightarrow> 'k canister \<Rightarrow> buffered_entry list option" where
  "fetch_entries_method caller c = fetch_entries caller (cn_storage c, cn_archive_state c)"

definition acknowledge_entries_method :: "principal \<Rightarrow> u64 \<Rightarrow> 'k canister \<Rightarrow> 'k canister option" where
  "acknowledge_entries_method caller sequence_number c =
     (case acknowledge_entries caller sequence_number (cn_storage c, cn_archive_state c) of
        None \<Rightarrow> None
      | Some (s, ar) \<Rightarrow> Some (c\<lparr>cn_storage := s, cn_archive_state := ar\<rparr>))"

text \<open>\<open>init_salt\<close> after the randomness has arrived; other randomness than 32 bytes traps.\<close>

definition init_salt :: "bytes \<Rightarrow> 'k canister \<Rightarrow> 'k canister option" where
  "init_salt randomness c =
     (if length randomness \<noteq> 32 then None
      else
        (case update_salt (cn_storage c) randomness of
           None \<Rightarrow> None
         | Some s \<Rightarrow> Some (c\<lparr>cn_storage := s\<rparr>)))"

definition OIDC_KEY_MIGRATION_BATCH_SIZE :: u64 where "OIDC_KEY_MIGRATION_BATCH_SIZE = 2000"

definition run_oidc_key_migration_batch :: "'k canister \<Rightarrow> 'k canister" where
  "run_oidc_key_migration_batch c =
     c\<lparr>cn_storage := fst (migrate_openid_credential_keys_batch (cn_storage c) OIDC_KEY_MIGRATION_BATCH_SIZE)\<rparr>"

end
