(* ===== verification/Account_Frame.thy ===== *)
theory Account_Frame
  imports Account_Management Archive_Client
begin

text \<open>
  What operations leave alone: a rule for every combinator of operations with state and errors,
  collected in \<open>keeps\<close>, and with it the frame of the account operations (anchors, their indices,
  the header and the archive buffer of the storage) and of the archive operations (all of them but
  the buffer).
\<close>

named_theorems keeps \<open>operations that leave an observation of the state unchanged\<close>

definition op_keeps :: "('s \<Rightarrow> 'b) \<Rightarrow> 'b \<Rightarrow> ('s, 'e, 'a) op_result \<Rightarrow> bool" where
  "op_keeps p x m \<longleftrightarrow> (\<forall>s r. m = Some (s, r) \<longrightarrow> p s = x)"

lemma op_keepsD: "op_keeps p x m \<Longrightarrow> m = Some (s, r) \<Longrightarrow> p s = x"
  by (simp add: op_keeps_def)

lemma op_keeps_None [keeps]: "op_keeps p x None"
  by (simp add: op_keeps_def)

lemma op_keeps_Some [keeps]: "p s = x \<Longrightarrow> op_keeps p x (Some (s, r))"
  by (simp add: op_keeps_def)

lemma op_keeps_bind [keeps]:
  assumes m: "op_keeps p x m" and f: "\<And>y s. p s = x \<Longrightarrow> op_keeps p x (f y s)"
  shows "op_keeps p x (op_bind m f)"
  unfolding op_keeps_def
proof (intro allI impI)
  fix s r
  assume "op_bind m f = Some (s, r)"
  then consider e where "m = Some (s, Inl e)" | t y where "m = Some (t, Inr y)" "f y t = Some (s, r)"
    by (auto simp: op_bind_Some)
  then show "p s = x"
  proof cases
    case 1
    then show ?thesis by (rule op_keepsD [OF m])
  next
    case 2
    from op_keepsD [OF m 2(1)] have "op_keeps p x (f y t)" by (rule f)
    then show ?thesis using 2(2) by (rule op_keepsD)
  qed
qed

lemma op_keeps_map_err [keeps]: "op_keeps p x m \<Longrightarrow> op_keeps p x (op_map_err g m)"
  by (auto simp: op_keeps_def op_map_err_def split: option.splits sum.splits)

lemma op_keeps_option [keeps]:
  "(v = None \<Longrightarrow> op_keeps p x m) \<Longrightarrow> (\<And>y. v = Some y \<Longrightarrow> op_keeps p x (f y)) \<Longrightarrow>
   op_keeps p x (case v of None \<Rightarrow> m | Some y \<Rightarrow> f y)"
  by (cases v) simp_all

lemma op_keeps_if [keeps]:
  "(b \<Longrightarrow> op_keeps p x m) \<Longrightarrow> (\<not> b \<Longrightarrow> op_keeps p x m') \<Longrightarrow> op_keeps p x (if b then m else m')"
  by simp

section \<open>The storage without its accounts\<close>

definition anchor_part where
  "anchor_part s =
     (st_header s, st_header_memory s, st_anchors s, st_by_openid s, st_by_credential s,
      st_by_recovery_principal s, st_by_passkey_principal s, st_archive_buffer s)"

lemma anchor_part_accounts [simp]:
  "anchor_part (s\<lparr>st_accounts := a\<rparr>) = anchor_part s"
  "anchor_part (s\<lparr>st_applications := b\<rparr>) = anchor_part s"
  "anchor_part (s\<lparr>st_anchor_counters := c\<rparr>) = anchor_part s"
  "anchor_part (s\<lparr>st_account_refs := d\<rparr>) = anchor_part s"
  "anchor_part (s\<lparr>st_app_configs := e\<rparr>) = anchor_part s"
  "anchor_part (s\<lparr>st_account_counter := f\<rparr>) = anchor_part s"
  "anchor_part (s\<lparr>st_discrepancies := g\<rparr>) = anchor_part s"
  "anchor_part (s\<lparr>st_application_by_origin := h\<rparr>) = anchor_part s"
  by (simp_all add: anchor_part_def)

lemma allocate_account_number_keeps [keeps]:
  "anchor_part s = x \<Longrightarrow> op_keeps anchor_part x (allocate_account_number fits s)"
  by (auto simp: op_keeps_def allocate_account_number_def split: option.splits if_splits)

lemma update_counters_keeps [keeps]:
  "anchor_part s = x \<Longrightarrow> op_keeps anchor_part x (update_counters fits app n ty s)"
  by (auto simp: op_keeps_def update_counters_def Let_def split: option.splits if_splits)

lemma lookup_or_insert_keeps:
  "lookup_or_insert_application_number_with_origin sha s origin = (t, app) \<Longrightarrow> anchor_part t = anchor_part s"
  by (auto simp: lookup_or_insert_application_number_with_origin_def Let_def split: option.splits)

lemma op_keeps_lookup_or_insert [keeps]:
  "anchor_part s = x \<Longrightarrow> (\<And>t app. anchor_part t = x \<Longrightarrow> op_keeps anchor_part x (f t app)) \<Longrightarrow>
   op_keeps anchor_part x (case lookup_or_insert_application_number_with_origin sha s origin of (t, app) \<Rightarrow> f t app)"
  using lookup_or_insert_keeps by (fastforce split: prod.splits)

lemma with_account_mut_keeps: "with_account_mut s n app k f = (t, r) \<Longrightarrow> anchor_part t = anchor_part s"
  by (auto simp: with_account_mut_def split: option.splits prod.splits)

lemma set_account_last_used_keeps_anchors [simp]:
  "anchor_part (fst (set_account_last_used sha s n origin k now)) = anchor_part s"
  unfolding set_account_last_used_def by (metis prod.collapse with_account_mut_keeps)

lemma set_anchor_application_config_keeps [simp]:
  "anchor_part (set_anchor_application_config s n app config) = anchor_part s"
  by (simp add: set_anchor_application_config_def)

lemma create_additional_account_keeps [keeps]:
  "anchor_part s = x \<Longrightarrow> op_keeps anchor_part x (create_additional_account sha fits s n origin name)"
  unfolding create_additional_account_def by (intro keeps) simp_all

lemma create_default_account_keeps [keeps]:
  "anchor_part s = x \<Longrightarrow> op_keeps anchor_part x (create_default_account sha fits s n origin name)"
  unfolding create_default_account_def Let_def by (intro keeps) simp_all

lemma update_existing_account_keeps:
  "update_existing_account sha s k n name origin = (t, r) \<Longrightarrow> anchor_part t = anchor_part s"
  by (auto simp: update_existing_account_def split: prod.splits option.splits dest: with_account_mut_keeps)

lemma update_account_keeps [keeps]:
  assumes "anchor_part s = x"
  shows "op_keeps anchor_part x (update_account sha fits s k n name origin)"
  unfolding update_account_def
proof (intro keeps assms)
  show "op_keeps anchor_part x (Some (update_existing_account sha s j n name origin))" for j
    using assms update_existing_account_keeps by (auto simp: op_keeps_def)
qed

lemma increment_discrepancy_counter_keeps:
  "increment_discrepancy_counter fits_d s = Some t \<Longrightarrow> anchor_part t = anchor_part s"
  by (auto simp: increment_discrepancy_counter_def split: if_splits)

lemma rebuild_keeps: "rebuild_identity_account_counters fits_d s n = Some t \<Longrightarrow> anchor_part t = anchor_part s"
  by (auto simp: rebuild_identity_account_counters_def Let_def split: option.splits
      dest: increment_discrepancy_counter_keeps)

lemma check_or_rebuild_keeps:
  "check_or_rebuild_max_anchor_accounts fits_d s n limit first = Some (t, ok) \<Longrightarrow> anchor_part t = anchor_part s"
proof (induction fits_d s n limit first rule: check_or_rebuild_max_anchor_accounts.induct)
  case (1 fits_d s n limit first)
  have "anchor_part t = anchor_part u"
    if "rebuild_identity_account_counters fits_d s n = Some u" "first" "limit \<le> stored_accounts (get_account_counter s n)"
      "check_or_rebuild_max_anchor_accounts fits_d u n limit False = Some (t, ok)" for u
    using 1(1) that by blast
  with 1(2) show ?case
    by (subst (asm) check_or_rebuild_max_anchor_accounts.simps)
      (auto split: if_splits option.splits dest: rebuild_keeps)
qed

section \<open>The account calls\<close>

lemma op_keeps_check [keeps]:
  assumes "anchor_part s = x" "\<And>t. anchor_part t = x \<Longrightarrow> op_keeps anchor_part x (f t)"
    and "\<And>t. anchor_part t = x \<Longrightarrow> op_keeps anchor_part x (g t)"
  shows "op_keeps anchor_part x
    (case check_or_rebuild_max_anchor_accounts fits_d s n limit first of
       None \<Rightarrow> None | Some (t, False) \<Rightarrow> f t | Some (t, True) \<Rightarrow> g t)"
  using assms by (auto simp: op_keeps_None dest: check_or_rebuild_keeps split: option.splits bool.splits)

lemma create_account_for_origin_keeps [keeps]:
  assumes "anchor_part s = x"
  shows "op_keeps anchor_part x (create_account_for_origin sha fits fits_d s n origin name)"
  unfolding create_account_for_origin_def by (intro keeps assms)

lemma update_account_for_origin_keeps [keeps]:
  assumes "anchor_part s = x"
  shows "op_keeps anchor_part x (update_account_for_origin sha fits fits_d s n k origin update_name)"
proof (cases update_name)
  case None
  then show ?thesis using assms by (simp add: update_account_for_origin_def op_keeps_Some)
next
  case (Some name)
  show ?thesis
    unfolding update_account_for_origin_def using Some assms
    by (auto intro!: op_keeps_None op_keeps_Some op_keeps_if op_keeps_option op_keeps_bind
          op_keeps_map_err update_account_keeps
        dest!: check_or_rebuild_keeps split: bool.split)
qed

lemma set_default_account_for_origin_keeps [keeps]:
  assumes "anchor_part s = x"
  shows "op_keeps anchor_part x (set_default_account_for_origin sha s n origin k)"
  unfolding set_default_account_for_origin_def by (intro keeps assms) simp_all

lemma prepare_account_delegation_keeps:
  "prepare_account_delegation sha der add_sig salt caller now s sigs n origin k session_key max_ttl
     = Some ((t, sigs'), r) \<Longrightarrow> anchor_part t = anchor_part s"
  by (auto simp: prepare_account_delegation_def split: option.splits)

end
