(* ===== verification/Identity_Invariant.thy ===== *)
theory Identity_Invariant
  imports Canister_Methods Account_Frame
begin

text \<open>
  The limits every identity in stable memory satisfies. They are those of \<open>anchor.rs\<close> but for the
  size of the variable fields: the alias of a recovery key becomes \<open>Recovery Key\<close> in stable memory,
  so a full anchor can read back larger than the limit. Every operation on an anchor, and storing
  it, keeps them.
\<close>

definition identity_ok :: "anchor \<Rightarrow> bool" where
  "identity_ok a \<longleftrightarrow>
     length (a_devices a) \<le> MAX_DEVICES_PER_ANCHOR
     \<and> list_all (\<lambda>d. check_device_invariants d = Inr () \<and> aaguid_ok (dev_aaguid d)) (a_devices a)
     \<and> distinct (map dev_pubkey (a_devices a))
     \<and> length (filter (\<lambda>d. dev_key_type d = SeedPhrase) (a_devices a)) \<le> 1
     \<and> distinct (map oc_key (a_openid_credentials a))
     \<and> length (a_openid_credentials a) \<le> MAX_LINKED_CREDENTIALS
     \<and> opt_len (a_name a) \<le> MAX_NAME_LENGTH"

lemma identity_ok_aaguids: "identity_ok a \<Longrightarrow> aaguids_ok a"
  by (auto simp: identity_ok_def aaguids_ok_def list_all_iff)

lemma identity_ok_new [simp]: "identity_ok (anchor_new n t)"
  by (simp add: identity_ok_def anchor_new_def opt_len_def)

lemma a_number_new [simp]: "a_number (anchor_new n t) = n"
  by (simp add: anchor_new_def)

section \<open>Operations\<close>

text \<open>An operation on an identity keeps its number and its limits.\<close>

definition keeps_identity_ok :: "anchor \<Rightarrow> anchor \<Rightarrow> bool" where
  "keeps_identity_ok a a' \<longleftrightarrow> a_number a' = a_number a \<and> (identity_ok a \<longrightarrow> identity_ok a')"

lemma keeps_identity_ok_trans: "keeps_identity_ok a b \<Longrightarrow> keeps_identity_ok b c \<Longrightarrow> keeps_identity_ok a c"
  by (simp add: keeps_identity_ok_def)

lemma add_device_identity:
  "add_device a d = Inr a' \<Longrightarrow> aaguid_ok (dev_aaguid d) \<Longrightarrow> keeps_identity_ok a a'"
  by (auto simp: keeps_identity_ok_def identity_ok_def add_device_Inr check_anchor_invariants_ok
      MAX_DEVICES_PER_ANCHOR_def)

lemma remove_device_identity: "remove_device sa caller a k = Inr a' \<Longrightarrow> keeps_identity_ok a a'"
  by (auto simp: keeps_identity_ok_def identity_ok_def remove_device_Inr list_all_remove_nth map_remove_nth
      distinct_remove_nth length_remove_nth dest!: device_index_Inr
      intro: order_trans [OF filter_remove_nth_le])

lemma modify_device_identity:
  "modify_device sa caller a k d = Inr a' \<Longrightarrow> aaguid_ok (dev_aaguid d) \<Longrightarrow> keeps_identity_ok a a'"
  by (auto simp: keeps_identity_ok_def identity_ok_def modify_device_Inr list_all_update map_update_same
      check_anchor_invariants_ok dest!: device_index_Inr)

lemma set_device_usage_timestamp_identity:
  assumes "set_device_usage_timestamp a k now = Inr a'"
  shows "keeps_identity_ok a a'"
proof -
  obtain i where i: "device_index a k = Inr i"
    and a': "a' = a\<lparr>a_devices := (a_devices a)[i := (a_devices a ! i)\<lparr>dev_last_usage := Some now\<rparr>]\<rparr>"
    using assms by (auto simp: set_device_usage_timestamp_Inr)
  let ?ds = "(a_devices a)[i := (a_devices a ! i)\<lparr>dev_last_usage := Some now\<rparr>]"
  from i have lt: "i < length (a_devices a)" by (auto dest: device_index_Inr)
  have "map dev_pubkey ?ds = map dev_pubkey (a_devices a)"
    using lt by (intro map_update_same) simp_all
  moreover have "length (filter (\<lambda>d. dev_key_type d = SeedPhrase) ?ds)
      = length (filter (\<lambda>d. dev_key_type d = SeedPhrase) (a_devices a))"
    unfolding filter_length_map [of "\<lambda>d. dev_key_type d = SeedPhrase"]
    using lt by (subst map_update_same) simp_all
  ultimately show ?thesis
    using lt by (auto simp: a' keeps_identity_ok_def identity_ok_def list_all_length nth_list_update)
qed

lemma add_openid_credential_identity: "add_openid_credential a c = Inr a' \<Longrightarrow> keeps_identity_ok a a'"
  by (auto simp: keeps_identity_ok_def identity_ok_def add_openid_credential_Inr MAX_LINKED_CREDENTIALS_def)

lemma remove_openid_credential_identity: "remove_openid_credential a key = Inr a' \<Longrightarrow> keeps_identity_ok a a'"
  by (auto simp: keeps_identity_ok_def identity_ok_def remove_openid_credential_def map_remove_nth
      distinct_remove_nth length_remove_nth split: sum.splits dest!: openid_credential_index_Inr)

lemma update_openid_credential_identity: "update_openid_credential a c = Inr a' \<Longrightarrow> keeps_identity_ok a a'"
  by (auto simp: keeps_identity_ok_def identity_ok_def update_openid_credential_def map_update_same oc_key_def
      split: sum.splits dest!: openid_credential_index_Inr)

lemma set_openid_credential_usage_timestamp_identity:
  "set_openid_credential_usage_timestamp a key now = Inr a' \<Longrightarrow> keeps_identity_ok a a'"
  by (auto simp: keeps_identity_ok_def identity_ok_def set_openid_credential_usage_timestamp_def
      map_update_same oc_key_def split: sum.splits dest!: openid_credential_index_Inr)

lemma replace_identity_metadata_identity:
  "replace_identity_metadata a md = Inr a' \<Longrightarrow> keeps_identity_ok a a'"
  by (auto simp: keeps_identity_ok_def identity_ok_def replace_identity_metadata_def split: sum.splits)

lemma anchor_set_name_identity: "anchor_set_name a nm = Inr a' \<Longrightarrow> keeps_identity_ok a a'"
  by (auto simp: keeps_identity_ok_def identity_ok_def anchor_set_name_def opt_len_def
      split: if_splits option.splits)

section \<open>Stable memory\<close>

lemma check_device_invariants_after_storage:
  assumes "check_device_invariants d = Inr ()"
  shows "check_device_invariants (device_after_storage d) = Inr ()"
  using assms
  by (auto simp: device_after_storage_eq check_device_invariants_ok check_device_limits_ok
      reserved_metadata_key_def stored_as_recovery_key_iff complete_passkey_def)

lemma aaguid_after_storage: "aaguid_ok (dev_aaguid d) \<Longrightarrow> aaguid_ok (dev_aaguid (device_after_storage d))"
  by (simp add: device_after_storage_eq aaguid_ok_def)

lemma seed_phrases_after_storage:
  "length (filter (\<lambda>d. dev_key_type d = SeedPhrase) (map device_after_storage (storage_order ds)))
     \<le> length (filter (\<lambda>d. dev_key_type d = SeedPhrase) ds)"
proof -
  have "filter (\<lambda>d. dev_key_type d = SeedPhrase) (map device_after_storage xs)
      = map device_after_storage (filter (\<lambda>d. dev_key_type d = SeedPhrase) xs)" for xs
    by (induction xs) (auto simp: device_after_storage_eq complete_passkey_def passkey_key_type_def)
  moreover have "mset (filter (\<lambda>d. dev_key_type d = SeedPhrase) (storage_order ds))
      = mset (filter (\<lambda>d. dev_key_type d = SeedPhrase) ds)"
    by (simp only: mset_filter mset_storage_order)
  ultimately show ?thesis by (metis length_map mset_eq_length order_refl)
qed

lemma identity_ok_after_storage:
  assumes "identity_ok a"
  shows "identity_ok (anchor_after_storage a)"
proof -
  let ?ds = "storage_order (a_devices a)"
  have m: "mset ?ds = mset (a_devices a)" by simp
  have "length ?ds = length (a_devices a)" "set ?ds = set (a_devices a)"
    using m mset_eq_length mset_eq_setD by blast+
  moreover have "distinct (map dev_pubkey ?ds) = distinct (map dev_pubkey (a_devices a))"
    by (metis m mset_eq_imp_distinct_iff mset_map)
  moreover have "dev_pubkey \<circ> device_after_storage = dev_pubkey" by (simp add: fun_eq_iff)
  moreover have "length (filter (\<lambda>d. dev_key_type d = SeedPhrase) (map device_after_storage ?ds)) \<le> 1"
    using assms by (blast intro: order_trans [OF seed_phrases_after_storage] dest: identity_ok_def [THEN iffD1])
  ultimately show ?thesis
    using assms
    by (auto simp: identity_ok_def anchor_after_storage_def list_all_iff check_device_invariants_after_storage
        aaguid_after_storage)
qed

end
