(* ===== verification/Authorization.thy ===== *)
theory Authorization
  imports Identity_Invariant
begin

text \<open>
  Who may change an identity. \<open>authorized\<close> says which callers the canister accepts for an anchor.
  \<open>touches\<close> and \<open>guarded\<close> are the two judgments about a message: it changes at most one identity
  and keeps the invariant; and it changes that identity, or succeeds, only for an authorized
  caller. The rules for the combinators and the operations on one anchor give the judgment of
  every method.
\<close>

section \<open>What a message can change\<close>

definition identity_part where
  "identity_part s =
     (st_header s, st_header_memory s, st_anchors s, st_by_openid s, st_by_credential s,
      st_by_recovery_principal s, st_by_passkey_principal s)"

lemma anchor_part_identity: "anchor_part s = anchor_part t \<Longrightarrow> identity_part s = identity_part t"
  by (simp add: anchor_part_def identity_part_def)

abbreviation cn_identities where "cn_identities c \<equiv> identity_part (cn_storage c)"

definition reads :: "'k canister \<Rightarrow> anchor_number \<Rightarrow> (storage_error + anchor) option" where
  "reads c = storage_read (cn_storage c)"

lemma reads_cong: "cn_identities c = cn_identities d \<Longrightarrow> reads c = reads d"
  by (auto simp: reads_def identity_part_def fun_eq_iff storage_read_def anchor_number_to_record_number_def
      assigned_anchor_number_range_def)

lemma state_anchor_iff: "state_anchor n c = Some a \<longleftrightarrow> reads c n = Some (Inr a)"
  by (auto simp: state_anchor_def reads_def split: option.splits sum.splits)

lemma reads_number: "reads c n = Some (Inr a) \<Longrightarrow> a_number a = n"
  by (auto simp: reads_def storage_read_def anchor_from_storable_def split: sum.splits if_splits option.splits)

text \<open>The AAGUID of a device that waits for its confirmation has 16 bytes, as in its Rust type.\<close>

definition tentative_typed :: "tentative_state \<Rightarrow> bool" where
  "tentative_typed s \<longleftrightarrow>
     (\<forall>n r d code failed. om_get (td_registrations s) n = Some r \<longrightarrow>
        tr_state r = DeviceTentativelyAdded d code failed \<longrightarrow> aaguid_ok (dev_aaguid d))"

definition identities_ok :: "('w, 'k, 'r) crates \<Rightarrow> 'k canister \<Rightarrow> bool" where
  "identities_ok cr c \<longleftrightarrow>
     storage_ok (cr_sa cr) (cn_storage c)
     \<and> (\<forall>n a. reads c n = Some (Inr a) \<longrightarrow> identity_ok a)
     \<and> tentative_typed (cn_tentative c)"

lemma identities_ok_cong:
  assumes "identities_ok cr c" and "cn_identities d = cn_identities c" and "tentative_typed (cn_tentative d)"
  shows "identities_ok cr d"
proof -
  have "storage_ok (cr_sa cr) (cn_storage d)"
  proof (rule storage_ok_intro)
    show "storage_ok (cr_sa cr) (cn_storage c)" using assms(1) by (simp add: identities_ok_def)
    then show "header_ok (cn_storage d)"
      using assms(2) by (simp add: storage_ok_def header_ok_def range_ok_def identity_part_def)
    show "same_anchors (cn_storage c) (cn_storage d)"
      using assms(2) by (simp add: same_anchors_def identity_part_def)
  qed
  then show ?thesis using assms reads_cong [OF assms(2)] by (simp add: identities_ok_def)
qed

section \<open>Authorized callers\<close>

definition device_authorizes ::
  "(bytes \<Rightarrow> principal) \<Rightarrow> timestamp \<Rightarrow> principal \<Rightarrow> anchor_number \<Rightarrow> temp_keys \<Rightarrow> device \<Rightarrow> bool" where
  "device_authorizes sa now caller n keys d \<longleftrightarrow>
     caller = sa (dev_pubkey d)
     \<or> (case om_get (tks_keys keys) (n, dev_pubkey d) of
          None \<Rightarrow> False
        | Some t \<Rightarrow> tk_principal t = caller \<and> now \<le> tk_expiration t)"

definition authorized :: "('w, 'k, 'r) crates \<Rightarrow> timestamp \<Rightarrow> principal \<Rightarrow> anchor_number \<Rightarrow> 'k canister \<Rightarrow> bool" where
  "authorized cr now caller n c \<longleftrightarrow>
     (case state_anchor n c of
        None \<Rightarrow> False
      | Some a \<Rightarrow>
          list_ex (device_authorizes (cr_sa cr) now caller n (cn_temp_keys c)) (a_devices a)
          \<or> list_ex (\<lambda>cred. credential_principal cr (cn_storage c) n cred = Some caller)
               (a_openid_credentials a))"

lemma prune_expired_keys_get:
  "om_get (tks_keys (prune_expired_keys now s)) k = Some v \<Longrightarrow> om_get (tks_keys s) k = Some v"
  using prune_loop_drops [of MAX_TO_PRUNE now "tks_expirations s" "tks_keys s"]
  by (auto simp: prune_expired_keys_fields split: if_splits)

lemma check_temp_key_cases:
  assumes "check_temp_key now caller k n keys = (keys', ok)"
  shows "keys' = prune_expired_keys now keys"
    and "ok \<Longrightarrow> (\<exists>t. om_get (tks_keys keys) (n, k) = Some t \<and> tk_principal t = caller \<and> now \<le> tk_expiration t)"
  using assms
  by (auto simp: check_temp_key_def Let_def not_less simp del: prune_expired_keys_fields
      split: option.splits if_splits dest!: prune_expired_keys_get)

lemma device_authorizes_prune:
  "device_authorizes sa now caller n (prune_expired_keys now keys) d \<Longrightarrow> device_authorizes sa now caller n keys d"
  by (auto simp: device_authorizes_def simp del: prune_expired_keys_fields
      split: option.splits dest!: prune_expired_keys_get)

lemma authorizing_device_SomeD:
  "authorizing_device sa now caller n ds keys = (keys', Some k) \<Longrightarrow>
     \<exists>d \<in> set ds. dev_pubkey d = k \<and> device_authorizes sa now caller n keys d"
proof (induction ds arbitrary: keys)
  case (Cons d ds)
  show ?case
  proof (cases "caller = sa (dev_pubkey d)")
    case True
    then show ?thesis using Cons.prems by (auto simp: device_authorizes_def)
  next
    case False
    obtain keys1 ok where ck: "check_temp_key now caller (dev_pubkey d) n keys = (keys1, ok)" by fastforce
    show ?thesis
    proof (cases ok)
      case True
      then show ?thesis
        using Cons.prems False check_temp_key_cases(2) [OF ck] by (auto simp: ck device_authorizes_def)
    next
      case no: False
      with Cons.prems False have "authorizing_device sa now caller n ds keys1 = (keys', Some k)" by (simp add: ck)
      from Cons.IH [OF this] show ?thesis
        using check_temp_key_cases(1) [OF ck] by (auto dest: device_authorizes_prune)
    qed
  qed
qed simp

lemma authorizing_device_accepts:
  "d \<in> set ds \<Longrightarrow> sa (dev_pubkey d) = caller \<Longrightarrow> snd (authorizing_device sa now caller n ds keys) \<noteq> None"
proof (induction ds arbitrary: keys)
  case (Cons x ds)
  then show ?case by (auto split: prod.split)
qed simp

lemma authorizing_credential_SomeD:
  "authorizing_credential f caller cs = Some (Some cred) \<Longrightarrow> cred \<in> set cs \<and> f cred = Some caller"
  by (induction cs) (auto split: option.splits if_splits)

lemma authorizing_credential_NoneD:
  "authorizing_credential f caller cs = Some None \<Longrightarrow> cred \<in> set cs \<Longrightarrow> f cred \<noteq> Some caller"
  by (induction cs) (auto split: option.splits if_splits)

lemma check_authorization_cases:
  assumes "check_authorization cr now caller n c = Some (c', r)"
  obtains (refused) keys where "c' = c\<lparr>cn_temp_keys := keys\<rparr>" "r = Inl caller"
      "\<not> list_ex (\<lambda>d. caller = cr_sa cr (dev_pubkey d)) (case reads c n of Some (Inr a) \<Rightarrow> a_devices a | _ \<Rightarrow> [])"
  | (accepted) keys a key where "c' = c\<lparr>cn_temp_keys := keys\<rparr>" "r = Inr (a, key)" "reads c n = Some (Inr a)"
      "authorized cr now caller n c"
proof -
  from assms obtain a where a: "state_anchor n c = Some a"
    by (auto simp: check_authorization_def split: option.splits)
  then have rd: "reads c n = Some (Inr a)" by (simp add: state_anchor_iff)
  obtain keys k where dev: "authorizing_device (cr_sa cr) now caller n (a_devices a) (cn_temp_keys c) = (keys, k)"
    by fastforce
  show thesis
  proof (cases k)
    case (Some pubkey)
    have "list_ex (device_authorizes (cr_sa cr) now caller n (cn_temp_keys c)) (a_devices a)"
      using authorizing_device_SomeD dev Some by (fastforce simp: list_ex_iff)
    then have "authorized cr now caller n c" by (simp add: authorized_def a)
    with assms rd show thesis by (intro accepted) (auto simp: check_authorization_def a dev Some)
  next
    case None
    from assms consider
      "authorizing_credential (credential_principal cr (cn_storage c) n) caller (a_openid_credentials a) = Some None"
    | cred where
      "authorizing_credential (credential_principal cr (cn_storage c) n) caller (a_openid_credentials a) = Some (Some cred)"
      by (auto simp: check_authorization_def a dev None split: option.splits)
    then show thesis
    proof cases
      case 1
      have "\<not> list_ex (\<lambda>d. caller = cr_sa cr (dev_pubkey d)) (a_devices a)"
        using authorizing_device_accepts [of _ "a_devices a" "cr_sa cr" caller now n "cn_temp_keys c"] dev None
        by (auto simp: list_ex_iff)
      with assms 1 show thesis by (intro refused) (auto simp: check_authorization_def a dev None rd)
    next
      case 2
      from authorizing_credential_SomeD [OF 2] have "authorized cr now caller n c"
        by (auto simp: authorized_def a list_ex_iff)
      with assms 2 rd show thesis by (intro accepted) (auto simp: check_authorization_def a dev None)
    qed
  qed
qed

section \<open>Judgments about messages\<close>

text \<open>The number of identities and the registration flows, which only registrations change.\<close>

definition registration_part where
  "registration_part c = (anchor_count (cn_storage c), cn_flows c)"

lemma registration_part_keep:
  "cn_identities c' = cn_identities c \<Longrightarrow> cn_flows c' = cn_flows c \<Longrightarrow> registration_part c' = registration_part c"
  by (simp add: registration_part_def anchor_count_def identity_part_def)

definition touches :: "('w, 'k, 'r) crates \<Rightarrow> anchor_number \<Rightarrow> 'k canister \<Rightarrow> ('k, 'e, 'a) message \<Rightarrow> bool" where
  "touches cr n c f \<longleftrightarrow>
     (\<forall>c' r. f c = Some (c', r) \<longrightarrow>
        (\<forall>k. k \<noteq> n \<longrightarrow> reads c' k = reads c k) \<and> (identities_ok cr c \<longrightarrow> identities_ok cr c')
        \<and> registration_part c' = registration_part c)"

definition guarded ::
  "('w, 'k, 'r) crates \<Rightarrow> timestamp \<Rightarrow> principal \<Rightarrow> anchor_number \<Rightarrow> 'k canister \<Rightarrow> ('k, 'e, 'a) message \<Rightarrow> bool" where
  "guarded cr now caller n c f \<longleftrightarrow>
     touches cr n c f
     \<and> (\<forall>c' r. f c = Some (c', r) \<longrightarrow> reads c' = reads c \<and> isl r \<or> authorized cr now caller n c)"

named_theorems judged \<open>the judgments of messages\<close>

lemma touchesI [intro?]:
  assumes "\<And>c' r. f c = Some (c', r) \<Longrightarrow> (\<forall>k. k \<noteq> n \<longrightarrow> reads c' k = reads c k) \<and> (identities_ok cr c \<longrightarrow> identities_ok cr c')
        \<and> registration_part c' = registration_part c"
  shows "touches cr n c f"
  using assms by (simp add: touches_def)

lemma touches_keep:
  assumes "\<And>c' r. f c = Some (c', r) \<Longrightarrow> cn_identities c' = cn_identities c \<and> cn_flows c' = cn_flows c
     \<and> (tentative_typed (cn_tentative c) \<longrightarrow> tentative_typed (cn_tentative c'))"
  shows "touches cr n c f"
proof
  fix c' r
  assume "f c = Some (c', r)"
  from assms [OF this] show "(\<forall>k. k \<noteq> n \<longrightarrow> reads c' k = reads c k) \<and> (identities_ok cr c \<longrightarrow> identities_ok cr c')
        \<and> registration_part c' = registration_part c"
    using reads_cong [of c' c] identities_ok_cong [of cr c c'] registration_part_keep [of c' c]
    by (auto simp: identities_ok_def)
qed

lemma touches_bind:
  assumes "touches cr n c f" and "\<And>x c1. f c = Some (c1, Inr x) \<Longrightarrow> touches cr n c1 (g x)"
  shows "touches cr n c (\<lambda>c. op_bind (f c) g)"
proof
  fix c' r
  assume "op_bind (f c) g = Some (c', r)"
  then consider e where "f c = Some (c', Inl e)" | c1 x where "f c = Some (c1, Inr x)" "g x c1 = Some (c', r)"
    by (auto simp: op_bind_Some)
  then show "(\<forall>k. k \<noteq> n \<longrightarrow> reads c' k = reads c k) \<and> (identities_ok cr c \<longrightarrow> identities_ok cr c')
        \<and> registration_part c' = registration_part c"
    by cases (use assms in \<open>(unfold touches_def, metis)+\<close>)
qed

lemma op_map_err_Some:
  "op_map_err g m = Some (s, r) \<longleftrightarrow> (\<exists>r'. m = Some (s, r') \<and> r = (case r' of Inl e \<Rightarrow> Inl (g e) | Inr x \<Rightarrow> Inr x))"
  by (auto simp: op_map_err_def split: option.splits sum.splits)

lemma op_map_err_Inr: "op_map_err g m = Some (s, Inr x) \<longleftrightarrow> m = Some (s, Inr x)"
  by (auto simp: op_map_err_def split: option.splits sum.splits)

lemma trap_on_error_Some:
  "trap_on_error m = Some (s, r) \<longleftrightarrow> (\<exists>x. m = Some (s, Inr x) \<and> r = Inr x)"
  by (auto simp: trap_on_error_def split: option.splits sum.splits)

lemma isl_map_err [simp]: "isl (case r of Inl e \<Rightarrow> Inl (g e) | Inr x \<Rightarrow> Inr x) = isl r"
  by (cases r) simp_all

lemma touches_map_err: "touches cr n c (\<lambda>c. op_map_err g (f c)) = touches cr n c f"
  by (auto simp: touches_def op_map_err_Some)

lemma touches_trap: "touches cr n c f \<Longrightarrow> touches cr n c (\<lambda>c. trap_on_error (f c))"
  by (simp add: touches_def trap_on_error_Some) blast

lemma guarded_touches: "guarded cr now caller n c f \<Longrightarrow> touches cr n c f"
  by (simp add: guarded_def)

lemma guarded_map_err: "guarded cr now caller n c (\<lambda>c. op_map_err g (f c)) = guarded cr now caller n c f"
  by (auto simp: guarded_def touches_map_err op_map_err_Some)

lemma guarded_trap: "guarded cr now caller n c f \<Longrightarrow> guarded cr now caller n c (\<lambda>c. trap_on_error (f c))"
  by (auto simp: guarded_def touches_trap trap_on_error_Some)

lemma guarded_authorizedD: "guarded cr now caller n c f \<Longrightarrow> f c = Some (c', Inr x) \<Longrightarrow> authorized cr now caller n c"
  by (auto simp: guarded_def)

lemma guarded_bind:
  assumes f: "guarded cr now caller n c f"
    and g: "\<And>x c1. f c = Some (c1, Inr x) \<Longrightarrow> touches cr n c1 (g x)"
  shows "guarded cr now caller n c (\<lambda>c. op_bind (f c) g)"
  unfolding guarded_def
proof (intro conjI allI impI)
  show "touches cr n c (\<lambda>c. op_bind (f c) g)"
    using f g by (intro touches_bind) (simp_all add: guarded_touches)
  fix c' r
  assume "op_bind (f c) g = Some (c', r)"
  then consider e where "f c = Some (c', Inl e)" "r = Inl e" | c1 x where "f c = Some (c1, Inr x)" "g x c1 = Some (c', r)"
    by (auto simp: op_bind_Some)
  then show "reads c' = reads c \<and> isl r \<or> authorized cr now caller n c"
  proof cases
    case 1
    then show ?thesis using f by (auto simp: guarded_def)
  next
    case 2
    then show ?thesis using guarded_authorizedD [OF f] by blast
  qed
qed

section \<open>The operations on one anchor\<close>

lemma post_operation_keeps:
  assumes "post_operation_bookkeeping cr now caller n operation c = Some c'"
  shows "cn_identities c' = cn_identities c \<and> cn_tentative c' = cn_tentative c \<and> cn_flows c' = cn_flows c"
  using assms
  by (auto simp: post_operation_bookkeeping_def archive_operation_def add_archive_entry_def identity_part_def
      split: option.splits archive_state.splits if_splits)

lemma post_operation_fields:
  "post_operation_bookkeeping cr now caller n operation c = Some c' \<Longrightarrow>
     cn_flows c' = cn_flows c \<and> cn_rate_limit c' = cn_rate_limit c
     \<and> st_accounts (cn_storage c') = st_accounts (cn_storage c)"
  by (auto simp: post_operation_bookkeeping_def archive_operation_def add_archive_entry_def
      split: option.splits archive_state.splits if_splits)

lemma write_anchor_touches:
  assumes "a_number a = n" and "identities_ok cr c \<Longrightarrow> identity_ok a"
  shows "touches cr n c (write_anchor cr a)"
proof
  fix c' r
  assume "write_anchor cr a c = Some (c', r)"
  then consider "c' = c" | s where "storage_write (cr_sa cr) (cn_storage c) a = Inr s" "c' = c\<lparr>cn_storage := s\<rparr>"
    by (auto simp: write_anchor_def split: sum.splits)
  then show "(\<forall>k. k \<noteq> n \<longrightarrow> reads c' k = reads c k) \<and> (identities_ok cr c \<longrightarrow> identities_ok cr c')
        \<and> registration_part c' = registration_part c"
  proof cases
    case 2
    note rd = storage_read_after_write [OF 2(1)]
    have "identities_ok cr c'" if ok: "identities_ok cr c"
      unfolding identities_ok_def
    proof (intro conjI allI impI)
      have a: "identity_ok a" using ok by (rule assms(2))
      show "storage_ok (cr_sa cr) (cn_storage c')"
        using storage_write_ok [OF 2(1)] ok identity_ok_aaguids [OF a] by (simp add: 2(2) identities_ok_def)
      show "tentative_typed (cn_tentative c')" using ok by (simp add: 2(2) identities_ok_def)
      show "identity_ok b" if "reads c' k = Some (Inr b)" for k b
        using that ok a identity_ok_after_storage [OF a] anchor_round_trip [OF identity_ok_aaguids [OF a]]
        by (auto simp: 2(2) reads_def rd identities_ok_def split: if_splits)
    qed
    then show ?thesis
      using assms(1) storage_write_fields(1) [OF 2(1)]
      by (simp add: 2(2) reads_def rd registration_part_def anchor_count_def)
  qed simp
qed

lemma check_authorization_guarded [judged]: "guarded cr now caller n c (check_authorization cr now caller n)"
  unfolding guarded_def
proof (intro conjI allI impI)
  have eff: "reads c' = reads c \<and> cn_identities c' = cn_identities c \<and> cn_tentative c' = cn_tentative c
      \<and> cn_flows c' = cn_flows c
      \<and> (isl r \<or> authorized cr now caller n c)"
    if "check_authorization cr now caller n c = Some (c', r)" for c' r
    using that by (cases rule: check_authorization_cases) (auto simp: reads_def)
  show "touches cr n c (check_authorization cr now caller n)"
    by (rule touches_keep) (simp add: eff)
  show "reads c' = reads c \<and> isl r \<or> authorized cr now caller n c"
    if "check_authorization cr now caller n c = Some (c', r)" for c' r
    using eff [OF that] by blast
qed

lemma check_authorization_Inr:
  assumes "check_authorization cr now caller n c = Some (c', Inr (a, key))"
  shows "reads c n = Some (Inr a)" and "cn_storage c' = cn_storage c" and "cn_tentative c' = cn_tentative c"
    and "a_number a = n" and "identities_ok cr c' = identities_ok cr c"
    and "identities_ok cr c \<Longrightarrow> identity_ok a"
  using assms
  by (cases rule: check_authorization_cases; auto simp: reads_number identities_ok_def reads_def)+

lemma activity_bookkeeping_identity:
  "activity_bookkeeping now a key activity = Some (a', activity') \<Longrightarrow> keeps_identity_ok a a'"
  by (auto simp: activity_bookkeeping_def split: authorization_key.splits sum.splits
      intro: set_device_usage_timestamp_identity set_openid_credential_usage_timestamp_identity)

text \<open>What an operation handed to \<open>anchor_operation_with_authz_check\<close> has to satisfy.\<close>

definition operation_ok ::
  "('w, 'k, 'r) crates \<Rightarrow> (anchor \<Rightarrow> ('k, 'e, 'a \<times> operation \<times> anchor) message) \<Rightarrow> bool" where
  "operation_ok cr f \<longleftrightarrow>
     (\<forall>a c c' r. f a c = Some (c', r) \<longrightarrow>
        cn_identities c' = cn_identities c \<and> cn_tentative c' = cn_tentative c \<and> cn_flows c' = cn_flows c
        \<and> (\<forall>x operation a'. r = Inr (x, operation, a') \<longrightarrow> keeps_identity_ok a a'))"

lemma anchor_operation_guarded [judged]:
  assumes f: "operation_ok cr f"
  shows "guarded cr now caller n c (anchor_operation_with_authz_check cr now caller conv n f)"
  unfolding anchor_operation_with_authz_check_def [abs_def]
proof (rule guarded_bind, unfold guarded_map_err, rule check_authorization_guarded)
  fix x c1
  assume "op_map_err (\<lambda>p. conv (Unauthorized p)) (check_authorization cr now caller n c) = Some (c1, Inr x)"
  then obtain a key where x: "x = (a, key)" and ck: "check_authorization cr now caller n c = Some (c1, Inr (a, key))"
    by (cases x) (auto simp: op_map_err_Inr)
  note a = check_authorization_Inr [OF ck]
  have "touches cr n c1 (\<lambda>c1. op_bind (f a' (c1\<lparr>cn_activity := activity\<rparr>)) (\<lambda>(ret, operation, anchor) c.
      op_bind (op_map_err (\<lambda>e. conv (IdentityStorageError n e)) (write_anchor cr anchor c))
        (\<lambda>_ c. case post_operation_bookkeeping cr now caller n operation c of
                 None \<Rightarrow> None | Some c \<Rightarrow> Some (c, Inr ret))))"
    if act: "activity_bookkeeping now a key (cn_activity c1) = Some (a', activity)" for a' activity
  proof (rule touches_bind)
    show "touches cr n c1 (\<lambda>c. f a' (c\<lparr>cn_activity := activity\<rparr>))"
      using f by (intro touches_keep) (auto simp: operation_ok_def dest!: spec)
    fix y c2
    assume run: "f a' (c1\<lparr>cn_activity := activity\<rparr>) = Some (c2, Inr y)"
    obtain ret operation anchor where y: "y = (ret, operation, anchor)" by (cases y)
    from f run have st: "cn_identities c2 = cn_identities c1" "cn_tentative c2 = cn_tentative c1"
      and kp: "keeps_identity_ok a' anchor"
      unfolding operation_ok_def y by force+
    note kept = keeps_identity_ok_trans [OF activity_bookkeeping_identity [OF act] kp]
    have "identity_ok anchor" if "identities_ok cr c2"
      using that kept a(5,6) identities_ok_cong [of cr c2 c1] st
      by (simp add: keeps_identity_ok_def identities_ok_def)
    then have w: "touches cr n c2 (write_anchor cr anchor)"
      using kept a(4) by (intro write_anchor_touches) (auto simp: keeps_identity_ok_def)
    show "touches cr n c2 ((\<lambda>(ret, operation, anchor) c.
      op_bind (op_map_err (\<lambda>e. conv (IdentityStorageError n e)) (write_anchor cr anchor c))
        (\<lambda>_ c. case post_operation_bookkeeping cr now caller n operation c of
                 None \<Rightarrow> None | Some c \<Rightarrow> Some (c, Inr ret))) y)"
      unfolding y prod.case
      by (intro touches_bind, unfold touches_map_err, rule w)
        (auto intro!: touches_keep dest!: post_operation_keeps split: option.splits)
  qed
  then show "touches cr n c1 ((\<lambda>(anchor, key) c.
          case activity_bookkeeping now anchor key (cn_activity c) of
            None \<Rightarrow> None
          | Some (anchor, activity) \<Rightarrow>
              op_bind (f anchor (c\<lparr>cn_activity := activity\<rparr>))
                (\<lambda>(ret, operation, anchor) c.
                   op_bind (op_map_err (\<lambda>e. conv (IdentityStorageError n e)) (write_anchor cr anchor c))
                     (\<lambda>_ c. case post_operation_bookkeeping cr now caller n operation c of
                              None \<Rightarrow> None | Some c \<Rightarrow> Some (c, Inr ret)))) x)"
    unfolding x prod.case
    by (auto simp: touches_def split: option.splits prod.splits)
qed

end
