(* ===== verification/Guarded_Methods.thy ===== *)
theory Guarded_Methods
  imports Authorization
begin

text \<open>
  The judgments of the methods of the canister: each one that names an anchor changes nothing else,
  and only for an authorized caller; it keeps the limits of all identities. The AAGUID of a device
  in an argument has 16 bytes, as in its Rust type.
\<close>

section \<open>Operations\<close>

lemma operation_okI:
  assumes "\<And>a c c' r. f a c = Some (c', r) \<Longrightarrow> cn_identities c' = cn_identities c"
    and "\<And>a c c' r. f a c = Some (c', r) \<Longrightarrow> cn_tentative c' = cn_tentative c"
    and "\<And>a c c' r. f a c = Some (c', r) \<Longrightarrow> cn_flows c' = cn_flows c"
    and "\<And>a c c' x operation a'. f a c = Some (c', Inr (x, operation, a')) \<Longrightarrow> keeps_identity_ok a a'"
  shows "operation_ok cr f"
  using assms unfolding operation_ok_def by blast

lemma management_add_device_identity:
  "management_add_device a data = Some (operation, a') \<Longrightarrow> aaguid_ok (dev_aaguid data) \<Longrightarrow> keeps_identity_ok a a'"
  by (auto simp: management_add_device_def Let_def device_from_data_def device_data.defs
      split: sum.splits elim!: add_device_identity)

lemma management_update_device_identity:
  "management_update_device sa caller a k data = Some (operation, a') \<Longrightarrow> aaguid_ok (dev_aaguid data) \<Longrightarrow>
   keeps_identity_ok a a'"
  by (auto simp: management_update_device_def Let_def apply_device_data_def
      split: sum.splits option.splits elim!: modify_device_identity)

lemma management_remove_device_identity:
  "management_remove_device sa caller n a k keys = Some (operation, a', keys') \<Longrightarrow> keeps_identity_ok a a'"
  by (auto simp: management_remove_device_def split: sum.splits intro: remove_device_identity)

lemma management_replace_device_identity:
  assumes "management_replace_device sa caller n a k data keys = Some (operation, a', keys')"
    and "aaguid_ok (dev_aaguid data)"
  shows "keeps_identity_ok a a'"
proof -
  obtain b where "remove_device sa caller a k = Inr b" "add_device b (device_from_data data) = Inr a'"
    using assms(1) by (auto simp: management_replace_device_def Let_def split: sum.splits)
  with assms(2) show ?thesis
    by (auto simp: device_from_data_def device_data.defs
        intro: keeps_identity_ok_trans [OF remove_device_identity add_device_identity])
qed

lemma management_add_openid_credential_identity:
  "management_add_openid_credential s a cred = Inr (operation, a') \<Longrightarrow> keeps_identity_ok a a'"
  by (auto simp: management_add_openid_credential_def add_openid_credential_skip_checks_def
      split: sum.splits intro: add_openid_credential_identity)

lemma management_remove_openid_credential_identity:
  "management_remove_openid_credential a key = Inr (operation, a') \<Longrightarrow> keeps_identity_ok a a'"
  by (auto simp: management_remove_openid_credential_def split: sum.splits intro: remove_openid_credential_identity)

lemma management_metadata_replace_identity:
  "management_metadata_replace a md = Inr (operation, a') \<Longrightarrow> keeps_identity_ok a a'"
  by (auto simp: management_metadata_replace_def split: sum.splits intro: replace_identity_metadata_identity)

lemma management_set_name_identity:
  "management_set_name a nm = Inr (operation, a') \<Longrightarrow> keeps_identity_ok a a'"
  by (auto simp: management_set_name_def split: sum.splits intro: anchor_set_name_identity)

lemma anchor_only_ok:
  "(\<And>a operation a'. f a = Inr (operation, a') \<Longrightarrow> keeps_identity_ok a a') \<Longrightarrow> operation_ok cr (anchor_only conv f)"
  by (rule operation_okI) (auto simp: anchor_only_def split: sum.splits)

section \<open>Methods on one anchor\<close>

lemma record_activity_guarded [judged]:
  "guarded cr now caller n c (check_authz_and_record_activity cr now caller n)"
  unfolding check_authz_and_record_activity_def [abs_def]
proof (rule guarded_bind, unfold guarded_map_err, rule check_authorization_guarded)
  fix x c1
  assume "op_map_err Unauthorized (check_authorization cr now caller n c) = Some (c1, Inr x)"
  then obtain a key where x: "x = (a, key)" and ck: "check_authorization cr now caller n c = Some (c1, Inr (a, key))"
    by (cases x) (auto simp: op_map_err_Inr)
  note a = check_authorization_Inr [OF ck]
  have "touches cr n c1 (\<lambda>c. op_bind (op_map_err (IdentityStorageError n) (write_anchor cr a' (c\<lparr>cn_activity := activity\<rparr>)))
      (\<lambda>_ c. Some (c, Inr (domain :: ii_domain option))))"
    if act: "activity_bookkeeping now a key (cn_activity c1) = Some (a', activity)" for a' activity domain
  proof (rule touches_bind, unfold touches_map_err)
    have kp: "keeps_identity_ok a a'" by (rule activity_bookkeeping_identity) (rule act)
    have "identity_ok a'" if "identities_ok cr (c1\<lparr>cn_activity := activity\<rparr>)"
      using that kp a(5,6) by (simp add: keeps_identity_ok_def identities_ok_def reads_def)
    then have "touches cr n (c1\<lparr>cn_activity := activity\<rparr>) (write_anchor cr a')"
      using kp a(4) by (intro write_anchor_touches) (auto simp: keeps_identity_ok_def)
    then show "touches cr n c1 (\<lambda>c. write_anchor cr a' (c\<lparr>cn_activity := activity\<rparr>))"
      by (simp add: touches_def identities_ok_def reads_def registration_part_def)
  qed (auto intro: touches_keep)
  then show "touches cr n c1
      ((\<lambda>(anchor, key) c.
          case (case key of
                  DeviceKey device_key \<Rightarrow> map_option device_ii_domain (anchor_device anchor device_key)
                | OpenIdCredentialKey _ _ \<Rightarrow> Some None) of
            None \<Rightarrow> None
          | Some maybe_domain \<Rightarrow>
              (case activity_bookkeeping now anchor key (cn_activity c) of
                 None \<Rightarrow> None
               | Some (anchor, activity) \<Rightarrow>
                   op_bind (op_map_err (IdentityStorageError n)
                              (write_anchor cr anchor (c\<lparr>cn_activity := activity\<rparr>)))
                     (\<lambda>_ c. Some (c, Inr maybe_domain)))) x)"
    unfolding x prod.case by (auto simp: touches_def split: option.splits prod.splits)
qed

lemma add_method_guarded [judged]:
  "aaguid_ok (dev_aaguid data) \<Longrightarrow> guarded cr now caller n c (add_method cr now caller n data)"
  unfolding add_method_def [abs_def]
  by (intro guarded_trap anchor_operation_guarded operation_okI)
    (auto split: if_splits option.splits elim!: management_add_device_identity)

lemma update_method_guarded [judged]:
  "aaguid_ok (dev_aaguid data) \<Longrightarrow> guarded cr now caller n c (update_method cr now caller n k data)"
  unfolding update_method_def [abs_def]
  by (intro guarded_trap anchor_operation_guarded operation_okI)
    (auto split: if_splits option.splits elim!: management_update_device_identity)

lemma replace_method_guarded [judged]:
  "aaguid_ok (dev_aaguid data) \<Longrightarrow> guarded cr now caller n c (replace_method cr now caller n k data)"
  unfolding replace_method_def [abs_def]
  by (intro guarded_trap anchor_operation_guarded operation_okI)
    (auto split: if_splits option.splits elim!: management_replace_device_identity)

lemma remove_method_guarded [judged]: "guarded cr now caller n c (remove_method cr now caller n k)"
  unfolding remove_method_def [abs_def]
  by (intro guarded_trap anchor_operation_guarded operation_okI)
    (auto split: option.splits elim!: management_remove_device_identity)

lemma identity_metadata_replace_guarded [judged]:
  "guarded cr now caller n c (identity_metadata_replace cr now caller n metadata)"
  unfolding identity_metadata_replace_def
  by (intro anchor_operation_guarded anchor_only_ok management_metadata_replace_identity)

lemma identity_properties_replace_guarded [judged]:
  "guarded cr now caller n c (identity_properties_replace cr now caller n name)"
  unfolding identity_properties_replace_def
  by (intro anchor_operation_guarded anchor_only_ok management_set_name_identity)

lemma openid_credential_remove_guarded [judged]:
  "guarded cr now caller n c (openid_credential_remove cr now caller n key)"
  unfolding openid_credential_remove_def
  by (intro anchor_operation_guarded anchor_only_ok management_remove_openid_credential_identity)

lemma openid_credential_add_guarded [judged]:
  "guarded cr now caller n c (openid_credential_add cr now caller n jwt salt)"
  unfolding openid_credential_add_def
  by (intro anchor_operation_guarded operation_okI)
    (auto simp: anchor_only_def split: sum.splits intro: management_add_openid_credential_identity)

lemma set_default_account_guarded [judged]:
  "guarded cr now caller n c (set_default_account_method cr now caller n origin k)"
  unfolding set_default_account_method_def
proof (intro anchor_operation_guarded operation_okI)
  fix a :: anchor and c c' :: "'b canister" and r
  assume run: "(case set_default_account_for_origin (cr_sha cr) (cn_storage c) n origin k of
            None \<Rightarrow> None
          | Some (s, Inl e) \<Rightarrow> Some (c\<lparr>cn_storage := s\<rparr>, Inl (SetDefaultError e))
          | Some (s, Inr info) \<Rightarrow> Some (c\<lparr>cn_storage := s\<rparr>, Inr (info, SetDefaultAccount, a))) = Some (c', r)"
  then show "cn_tentative c' = cn_tentative c" by (auto split: option.splits sum.splits)
  from run show "cn_identities c' = cn_identities c"
    by (auto split: option.splits sum.splits intro!: anchor_part_identity
        dest!: op_keepsD [OF set_default_account_for_origin_keeps [OF refl]])
qed (auto simp: keeps_identity_ok_def split: option.splits sum.splits)

section \<open>Registration mode\<close>

lemma tentative_typed_prune: "tentative_typed s \<Longrightarrow> tentative_typed (prune_registrations now s)"
  by (auto simp: tentative_typed_def split: option.splits if_splits)

lemma tentative_typed_remove: "tentative_typed s \<Longrightarrow> tentative_typed (remove_registration n s)"
  by (auto simp: tentative_typed_def remove_registration_def)

lemma tentative_typed_set:
  "tentative_typed s \<Longrightarrow> (\<And>d code failed. st = DeviceTentativelyAdded d code failed \<Longrightarrow> aaguid_ok (dev_aaguid d)) \<Longrightarrow>
   tentative_typed (set_registration_state n st r s)"
  by (auto simp: tentative_typed_def set_registration_state_def split: if_splits)

lemma tentative_typed_exit: "tentative_typed s \<Longrightarrow> tentative_typed (exit_device_registration_mode now n s)"
  by (simp add: exit_device_registration_mode_def tentative_typed_prune tentative_typed_remove)

lemma tentative_typed_enter:
  "enter_device_registration_mode now n i s = (t, r) \<Longrightarrow> tentative_typed s \<Longrightarrow> tentative_typed t"
  using tentative_typed_prune [of s now]
  by (auto simp: enter_device_registration_mode_def Let_def split: if_splits option.splits)
    (auto simp: tentative_typed_def split: if_splits)

lemma tentative_typed_get:
  "get_tentative_registration now n s = (t, r) \<Longrightarrow> tentative_typed s \<Longrightarrow> tentative_typed t"
  "get_confirmed_session now n s = (t, p) \<Longrightarrow> tentative_typed s \<Longrightarrow> tentative_typed t"
  by (auto simp: get_tentative_registration_def get_confirmed_session_def Let_def tentative_typed_prune)

lemma tentative_typed_add:
  "add_tentative_device sa st now code n d s = (t, r) \<Longrightarrow> tentative_typed s \<Longrightarrow> aaguid_ok (dev_aaguid d) \<Longrightarrow>
   tentative_typed t"
  "add_tentative_session now code n p s = (t, r) \<Longrightarrow> tentative_typed s \<Longrightarrow> tentative_typed t"
  by (auto simp: add_tentative_device_def add_tentative_session_def Let_def
      intro: tentative_typed_prune tentative_typed_set split: option.splits if_splits)

lemma tentative_typed_failed:
  "failed_confirmation n f failed r s = (t, res) \<Longrightarrow> tentative_typed s \<Longrightarrow>
   (\<And>d code k. f (failed + 1) = DeviceTentativelyAdded d code k \<Longrightarrow> aaguid_ok (dev_aaguid d)) \<Longrightarrow> tentative_typed t"
  by (auto simp: failed_confirmation_def Let_def intro!: tentative_typed_remove tentative_typed_set
      split: if_splits)

lemma tentative_typed_confirm:
  assumes "confirm_tentative_device_or_session now n code s = (t, r)" and "tentative_typed s"
  shows "tentative_typed t" and "\<And>d. r = Inr (Some d) \<Longrightarrow> aaguid_ok (dev_aaguid d)"
proof -
  let ?s = "prune_registrations now s"
  have typed: "tentative_typed ?s" by (rule tentative_typed_prune) fact
  have dev: "aaguid_ok (dev_aaguid d)"
    if "om_get (td_registrations ?s) n = Some q" "tr_state q = DeviceTentativelyAdded d c f" for q d c f
    using typed that unfolding tentative_typed_def by blast
  show "tentative_typed t"
  proof (cases "om_get (td_registrations ?s) n")
    case None
    then show ?thesis using assms(1) typed by (auto simp: confirm_tentative_device_or_session_def Let_def simp del: prune_registrations_get)
  next
    case (Some q)
    then show ?thesis
      using assms(1) typed dev [OF Some]
      by (cases "tr_state q")
        (auto simp: confirm_tentative_device_or_session_def Let_def simp del: prune_registrations_get
          intro: tentative_typed_set tentative_typed_remove elim!: tentative_typed_failed split: if_splits)
  qed
  show "aaguid_ok (dev_aaguid d)" if "r = Inr (Some d)" for d
  proof (cases "om_get (td_registrations ?s) n")
    case None
    then show ?thesis using assms(1) that by (auto simp: confirm_tentative_device_or_session_def Let_def simp del: prune_registrations_get)
  next
    case (Some q)
    then show ?thesis
      using assms(1) that dev [OF Some]
      by (cases "tr_state q")
        (auto simp: confirm_tentative_device_or_session_def failed_confirmation_def Let_def
          simp del: prune_registrations_get split: if_splits)
  qed
qed

text \<open>A change of the registrations alone.\<close>

lemma touches_return [judged]: "touches cr n c (\<lambda>c. Some (c, r))"
  by (simp add: touches_def)

lemma touches_option [judged]:
  "(v = None \<Longrightarrow> touches cr n c f) \<Longrightarrow> (\<And>y. v = Some y \<Longrightarrow> touches cr n c (g y)) \<Longrightarrow>
   touches cr n c (\<lambda>c. case v of None \<Rightarrow> f c | Some y \<Rightarrow> g y c)"
  by (cases v) simp_all

lemma touches_sum [judged]:
  "(\<And>e. v = Inl e \<Longrightarrow> touches cr n c (f e)) \<Longrightarrow> (\<And>y. v = Inr y \<Longrightarrow> touches cr n c (g y)) \<Longrightarrow>
   touches cr n c (\<lambda>c. case v of Inl e \<Rightarrow> f e c | Inr y \<Rightarrow> g y c)"
  by (cases v) simp_all

lemma touches_tentative:
  assumes "\<And>c' r. f c = Some (c', r) \<Longrightarrow> \<exists>t. c' = c\<lparr>cn_tentative := t\<rparr> \<and> (tentative_typed (cn_tentative c) \<longrightarrow> tentative_typed t)"
  shows "touches cr n c f"
  by (rule touches_keep) (use assms in fastforce)

lemma enter_mode_guarded [judged]:
  "guarded cr now caller n c (enter_device_registration_mode_method cr now caller n)"
  unfolding enter_device_registration_mode_method_def [abs_def]
  by (intro guarded_bind guarded_trap record_activity_guarded touches_tentative)
    (auto split: prod.splits sum.splits dest: tentative_typed_enter)

lemma exit_mode_guarded [judged]:
  "guarded cr now caller n c (exit_device_registration_mode_method cr now caller n)"
  unfolding exit_device_registration_mode_method_def [abs_def]
  by (intro guarded_bind guarded_trap record_activity_guarded touches_tentative)
    (auto dest: tentative_typed_exit)

lemma mode_enter_guarded [judged]:
  "guarded cr now caller n c (authn_method_registration_mode_enter cr now caller n reg_id)"
  unfolding authn_method_registration_mode_enter_def [abs_def]
  by (intro guarded_bind, unfold guarded_map_err, rule record_activity_guarded, rule touches_keep)
    (auto split: prod.splits sum.splits option.splits dest: tentative_typed_enter)

lemma add_tentative_device_touches [judged]:
  "aaguid_ok (dev_aaguid data) \<Longrightarrow> touches cr m c (add_tentative_device_method cr now randomness n data)"
  unfolding add_tentative_device_method_def [abs_def]
  by (rule touches_tentative) (auto split: option.splits prod.splits dest: tentative_typed_add)

lemma session_register_touches [judged]:
  "touches cr m c (authn_method_session_register cr now randomness caller n)"
  unfolding authn_method_session_register_def [abs_def]
  by (rule touches_keep) (auto split: option.splits prod.splits if_splits dest: tentative_typed_add)

lemma device_from_authn_method_aaguid:
  "device_from_authn_method data = Inr d \<Longrightarrow> aaguid_ok (dev_aaguid d)"
  by (auto simp: device_from_authn_method_def check_aaguid_def aaguid_ok_def Let_def
      split: sum.splits prod.splits option.splits if_splits)

lemma device_data_from_aaguid [simp]: "dev_aaguid (device_data_from d) = dev_aaguid d"
  by (simp add: device_data_from_def device_data.defs)

lemma authn_method_register_touches [judged]:
  "touches cr m c (authn_method_register cr now randomness n authn_method)"
proof (cases "device_from_authn_method authn_method")
  case (Inl e)
  then show ?thesis by (auto simp: authn_method_register_def touches_def)
next
  case (Inr d)
  then have "touches cr m c (\<lambda>c. op_map_err RegisterError (add_tentative_device_method cr now randomness n (device_data_from d) c))"
    unfolding touches_map_err by (intro add_tentative_device_touches) (simp add: device_from_authn_method_aaguid)
  then show ?thesis by (simp add: authn_method_register_def [abs_def] Inr)
qed

section \<open>Information and the second interface\<close>

lemma anchor_info_touches: 
  "touches cr m c (\<lambda>c. case management_get_anchor_info now n c of None \<Rightarrow> None | Some (c, info) \<Rightarrow> Some (c, Inr info))"
  by (rule touches_keep)
    (auto simp: management_get_anchor_info_def split: option.splits prod.splits dest: tentative_typed_get)

lemma get_anchor_info_guarded [judged]:
  "guarded cr now caller n c (get_anchor_info_method cr now caller n)"
  unfolding get_anchor_info_method_def [abs_def]
  by (intro guarded_bind guarded_trap record_activity_guarded anchor_info_touches)

lemma identity_info_guarded [judged]:
  "guarded cr now caller n c (identity_info_method cr now caller n)"
  unfolding identity_info_method_def [abs_def]
  by (intro guarded_bind record_activity_guarded touches_keep)
    (auto simp: management_get_anchor_info_def Let_def split: option.splits prod.splits dest: tentative_typed_get)

lemma read_device_aaguid: "reads c n = Some (Inr a) \<Longrightarrow> d \<in> set (a_devices a) \<Longrightarrow> aaguid_ok (dev_aaguid d)"
  by (auto simp: reads_def storage_read_def anchor_from_storable_def list_all_iff device_from_passkey_def
      device_from_recovery_key_def aaguid_ok_def split: sum.splits if_splits option.splits prod.splits)

lemma anchor_info_device:
  assumes "get_anchor_info_method cr now caller n c = Some (c', Inr info)"
    and "find P (map device_data_from (iai_devices info)) = Some d"
  shows "aaguid_ok (dev_aaguid d)"
proof -
  obtain c1 a where "c' = c1\<lparr>cn_tentative := cn_tentative c'\<rparr>" and rd: "reads c1 n = Some (Inr a)"
    and dv: "iai_devices info = a_devices a"
    using assms(1)
    by (fastforce simp: get_anchor_info_method_def management_get_anchor_info_def op_bind_Inr state_anchor_iff
        split: option.splits prod.splits)
  from assms(2) read_device_aaguid [OF rd] show ?thesis by (auto simp: dv dest!: find_SomeD)
qed

lemma guarded_lift: "guarded cr now caller n c f \<Longrightarrow> guarded cr now caller n c (\<lambda>c. lift_unit (f c))"
  unfolding lift_unit_def by (rule guarded_trap)

lemma authn_method_add_guarded [judged]:
  "guarded cr now caller n c (authn_method_add cr now caller n data)"
proof (cases "device_from_authn_method data")
  case (Inl e)
  then show ?thesis by (auto simp: authn_method_add_def guarded_def touches_def)
next
  case (Inr d)
  then have "guarded cr now caller n c (\<lambda>c. lift_unit (add_method cr now caller n (device_data_from d) c))"
    by (intro guarded_lift add_method_guarded) (simp add: device_from_authn_method_aaguid)
  then show ?thesis by (simp add: authn_method_add_def [abs_def] Inr)
qed

lemma authn_method_replace_guarded [judged]:
  "guarded cr now caller n c (authn_method_replace cr now caller n k data)"
proof (cases "device_from_authn_method data")
  case (Inl e)
  then show ?thesis by (auto simp: authn_method_replace_def guarded_def touches_def)
next
  case (Inr d)
  then have "guarded cr now caller n c (\<lambda>c. lift_unit (replace_method cr now caller n k (device_data_from d) c))"
    by (intro guarded_lift replace_method_guarded) (simp add: device_from_authn_method_aaguid)
  then show ?thesis by (simp add: authn_method_replace_def [abs_def] Inr)
qed

lemma lifted_update_touches:
  "aaguid_ok (dev_aaguid data) \<Longrightarrow> touches cr n c (\<lambda>c. lift_unit (update_method cr now caller n k data c))"
  by (rule guarded_touches [OF guarded_lift [OF update_method_guarded]])

lemma metadata_replace_guarded [judged]:
  "guarded cr now caller n c (authn_method_metadata_replace cr now caller n k md)"
  unfolding authn_method_metadata_replace_def [abs_def]
proof (rule guarded_bind, rule guarded_lift, rule get_anchor_info_guarded)
  fix info :: identity_anchor_info and c1 :: "'b canister"
  let ?find = "find (\<lambda>d. dev_pubkey d = k) (map device_data_from (iai_devices info))"
  show "touches cr n c1 (\<lambda>c. case ?find of
            None \<Rightarrow> Some (c, Inl AuthnMethodNotFound)
          | Some device \<Rightarrow>
              (case device_from_authn_method
                      ((authn_method_from_device (device_from_data device))\<lparr>amd_metadata := md\<rparr>) of
                 Inl e \<Rightarrow> Some (c, Inl (InvalidMetadata e))
               | Inr device \<Rightarrow> lift_unit (update_method cr now caller n k (device_data_from device) c)))"
    by (intro judged lifted_update_touches) (simp add: device_from_authn_method_aaguid)
qed

lemma security_settings_replace_guarded [judged]:
  "guarded cr now caller n c (authn_method_security_settings_replace cr now caller n k settings)"
  unfolding authn_method_security_settings_replace_def [abs_def]
proof (rule guarded_bind, rule guarded_lift, rule get_anchor_info_guarded)
  fix info :: identity_anchor_info and c1 :: "'b canister"
  let ?find = "find (\<lambda>d. dev_pubkey d = k) (map device_data_from (iai_devices info))"
  assume "lift_unit (get_anchor_info_method cr now caller n c) = Some (c1, Inr info)"
  then have "get_anchor_info_method cr now caller n c = Some (c1, Inr info)"
    by (auto simp: lift_unit_def trap_on_error_Some)
  from anchor_info_device [OF this]
  show "touches cr n c1 (\<lambda>c. case ?find of
            None \<Rightarrow> Some (c, Inl AuthnMethodNotFound)
          | Some device \<Rightarrow>
              lift_unit (update_method cr now caller n k
                (device\<lparr>dev_protection := protection_from_v2 (ams_protection settings),
                        dev_purpose := purpose_from_v2 (ams_purpose settings)\<rparr>) c))"
    by (intro judged lifted_update_touches) simp
qed

section \<open>Confirmation and the end of registration mode\<close>

lemma added_device_touches:
  assumes "keeps_identity_ok a a'" and "reads c n = Some (Inr a)"
  shows "touches cr n c (\<lambda>c. op_bind (op_map_err conv (write_anchor cr a' c))
     (\<lambda>_ c. case post_operation_bookkeeping cr now caller n operation c of
              None \<Rightarrow> None | Some c \<Rightarrow> Some (c\<lparr>cn_temp_keys := h c\<rparr>, Inr x)))"
proof (rule touches_bind, unfold touches_map_err)
  show "touches cr n c (write_anchor cr a')"
    using assms by (intro write_anchor_touches) (auto simp: keeps_identity_ok_def identities_ok_def reads_number)
qed (auto intro!: touches_keep dest!: post_operation_keeps split: option.splits)

lemma confirmed_device_touches:
  assumes conf: "confirm_tentative_device_or_session now n code (cn_tentative c) = (t, Inr (Some d))"
    and act: "activity_bookkeeping now a key (cn_activity c) = Some (b, activity)"
    and add: "management_add_device b d = Some (operation, a')"
    and a: "a_number a = n" "identities_ok cr c \<Longrightarrow> identity_ok a"
  shows "touches cr n c (\<lambda>c. op_bind (op_map_err ConfirmationStorageError
                 (write_anchor cr a' (c\<lparr>cn_tentative := t, cn_activity := activity\<rparr>)))
       (\<lambda>_ c. case post_operation_bookkeeping cr now caller n operation c of None \<Rightarrow> None | Some c \<Rightarrow> Some (c, Inr ())))"
proof (rule touches_bind, unfold touches_map_err)
  let ?c = "c\<lparr>cn_tentative := t, cn_activity := activity\<rparr>"
  note act' = activity_bookkeeping_identity [OF act]
  have num: "a_number a' = n"
    using add a(1) act'
    by (auto simp: management_add_device_def Let_def keeps_identity_ok_def add_device_Inr split: sum.splits)
  have "(\<forall>k. k \<noteq> n \<longrightarrow> reads c' k = reads c k) \<and> (identities_ok cr c \<longrightarrow> identities_ok cr c')
      \<and> registration_part c' = registration_part c"
    if w: "write_anchor cr a' ?c = Some (c', r)" for c' r
  proof (cases "tentative_typed (cn_tentative c)")
    case True
    have "keeps_identity_ok a a'"
      using tentative_typed_confirm(2) [OF conf True]
      by (blast intro: keeps_identity_ok_trans act' management_add_device_identity [OF add])
    moreover have ok: "identities_ok cr ?c = identities_ok cr c"
      using True tentative_typed_confirm(1) [OF conf] by (simp add: identities_ok_def reads_def)
    ultimately have "touches cr n ?c (write_anchor cr a')"
      using num a(2) by (intro write_anchor_touches) (simp_all add: keeps_identity_ok_def)
    from this [unfolded touches_def, rule_format, OF w] show ?thesis
      by (simp add: ok) (simp add: reads_def registration_part_def)
  next
    case False
    have "reads c' k = reads c k" if "k \<noteq> n" for k
      using w that num by (auto simp: write_anchor_def reads_def storage_read_after_write split: sum.splits)
    moreover have "registration_part c' = registration_part c"
      using w by (auto simp: write_anchor_def registration_part_def anchor_count_def storage_write_fields(1) split: sum.splits)
    ultimately show ?thesis using False by (simp add: identities_ok_def)
  qed
  then show "touches cr n c (\<lambda>c. write_anchor cr a' (c\<lparr>cn_tentative := t, cn_activity := activity\<rparr>))"
    by (simp add: touches_def)
qed (auto intro!: touches_keep dest!: post_operation_keeps split: option.splits)

lemma confirm_guarded [judged]: "guarded cr now caller n c (authn_method_confirm cr now caller n code)"
  unfolding authn_method_confirm_def [abs_def]
proof (rule guarded_bind, unfold guarded_map_err, rule check_authorization_guarded)
  fix x c1
  assume "op_map_err ConfirmationUnauthorized (check_authorization cr now caller n c) = Some (c1, Inr x)"
  then obtain a key where x: "x = (a, key)" and ck: "check_authorization cr now caller n c = Some (c1, Inr (a, key))"
    by (cases x) (auto simp: op_map_err_Inr)
  note a = check_authorization_Inr [OF ck]
  obtain t res where conf: "confirm_tentative_device_or_session now n code (cn_tentative c1) = (t, res)"
    by fastforce
  show "touches cr n c1 ((\<lambda>(anchor, key) c.
          case confirm_tentative_device_or_session now n code (cn_tentative c) of
            (tentative, Inl e) \<Rightarrow> Some (c\<lparr>cn_tentative := tentative\<rparr>, Inl (ConfirmationError e))
          | (tentative, Inr None) \<Rightarrow> Some (c\<lparr>cn_tentative := tentative\<rparr>, Inr ())
          | (tentative, Inr (Some confirmed_device)) \<Rightarrow>
              (case activity_bookkeeping now anchor key (cn_activity c) of
                 None \<Rightarrow> None
               | Some (anchor, activity) \<Rightarrow>
                   (case management_add_device anchor confirmed_device of
                      None \<Rightarrow> None
                    | Some (operation, anchor) \<Rightarrow>
                        op_bind (op_map_err ConfirmationStorageError
                                   (write_anchor cr anchor (c\<lparr>cn_tentative := tentative, cn_activity := activity\<rparr>)))
                          (\<lambda>_ c.
                             case post_operation_bookkeeping cr now caller n operation c of
                               None \<Rightarrow> None
                             | Some c \<Rightarrow> Some (c, Inr ()))))) x)"
  proof (cases "res = Inr None \<or> isl res")
    case True
    then show ?thesis
      unfolding x prod.case
      by (intro touches_keep) (cases res; auto simp: conf dest: tentative_typed_confirm(1) [OF conf])
  next
    case False
    then obtain d where res: "res = Inr (Some d)" by (cases res) auto
    from confirmed_device_touches [OF conf [unfolded res] _ _ a(4), of key _ _ _ _ cr caller] a(5,6)
    show ?thesis
      unfolding x prod.case
      by (auto simp: touches_def conf res split: option.splits prod.splits)
  qed
qed

lemma verify_tentative_device_guarded [judged]:
  "guarded cr now caller n c (verify_tentative_device cr now caller n code)"
proof -
  have like: "\<exists>r'. authn_method_confirm cr now caller n code c = Some (c', r') \<and> (isl r \<longleftrightarrow> isl r')"
    if "verify_tentative_device cr now caller n code c = Some (c', r)" for c' r
  proof (cases "authn_method_confirm cr now caller n code c")
    case None
    then show ?thesis using that by (simp add: verify_tentative_device_def)
  next
    case (Some p)
    obtain c1 q where p: "p = (c1, q)" by (cases p)
    show ?thesis
    proof (cases q)
      case (Inl e)
      then show ?thesis using that Some p by (cases e) (auto simp: verify_tentative_device_def)
    next
      case (Inr u)
      then show ?thesis using that Some p by (auto simp: verify_tentative_device_def)
    qed
  qed
  show ?thesis
    unfolding guarded_def
  proof (intro conjI allI impI touchesI)
    fix c' r
    assume "verify_tentative_device cr now caller n code c = Some (c', r)"
    from like [OF this] obtain r' where r: "authn_method_confirm cr now caller n code c = Some (c', r')" "isl r = isl r'"
      by blast
    note g = confirm_guarded [of cr now caller n c code, unfolded guarded_def touches_def, THEN conjunct1, rule_format, OF r(1)]
    from g show "reads c' k = reads c k" if "k \<noteq> n" for k using that by blast
    from g show "identities_ok cr c'" if "identities_ok cr c" using that by blast
    from g show "registration_part c' = registration_part c" by blast
    show "reads c' = reads c \<and> isl r \<or> authorized cr now caller n c"
      using confirm_guarded [of cr now caller n c code, unfolded guarded_def, THEN conjunct2, rule_format, OF r(1)]
      by (simp add: r(2))
  qed
qed

section \<open>Accounts and delegations\<close>

lemma post_operations_keep:
  "post_operations cr now caller n operations c = Some c' \<Longrightarrow>
   cn_identities c' = cn_identities c \<and> cn_tentative c' = cn_tentative c \<and> cn_flows c' = cn_flows c"
  by (induction operations arbitrary: c) (auto split: option.splits dest!: post_operation_keeps)

lemma account_operation_touches:
  assumes "\<And>s. op_keeps anchor_part (anchor_part s) (f s)"
  shows "touches cr m c (account_operation cr now caller n f)"
  by (rule touches_keep)
    (auto simp: account_operation_def split: option.splits sum.splits prod.splits dest!: post_operations_keep
      op_keepsD [OF assms, THEN anchor_part_identity])

lemma create_account_guarded [judged]:
  "guarded cr now caller n c (create_account_method cr now caller n origin name)"
  unfolding create_account_method_def [abs_def]
  by (rule guarded_bind, unfold guarded_map_err, rule check_authorization_guarded, rule touches_bind,
      unfold touches_map_err)
    (auto intro!: account_operation_touches create_account_for_origin_keeps judged)

lemma update_account_guarded [judged]:
  "guarded cr now caller n c (update_account_method cr now caller n origin k name)"
  unfolding update_account_method_def [abs_def]
  by (rule guarded_bind, unfold guarded_map_err, rule check_authorization_guarded, rule touches_bind,
      unfold touches_map_err)
    (auto intro!: account_operation_touches update_account_for_origin_keeps judged)

lemma prepare_delegation_start_guarded [judged]:
  "guarded cr now caller n c (prepare_delegation_start cr now caller n)"
  unfolding prepare_delegation_start_def [abs_def] by (rule record_activity_guarded)

lemma prepare_id_alias_start_guarded [judged]:
  "guarded cr now caller n c (prepare_id_alias_start cr now caller n)"
  unfolding prepare_id_alias_start_def [abs_def] guarded_map_err by (rule record_activity_guarded)

lemma prepare_delegation_finish_touches [judged]:
  "touches cr m c (prepare_delegation_finish cr now caller n origin k session_key max_ttl)"
  by (rule touches_keep)
    (auto simp: prepare_delegation_finish_def split: option.splits prod.splits
      intro!: anchor_part_identity dest!: prepare_account_delegation_keeps)

section \<open>Leaving registration mode\<close>

text \<open>The caller of the confirmed session may add one device, without any other authorization.\<close>

definition session_authorized :: "timestamp \<Rightarrow> principal \<Rightarrow> anchor_number \<Rightarrow> 'k canister \<Rightarrow> bool" where
  "session_authorized now caller n c \<longleftrightarrow> snd (get_confirmed_session now n (cn_tentative c)) = Some caller"

lemma add_device_of_session_touches:
  "touches cr n c (add_device_of_session cr now caller n authn_method session)"
proof -
  have "touches cr n c (\<lambda>c. op_bind (op_map_err ExitStorageError (write_anchor cr a' c))
          (\<lambda>_ c. case post_operation_bookkeeping cr now caller n operation c of
               None \<Rightarrow> None
             | Some c \<Rightarrow> Some (c\<lparr>cn_temp_keys := add_temp_key now k n session (cn_temp_keys c)\<rparr>, Inr ())))"
    if "device_from_authn_method authn_method = Inr d" "reads c n = Some (Inr a)"
      "management_add_device a (device_data_from d) = Some (operation, a')" for d a operation a' k
    using that
    by (intro added_device_touches) (auto intro!: management_add_device_identity device_from_authn_method_aaguid)
  then show ?thesis
    by (auto simp: touches_def add_device_of_session_def Let_def state_anchor_iff split: if_splits sum.splits option.splits)
qed

lemma authorized_cong:
  "cn_storage d = cn_storage c \<Longrightarrow> cn_temp_keys d = cn_temp_keys c \<Longrightarrow>
   authorized cr now caller n d = authorized cr now caller n c"
  by (simp only: authorized_def state_anchor_def)

lemma mode_exit_effect:
  assumes run: "authn_method_registration_mode_exit cr now caller n authn_method c = Some (c', r)"
  shows "k \<noteq> n \<Longrightarrow> reads c' k = reads c k" and "identities_ok cr c \<Longrightarrow> identities_ok cr c'"
    and "reads c' = reads c \<or> authorized cr now caller n c \<or> authn_method \<noteq> None \<and> session_authorized now caller n c"
    and "registration_part c' = registration_part c"
proof -
  obtain t p where conf: "get_confirmed_session now n (cn_tentative c) = (t, p)" by fastforce
  let ?c = "c\<lparr>cn_tentative := t\<rparr>"
  let ?finish = "\<lambda>_ c. Some (c\<lparr>cn_tentative := exit_device_registration_mode now n (cn_tentative c)\<rparr>, Inr ())"
  have start: "reads ?c = reads c" "authorized cr now caller n ?c = authorized cr now caller n c"
    "identities_ok cr c \<Longrightarrow> identities_ok cr ?c" "registration_part ?c = registration_part c"
    using tentative_typed_get(2) [OF conf]
    by (auto simp: reads_def identities_ok_def registration_part_def authorized_cong [of "c\<lparr>cn_tentative := t\<rparr>" c])
  have fin: "touches cr n d (?finish x)" for d x by (rule touches_tentative) (auto dest: tentative_typed_exit)
  have "(k \<noteq> n \<longrightarrow> reads c' k = reads c k) \<and> (identities_ok cr c \<longrightarrow> identities_ok cr c')
    \<and> (reads c' = reads c \<or> authorized cr now caller n c \<or> authn_method \<noteq> None \<and> session_authorized now caller n c)
    \<and> registration_part c' = registration_part c"
  proof (cases "authn_method = None \<or> p = None")
    case True
    have g: "guarded cr now caller n ?c (\<lambda>c. op_bind (op_bind (op_map_err ExitUpdateError
        (check_authz_and_record_activity cr now caller n c)) (\<lambda>_ c. Some (c, Inr ()))) ?finish)"
      by (intro guarded_bind fin judged, unfold guarded_map_err, rule record_activity_guarded)
    have "op_bind (op_bind (op_map_err ExitUpdateError
        (check_authz_and_record_activity cr now caller n ?c)) (\<lambda>_ c. Some (c, Inr ()))) ?finish = Some (c', r)"
      using run True by (auto simp: authn_method_registration_mode_exit_def conf Let_def split: option.splits)
    with g start show ?thesis unfolding guarded_def touches_def by fastforce
  next
    case False
    then obtain m q where m: "authn_method = Some m" "p = Some q" by auto
    have t: "touches cr n ?c (\<lambda>c. op_bind (add_device_of_session cr now caller n m q c) ?finish)"
      by (intro touches_bind add_device_of_session_touches fin)
    have run': "op_bind (add_device_of_session cr now caller n m q ?c) ?finish = Some (c', r)"
      using run m by (simp add: authn_method_registration_mode_exit_def conf Let_def)
    have "reads c' = reads c" if "q \<noteq> caller"
      using run' that start by (auto simp: add_device_of_session_def op_bind_def reads_def)
    with t run' start show ?thesis
      unfolding touches_def by (auto simp: session_authorized_def conf m)
  qed
  then show "k \<noteq> n \<Longrightarrow> reads c' k = reads c k" and "identities_ok cr c \<Longrightarrow> identities_ok cr c'"
    and "reads c' = reads c \<or> authorized cr now caller n c \<or> authn_method \<noteq> None \<and> session_authorized now caller n c"
    and "registration_part c' = registration_part c"
    by blast+
qed

section \<open>Sign-in with a token\<close>

lemma openid_prepare_effect:
  assumes run: "openid_prepare_delegation cr now caller jwt salt c = Some (c', r)"
  shows "identities_ok cr c \<Longrightarrow> identities_ok cr c'" and "registration_part c' = registration_part c"
    and "reads c' k = reads c k
      \<or> (\<exists>cred a a'. verify_jwt (cr_jose cr) (cn_openid c) now caller jwt salt = Inr cred
          \<and> reads c k = Some (Inr a) \<and> update_openid_credential a cred = Inr a'
          \<and> reads c' k = map_option Inr (anchor_from_storable k (snd (anchor_to_storable a'))))"
proof -
  have "(identities_ok cr c \<longrightarrow> identities_ok cr c') \<and> registration_part c' = registration_part c \<and> (reads c' k = reads c k
      \<or> (\<exists>cred a a'. verify_jwt (cr_jose cr) (cn_openid c) now caller jwt salt = Inr cred
          \<and> reads c k = Some (Inr a) \<and> update_openid_credential a cred = Inr a'
          \<and> reads c' k = map_option Inr (anchor_from_storable k (snd (anchor_to_storable a')))))"
  proof (cases "c' = c")
    case False
    then obtain cred n a a' s where v: "verify_jwt (cr_jose cr) (cn_openid c) now caller jwt salt = Inr cred"
      and a: "reads c n = Some (Inr a)" and up: "update_openid_credential a cred = Inr a'"
      and w: "write_anchor cr a' c = Some (c', Inr ())"
      and s: "storage_write (cr_sa cr) (cn_storage c) a' = Inr s" "c' = c\<lparr>cn_storage := s\<rparr>"
      using run
      by (auto simp: openid_prepare_delegation_def state_anchor_iff op_bind_def op_map_err_def write_anchor_def
          split: sum.splits option.splits)
    have kept: "keeps_identity_ok a a'" by (rule update_openid_credential_identity) fact
    then have num: "a_number a' = n" using reads_number [OF a] by (simp add: keeps_identity_ok_def)
    have "touches cr n c (write_anchor cr a')"
      using kept num a by (intro write_anchor_touches) (auto simp: keeps_identity_ok_def identities_ok_def)
    then have "identities_ok cr c \<longrightarrow> identities_ok cr c'" "registration_part c' = registration_part c"
      using w unfolding touches_def by blast+
    moreover have "reads c' k = (if k = n then map_option Inr (anchor_from_storable n (snd (anchor_to_storable a'))) else reads c k)"
      using a num by (simp add: s(2) reads_def storage_read_after_write [OF s(1)])
    ultimately show ?thesis using v a up by auto
  qed simp
  then show "identities_ok cr c \<Longrightarrow> identities_ok cr c'" and "registration_part c' = registration_part c"
    and "reads c' k = reads c k
      \<or> (\<exists>cred a a'. verify_jwt (cr_jose cr) (cn_openid c) now caller jwt salt = Inr cred
          \<and> reads c k = Some (Inr a) \<and> update_openid_credential a cred = Inr a'
          \<and> reads c' k = map_option Inr (anchor_from_storable k (snd (anchor_to_storable a'))))"
    by blast+
qed

end
