(* ===== verification/Registration_Effects.thy ===== *)
theory Registration_Effects
  imports Guarded_Methods
begin

text \<open>
  What the creation of an identity changes: one more identity can be read, which satisfies the
  limits, and every other one reads as before. A refused creation changes no identity.
\<close>

section \<open>Allocation\<close>

definition created :: "'k canister \<Rightarrow> 'k canister \<Rightarrow> anchor_number \<Rightarrow> bool" where
  "created c c' n \<longleftrightarrow>
     reads c n = Some (Inl (BadAnchorNumber n)) \<and> (\<exists>a. reads c' n = Some (Inr a))
     \<and> (\<forall>m. m \<noteq> n \<longrightarrow> reads c' m = reads c m)
     \<and> anchor_count (cn_storage c') = anchor_count (cn_storage c) + 1"

definition unchanged :: "'k canister \<Rightarrow> 'k canister \<Rightarrow> bool" where
  "unchanged c c' \<longleftrightarrow> reads c' = reads c \<and> anchor_count (cn_storage c') = anchor_count (cn_storage c)"

lemma unchangedI: "cn_identities c' = cn_identities c \<Longrightarrow> unchanged c c'"
  using reads_cong [of c' c] by (simp add: unchanged_def anchor_count_def identity_part_def)

lemma created_cong:
  "created c c' n \<Longrightarrow> cn_identities d = cn_identities c' \<Longrightarrow> created c d n"
  using unchangedI [of d c'] by (simp add: created_def unchanged_def)

lemma allocate_anchor_safe_cong:
  "(\<And>n. f (anchor_new n now) = g (anchor_new n now)) \<Longrightarrow>
   allocate_anchor_safe sa conv s now f = allocate_anchor_safe sa conv s now g"
  by (simp add: allocate_anchor_safe_def Let_def)

text \<open>Only the fresh anchor matters: outside it the callback may be taken to fail.\<close>

lemma allocate_identity:
  assumes run: "allocate_anchor_safe (cr_sa cr) conv (cn_storage c) now f = (s, r)"
    and ok: "identities_ok cr c"
    and f: "\<And>n x a. f (anchor_new n now) = Inr (x, a) \<Longrightarrow> keeps_identity_ok (anchor_new n now) a"
  shows "case r of
      Inl e \<Rightarrow> s = cn_storage c
    | Inr x \<Rightarrow> \<exists>n a. f (anchor_new n now) = Inr (x, a) \<and> created c (c\<lparr>cn_storage := s\<rparr>) n
        \<and> identities_ok cr (c\<lparr>cn_storage := s\<rparr>)"
proof -
  let ?f = "\<lambda>a. if \<exists>n. a = anchor_new n now then f a else Inl (conv (BadAnchorNumber 0))"
  have run': "allocate_anchor_safe (cr_sa cr) conv (cn_storage c) now ?f = (s, r)"
    using run by (subst allocate_anchor_safe_cong [of _ _ f]) auto
  have sto: "storage_ok (cr_sa cr) (cn_storage c)" using ok by (simp add: identities_ok_def)
  have call: "callback_ok ?f"
    using f by (auto simp: callback_ok_def keeps_identity_ok_def intro: identity_ok_aaguids split: if_splits)
  note atomic = allocate_anchor_safe_atomic [OF run' sto call]
  note sto' = allocate_anchor_safe_ok [OF run' sto call]
  show ?thesis
  proof (cases r)
    case (Inl e)
    with atomic show ?thesis by simp
  next
    case (Inr x)
    with atomic obtain n a where a: "?f (anchor_new n now) = Inr (x, a)"
      "storage_read (cn_storage c) n = Some (Inl (BadAnchorNumber n))"
      "storage_read s n = Some (Inr (anchor_after_storage a))" "anchor_count s = anchor_count (cn_storage c) + 1"
      "\<forall>m. m \<noteq> n \<longrightarrow> storage_read s m = storage_read (cn_storage c) m" by auto
    then have fa: "f (anchor_new n now) = Inr (x, a)" by (auto split: if_splits)
    have "identity_ok a" using f [OF fa] by (simp add: keeps_identity_ok_def)
    then have "identity_ok b" if "storage_read s m = Some (Inr b)" for m b
      using that a(3,5) ok identity_ok_after_storage
      by (cases "m = n") (auto simp: identities_ok_def reads_def)
    then have "identities_ok cr (c\<lparr>cn_storage := s\<rparr>)"
      using ok sto' by (simp add: identities_ok_def reads_def)
    moreover have "created c (c\<lparr>cn_storage := s\<rparr>) n" using a by (simp add: created_def reads_def)
    ultimately show ?thesis using fa Inr by auto
  qed
qed

section \<open>The registration flow\<close>

lemma identity_with_method_identity:
  "identity_with_method a arg = Inr (key, operation, a') \<Longrightarrow> keeps_identity_ok a a'"
  by (auto simp: identity_with_method_def Let_def add_openid_credential_skip_checks_def device_from_data_def
      device_data.defs device_data_from_def device_from_authn_method_aaguid
      split: validated_create_identity_data.splits sum.splits
      intro: add_openid_credential_identity elim!: add_device_identity)

lemma apply_identity_data_identity:
  assumes "apply_identity_data now activity arg a = Inr (x, a')"
  shows "keeps_identity_ok a a'"
proof -
  obtain b key operation d activity' where "management_set_name a (validated_name arg) = Inr b"
    "identity_with_method (snd b) arg = Inr (key, operation, d)"
    "activity_bookkeeping now d key activity = Some (a', activity')"
    using assms by (auto simp: apply_identity_data_def split: sum.splits option.splits)
  then show ?thesis
    by (cases b) (auto intro: keeps_identity_ok_trans [OF management_set_name_identity
          keeps_identity_ok_trans [OF identity_with_method_identity activity_bookkeeping_identity]])
qed

lemma create_identity_effect:
  assumes run: "create_identity cr now caller arg c = Some (c', r)" and ok: "identities_ok cr c"
  shows "identities_ok cr c'" and "cn_flows c' = cn_flows c"
    and "case r of Inl e \<Rightarrow> unchanged c c' | Inr n \<Rightarrow> created c c' n"
proof -
  have "identities_ok cr c' \<and> cn_flows c' = cn_flows c
    \<and> (case r of Inl e \<Rightarrow> unchanged c c' | Inr n \<Rightarrow> created c c' n)"
  proof (cases "passkey_taken (cr_sa cr) (cn_storage c) (registration_passkey arg)
      \<or> isl (validate_identity_data cr now caller (cn_openid c) (cn_storage c) arg)")
    case True
    then have "c' = c" "isl r" using run by (auto simp: create_identity_def split: if_splits sum.splits)
    then show ?thesis using ok by (cases r) (auto intro: unchangedI)
  next
    case False
    then obtain data where data: "validate_identity_data cr now caller (cn_openid c) (cn_storage c) arg = Inr data"
      by (cases "validate_identity_data cr now caller (cn_openid c) (cn_storage c) arg") auto
    let ?f = "\<lambda>identity. case apply_identity_data now (cn_activity c) data identity of
                Inl e \<Rightarrow> Inl e | Inr (r, identity) \<Rightarrow> Inr ((a_number identity, r), identity)"
    obtain s q where alloc: "allocate_anchor_safe (cr_sa cr) (\<lambda>_. Some RegistrationStorageError) (cn_storage c) now ?f = (s, q)"
      by fastforce
    have kept: "keeps_identity_ok (anchor_new n now) a" if "?f (anchor_new n now) = Inr (x, a)" for n x a
      using that by (auto split: sum.splits prod.splits intro: apply_identity_data_identity)
    have eff: "case q of Inl e \<Rightarrow> s = cn_storage c
      | Inr x \<Rightarrow> \<exists>n a. ?f (anchor_new n now) = Inr (x, a) \<and> created c (c\<lparr>cn_storage := s\<rparr>) n
          \<and> identities_ok cr (c\<lparr>cn_storage := s\<rparr>)"
      by (rule allocate_identity [OF alloc ok]) (rule kept)
    show ?thesis
    proof (cases q)
      case (Inl e)
      then show ?thesis
        using run False eff ok
        by (auto simp: create_identity_def data alloc split: option.splits intro!: unchangedI)
    next
      case (Inr x)
      obtain n operation activity where x: "x = (n, operation, activity)" by (cases x)
      from eff Inr obtain m a where a: "?f (anchor_new m now) = Inr (x, a)"
        and cre: "created c (c\<lparr>cn_storage := s\<rparr>) m" and ok': "identities_ok cr (c\<lparr>cn_storage := s\<rparr>)" by auto
      have "n = m" using a kept [OF a] by (auto simp: x keeps_identity_ok_def anchor_new_def split: sum.splits prod.splits)
      obtain rates where run': "post_operation_bookkeeping cr now caller n operation
          (c\<lparr>cn_storage := s, cn_activity := activity, cn_rates := rates\<rparr>) = Some c'" and r: "r = Inr n"
        using run False by (auto simp: create_identity_def data alloc Inr x split: option.splits)
      note po = post_operation_keeps [OF run'] post_operation_fields [OF run']
      show ?thesis
        using created_cong [OF cre, of c'] identities_ok_cong [OF ok', of c'] po ok \<open>n = m\<close>
        by (simp add: r identities_ok_def)
    qed
  qed
  then show "identities_ok cr c'" and "cn_flows c' = cn_flows c"
    and "case r of Inl e \<Rightarrow> unchanged c c' | Inr n \<Rightarrow> created c c' n" by blast+
qed

lemma registration_finish_effect:
  assumes run: "identity_registration_finish cr now caller arg c = Some (c', r)" and ok: "identities_ok cr c"
  shows "identities_ok cr c'" and "case r of Inl e \<Rightarrow> unchanged c c' | Inr n \<Rightarrow> created c c' n"
    and "case r of Inl e \<Rightarrow> cn_flows c' = cn_flows c
           | Inr n \<Rightarrow> (\<exists>t. lookup_registration_flow now caller (cn_flows c) = Some (FinishRegistrationFlow t))
               \<and> cn_flows c' = remove_registration_flow now caller (cn_flows c)"
proof -
  have "identities_ok cr c' \<and> (case r of Inl e \<Rightarrow> unchanged c c' | Inr n \<Rightarrow> created c c' n)
    \<and> (case r of Inl e \<Rightarrow> cn_flows c' = cn_flows c
           | Inr n \<Rightarrow> (\<exists>t. lookup_registration_flow now caller (cn_flows c) = Some (FinishRegistrationFlow t))
               \<and> cn_flows c' = remove_registration_flow now caller (cn_flows c))"
  proof (cases "\<exists>t. lookup_registration_flow now caller (cn_flows c) = Some (FinishRegistrationFlow t)")
    case False
    then have "c' = c" "isl r"
      using run by (auto simp: identity_registration_finish_def split: option.splits registration_flow_state.splits)
    then show ?thesis using ok by (cases r) (auto intro: unchangedI)
  next
    case True
    then obtain t where fl: "lookup_registration_flow now caller (cn_flows c) = Some (FinishRegistrationFlow t)" by blast
    from run consider e where "create_identity cr now caller arg c = Some (c', Inl e)" "r = Inl e"
      | n d keys where "create_identity cr now caller arg c = Some (d, Inr n)" "r = Inr n"
        "c' = d\<lparr>cn_flows := remove_registration_flow now caller (cn_flows d), cn_temp_keys := keys\<rparr>"
      by (auto simp: identity_registration_finish_def fl op_bind_Some)
    then show ?thesis
    proof cases
      case 1
      from create_identity_effect [OF 1(1) ok] show ?thesis by (simp add: 1(2))
    next
      case 2
      from create_identity_effect [OF 2(1) ok] have d: "identities_ok cr d" "cn_flows d = cn_flows c" "created c d n"
        by simp_all
      have "identities_ok cr c'" using d(1) by (simp add: 2(3) identities_ok_def reads_def)
      moreover have "created c c' n" using d(3) by (rule created_cong) (simp add: 2(3))
      ultimately show ?thesis using d(2) True by (simp add: 2)
    qed
  qed
  then show "identities_ok cr c'" and "case r of Inl e \<Rightarrow> unchanged c c' | Inr n \<Rightarrow> created c c' n"
    and "case r of Inl e \<Rightarrow> cn_flows c' = cn_flows c
           | Inr n \<Rightarrow> (\<exists>t. lookup_registration_flow now caller (cn_flows c) = Some (FinishRegistrationFlow t))
               \<and> cn_flows c' = remove_registration_flow now caller (cn_flows c)"
    by blast+
qed

lemma openid_registration_finish_cases:
  assumes "openid_identity_registration_finish cr now caller jwt salt name c = Some (c', r)"
  obtains "c' = c" "isl r"
  | "identity_registration_finish cr now caller (OpenIdRegistration jwt salt name) c = Some (c', r)"
  using assms by (auto simp: openid_identity_registration_finish_def split: sum.splits)

section \<open>The legacy registration\<close>

text \<open>The number is taken first and the anchor written to it afterwards.\<close>

lemma bump_write_created:
  fixes c :: "'k canister"
  defines "n \<equiv> h_id_range_lo (st_header (cn_storage c)) + ucast (h_num_anchors (st_header (cn_storage c)))"
  assumes ok: "identities_ok cr c"
    and lt: "unat (h_id_range_lo (st_header (cn_storage c))) + unat (h_num_anchors (st_header (cn_storage c)))
      < unat (h_id_range_hi (st_header (cn_storage c)))"
    and w: "storage_write (cr_sa cr) (bump_num_anchors (cn_storage c)) a = Inr s'"
    and a: "a_number a = n" "identity_ok a"
  shows "created c (c\<lparr>cn_storage := s'\<rparr>) n" and "identities_ok cr (c\<lparr>cn_storage := s'\<rparr>)"
proof -
  let ?old = "cn_storage c" and ?new = "bump_num_anchors (cn_storage c)"
  have sto: "storage_ok (cr_sa cr) ?old" using ok by (simp add: identities_ok_def)
  then have rng: "range_ok ?old" by (simp add: storage_ok_def header_ok_def)
  have rec: "anchor_number_to_record_number ?old n = Inr (h_num_anchors (st_header ?old))"
    using rng lt by (simp add: n_def record_number_Inr next_anchor_number_exact)
  have unread: "storage_read ?old n = Some (Inl (BadAnchorNumber n))" by (simp add: storage_read_def rec)
  have count: "anchor_count ?new = anchor_count ?old + 1"
    using unat_num_anchors_succ [OF rng lt] by (simp add: anchor_count_def bump_num_anchors_def)
  have rec1: "anchor_number_to_record_number ?new n = Inr (h_num_anchors (st_header ?old))"
    using rec by (subst record_number_cong [of ?new ?old]) (simp_all add: bump_num_anchors_def)
  have "\<not> h_num_anchors (st_header ?new) \<le> h_num_anchors (st_header ?old)"
    using count by (simp add: anchor_count_def word_le_nat_alt)
  then have live: "storage_read ?new n \<noteq> Some (Inl (BadAnchorNumber n))"
    by (auto simp: storage_read_def rec1 split: option.splits)
  note rd = storage_read_after_write [OF w]
  have others: "storage_read ?new m = storage_read ?old m" if "m \<noteq> n" for m
    using storage_read_bump [OF rng lt] that by (simp add: n_def)
  have new: "storage_read s' n = Some (Inr (anchor_after_storage a))"
    using live anchor_round_trip [OF identity_ok_aaguids [OF a(2)]] by (simp add: rd a(1))
  show "created c (c\<lparr>cn_storage := s'\<rparr>) n"
    using unread new count others
    by (auto simp: created_def reads_def rd a(1) anchor_count_def storage_write_fields(1) [OF w])
  from storage_write_ok [OF w bump_num_anchors_ok [OF sto lt] identity_ok_aaguids [OF a(2)]]
  show "identities_ok cr (c\<lparr>cn_storage := s'\<rparr>)"
    using ok new others identity_ok_after_storage [OF a(2)]
    by (auto simp: identities_ok_def reads_def rd a(1) split: if_splits)
qed

lemma register_device_effect:
  assumes run: "register_device cr now caller data temp_key c = Some (c', r)" and ok: "identities_ok cr c"
    and typed: "aaguid_ok (dev_aaguid data)"
  shows "identities_ok cr c'" and "cn_flows c' = cn_flows c"
    and "case r of Registered n \<Rightarrow> created c c' n | _ \<Rightarrow> unchanged c c'"
proof -
  have rng: "range_ok (cn_storage c)" using ok by (simp add: identities_ok_def storage_ok_def header_ok_def)
  obtain s q where alloc: "allocate_anchor (cn_storage c) now = (s, q)" by fastforce
  have "identities_ok cr c' \<and> cn_flows c' = cn_flows c \<and> (case r of Registered n \<Rightarrow> created c c' n | _ \<Rightarrow> unchanged c c')"
    using alloc rng
  proof (cases rule: allocate_anchor_cases)
    case 1
    then have "c' = c" "r = CanisterFull"
      using run alloc by (auto simp: register_device_def Let_def split: if_splits)
    then show ?thesis using ok by (auto intro: unchangedI)
  next
    case 2
    let ?s0 = "cn_storage c"
    let ?n = "h_id_range_lo (st_header ?s0) + ucast (h_num_anchors (st_header ?s0))"
    note run' = run [unfolded register_device_def Let_def alloc 2 prod.case option.case]
    obtain a where add: "add_device (anchor_new ?n now) (device_from_data data) = Inr a"
      using run' by (cases "add_device (anchor_new ?n now) (device_from_data data)") (auto split: if_splits)
    obtain a' activity where
      act: "activity_bookkeeping now a (DeviceKey (dev_pubkey (device_from_data data))) (cn_activity c) = Some (a', activity)"
      using run' by (cases "activity_bookkeeping now a (DeviceKey (dev_pubkey (device_from_data data))) (cn_activity c)")
        (auto simp: add split: if_splits)
    obtain s' where w: "storage_write (cr_sa cr) s a' = Inr s'"
      using run' by (cases "storage_write (cr_sa cr) s a'") (auto simp: add act 2 split: if_splits)
    define d where "d = c\<lparr>cn_storage := s', cn_activity := activity,
        cn_rates := new_registration now (cn_captcha_config c) (cn_rates c),
        cn_temp_keys := (case temp_key of
            Some k \<Rightarrow> add_temp_key now (dev_pubkey (device_from_data data)) (a_number a') k (cn_temp_keys c)
          | None \<Rightarrow> cn_temp_keys c)\<rparr>"
    have d: "cn_storage d = s'" "cn_tentative d = cn_tentative c" "cn_flows d = cn_flows c" by (simp_all add: d_def)
    have post: "post_operation_bookkeeping cr now caller (a_number a') (RegisterAnchor (device_without_alias (device_from_data data)))
          d = Some c'" and r: "r = Registered (a_number a')"
      using run' w by (auto simp: add act 2 d_def [symmetric] split: if_splits option.splits)
    have "keeps_identity_ok (anchor_new ?n now) a"
      using add typed by (auto simp: device_from_data_def device_data.defs elim!: add_device_identity)
    from keeps_identity_ok_trans [OF this activity_bookkeeping_identity [OF act]]
    have a': "a_number a' = ?n" "identity_ok a'" by (simp_all add: keeps_identity_ok_def)
    note cre = bump_write_created(1) [OF ok 2(3) w [unfolded 2(1)] a']
    note ok2 = bump_write_created(2) [OF ok 2(3) w [unfolded 2(1)] a']
    show ?thesis
      using post_operation_keeps [OF post] post_operation_fields [OF post] ok
        created_cong [OF cre, of c'] identities_ok_cong [OF ok2, of c']
      by (simp add: r a'(1) d identities_ok_def)
  qed
  then show "identities_ok cr c'" and "cn_flows c' = cn_flows c"
    and "case r of Registered n \<Rightarrow> created c c' n | _ \<Rightarrow> unchanged c c'" by blast+
qed

lemma register_effect:
  assumes run: "register cr now caller data key chars temp_key c = Some (c', r)" and ok: "identities_ok cr c"
    and typed: "aaguid_ok (dev_aaguid data)"
  shows "identities_ok cr c'" and "cn_flows c' = cn_flows c"
    and "case r of Registered n \<Rightarrow> created c c' n | _ \<Rightarrow> unchanged c c'"
proof -
  obtain d where d: "cn_storage d = cn_storage c" "cn_flows d = cn_flows c" "cn_tentative d = cn_tentative c"
    and "(c', r) = (d, BadChallenge) \<or> register_device cr now caller data temp_key d = Some (c', r)"
  proof -
    from run obtain rl where rl: "process_rate_limit now (cn_rate_limit_config c) (cn_rate_limit c) = Some (rl, True)"
      by (auto simp: register_def split: option.splits bool.splits)
    let ?c = "c\<lparr>cn_rate_limit := Some rl\<rparr>"
    obtain ch solved where ch: "check_challenge now key chars (cn_challenges c) = (ch, solved)" by fastforce
    show thesis
    proof (cases "captcha_required (cn_captcha_config c) (cn_rates c)")
      case True
      then show thesis using run by (intro that [of "?c\<lparr>cn_challenges := ch\<rparr>"])
          (auto simp: register_def rl ch Let_def split: bool.splits)
    next
      case False
      then show thesis using run by (intro that [of ?c]) (auto simp: register_def rl Let_def)
    qed
  qed
  then consider "c' = d" "r = BadChallenge" | "register_device cr now caller data temp_key d = Some (c', r)" by blast
  then have "identities_ok cr c' \<and> cn_flows c' = cn_flows c \<and> (case r of Registered n \<Rightarrow> created c c' n | _ \<Rightarrow> unchanged c c')"
  proof cases
    case 1
    then show ?thesis using ok d by (auto simp: identities_ok_def reads_def intro!: unchangedI)
  next
    case 2
    have okd: "identities_ok cr d" using ok d by (simp add: identities_ok_def reads_def)
    from register_device_effect [OF 2 okd typed] d show ?thesis
      by (auto simp: created_def unchanged_def reads_def split: register_response.splits)
  qed
  then show "identities_ok cr c'" and "cn_flows c' = cn_flows c"
    and "case r of Registered n \<Rightarrow> created c c' n | _ \<Rightarrow> unchanged c c'" by blast+
qed

end
