(* ===== verification/Attributes.thy ===== *)
theory Attributes
  imports Openid "HOL-Library.Option_ord" "HOL-Library.Product_Lexorder"
begin

text \<open>
  The types of the attribute-sharing interface (\<open>internet_identity_interface/.../attributes.rs\<close>):
  scoped attribute keys with their textual form, and the validation of requests. A Rust struct that
  derives its order (\<open>AttributeKey\<close>, \<open>Attribute\<close>) is a tuple here, ordered lexicographically.
  The problems of a refused request are values of a datatype, in the order the code collects them;
  their texts are left out.
\<close>

section \<open>Strings\<close>

definition strip_prefix :: "string \<Rightarrow> string \<Rightarrow> string option" where
  "strip_prefix p s = (if take (length p) s = p then Some (drop (length p) s) else None)"

definition strip_suffix :: "string \<Rightarrow> string \<Rightarrow> string option" where
  "strip_suffix p s =
     (if length p \<le> length s \<and> drop (length s - length p) s = p
      then Some (take (length s - length p) s) else None)"

text \<open>\<open>rsplitn(2, c)\<close>: what precedes and what follows the last \<open>c\<close>.\<close>

definition rsplit_at :: "char \<Rightarrow> string \<Rightarrow> (string \<times> string) option" where
  "rsplit_at c s = map_option (\<lambda>(u, rest). (rev rest, rev u)) (split_at c (rev s))"

fun str_contains :: "string \<Rightarrow> string \<Rightarrow> bool" where
  "str_contains pat [] \<longleftrightarrow> pat = []"
| "str_contains pat (c # cs) \<longleftrightarrow> take (length pat) (c # cs) = pat \<or> str_contains pat cs"

text \<open>
  The characters of \<open>char::is_whitespace\<close> in UTF-8; in a valid string a multi-byte sequence matches
  only where the character stands.
\<close>

definition whitespace_sequences :: "string list" where
  "whitespace_sequences =
     map (map char_of)
       ([[9], [10], [11], [12], [13], [32], [0xC2, 0x85], [0xC2, 0xA0], [0xE1, 0x9A, 0x80]]
        @ map (\<lambda>b. [0xE2, 0x80, b]) ([0x80 ..< 0x8B] @ [0xA8, 0xA9, 0xAF])
        @ [[0xE2, 0x81, 0x9F], [0xE3, 0x80, 0x80 :: nat]])"

definition has_whitespace :: "string \<Rightarrow> bool" where
  "has_whitespace s \<longleftrightarrow> list_ex (\<lambda>w. str_contains w s) whitespace_sequences"

text \<open>A byte index is a character boundary unless it points at a continuation byte.\<close>

definition is_char_boundary :: "string \<Rightarrow> nat \<Rightarrow> bool" where
  "is_char_boundary s i \<longleftrightarrow>
     i = 0 \<or> i = length s \<or> i < length s \<and> \<not> (0x80 \<le> (of_char (s ! i) :: nat) \<and> (of_char (s ! i) :: nat) < 0xC0)"

fun boundary_before :: "string \<Rightarrow> nat \<Rightarrow> nat" where
  "boundary_before s 0 = 0"
| "boundary_before s (Suc i) = (if is_char_boundary s (Suc i) then Suc i else boundary_before s i)"

definition ellipsized :: "string \<Rightarrow> nat \<Rightarrow> string" where
  "ellipsized s max_bytes =
     (if length s \<le> max_bytes then s
      else if max_bytes \<le> 3 then replicate max_bytes CHR ''.''
      else take (boundary_before s (max_bytes - 3)) s @ ''...'')"

section \<open>Constants\<close>

definition FRONTEND_HOSTNAME_MAX_BYTES :: nat where "FRONTEND_HOSTNAME_MAX_BYTES = 255"
definition MAX_ATTRIBUTES_PER_REQUEST :: nat where "MAX_ATTRIBUTES_PER_REQUEST = 100"
definition ATTRIBUTE_VALUE_MAX_BYTES :: nat where "ATTRIBUTE_VALUE_MAX_BYTES = 50000"
definition OPENID_ISSUER_MAX_BYTES :: nat where "OPENID_ISSUER_MAX_BYTES = 1024"
definition SSO_DOMAIN_MAX_BYTES :: nat where "SSO_DOMAIN_MAX_BYTES = 253"
definition ATTRIBUTE_NAME_MAX_BYTES :: nat where "ATTRIBUTE_NAME_MAX_BYTES = length ''VerifiedEmail''"
definition OPENID_ATTRIBUTE_KEY_OVERHEAD_BYTES :: nat where
  "OPENID_ATTRIBUTE_KEY_OVERHEAD_BYTES = length ''openid:'' + 1 + ATTRIBUTE_NAME_MAX_BYTES"
definition ICRC3_ATTRIBUTE_KEY_MAX_BYTES :: nat where
  "ICRC3_ATTRIBUTE_KEY_MAX_BYTES = OPENID_ISSUER_MAX_BYTES + OPENID_ATTRIBUTE_KEY_OVERHEAD_BYTES"
definition ICRC3_ATTRIBUTE_CANDID_OVERHEAD_BYTES :: nat where "ICRC3_ATTRIBUTE_CANDID_OVERHEAD_BYTES = 128"
definition ICRC3_MESSAGE_CANDID_OVERHEAD_BYTES :: nat where "ICRC3_MESSAGE_CANDID_OVERHEAD_BYTES = 1024"
definition ICRC3_MESSAGE_MAX_BYTES :: nat where
  "ICRC3_MESSAGE_MAX_BYTES =
     ICRC3_MESSAGE_CANDID_OVERHEAD_BYTES
     + MAX_ATTRIBUTES_PER_REQUEST
       * (ICRC3_ATTRIBUTE_KEY_MAX_BYTES + ATTRIBUTE_VALUE_MAX_BYTES + ICRC3_ATTRIBUTE_CANDID_OVERHEAD_BYTES)"
definition ICRC3_NONCE_BYTES :: nat where "ICRC3_NONCE_BYTES = 32"

section \<open>Origins\<close>

definition ascii_word_char :: "char \<Rightarrow> bool" where
  "ascii_word_char c \<longleftrightarrow>
     CHR ''0'' \<le> c \<and> c \<le> CHR ''9'' \<or> CHR ''A'' \<le> c \<and> c \<le> CHR ''Z'' \<or> CHR ''a'' \<le> c \<and> c \<le> CHR ''z''
     \<or> c = CHR ''_'' \<or> c = CHR ''-''"

definition remap_to_legacy_domain :: "string \<Rightarrow> string" where
  "remap_to_legacy_domain origin =
     (case strip_prefix ''https://'' origin of
        None \<Rightarrow> origin
      | Some rest \<Rightarrow>
          (case strip_suffix ''.icp0.io'' rest of
             None \<Rightarrow> origin
           | Some subdomain \<Rightarrow>
               (let base = (case strip_suffix ''.raw'' subdomain of Some b \<Rightarrow> b | None \<Rightarrow> subdomain) in
                if \<not> (base \<noteq> [] \<and> list_all ascii_word_char base) then origin
                else ''https://'' @ subdomain @ ''.ic0.app'')))"

section \<open>Attribute keys\<close>

datatype attribute_name = EmailAttribute | NameAttribute | VerifiedEmailAttribute

definition attribute_names :: "attribute_name list" where
  "attribute_names = [EmailAttribute, NameAttribute, VerifiedEmailAttribute]"

definition attribute_name_from :: "string \<Rightarrow> attribute_name option" where
  "attribute_name_from s =
     (if s = ''email'' then Some EmailAttribute
      else if s = ''name'' then Some NameAttribute
      else if s = ''verified_email'' then Some VerifiedEmailAttribute else None)"

fun attribute_name_string :: "attribute_name \<Rightarrow> string" where
  "attribute_name_string EmailAttribute = ''email''"
| "attribute_name_string NameAttribute = ''name''"
| "attribute_name_string VerifiedEmailAttribute = ''verified_email''"

text \<open>The derived orders: by constructor, then by field.\<close>

fun attribute_name_index :: "attribute_name \<Rightarrow> nat" where
  "attribute_name_index EmailAttribute = 0"
| "attribute_name_index NameAttribute = 1"
| "attribute_name_index VerifiedEmailAttribute = 2"

lemma attribute_name_index_inj: "attribute_name_index a = attribute_name_index b \<Longrightarrow> a = b"
  by (cases a; cases b) simp_all

instantiation attribute_name :: linorder
begin

definition less_eq_attribute_name :: "attribute_name \<Rightarrow> attribute_name \<Rightarrow> bool" where
  "less_eq_attribute_name a b \<longleftrightarrow> attribute_name_index a \<le> attribute_name_index b"

definition less_attribute_name :: "attribute_name \<Rightarrow> attribute_name \<Rightarrow> bool" where
  "less_attribute_name a b \<longleftrightarrow> attribute_name_index a < attribute_name_index b"

instance
  by standard (auto simp: less_eq_attribute_name_def less_attribute_name_def intro: attribute_name_index_inj)

end

fun attribute_scope_index :: "attribute_scope \<Rightarrow> nat \<times> string" where
  "attribute_scope_index (OpenIdScope issuer) = (0, issuer)"
| "attribute_scope_index (SsoScope domain) = (1, domain)"

lemma attribute_scope_index_inj: "attribute_scope_index a = attribute_scope_index b \<Longrightarrow> a = b"
  by (cases a; cases b) simp_all

instantiation attribute_scope :: linorder
begin

definition less_eq_attribute_scope :: "attribute_scope \<Rightarrow> attribute_scope \<Rightarrow> bool" where
  "less_eq_attribute_scope a b \<longleftrightarrow> attribute_scope_index a \<le> attribute_scope_index b"

definition less_attribute_scope :: "attribute_scope \<Rightarrow> attribute_scope \<Rightarrow> bool" where
  "less_attribute_scope a b \<longleftrightarrow> attribute_scope_index a < attribute_scope_index b"

instance
  by standard (auto simp: less_eq_attribute_scope_def less_attribute_scope_def less_le_not_le linear
      intro: attribute_scope_index_inj order_trans antisym)

end

fun attribute_scope_string :: "attribute_scope \<Rightarrow> string" where
  "attribute_scope_string (OpenIdScope issuer) = ''openid:'' @ issuer"
| "attribute_scope_string (SsoScope domain) = ''sso:'' @ domain"

datatype scope_problem =
    EmptyIssuer
  | IssuerTooLong nat
  | IssuerScheme
  | IssuerQuery
  | IssuerFragment
  | EmptyDomain
  | DomainTooLong nat
  | DomainWhitespace

definition validate_openid_credential_issuer_identifier :: "string \<Rightarrow> scope_problem list" where
  "validate_openid_credential_issuer_identifier issuer =
     (if issuer = [] then [EmptyIssuer] else [])
     @ (if length issuer > OPENID_ISSUER_MAX_BYTES then [IssuerTooLong (length issuer)] else [])
     @ (if strip_prefix ''https://'' issuer = None \<and> strip_prefix ''http://localhost:'' issuer = None
        then [IssuerScheme] else [])
     @ (if str_contains ''?'' issuer then [IssuerQuery] else [])
     @ (if str_contains ''#'' issuer then [IssuerFragment] else [])"

definition validate_sso_domain :: "string \<Rightarrow> scope_problem list" where
  "validate_sso_domain domain =
     (if domain = [] then [EmptyDomain] else [])
     @ (if length domain > SSO_DOMAIN_MAX_BYTES then [DomainTooLong (length domain)] else [])
     @ (if has_whitespace domain then [DomainWhitespace] else [])"

datatype attribute_key_error =
    UnknownAttribute string
  | MissingIssuer
  | InvalidIssuer "scope_problem list"
  | MissingDomain
  | InvalidDomain "scope_problem list"
  | UnknownScope string

definition attribute_scope_from :: "string \<Rightarrow> attribute_key_error + attribute_scope" where
  "attribute_scope_from value =
     (case (case split_at CHR '':'' value of None \<Rightarrow> (value, None) | Some (u, rest) \<Rightarrow> (u, Some rest)) of
        (scope_str, rest) \<Rightarrow>
          if scope_str = ''openid'' then
            (case rest of
               None \<Rightarrow> Inl MissingIssuer
             | Some issuer \<Rightarrow>
                 (case validate_openid_credential_issuer_identifier issuer of
                    [] \<Rightarrow> Inr (OpenIdScope issuer)
                  | problems \<Rightarrow> Inl (InvalidIssuer problems)))
          else if scope_str = ''sso'' then
            (case rest of
               None \<Rightarrow> Inl MissingDomain
             | Some domain \<Rightarrow>
                 (case validate_sso_domain domain of
                    [] \<Rightarrow> Inr (SsoScope (to_ascii_lowercase domain))
                  | problems \<Rightarrow> Inl (InvalidDomain problems)))
          else Inl (UnknownScope scope_str))"

type_synonym attribute_key = "attribute_scope option \<times> attribute_name"

definition attribute_key_from :: "string \<Rightarrow> attribute_key_error + attribute_key" where
  "attribute_key_from value =
     (case (case rsplit_at CHR '':'' value of None \<Rightarrow> (None, value) | Some (u, k) \<Rightarrow> (Some u, k)) of
        (scope_str, key) \<Rightarrow>
          (case attribute_name_from key of
             None \<Rightarrow> Inl (UnknownAttribute key)
           | Some name \<Rightarrow>
               (case scope_str of
                  None \<Rightarrow> Inr (None, name)
                | Some u \<Rightarrow>
                    (case attribute_scope_from u of
                       Inl e \<Rightarrow> Inl e
                     | Inr scope \<Rightarrow> Inr (Some scope, name)))))"

fun attribute_key_string :: "attribute_key \<Rightarrow> string" where
  "attribute_key_string (scope, name) =
     (case scope of None \<Rightarrow> [] | Some s \<Rightarrow> attribute_scope_string s @ '':'') @ attribute_name_string name"

section \<open>Validation of requests\<close>

datatype attribute_problem =
    HostnameTooLong nat
  | TooManyAttributes nat
  | MalformedKey attribute_key_error
  | SsoScopeRejected
  | ValueTooLong nat
  | WrongNonceLength nat
  | UnmappedOriginTooLong nat
  | UnrelatedOrigin string
  | MessageTooLong nat

definition check_hostname :: "frontend_hostname \<Rightarrow> attribute_problem list" where
  "check_hostname origin =
     (if length origin > FRONTEND_HOSTNAME_MAX_BYTES then [HostnameTooLong (length origin)] else [])"

definition check_attribute_count :: "'a list \<Rightarrow> attribute_problem list" where
  "check_attribute_count xs =
     (if length xs > MAX_ATTRIBUTES_PER_REQUEST then [TooManyAttributes (length xs)] else [])"

text \<open>A \<open>BTreeSet\<close> is the sorted list of its elements, a grouped request a map to such sets.\<close>

definition btree_insert :: "'a::linorder \<Rightarrow> 'a list \<Rightarrow> 'a list" where
  "btree_insert x xs = (if x \<in> set xs then xs else insort x xs)"

definition add_to_group :: "'k::linorder \<Rightarrow> 'a::linorder \<Rightarrow> ('k, 'a list) omap \<Rightarrow> ('k, 'a list) omap" where
  "add_to_group k x m = om_insert k (btree_insert x (case om_get m k of None \<Rightarrow> [] | Some xs \<Rightarrow> xs)) m"

fun is_sso_scope :: "attribute_scope option \<Rightarrow> bool" where
  "is_sso_scope (Some (SsoScope _)) = True"
| "is_sso_scope _ = False"

type_synonym requested_attributes = "(attribute_scope option, attribute_name list) omap"

definition group_attribute_key ::
  "string \<Rightarrow> attribute_problem list \<times> requested_attributes \<Rightarrow> attribute_problem list \<times> requested_attributes" where
  "group_attribute_key unparsed acc =
     (case acc of (problems, keys) \<Rightarrow>
       (case attribute_key_from unparsed of
          Inl e \<Rightarrow> (problems @ [MalformedKey e], keys)
        | Inr (scope, name) \<Rightarrow>
            if is_sso_scope scope then (problems @ [SsoScopeRejected], keys)
            else (problems, add_to_group scope name keys)))"

record prepare_attribute_request =
  par_identity_number :: anchor_number
  par_origin :: frontend_hostname
  par_account_number :: "account_number option"
  par_attribute_keys :: "string list"

definition validate_prepare_attribute_request ::
  "prepare_attribute_request \<Rightarrow> attribute_problem list + requested_attributes" where
  "validate_prepare_attribute_request r =
     (case fold group_attribute_key (par_attribute_keys r)
             (check_hostname (par_origin r) @ check_attribute_count (par_attribute_keys r), om_empty) of
        ([], keys) \<Rightarrow> Inr keys
      | (problems, _) \<Rightarrow> Inl problems)"

type_synonym certifiable_attribute = "attribute_key \<times> bytes"

definition attribute_from :: "string \<times> bytes \<Rightarrow> attribute_problem + certifiable_attribute" where
  "attribute_from kv =
     (case attribute_key_from (fst kv) of
        Inl e \<Rightarrow> Inl (MalformedKey e)
      | Inr key \<Rightarrow>
          if length (snd kv) > ATTRIBUTE_VALUE_MAX_BYTES then Inl (ValueTooLong (length (snd kv)))
          else Inr (key, snd kv))"

type_synonym grouped_attributes = "(attribute_scope option, certifiable_attribute list) omap"

definition group_attribute ::
  "string \<times> bytes \<Rightarrow> attribute_problem list \<times> grouped_attributes \<Rightarrow> attribute_problem list \<times> grouped_attributes" where
  "group_attribute unparsed acc =
     (case acc of (problems, attributes) \<Rightarrow>
       (case attribute_from unparsed of
          Inl e \<Rightarrow> (problems @ [e], attributes)
        | Inr attribute \<Rightarrow>
            if is_sso_scope (fst (fst attribute)) then (problems @ [SsoScopeRejected], attributes)
            else (problems, add_to_group (fst (fst attribute)) attribute attributes)))"

record get_attributes_request =
  gar_identity_number :: anchor_number
  gar_origin :: frontend_hostname
  gar_account_number :: "account_number option"
  gar_issued_at :: timestamp
  gar_attributes :: "(string \<times> bytes) list"

definition validate_get_attributes_request ::
  "get_attributes_request \<Rightarrow> attribute_problem list + grouped_attributes" where
  "validate_get_attributes_request r =
     (case fold group_attribute (gar_attributes r)
             (check_hostname (gar_origin r) @ check_attribute_count (gar_attributes r), om_empty) of
        ([], attributes) \<Rightarrow> Inr attributes
      | (problems, _) \<Rightarrow> Inl problems)"

record attribute_spec =
  as_key :: string
  as_value :: "bytes option"
  as_omit_scope :: bool

record validated_attribute_spec =
  vas_key :: attribute_key
  vas_value :: "bytes option"
  vas_omit_scope :: bool

definition parse_attribute_spec ::
  "attribute_spec \<Rightarrow> attribute_problem list \<times> validated_attribute_spec list
     \<Rightarrow> attribute_problem list \<times> validated_attribute_spec list" where
  "parse_attribute_spec spec acc =
     (case acc of (problems, specs) \<Rightarrow>
       (case attribute_key_from (as_key spec) of
          Inl e \<Rightarrow> (problems @ [MalformedKey e], specs)
        | Inr key \<Rightarrow>
            (let n = (case as_value spec of None \<Rightarrow> 0 | Some v \<Rightarrow> length v) in
             if n > ATTRIBUTE_VALUE_MAX_BYTES then (problems @ [ValueTooLong n], specs)
             else (problems, specs @ [\<lparr>vas_key = key, vas_value = as_value spec, vas_omit_scope = as_omit_scope spec\<rparr>]))))"

record prepare_icrc3_request =
  pir_identity_number :: anchor_number
  pir_origin :: frontend_hostname
  pir_unmapped_origin :: "frontend_hostname option"
  pir_account_number :: "account_number option"
  pir_attributes :: "attribute_spec list"
  pir_nonce :: bytes

definition check_unmapped_origin :: "frontend_hostname \<Rightarrow> frontend_hostname option \<Rightarrow> attribute_problem list" where
  "check_unmapped_origin origin unmapped_origin =
     (case unmapped_origin of
        None \<Rightarrow> []
      | Some unmapped \<Rightarrow>
          if length unmapped > FRONTEND_HOSTNAME_MAX_BYTES then [UnmappedOriginTooLong (length unmapped)]
          else if remap_to_legacy_domain unmapped \<noteq> origin then [UnrelatedOrigin unmapped] else [])"

definition validate_prepare_icrc3_request ::
  "prepare_icrc3_request \<Rightarrow> attribute_problem list + validated_attribute_spec list" where
  "validate_prepare_icrc3_request r =
     (case fold parse_attribute_spec (pir_attributes r)
             ((if length (pir_nonce r) \<noteq> ICRC3_NONCE_BYTES then [WrongNonceLength (length (pir_nonce r))] else [])
              @ check_hostname (pir_origin r) @ check_unmapped_origin (pir_origin r) (pir_unmapped_origin r)
              @ check_attribute_count (pir_attributes r), []) of
        ([], specs) \<Rightarrow> Inr specs
      | (problems, _) \<Rightarrow> Inl problems)"

definition validate_get_icrc3_request :: "frontend_hostname \<Rightarrow> bytes \<Rightarrow> attribute_problem list + unit" where
  "validate_get_icrc3_request origin message =
     (case check_hostname origin
           @ (if length message > ICRC3_MESSAGE_MAX_BYTES then [MessageTooLong (length message)] else []) of
        [] \<Rightarrow> Inr ()
      | problems \<Rightarrow> Inl problems)"

definition parse_requested_key ::
  "string \<Rightarrow> attribute_problem list \<times> attribute_key list \<Rightarrow> attribute_problem list \<times> attribute_key list" where
  "parse_requested_key unparsed acc =
     (case acc of (problems, keys) \<Rightarrow>
       (case attribute_key_from unparsed of
          Inl e \<Rightarrow> (problems @ [MalformedKey e], keys)
        | Inr key \<Rightarrow>
            if is_sso_scope (fst key) then (problems @ [SsoScopeRejected], keys) else (problems, keys @ [key])))"

definition validate_list_available_request ::
  "string list option \<Rightarrow> attribute_problem list + attribute_key list option" where
  "validate_list_available_request attributes =
     (case attributes of
        None \<Rightarrow> Inr None
      | Some keys \<Rightarrow>
          (case fold parse_requested_key keys (check_attribute_count keys, []) of
             ([], parsed) \<Rightarrow> Inr (Some parsed)
           | (problems, _) \<Rightarrow> Inl problems))"

section \<open>Text of keys\<close>

lemma rsplit_at_append: "c \<notin> set v \<Longrightarrow> rsplit_at c (u @ c # v) = Some (u, v)"
  using split_at_append [of c "rev v" "rev u"] by (simp add: rsplit_at_def)

lemma rsplit_at_none: "c \<notin> set s \<Longrightarrow> rsplit_at c s = None"
  by (simp add: rsplit_at_def split_at_none)

lemma split_at_SomeD: "split_at c s = Some (u, rest) \<Longrightarrow> s = u @ c # rest \<and> c \<notin> set u"
proof -
  assume sp: "split_at c s = Some (u, rest)"
  then obtain d where d: "dropWhile (\<lambda>d. d \<noteq> c) s = d # rest" and u: "u = takeWhile (\<lambda>d. d \<noteq> c) s"
    by (auto simp: split_at_def split: list.splits)
  have "d = c" using hd_dropWhile [of "\<lambda>d. d \<noteq> c" s] d by simp
  then show ?thesis using d u takeWhile_dropWhile_id [of "\<lambda>d. d \<noteq> c" s] by (auto dest: set_takeWhileD)
qed

lemma rsplit_at_SomeD:
  assumes "rsplit_at c s = Some (u, v)"
  shows "s = u @ c # v \<and> c \<notin> set v"
proof -
  from assms have "split_at c (rev s) = Some (rev v, rev u)" by (auto simp: rsplit_at_def)
  from split_at_SomeD [OF this] have "rev s = rev (u @ c # v)" "c \<notin> set v" by simp_all
  then show ?thesis by (simp only: rev_is_rev_conv simp_thms)
qed

lemma str_contains_single: "str_contains [c] s \<longleftrightarrow> c \<in> set s"
  by (induction s) auto

lemma attribute_name_round_trip [simp]: "attribute_name_from (attribute_name_string n) = Some n"
  by (cases n) (simp_all add: attribute_name_from_def)

lemma attribute_name_from_SomeD: "attribute_name_from s = Some n \<Longrightarrow> s = attribute_name_string n"
  by (auto simp: attribute_name_from_def split: if_splits)

lemma attribute_name_no_colon [simp]: "CHR '':'' \<notin> set (attribute_name_string n)"
  by (cases n) simp_all

definition scope_ok :: "attribute_scope \<Rightarrow> bool" where
  "scope_ok scope \<longleftrightarrow>
     (case scope of
        OpenIdScope issuer \<Rightarrow> validate_openid_credential_issuer_identifier issuer = []
      | SsoScope domain \<Rightarrow> validate_sso_domain domain = [] \<and> to_ascii_lowercase domain = domain)"

definition ascii_letter :: "char \<Rightarrow> bool" where
  "ascii_letter c \<longleftrightarrow> CHR ''A'' \<le> c \<and> c \<le> CHR ''Z'' \<or> CHR ''a'' \<le> c \<and> c \<le> CHR ''z''"

lemma lowercase_letter:
  "\<not> ascii_letter d \<Longrightarrow>
   (if CHR ''A'' \<le> c \<and> c \<le> CHR ''Z'' then char_of (of_char c + 32 :: nat) else c) = d \<longleftrightarrow> c = d"
  by (auto simp: ascii_letter_def less_eq_char_def)

lemma lowercase_without_letters:
  "list_all (\<lambda>c. \<not> ascii_letter c) w \<Longrightarrow> to_ascii_lowercase xs = w \<longleftrightarrow> xs = w"
proof (induction w arbitrary: xs)
  case (Cons d w)
  then show ?case
    using lowercase_letter [of d] by (cases xs) (auto simp: to_ascii_lowercase_def)
qed (simp add: to_ascii_lowercase_def)

lemma length_lowercase [simp]: "length (to_ascii_lowercase s) = length s"
  by (simp add: to_ascii_lowercase_def)

lemma str_contains_lowercase:
  assumes "list_all (\<lambda>c. \<not> ascii_letter c) w"
  shows "str_contains w (to_ascii_lowercase s) \<longleftrightarrow> str_contains w s"
proof (induction s)
  case (Cons c cs)
  have "take n (to_ascii_lowercase (c # cs)) = w \<longleftrightarrow> take n (c # cs) = w" for n
    using lowercase_without_letters [OF assms, of "take n (c # cs)"] by (simp only: to_ascii_lowercase_def take_map)
  moreover obtain x where "to_ascii_lowercase (c # cs) = x # to_ascii_lowercase cs" by (simp add: to_ascii_lowercase_def)
  ultimately show ?case using Cons by simp
qed (simp add: to_ascii_lowercase_def)

lemma whitespace_without_letters: "list_all (list_all (\<lambda>c. \<not> ascii_letter c)) whitespace_sequences"
  by code_simp

lemma validate_sso_domain_lowercase:
  "validate_sso_domain (to_ascii_lowercase d) = [] \<longleftrightarrow> validate_sso_domain d = []"
proof -
  have "has_whitespace (to_ascii_lowercase d) \<longleftrightarrow> has_whitespace d"
    using whitespace_without_letters by (auto simp: has_whitespace_def list_ex_iff list_all_iff str_contains_lowercase)
  moreover have "to_ascii_lowercase d = [] \<longleftrightarrow> d = []" by (simp add: to_ascii_lowercase_def)
  ultimately show ?thesis by (simp add: validate_sso_domain_def)
qed

text \<open>The scopes the parser returns.\<close>

lemma attribute_scope_from_Inr:
  "attribute_scope_from s = Inr scope \<Longrightarrow>
     scope_ok scope \<and> (case scope of OpenIdScope _ \<Rightarrow> s = attribute_scope_string scope | SsoScope _ \<Rightarrow> True)"
  by (auto simp: attribute_scope_from_def scope_ok_def validate_sso_domain_lowercase
      split: option.splits if_splits list.splits dest!: split_at_SomeD)

lemma attribute_scope_round_trip: "scope_ok scope \<Longrightarrow> attribute_scope_from (attribute_scope_string scope) = Inr scope"
proof (cases scope)
  case (OpenIdScope issuer)
  moreover assume "scope_ok scope"
  ultimately show ?thesis
    using split_at_append [of "CHR '':''" "''openid''" issuer] by (simp add: attribute_scope_from_def scope_ok_def)
next
  case (SsoScope domain)
  moreover assume "scope_ok scope"
  ultimately show ?thesis
    using split_at_append [of "CHR '':''" "''sso''" domain] by (simp add: attribute_scope_from_def scope_ok_def)
qed

definition key_ok :: "attribute_key \<Rightarrow> bool" where
  "key_ok key \<longleftrightarrow> (case fst key of None \<Rightarrow> True | Some scope \<Rightarrow> scope_ok scope)"

lemma attribute_key_from_string: "key_ok key \<Longrightarrow> attribute_key_from (attribute_key_string key) = Inr key"
proof (cases key)
  case (Pair scope name)
  moreover assume "key_ok key"
  ultimately show ?thesis
    by (cases scope)
      (simp_all add: attribute_key_from_def rsplit_at_none rsplit_at_append key_ok_def attribute_scope_round_trip)
qed

lemma attribute_key_from_Inr:
  "attribute_key_from s = Inr key \<Longrightarrow>
     key_ok key \<and> (\<not> is_sso_scope (fst key) \<longrightarrow> s = attribute_key_string key)"
  by (auto simp: attribute_key_from_def key_ok_def
      split: option.splits sum.splits attribute_scope.splits prod.splits
      dest!: rsplit_at_SomeD attribute_scope_from_Inr attribute_name_from_SomeD)

text \<open>
  Property C39. Attribute keys survive their textual form: a key the parser accepts prints to a text that parses
  to the same key, and unless its scope is a domain (which the parser lowercases) the printed text
  is the text it was parsed from. So the key under which an attribute is certified is the requested one.
\<close>

theorem attribute_key_round_trip:
  assumes "attribute_key_from s = Inr key"
  shows "attribute_key_from (attribute_key_string key) = Inr key
    \<and> (s = attribute_key_string key \<or> is_sso_scope (fst key))"
  using attribute_key_from_Inr [OF assms] attribute_key_from_string by blast

theorem attribute_key_round_trip_witness:
  "attribute_key_from ''openid:https://a.b:email'' = Inr (Some (OpenIdScope ''https://a.b''), EmailAttribute)
   \<and> attribute_key_string (Some (OpenIdScope ''https://a.b''), EmailAttribute) = ''openid:https://a.b:email''"
proof -
  have p: "attribute_key_from ''openid:https://a.b:email'' = Inr (Some (OpenIdScope ''https://a.b''), EmailAttribute)"
    by code_simp
  from attribute_key_round_trip [OF p] p show ?thesis by simp
qed

lemma attribute_key_string_inj:
  "key_ok key \<Longrightarrow> key_ok key' \<Longrightarrow> attribute_key_string key = attribute_key_string key' \<Longrightarrow> key = key'"
  using attribute_key_from_string by (metis Inr_inject)

text \<open>
  The longest attribute name is longer than \<open>ATTRIBUTE_NAME_MAX_BYTES\<close>, so the bound on keys is not
  one.
\<close>

lemma attribute_key_exceeds_bound:
  "\<exists>key. key_ok key \<and> length (attribute_key_string key) > ICRC3_ATTRIBUTE_KEY_MAX_BYTES"
proof -
  let ?issuer = "''https://'' @ replicate 1016 CHR ''a''"
  have "validate_openid_credential_issuer_identifier ?issuer = []"
    by (simp add: validate_openid_credential_issuer_identifier_def str_contains_single OPENID_ISSUER_MAX_BYTES_def
        strip_prefix_def del: str_contains.simps append_Cons append.simps)
  then have "key_ok (Some (OpenIdScope ?issuer), VerifiedEmailAttribute)" by (simp add: key_ok_def scope_ok_def)
  moreover have "length (attribute_key_string (Some (OpenIdScope ?issuer), VerifiedEmailAttribute)) > ICRC3_ATTRIBUTE_KEY_MAX_BYTES"
    by (simp add: ICRC3_ATTRIBUTE_KEY_MAX_BYTES_def OPENID_ATTRIBUTE_KEY_OVERHEAD_BYTES_def ATTRIBUTE_NAME_MAX_BYTES_def
        OPENID_ISSUER_MAX_BYTES_def)
  ultimately show ?thesis by blast
qed

lemma boundary_before_le: "boundary_before s i \<le> i"
  by (induction i) (auto simp: le_Suc_eq)

lemma ellipsized_fits: "length (ellipsized s n) \<le> n"
  using boundary_before_le [of s "n - 3"] by (auto simp: ellipsized_def)

end
