(* ===== verification/Attribute_Sharing.thy ===== *)
theory Attribute_Sharing
  imports Attributes Guarded_Methods
begin

text \<open>
  Attribute sharing (\<open>attributes.rs\<close> and \<open>mod attribute_sharing\<close> of \<open>main.rs\<close>): the certification of
  attributes of the OpenID credentials of an identity, in the legacy flow and in the ICRC-3 flow.
  The signature map and the hash and encoding of what is signed belong to crates and are
  arguments; the methods keep the signatures beside the state of the canister. An asynchronous
  method is split at its await, after which only signatures change.
\<close>

section \<open>Crates\<close>

text \<open>
  \<open>ac_hash\<close> is \<open>representation_independent_hash\<close>, \<open>ac_encode\<close> the Candid encoding of a value.
  \<open>ac_add\<close> and \<open>ac_get\<close> are \<open>add_signature\<close> and \<open>get_signature_as_cbor\<close> of the signature map, for a
  domain, a seed and a message.
\<close>

datatype hash_value = NumberValue u64 | BytesValue bytes

datatype icrc3_value =
    Icrc3Nat nat
  | Icrc3Int int
  | Icrc3Blob bytes
  | Icrc3Text string
  | Icrc3Array "icrc3_value list"
  | Icrc3Map "(string \<times> icrc3_value) list"

record 's attribute_crates =
  ac_hash :: "(string \<times> hash_value) list \<Rightarrow> bytes"
  ac_encode :: "icrc3_value \<Rightarrow> bytes"
  ac_add :: "bytes \<Rightarrow> bytes \<Rightarrow> bytes \<Rightarrow> 's \<Rightarrow> 's"
  ac_get :: "bytes \<Rightarrow> bytes \<Rightarrow> bytes \<Rightarrow> 's \<Rightarrow> bytes option"

definition ATTRIBUTES_CERTIFICATION_DOMAIN :: bytes where
  "ATTRIBUTES_CERTIFICATION_DOMAIN = string_bytes ''ii-request-attribute''"

definition ICRC3_ATTRIBUTES_CERTIFICATION_DOMAIN :: bytes where
  "ICRC3_ATTRIBUTES_CERTIFICATION_DOMAIN = string_bytes ''ic-sender-info''"

definition ATTRIBUTES_CERTIFICATION_SESSION_DURATION_NS :: u64 where
  "ATTRIBUTES_CERTIFICATION_SESSION_DURATION_NS = 30 * MINUTE_NS"

definition expiration_timestamp_ns :: "timestamp \<Rightarrow> timestamp" where
  "expiration_timestamp_ns issued_at = saturating_add64 issued_at ATTRIBUTES_CERTIFICATION_SESSION_DURATION_NS"

section \<open>The legacy flow\<close>

definition attribute_signature_msg :: "'s attribute_crates \<Rightarrow> certifiable_attribute \<Rightarrow> timestamp \<Rightarrow> bytes" where
  "attribute_signature_msg ac attribute expiration =
     ac_hash ac
       [(''expiration'', NumberValue expiration), (attribute_key_string (fst attribute), BytesValue (snd attribute))]"

definition add_attribute_signature :: "'s attribute_crates \<Rightarrow> bytes \<Rightarrow> bytes \<Rightarrow> 's \<Rightarrow> 's" where
  "add_attribute_signature ac seed message sigs = ac_add ac ATTRIBUTES_CERTIFICATION_DOMAIN seed message sigs"

fun stored_attribute :: "'k openid_state \<Rightarrow> openid_credential \<Rightarrow> attribute_name \<Rightarrow> string option" where
  "stored_attribute os cred EmailAttribute = get_email cred"
| "stored_attribute os cred NameAttribute = get_name cred"
| "stored_attribute os cred VerifiedEmailAttribute = get_verified_email os cred"

definition available_attributes ::
  "'k openid_state \<Rightarrow> openid_credential \<Rightarrow> attribute_scope option \<Rightarrow> attribute_name list \<Rightarrow> certifiable_attribute list" where
  "available_attributes os cred scope names =
     List.map_filter (\<lambda>name. map_option (\<lambda>v. ((scope, name), string_bytes v)) (stored_attribute os cred name)) names"

fun prepare_openid_attributes ::
  "'k openid_state \<Rightarrow> openid_credential list \<Rightarrow> requested_attributes
     \<Rightarrow> (openid_credential_key \<times> certifiable_attribute list) list" where
  "prepare_openid_attributes os [] requested = []"
| "prepare_openid_attributes os (cred # creds) requested =
     (case matched_attribute_scope os cred of
        Some (OpenIdScope issuer) \<Rightarrow>
          (case om_get requested (Some (OpenIdScope issuer)) of
             None \<Rightarrow> prepare_openid_attributes os creds requested
           | Some names \<Rightarrow>
               (oc_key cred, available_attributes os cred (Some (OpenIdScope issuer)) names)
               # prepare_openid_attributes os creds (om_remove (Some (OpenIdScope issuer)) requested))
      | _ \<Rightarrow> prepare_openid_attributes os creds requested)"

definition prepare_attributes_no_root_hash_update ::
  "'s attribute_crates \<Rightarrow> bytes \<Rightarrow> certifiable_attribute list \<Rightarrow> timestamp \<Rightarrow> 's \<Rightarrow> 's" where
  "prepare_attributes_no_root_hash_update ac seed attributes now sigs =
     fold (\<lambda>a. add_attribute_signature ac seed (attribute_signature_msg ac a (expiration_timestamp_ns now))) attributes sigs"

text \<open>The seed of the account is calculated when there is something to sign; \<open>None\<close> is a seed whose calculation traps.\<close>

fun sign_prepared_attributes ::
  "'s attribute_crates \<Rightarrow> bytes option \<Rightarrow> timestamp \<Rightarrow> openid_credential list
     \<Rightarrow> (openid_credential_key, certifiable_attribute list) omap \<Rightarrow> 's \<Rightarrow> (certifiable_attribute list \<times> 's) option" where
  "sign_prepared_attributes ac seed now [] prepared sigs = Some ([], sigs)"
| "sign_prepared_attributes ac seed now (cred # creds) prepared sigs =
     (case om_get prepared (oc_key cred) of
        None \<Rightarrow> sign_prepared_attributes ac seed now creds prepared sigs
      | Some new \<Rightarrow>
          Option.bind seed (\<lambda>account_seed.
            map_option (\<lambda>(attributes, sigs). (new @ attributes, sigs))
              (sign_prepared_attributes ac seed now creds (om_remove (oc_key cred) prepared)
                 (prepare_attributes_no_root_hash_update ac account_seed new now sigs))))"

text \<open>Collecting into a \<open>BTreeMap\<close>: the last entry of a key stays.\<close>

definition collect_map :: "('k::linorder \<times> 'v) list \<Rightarrow> ('k, 'v) omap" where
  "collect_map xs = fold (\<lambda>(k, v). om_insert k v) xs om_empty"

definition anchor_prepare_attributes ::
  "'s attribute_crates \<Rightarrow> 'k openid_state \<Rightarrow> anchor \<Rightarrow> bytes option \<Rightarrow> requested_attributes \<Rightarrow> timestamp \<Rightarrow> 's
     \<Rightarrow> (certifiable_attribute list \<times> 's) option" where
  "anchor_prepare_attributes ac os anchor seed requested now sigs =
     sign_prepared_attributes ac seed now (a_openid_credentials anchor)
       (collect_map (prepare_openid_attributes os (a_openid_credentials anchor) requested)) sigs"

text \<open>A certified attribute is its key as text, its value and the signature.\<close>

type_synonym certified_attribute = "string \<times> bytes \<times> bytes"

definition certify_attributes ::
  "'s attribute_crates \<Rightarrow> bytes \<Rightarrow> timestamp \<Rightarrow> 's \<Rightarrow> certifiable_attribute list \<Rightarrow> certified_attribute list" where
  "certify_attributes ac seed expires_at sigs attributes =
     btree_set (List.map_filter
       (\<lambda>a. map_option (\<lambda>signature. (attribute_key_string (fst a), snd a, signature))
              (ac_get ac ATTRIBUTES_CERTIFICATION_DOMAIN seed (attribute_signature_msg ac a expires_at) sigs))
       attributes)"

fun certified_of_credentials ::
  "'s attribute_crates \<Rightarrow> 'k openid_state \<Rightarrow> bytes \<Rightarrow> timestamp \<Rightarrow> 's \<Rightarrow> openid_credential list \<Rightarrow> grouped_attributes
     \<Rightarrow> certified_attribute list" where
  "certified_of_credentials ac os seed expires_at sigs [] attributes = []"
| "certified_of_credentials ac os seed expires_at sigs (cred # creds) attributes =
     (case matched_attribute_scope os cred of
        Some (OpenIdScope issuer) \<Rightarrow>
          (case om_get attributes (Some (OpenIdScope issuer)) of
             None \<Rightarrow> certified_of_credentials ac os seed expires_at sigs creds attributes
           | Some fetched \<Rightarrow>
               certify_attributes ac seed expires_at sigs fetched
               @ certified_of_credentials ac os seed expires_at sigs creds
                   (om_remove (Some (OpenIdScope issuer)) attributes))
      | _ \<Rightarrow> certified_of_credentials ac os seed expires_at sigs creds attributes)"

definition anchor_get_attributes ::
  "'s attribute_crates \<Rightarrow> 'k openid_state \<Rightarrow> anchor \<Rightarrow> bytes \<Rightarrow> grouped_attributes \<Rightarrow> timestamp \<Rightarrow> 's
     \<Rightarrow> certified_attribute list \<times> timestamp" where
  "anchor_get_attributes ac os anchor seed attributes issued_at sigs =
     (let expires_at = expiration_timestamp_ns issued_at in
      (certified_of_credentials ac os seed expires_at sigs (a_openid_credentials anchor) attributes, expires_at))"

section \<open>The ICRC-3 flow\<close>

datatype mismatch =
    NoCredential attribute_scope
  | NotAvailable attribute_key
  | ValueMismatch attribute_key
  | DuplicateCertifiedKey string
  | NoScope attribute_key

text \<open>The value a spec stands for; under \<open>sso:\<close> the verified email is not available.\<close>

definition resolve_spec ::
  "'k openid_state \<Rightarrow> openid_credential list \<Rightarrow> validated_attribute_spec \<Rightarrow> mismatch + string" where
  "resolve_spec os creds spec =
     (case fst (vas_key spec) of
        None \<Rightarrow> Inl (NoScope (vas_key spec))
      | Some scope \<Rightarrow>
          (case find (\<lambda>c. matched_attribute_scope os c = Some scope) creds of
             None \<Rightarrow> Inl (NoCredential scope)
           | Some cred \<Rightarrow>
               (case (if is_sso_scope (Some scope) \<and> snd (vas_key spec) = VerifiedEmailAttribute then None
                      else stored_attribute os cred (snd (vas_key spec))) of
                  None \<Rightarrow> Inl (NotAvailable (vas_key spec))
                | Some stored \<Rightarrow>
                    if vas_value spec \<noteq> None \<and> vas_value spec \<noteq> Some (string_bytes stored)
                    then Inl (ValueMismatch (vas_key spec))
                    else Inr stored)))"

definition certified_key :: "validated_attribute_spec \<Rightarrow> string" where
  "certified_key spec =
     (if vas_omit_scope spec then attribute_name_string (snd (vas_key spec))
      else attribute_key_string (vas_key spec))"

type_synonym certified_pairs = "(string, icrc3_value) omap"

definition certify_spec ::
  "'k openid_state \<Rightarrow> openid_credential list \<Rightarrow> validated_attribute_spec
     \<Rightarrow> mismatch list \<times> certified_pairs \<Rightarrow> mismatch list \<times> certified_pairs" where
  "certify_spec os creds spec acc =
     (case acc of (problems, pairs) \<Rightarrow>
       (case resolve_spec os creds spec of
          Inl problem \<Rightarrow> (problems @ [problem], pairs)
        | Inr stored \<Rightarrow>
            if om_contains pairs (certified_key spec)
            then (problems @ [DuplicateCertifiedKey (certified_key spec)], pairs)
            else (problems, om_insert (certified_key spec) (Icrc3Text stored) pairs)))"

definition implicit_pairs ::
  "bytes \<Rightarrow> frontend_hostname \<Rightarrow> frontend_hostname option \<Rightarrow> timestamp \<Rightarrow> certified_pairs \<Rightarrow> certified_pairs" where
  "implicit_pairs nonce origin unmapped_origin issued_at pairs =
     om_insert ''implicit:issued_at_timestamp_ns'' (Icrc3Nat (unat issued_at))
       (om_insert ''implicit:origin''
         (Icrc3Text (case unmapped_origin of Some o' \<Rightarrow> o' | None \<Rightarrow> origin))
         (om_insert ''implicit:nonce'' (Icrc3Blob nonce) pairs))"

definition certified_icrc3_pairs ::
  "'k openid_state \<Rightarrow> anchor \<Rightarrow> validated_attribute_spec list \<Rightarrow> bytes \<Rightarrow> frontend_hostname \<Rightarrow> frontend_hostname option
     \<Rightarrow> timestamp \<Rightarrow> mismatch list + certified_pairs" where
  "certified_icrc3_pairs os anchor specs nonce origin unmapped_origin issued_at =
     (case fold (certify_spec os (a_openid_credentials anchor)) specs ([], om_empty) of
        ([], pairs) \<Rightarrow> Inr (implicit_pairs nonce origin unmapped_origin issued_at pairs)
      | (problems, _) \<Rightarrow> Inl problems)"

definition icrc3_attribute_message :: "'s attribute_crates \<Rightarrow> certified_pairs \<Rightarrow> bytes" where
  "icrc3_attribute_message ac pairs = ac_encode ac (Icrc3Map (om_entries pairs))"

definition anchor_prepare_icrc3_attributes ::
  "'s attribute_crates \<Rightarrow> 'k openid_state \<Rightarrow> anchor \<Rightarrow> bytes option \<Rightarrow> validated_attribute_spec list \<Rightarrow> bytes
     \<Rightarrow> frontend_hostname \<Rightarrow> frontend_hostname option \<Rightarrow> timestamp \<Rightarrow> 's \<Rightarrow> ('s \<times> (mismatch list + bytes)) option" where
  "anchor_prepare_icrc3_attributes ac os anchor seed specs nonce origin unmapped_origin issued_at sigs =
     (case certified_icrc3_pairs os anchor specs nonce origin unmapped_origin issued_at of
        Inl problems \<Rightarrow> Some (sigs, Inl problems)
      | Inr pairs \<Rightarrow>
          (let message = icrc3_attribute_message ac pairs in
           map_option (\<lambda>account_seed.
               (ac_add ac ICRC3_ATTRIBUTES_CERTIFICATION_DOMAIN account_seed message sigs, Inr message)) seed))"

definition anchor_get_icrc3_attributes :: "'s attribute_crates \<Rightarrow> bytes \<Rightarrow> bytes \<Rightarrow> 's \<Rightarrow> bytes option" where
  "anchor_get_icrc3_attributes ac seed message sigs = ac_get ac ICRC3_ATTRIBUTES_CERTIFICATION_DOMAIN seed message sigs"

section \<open>Listing\<close>

definition key_requested :: "attribute_key list option \<Rightarrow> attribute_scope \<Rightarrow> attribute_name \<Rightarrow> bool" where
  "key_requested requested scope name \<longleftrightarrow>
     (case requested of
        None \<Rightarrow> True
      | Some keys \<Rightarrow> list_ex (\<lambda>k. snd k = name \<and> (fst k = None \<or> fst k = Some scope)) keys)"

definition list_attribute ::
  "'k openid_state \<Rightarrow> attribute_key list option \<Rightarrow> openid_credential \<Rightarrow> attribute_scope \<Rightarrow> attribute_name
     \<Rightarrow> (string, bytes) omap \<Rightarrow> (string, bytes) omap" where
  "list_attribute os requested cred scope name result =
     (if is_sso_scope (Some scope) \<and> name = VerifiedEmailAttribute then result
      else
        (case stored_attribute os cred name of
           None \<Rightarrow> result
         | Some value \<Rightarrow>
             (let key = attribute_scope_string scope @ '':'' @ attribute_name_string name in
              if key_requested requested scope name \<and> \<not> om_contains result key
              then om_insert key (string_bytes value) result else result)))"

definition list_credential ::
  "'k openid_state \<Rightarrow> attribute_key list option \<Rightarrow> openid_credential \<Rightarrow> (string, bytes) omap \<Rightarrow> (string, bytes) omap" where
  "list_credential os requested cred result =
     (case matched_attribute_scope os cred of
        None \<Rightarrow> result
      | Some scope \<Rightarrow> fold (list_attribute os requested cred scope) attribute_names result)"

definition anchor_list_available_attributes ::
  "'k openid_state \<Rightarrow> anchor \<Rightarrow> attribute_key list option \<Rightarrow> (string \<times> bytes) list" where
  "anchor_list_available_attributes os anchor requested =
     om_entries (fold (list_credential os requested) (a_openid_credentials anchor) om_empty)"

section \<open>The methods\<close>

datatype attribute_error =
    AttributeValidationError "attribute_problem list"
  | AttributeAuthorizationError principal
  | AttributeAccountError get_account_error
  | AttributeMismatch "mismatch list"
  | NoSuchSignature

definition authorized_account ::
  "('w, 'k, 'r) crates \<Rightarrow> timestamp \<Rightarrow> principal \<Rightarrow> anchor_number \<Rightarrow> frontend_hostname \<Rightarrow> account_number option
     \<Rightarrow> ('k, attribute_error, anchor \<times> account) message" where
  "authorized_account cr now caller n origin k c =
     op_bind (op_map_err AttributeAuthorizationError (check_authorization cr now caller n c))
       (\<lambda>(anchor, _) c.
          case get_account_for_origin (cr_sha cr) (cn_storage c) (a_number anchor) origin k of
            None \<Rightarrow> None
          | Some (Inl e) \<Rightarrow> Some (c, Inl (AttributeAccountError e))
          | Some (Inr account) \<Rightarrow> Some (c, Inr (anchor, account)))"

definition prepare_attributes_start ::
  "('w, 'k, 'r) crates \<Rightarrow> timestamp \<Rightarrow> principal \<Rightarrow> prepare_attribute_request
     \<Rightarrow> ('k, attribute_error, anchor \<times> account \<times> requested_attributes) message" where
  "prepare_attributes_start cr now caller r c =
     (case validate_prepare_attribute_request r of
        Inl problems \<Rightarrow> Some (c, Inl (AttributeValidationError problems))
      | Inr keys \<Rightarrow>
          op_bind (authorized_account cr now caller (par_identity_number r) (par_origin r) (par_account_number r) c)
            (\<lambda>(anchor, account) c. Some (c, Inr (anchor, account, keys))))"

text \<open>\<open>Account::calculate_seed\<close>, which reads the salt.\<close>

definition seed_of_account :: "('w, 'k, 'r) crates \<Rightarrow> 'k canister \<Rightarrow> account \<Rightarrow> bytes option" where
  "seed_of_account cr c account =
     Option.bind (storage_salt (cn_storage c)) (\<lambda>salt. calculate_seed (cr_sha cr) salt account)"

text \<open>After the await, with the salt set; \<open>now\<close> is the time the attributes are issued at.\<close>

definition prepare_attributes_finish ::
  "('w, 'k, 'r) crates \<Rightarrow> 's attribute_crates \<Rightarrow> timestamp \<Rightarrow> anchor \<times> account \<times> requested_attributes
     \<Rightarrow> 'k canister \<Rightarrow> 's \<Rightarrow> ((timestamp \<times> (string \<times> bytes) list) \<times> 's) option" where
  "prepare_attributes_finish cr ac now start c sigs =
     (case start of (anchor, account, keys) \<Rightarrow>
       map_option (\<lambda>(attributes, sigs). ((now, map (\<lambda>a. (attribute_key_string (fst a), snd a)) attributes), sigs))
         (anchor_prepare_attributes ac (cn_openid c) anchor (seed_of_account cr c account) keys now sigs))"

definition get_attributes_method ::
  "('w, 'k, 'r) crates \<Rightarrow> 's attribute_crates \<Rightarrow> timestamp \<Rightarrow> principal \<Rightarrow> get_attributes_request \<Rightarrow> 's
     \<Rightarrow> ('k, attribute_error, certified_attribute list \<times> timestamp) message" where
  "get_attributes_method cr ac now caller r sigs c =
     (case validate_get_attributes_request r of
        Inl problems \<Rightarrow> Some (c, Inl (AttributeValidationError problems))
      | Inr attributes \<Rightarrow>
          op_bind (authorized_account cr now caller (gar_identity_number r) (gar_origin r) (gar_account_number r) c)
            (\<lambda>(anchor, account) c.
               case seed_of_account cr c account of
                 None \<Rightarrow> None
               | Some seed \<Rightarrow>
                   Some (c, Inr (anchor_get_attributes ac (cn_openid c) anchor seed attributes (gar_issued_at r) sigs))))"

definition prepare_icrc3_attributes_start ::
  "('w, 'k, 'r) crates \<Rightarrow> timestamp \<Rightarrow> principal \<Rightarrow> prepare_icrc3_request
     \<Rightarrow> ('k, attribute_error, anchor \<times> account \<times> validated_attribute_spec list) message" where
  "prepare_icrc3_attributes_start cr now caller r c =
     (case validate_prepare_icrc3_request r of
        Inl problems \<Rightarrow> Some (c, Inl (AttributeValidationError problems))
      | Inr specs \<Rightarrow>
          op_bind (authorized_account cr now caller (pir_identity_number r) (pir_origin r) (pir_account_number r) c)
            (\<lambda>(anchor, account) c. Some (c, Inr (anchor, account, specs))))"

definition prepare_icrc3_attributes_finish ::
  "('w, 'k, 'r) crates \<Rightarrow> 's attribute_crates \<Rightarrow> timestamp \<Rightarrow> prepare_icrc3_request
     \<Rightarrow> anchor \<times> account \<times> validated_attribute_spec list \<Rightarrow> 'k canister \<Rightarrow> 's
     \<Rightarrow> ((attribute_error + bytes) \<times> 's) option" where
  "prepare_icrc3_attributes_finish cr ac now r start c sigs =
     (case start of (anchor, account, specs) \<Rightarrow>
       map_option (\<lambda>(sigs, result). (case result of Inl ps \<Rightarrow> Inl (AttributeMismatch ps) | Inr m \<Rightarrow> Inr m, sigs))
         (anchor_prepare_icrc3_attributes ac (cn_openid c) anchor (seed_of_account cr c account) specs (pir_nonce r)
            (pir_origin r) (pir_unmapped_origin r) now sigs))"

definition get_icrc3_attributes_method ::
  "('w, 'k, 'r) crates \<Rightarrow> 's attribute_crates \<Rightarrow> timestamp \<Rightarrow> principal \<Rightarrow> anchor_number \<Rightarrow> frontend_hostname
     \<Rightarrow> account_number option \<Rightarrow> bytes \<Rightarrow> 's \<Rightarrow> ('k, attribute_error, bytes) message" where
  "get_icrc3_attributes_method cr ac now caller n origin k message sigs c =
     (case validate_get_icrc3_request origin message of
        Inl problems \<Rightarrow> Some (c, Inl (AttributeValidationError problems))
      | Inr _ \<Rightarrow>
          op_bind (authorized_account cr now caller n origin k c)
            (\<lambda>(anchor, account) c.
               case seed_of_account cr c account of
                 None \<Rightarrow> None
               | Some seed \<Rightarrow>
                   Some (c, case anchor_get_icrc3_attributes ac seed message sigs of
                              None \<Rightarrow> Inl NoSuchSignature | Some signature \<Rightarrow> Inr signature)))"

definition list_available_attributes_method ::
  "('w, 'k, 'r) crates \<Rightarrow> timestamp \<Rightarrow> principal \<Rightarrow> anchor_number \<Rightarrow> string list option
     \<Rightarrow> ('k, attribute_error, (string \<times> bytes) list) message" where
  "list_available_attributes_method cr now caller n attributes c =
     (case validate_list_available_request attributes of
        Inl problems \<Rightarrow> Some (c, Inl (AttributeValidationError problems))
      | Inr requested \<Rightarrow>
          op_bind (op_map_err AttributeAuthorizationError (check_authorization cr now caller n c))
            (\<lambda>(anchor, _) c. Some (c, Inr (anchor_list_available_attributes (cn_openid c) anchor requested))))"

section \<open>Effects\<close>

text \<open>
  The methods change nothing but temporary keys, and nothing at all for a caller that is not authorized.
\<close>

lemma authorized_account_guarded [judged]:
  "guarded cr now caller n c (authorized_account cr now caller n origin k)"
  unfolding authorized_account_def [abs_def]
  by (rule guarded_bind, unfold guarded_map_err, rule check_authorization_guarded, rule touches_keep)
    (auto split: option.splits sum.splits)

lemma guarded_validated:
  "(\<And>v. r = Inr v \<Longrightarrow> guarded cr now caller n c (f v))
   \<Longrightarrow> guarded cr now caller n c (\<lambda>c. case r of Inl e \<Rightarrow> Some (c, Inl (g e)) | Inr v \<Rightarrow> f v c)"
  by (cases r) (auto simp: guarded_def touches_def)

lemma prepare_attributes_start_guarded [judged]:
  "guarded cr now caller (par_identity_number r) c (prepare_attributes_start cr now caller r)"
  unfolding prepare_attributes_start_def [abs_def]
  by (intro guarded_validated guarded_bind authorized_account_guarded touches_keep) auto

lemma prepare_icrc3_attributes_start_guarded [judged]:
  "guarded cr now caller (pir_identity_number r) c (prepare_icrc3_attributes_start cr now caller r)"
  unfolding prepare_icrc3_attributes_start_def [abs_def]
  by (intro guarded_validated guarded_bind authorized_account_guarded touches_keep) auto

end
