(* ===== verification/Canister_Calls.thy ===== *)
theory Canister_Calls
  imports Registration_Effects Attribute_Sharing
begin

text \<open>
  The canister as a whole: the messages it accepts, the continuations of its asynchronous methods
  and the steps of the system they make. A message is executed up to its first await and may leave
  a continuation behind, which runs at any later time when the randomness has arrived; a trap
  leaves the state as it was.
\<close>

section \<open>Messages\<close>

datatype call =
    CallRegister device_data challenge_key string "principal option"
  | CallCreateChallenge
  | CallAdd anchor_number device_data
  | CallUpdate anchor_number device_key device_data
  | CallReplace anchor_number device_key device_data
  | CallRemove anchor_number device_key
  | CallGetAnchorInfo anchor_number
  | CallIdentityInfo anchor_number
  | CallAuthnMethodAdd anchor_number authn_method_data
  | CallAuthnMethodReplace anchor_number device_key authn_method_data
  | CallMetadataReplace anchor_number device_key metadata_v2
  | CallSecuritySettingsReplace anchor_number device_key authn_method_security_settings
  | CallIdentityMetadataReplace anchor_number metadata_v2
  | CallPropertiesReplace anchor_number "string option"
  | CallEnterRegistrationMode anchor_number
  | CallExitRegistrationMode anchor_number
  | CallAddTentativeDevice anchor_number device_data
  | CallVerifyTentativeDevice anchor_number confirmation_code
  | CallAuthnMethodRegister anchor_number authn_method_data
  | CallSessionRegister anchor_number
  | CallConfirm anchor_number confirmation_code
  | CallModeEnter anchor_number "string option"
  | CallModeExit anchor_number "authn_method_data option"
  | CallOpenidAdd anchor_number string bytes
  | CallOpenidRemove anchor_number openid_credential_key
  | CallOpenidPrepareDelegation string bytes
  | CallCreateAccount anchor_number frontend_hostname string
  | CallUpdateAccount anchor_number frontend_hostname "account_number option" "string option"
  | CallSetDefaultAccount anchor_number frontend_hostname "account_number option"
  | CallPrepareDelegation anchor_number frontend_hostname "account_number option" bytes "u64 option"
  | CallRegistrationStart
  | CallCheckCaptcha string
  | CallRegistrationFinish create_identity_data
  | CallOpenidRegistrationFinish string bytes string
  | CallAcknowledge u64
  | CallInitSalt
  | CallPrepareAttributes prepare_attribute_request
  | CallPrepareIcrc3Attributes prepare_icrc3_request
  | CallPrepareIdAlias anchor_number

text \<open>What waits after an await.\<close>

datatype continuation =
    CreatingChallenge
  | AddingTentativeDevice anchor_number device_data
  | RegisteringAuthnMethod anchor_number authn_method_data
  | RegisteringSession principal anchor_number
  | InitializingSalt
  | PreparingDelegation principal anchor_number frontend_hostname "account_number option" bytes "u64 option"
  | StartingRegistration principal timestamp
  | RetryingCaptcha principal timestamp

text \<open>
  The state after a method, whatever it answers. The methods that sign attributes and aliases wait for the
  salt and then only add signatures, which are not part of the state; they leave nothing behind.
\<close>

definition after :: "('s, 'e, 'a) op_result \<Rightarrow> ('s \<times> continuation list) option" where
  "after m = map_option (\<lambda>(s, _). (s, [])) m"

fun execute ::
  "('w, 'k, 'r) crates \<Rightarrow> timestamp \<Rightarrow> principal \<Rightarrow> call \<Rightarrow> 'k canister \<Rightarrow> ('k canister \<times> continuation list) option" where
  "execute cr now caller (CallRegister data key chars temp_key) c =
     map_option (\<lambda>(c, _). (c, [])) (register cr now caller data key chars temp_key c)"
| "execute cr now caller CallCreateChallenge c = Some (c, [CreatingChallenge])"
| "execute cr now caller (CallAdd n data) c = after (add_method cr now caller n data c)"
| "execute cr now caller (CallUpdate n k data) c = after (update_method cr now caller n k data c)"
| "execute cr now caller (CallReplace n k data) c = after (replace_method cr now caller n k data c)"
| "execute cr now caller (CallRemove n k) c = after (remove_method cr now caller n k c)"
| "execute cr now caller (CallGetAnchorInfo n) c = after (get_anchor_info_method cr now caller n c)"
| "execute cr now caller (CallIdentityInfo n) c = after (identity_info_method cr now caller n c)"
| "execute cr now caller (CallAuthnMethodAdd n m) c = after (authn_method_add cr now caller n m c)"
| "execute cr now caller (CallAuthnMethodReplace n k m) c = after (authn_method_replace cr now caller n k m c)"
| "execute cr now caller (CallMetadataReplace n k md) c = after (authn_method_metadata_replace cr now caller n k md c)"
| "execute cr now caller (CallSecuritySettingsReplace n k st) c =
     after (authn_method_security_settings_replace cr now caller n k st c)"
| "execute cr now caller (CallIdentityMetadataReplace n md) c = after (identity_metadata_replace cr now caller n md c)"
| "execute cr now caller (CallPropertiesReplace n nm) c = after (identity_properties_replace cr now caller n nm c)"
| "execute cr now caller (CallEnterRegistrationMode n) c =
     after (enter_device_registration_mode_method cr now caller n c)"
| "execute cr now caller (CallExitRegistrationMode n) c =
     after (exit_device_registration_mode_method cr now caller n c)"
| "execute cr now caller (CallAddTentativeDevice n data) c = Some (c, [AddingTentativeDevice n data])"
| "execute cr now caller (CallVerifyTentativeDevice n code) c = after (verify_tentative_device cr now caller n code c)"
| "execute cr now caller (CallAuthnMethodRegister n m) c = Some (c, [RegisteringAuthnMethod n m])"
| "execute cr now caller (CallSessionRegister n) c = Some (c, [RegisteringSession caller n])"
| "execute cr now caller (CallConfirm n code) c = after (authn_method_confirm cr now caller n code c)"
| "execute cr now caller (CallModeEnter n i) c = after (authn_method_registration_mode_enter cr now caller n i c)"
| "execute cr now caller (CallModeExit n m) c = after (authn_method_registration_mode_exit cr now caller n m c)"
| "execute cr now caller (CallOpenidAdd n jwt salt) c = after (openid_credential_add cr now caller n jwt salt c)"
| "execute cr now caller (CallOpenidRemove n key) c = after (openid_credential_remove cr now caller n key c)"
| "execute cr now caller (CallOpenidPrepareDelegation jwt salt) c =
     after (openid_prepare_delegation cr now caller jwt salt c)"
| "execute cr now caller (CallCreateAccount n origin nm) c = after (create_account_method cr now caller n origin nm c)"
| "execute cr now caller (CallUpdateAccount n origin k nm) c =
     after (update_account_method cr now caller n origin k nm c)"
| "execute cr now caller (CallSetDefaultAccount n origin k) c =
     after (set_default_account_method cr now caller n origin k c)"
| "execute cr now caller (CallPrepareDelegation n origin k session_key max_ttl) c =
     (case prepare_delegation_start cr now caller n c of
        None \<Rightarrow> None
      | Some (c, Inl _) \<Rightarrow> Some (c, [])
      | Some (c, Inr _) \<Rightarrow> Some (c, [PreparingDelegation caller n origin k session_key max_ttl]))"
| "execute cr now caller CallRegistrationStart c =
     (case identity_registration_start now caller c of
        None \<Rightarrow> None
      | Some (c, StartAnswered _) \<Rightarrow> Some (c, [])
      | Some (c, StartAwaitsCaptcha t) \<Rightarrow> Some (c, [StartingRegistration caller t]))"
| "execute cr now caller (CallCheckCaptcha solution) c =
     (case check_captcha now caller solution c of
        (c, CheckAnswered _) \<Rightarrow> Some (c, [])
      | (c, CheckAwaitsCaptcha t) \<Rightarrow> Some (c, [RetryingCaptcha caller t]))"
| "execute cr now caller (CallRegistrationFinish arg) c = after (identity_registration_finish cr now caller arg c)"
| "execute cr now caller (CallOpenidRegistrationFinish jwt salt nm) c =
     after (openid_identity_registration_finish cr now caller jwt salt nm c)"
| "execute cr now caller (CallAcknowledge q) c = map_option (\<lambda>c. (c, [])) (acknowledge_entries_method caller q c)"
| "execute cr now caller CallInitSalt c =
     (if storage_salt (cn_storage c) \<noteq> None then None else Some (c, [InitializingSalt]))"
| "execute cr now caller (CallPrepareAttributes r) c = after (prepare_attributes_start cr now caller r c)"
| "execute cr now caller (CallPrepareIcrc3Attributes r) c = after (prepare_icrc3_attributes_start cr now caller r c)"
| "execute cr now caller (CallPrepareIdAlias n) c = after (prepare_id_alias_start cr now caller n c)"

fun resume ::
  "('w, 'k, 'r) crates \<Rightarrow> timestamp \<Rightarrow> bytes \<Rightarrow> continuation \<Rightarrow> 'k canister \<Rightarrow> 'k canister option" where
  "resume cr now seed CreatingChallenge c = map_option fst (create_challenge_method cr now seed c)"
| "resume cr now seed (AddingTentativeDevice n data) c =
     map_option fst (add_tentative_device_method cr now seed n data c)"
| "resume cr now seed (RegisteringAuthnMethod n m) c = map_option fst (authn_method_register cr now seed n m c)"
| "resume cr now seed (RegisteringSession caller n) c =
     map_option fst (authn_method_session_register cr now seed caller n c)"
| "resume cr now seed InitializingSalt c = init_salt seed c"
| "resume cr now seed (PreparingDelegation caller n origin k session_key max_ttl) c =
     map_option fst (prepare_delegation_finish cr now caller n origin k session_key max_ttl c)"
| "resume cr now seed (StartingRegistration caller t) c =
     Some (fst (registration_start_captcha_ready cr now caller t seed c))"
| "resume cr now seed (RetryingCaptcha caller t) c =
     Some (fst (check_captcha_captcha_ready cr now caller t seed c))"

text \<open>Arguments of their Rust type: an AAGUID has 16 bytes.\<close>

fun call_typed :: "call \<Rightarrow> bool" where
  "call_typed (CallRegister data _ _ _) = aaguid_ok (dev_aaguid data)"
| "call_typed (CallAdd _ data) = aaguid_ok (dev_aaguid data)"
| "call_typed (CallUpdate _ _ data) = aaguid_ok (dev_aaguid data)"
| "call_typed (CallReplace _ _ data) = aaguid_ok (dev_aaguid data)"
| "call_typed (CallAddTentativeDevice _ data) = aaguid_ok (dev_aaguid data)"
| "call_typed _ = True"

fun continuation_typed :: "continuation \<Rightarrow> bool" where
  "continuation_typed (AddingTentativeDevice _ data) = aaguid_ok (dev_aaguid data)"
| "continuation_typed _ = True"

section \<open>The system\<close>

text \<open>
  The messages interleave with the housekeeping of the canister: the migration of the index keys,
  the deployment of the archive and the refresh of the keys of the OpenID providers, whose results
  are arbitrary here. \<open>starts\<close> counts the registrations the rate limit let pass.
\<close>

definition lets_pass :: "timestamp \<Rightarrow> 'k canister \<Rightarrow> call \<Rightarrow> nat" where
  "lets_pass now c call =
     (case call of
        CallRegister _ _ _ _ \<Rightarrow> (case process_rate_limit now (cn_rate_limit_config c) (cn_rate_limit c) of Some (_, True) \<Rightarrow> 1 | _ \<Rightarrow> 0)
      | CallRegistrationStart \<Rightarrow> (case process_rate_limit now (cn_rate_limit_config c) (cn_rate_limit c) of Some (_, True) \<Rightarrow> 1 | _ \<Rightarrow> 0)
      | _ \<Rightarrow> 0)"

inductive system_step ::
  "('w, 'k, 'r) crates \<Rightarrow> 'k canister \<times> continuation list \<times> nat \<Rightarrow> 'k canister \<times> continuation list \<times> nat \<Rightarrow> bool"
  for cr where
  step_call: "execute cr now caller call c = Some (c', awaiting) \<Longrightarrow> call_typed call \<Longrightarrow>
     system_step cr (c, waits, starts) (c', waits @ awaiting, starts + lets_pass now c call)"
| step_resume: "resume cr now seed k c = Some c' \<Longrightarrow>
     system_step cr (c, before @ k # behind, starts) (c', before @ behind, starts)"
| step_lost: "system_step cr (c, before @ k # behind, starts) (c, before @ behind, starts)"
| step_migration: "system_step cr (c, waits, starts) (run_oidc_key_migration_batch c, waits, starts)"
| step_archive: "system_step cr (c, waits, starts) (c\<lparr>cn_archive_state := ar\<rparr>, waits, starts)"
| step_openid: "system_step cr (c, waits, starts) (c\<lparr>cn_openid := os\<rparr>, waits, starts)"

definition system_reachable where
  "system_reachable cr = (system_step cr)\<^sup>*\<^sup>*"

end
