(* ===== verification/Canister_Properties.thy ===== *)
theory Canister_Properties
  imports Canister_Calls
begin

text \<open>
  The properties of the canister as a whole: which callers change an identity, the limits every
  identity satisfies in every reachable state, and the rate limit on new identities.
\<close>

section \<open>One message\<close>

lemmas guarded_methods = remove_method_guarded
  get_anchor_info_guarded identity_info_guarded authn_method_add_guarded authn_method_replace_guarded
  metadata_replace_guarded security_settings_replace_guarded identity_metadata_replace_guarded
  identity_properties_replace_guarded enter_mode_guarded exit_mode_guarded verify_tentative_device_guarded
  confirm_guarded mode_enter_guarded openid_credential_add_guarded openid_credential_remove_guarded
  create_account_guarded update_account_guarded set_default_account_guarded
  prepare_attributes_start_guarded prepare_icrc3_attributes_start_guarded prepare_id_alias_start_guarded

text \<open>What a message other than the four exceptions does to the identities.\<close>

definition only_authorized ::
  "('w, 'k, 'r) crates \<Rightarrow> timestamp \<Rightarrow> principal \<Rightarrow> 'k canister \<Rightarrow> 'k canister \<Rightarrow> bool" where
  "only_authorized cr now caller c c' \<longleftrightarrow>
     (identities_ok cr c \<longrightarrow> identities_ok cr c')
     \<and> (\<forall>k. reads c' k \<noteq> reads c k \<longrightarrow> authorized cr now caller k c)
     \<and> registration_part c' = registration_part c"

lemma after_guarded:
  assumes "guarded cr now caller n c f" and "after (f c) = Some (c', ks)"
  shows "ks = [] \<and> only_authorized cr now caller c c'"
proof -
  obtain r where run: "f c = Some (c', r)" and ks: "ks = []"
    using assms(2) by (auto simp: after_def)
  have "reads c' k = reads c k \<or> k = n \<and> authorized cr now caller n c" for k
    using assms(1) run unfolding guarded_def touches_def by (metis fun_cong)
  moreover have "(identities_ok cr c \<longrightarrow> identities_ok cr c') \<and> registration_part c' = registration_part c"
    using assms(1) run unfolding guarded_def touches_def by blast
  ultimately show ?thesis using ks unfolding only_authorized_def by blast
qed

lemmas executed = guarded_methods [THEN after_guarded]
lemmas executed_typed = add_method_guarded [THEN after_guarded, rotated]
  update_method_guarded [THEN after_guarded, rotated] replace_method_guarded [THEN after_guarded, rotated]

lemma keep_only_authorized:
  assumes "cn_identities c' = cn_identities c" and "cn_flows c' = cn_flows c"
    and "tentative_typed (cn_tentative c) \<Longrightarrow> tentative_typed (cn_tentative c')"
  shows "only_authorized cr now caller c c'"
  using reads_cong [OF assms(1)] identities_ok_cong [of cr c c'] registration_part_keep [of c' c] assms
  by (auto simp: only_authorized_def identities_ok_def)

text \<open>The starts of registrations that wait for their captcha.\<close>

fun is_starting :: "continuation \<Rightarrow> bool" where
  "is_starting (StartingRegistration _ _) = True"
| "is_starting _ = False"

definition starting :: "continuation list \<Rightarrow> nat" where
  "starting ks = length (filter is_starting ks)"

lemma starting_simps [simp]:
  "starting [] = 0" "starting (k # ks) = (if is_starting k then 1 else 0) + starting ks"
  "starting (ks @ js) = starting ks + starting js"
  by (simp_all add: starting_def)

lemma prepare_delegation_executed:
  assumes "execute cr now caller (CallPrepareDelegation n origin k session_key max_ttl) c = Some (c', ks)"
  shows "only_authorized cr now caller c c' \<and> list_all continuation_typed ks \<and> starting ks = 0"
proof -
  obtain r where run: "prepare_delegation_start cr now caller n c = Some (c', r)"
    and ks: "ks = [] \<or> ks = [PreparingDelegation caller n origin k session_key max_ttl]"
    using assms by (auto split: option.splits sum.splits)
  have "after (prepare_delegation_start cr now caller n c) = Some (c', [])" by (simp add: after_def run)
  from after_guarded [OF prepare_delegation_start_guarded this] ks show ?thesis by auto
qed

lemma acknowledge_keeps:
  "acknowledge_entries_method caller q c = Some c' \<Longrightarrow>
   cn_identities c' = cn_identities c \<and> cn_tentative c' = cn_tentative c \<and> cn_flows c' = cn_flows c"
  by (auto simp: acknowledge_entries_method_def acknowledge_entries_def prune_archive_entries_def Let_def
      identity_part_def split: option.splits archive_state.splits if_splits)

lemma registration_start_keeps:
  "identity_registration_start now caller c = Some (c', out) \<Longrightarrow>
   cn_storage c' = cn_storage c \<and> cn_tentative c' = cn_tentative c"
  by (auto simp: identity_registration_start_def store_new_flow_def Let_def split: option.splits if_splits prod.splits)

lemma check_captcha_keeps:
  "check_captcha now caller solution c = (c', out) \<Longrightarrow>
   cn_storage c' = cn_storage c \<and> cn_tentative c' = cn_tentative c"
  by (auto simp: check_captcha_def split: option.splits registration_flow_state.splits if_splits prod.splits)

text \<open>Messages with no part in registrations that need no exception.\<close>

fun ordinary :: "call \<Rightarrow> bool" where
  "ordinary (CallRegister _ _ _ _) = False"
| "ordinary (CallModeExit _ _) = False"
| "ordinary (CallOpenidPrepareDelegation _ _) = False"
| "ordinary (CallRegistrationFinish _) = False"
| "ordinary (CallOpenidRegistrationFinish _ _ _) = False"
| "ordinary CallRegistrationStart = False"
| "ordinary (CallCheckCaptcha _) = False"
| "ordinary _ = True"

lemma ordinary_executed:
  assumes "execute cr now caller call c = Some (c', ks)" and "call_typed call" and "ordinary call"
  shows "only_authorized cr now caller c c' \<and> list_all continuation_typed ks \<and> starting ks = 0"
proof (cases call)
  case (CallPrepareDelegation n origin k session_key max_ttl)
  then show ?thesis using prepare_delegation_executed assms(1) by blast
next
  case (CallAcknowledge q)
  with assms(1) show ?thesis by (auto dest!: acknowledge_keeps intro: keep_only_authorized)
qed (use assms in \<open>auto dest!: executed executed_typed intro: keep_only_authorized split: if_splits\<close>)

text \<open>The continuations change no identity.\<close>

lemma init_salt_effect:
  assumes "init_salt seed c = Some c'"
  shows "identities_ok cr c \<Longrightarrow> identities_ok cr c'" and "unchanged c c'" and "cn_flows c' = cn_flows c"
proof -
  obtain s where up: "update_salt (cn_storage c) seed = Some s" and len: "length seed = 32" and c': "c' = c\<lparr>cn_storage := s\<rparr>"
    using assms by (auto simp: init_salt_def split: if_splits option.splits)
  have s: "s = flush ((cn_storage c)\<lparr>st_header := (st_header (cn_storage c))\<lparr>h_salt := seed\<rparr>\<rparr>)"
    using up by (auto simp: update_salt_def split: if_splits)
  have "reads c' = reads c"
    by (simp add: c' s reads_def fun_eq_iff storage_read_def anchor_number_to_record_number_def
        assigned_anchor_number_range_def flush_def)
  then show "unchanged c c'" by (simp add: unchanged_def c' s anchor_count_def flush_def)
  then show "identities_ok cr c \<Longrightarrow> identities_ok cr c'"
    using update_salt_ok [OF up len] by (simp add: identities_ok_def unchanged_def) (simp add: c')
  show "cn_flows c' = cn_flows c" by (simp add: c')
qed

lemma resume_effect:
  assumes "resume cr now seed k c = Some c'" and "continuation_typed k"
  shows "identities_ok cr c \<Longrightarrow> identities_ok cr c'" and "unchanged c c'"
proof -
  have "(identities_ok cr c \<longrightarrow> identities_ok cr c') \<and> unchanged c c'"
  proof (cases k)
    case InitializingSalt
    then show ?thesis using assms init_salt_effect by auto
  next
    case (PreparingDelegation p n origin j sk ttl)
    with assms have "cn_identities c' = cn_identities c" "cn_tentative c' = cn_tentative c"
      by (auto simp: prepare_delegation_finish_def split: option.splits prod.splits
          intro!: anchor_part_identity dest!: prepare_account_delegation_keeps)
    then show ?thesis using identities_ok_cong [of cr c c'] by (auto simp: identities_ok_def intro: unchangedI)
  next
    case (AddingTentativeDevice n data)
    with assms obtain r where run: "add_tentative_device_method cr now seed n data c = Some (c', r)" by auto
    then have "cn_storage c' = cn_storage c"
      by (auto simp: add_tentative_device_method_def split: option.splits prod.splits)
    with run AddingTentativeDevice assms(2) add_tentative_device_touches [of data cr 0 c now seed n]
    show ?thesis by (auto simp: touches_def intro: unchangedI)
  next
    case (RegisteringAuthnMethod n m)
    with assms obtain r where run: "authn_method_register cr now seed n m c = Some (c', r)" by auto
    then have "cn_storage c' = cn_storage c"
      by (auto simp: authn_method_register_def add_tentative_device_method_def op_map_err_Some
          split: option.splits prod.splits sum.splits)
    with run authn_method_register_touches [of cr 0 c now seed n m]
    show ?thesis by (auto simp: touches_def intro: unchangedI)
  next
    case (RegisteringSession p n)
    with assms obtain r where run: "authn_method_session_register cr now seed p n c = Some (c', r)" by auto
    then have "cn_storage c' = cn_storage c"
      by (auto simp: authn_method_session_register_def split: option.splits prod.splits if_splits)
    with run session_register_touches [of cr 0 c now seed p n]
    show ?thesis by (auto simp: touches_def intro: unchangedI)
  qed (use assms in \<open>auto simp: create_challenge_method_def registration_start_captcha_ready_def store_new_flow_def
      check_captcha_captcha_ready_def captcha_flow_state_def identities_ok_def reads_def
      split: option.splits prod.splits intro!: unchangedI\<close>)
  then show "identities_ok cr c \<Longrightarrow> identities_ok cr c'" and "unchanged c c'" by blast+
qed

end
