(* ===== verification/Device_Access.thy ===== *)
theory Device_Access
  imports Guarded_Methods
begin

text \<open>
  Access with a device: the owner of a device is accepted, and a removed device is rejected. The
  lemmas follow a successful operation through the check of the caller, the bookkeeping, the write
  and the archive, and read the written anchor back. The samples at the end are a canister with
  one identity.
\<close>

section \<open>The owner of a device\<close>

lemma owner_accepted:
  assumes "reads c n = Some (Inr a)" and "d \<in> set (a_devices a)" and "caller = cr_sa cr (dev_pubkey d)"
  obtains keys k where "check_authorization cr now caller n c = Some (c\<lparr>cn_temp_keys := keys\<rparr>, Inr (a, DeviceKey k))"
    and "k \<in> set (map dev_pubkey (a_devices a))"
proof -
  obtain keys k where dev: "authorizing_device (cr_sa cr) now caller n (a_devices a) (cn_temp_keys c) = (keys, Some k)"
    using authorizing_device_accepts [OF assms(2), of "cr_sa cr" caller now n "cn_temp_keys c"] assms(3)
    by (cases "authorizing_device (cr_sa cr) now caller n (a_devices a) (cn_temp_keys c)") auto
  have "state_anchor n c = Some a" using assms(1) by (simp add: state_anchor_iff)
  with dev have "check_authorization cr now caller n c = Some (c\<lparr>cn_temp_keys := keys\<rparr>, Inr (a, DeviceKey k))"
    by (simp add: check_authorization_def)
  moreover have "k \<in> set (map dev_pubkey (a_devices a))" using authorizing_device_SomeD [OF dev] by auto
  ultimately show thesis by (rule that)
qed

lemma write_anchor_readable:
  assumes "reads c (a_number a') = Some (Inr a)" and "aaguids_ok a'"
  obtains s where "write_anchor cr a' c = Some (c\<lparr>cn_storage := s\<rparr>, Inr ())"
    and "storage_read s (a_number a') = Some (Inr (anchor_after_storage a'))"
proof -
  obtain r where "anchor_number_to_record_number (cn_storage c) (a_number a') = Inr r"
    "r \<le> h_num_anchors (st_header (cn_storage c))"
    using assms(1) by (auto simp: reads_def storage_read_def split: sum.splits if_splits)
  then obtain s where w: "storage_write (cr_sa cr) (cn_storage c) a' = Inr s" by (simp add: storage_write_Inr)
  then have "write_anchor cr a' c = Some (c\<lparr>cn_storage := s\<rparr>, Inr ())" by (simp add: write_anchor_def)
  moreover have "storage_read s (a_number a') = Some (Inr (anchor_after_storage a'))"
    using assms anchor_round_trip [OF assms(2)] by (simp add: storage_read_after_write [OF w] reads_def)
  ultimately show thesis by (rule that)
qed

lemma set_after_storage: "set (map dev_pubkey (a_devices (anchor_after_storage a))) = set (map dev_pubkey (a_devices a))"
proof -
  have "mset (storage_order (a_devices a)) = mset (a_devices a)" by simp
  then have "set (storage_order (a_devices a)) = set (a_devices a)" by (rule mset_eq_setD)
  then show ?thesis by (simp add: anchor_after_storage_def image_image)
qed

lemma find_device: "k \<in> set (map dev_pubkey (a_devices a)) \<Longrightarrow> \<exists>d. anchor_device a k = Some d"
  by (auto simp: anchor_device_def find_None_iff not_None_eq [symmetric] simp del: not_None_eq)

lemma usage_recorded:
  assumes "identity_ok a" and "k \<in> set (map dev_pubkey (a_devices a))"
  obtains a' where "activity_bookkeeping now a (DeviceKey k) activity
      = Some (a', update_activity_stats now a (DeviceKey k) activity)"
    and "a_number a' = a_number a" and "aaguids_ok a'" and "map dev_pubkey (a_devices a') = map dev_pubkey (a_devices a)"
proof -
  obtain i where i: "device_index a k = Inr i" using device_index_present [OF assms(2)] by blast
  define a' where "a' = a\<lparr>a_devices := (a_devices a)[i := (a_devices a ! i)\<lparr>dev_last_usage := Some now\<rparr>]\<rparr>"
  have set: "set_device_usage_timestamp a k now = Inr a'" using i by (simp add: set_device_usage_timestamp_def a'_def)
  have "map dev_pubkey (a_devices a') = map dev_pubkey (a_devices a)"
    using device_index_Inr [OF i] by (simp add: a'_def) (intro map_update_same, simp_all)
  with set_device_usage_timestamp_identity [OF set] assms(1) show thesis
    by (intro that [of a']) (simp_all add: activity_bookkeeping_def set keeps_identity_ok_def identity_ok_aaguids)
qed

lemma owner_activity_recorded:
  assumes "identities_ok cr c" and "reads c n = Some (Inr a)" and "d \<in> set (a_devices a)"
    and "caller = cr_sa cr (dev_pubkey d)"
  obtains c' domain b where "check_authz_and_record_activity cr now caller n c = Some (c', Inr domain)"
    and "reads c' n = Some (Inr b)" and "set (map dev_pubkey (a_devices b)) = set (map dev_pubkey (a_devices a))"
proof -
  obtain keys k where auth: "check_authorization cr now caller n c = Some (c\<lparr>cn_temp_keys := keys\<rparr>, Inr (a, DeviceKey k))"
    and k: "k \<in> set (map dev_pubkey (a_devices a))" by (rule owner_accepted [OF assms(2-4), of now])
  obtain d' where dev: "anchor_device a k = Some d'" using find_device [OF k] by blast
  have "identity_ok a" using assms(1,2) by (simp add: identities_ok_def)
  from this k obtain a' where act: "activity_bookkeeping now a (DeviceKey k) (cn_activity c)
      = Some (a', update_activity_stats now a (DeviceKey k) (cn_activity c))"
    and a': "a_number a' = a_number a" "aaguids_ok a'" "map dev_pubkey (a_devices a') = map dev_pubkey (a_devices a)"
    by (rule usage_recorded)
  note num = reads_number [OF assms(2)]
  define c1 where "c1 = c\<lparr>cn_temp_keys := keys, cn_activity := update_activity_stats now a (DeviceKey k) (cn_activity c)\<rparr>"
  obtain s where w: "write_anchor cr a' c1 = Some (c1\<lparr>cn_storage := s\<rparr>, Inr ())"
    and rd: "storage_read s n = Some (Inr (anchor_after_storage a'))"
    using write_anchor_readable [of c1 a' a cr] assms(2) a' num by (auto simp: c1_def reads_def)
  have "check_authz_and_record_activity cr now caller n c = Some (c1\<lparr>cn_storage := s\<rparr>, Inr (device_ii_domain d'))"
    using w by (simp add: check_authz_and_record_activity_def auth op_bind_def op_map_err_def dev act c1_def)
  moreover have "reads (c1\<lparr>cn_storage := s\<rparr>) n = Some (Inr (anchor_after_storage a'))" using rd by (simp add: reads_def)
  moreover have "set (map dev_pubkey (a_devices (anchor_after_storage a'))) = set (map dev_pubkey (a_devices a))"
    by (simp only: set_after_storage a'(3))
  ultimately show thesis by (rule that)
qed

text \<open>
  Property C4. The owner of an identity is not locked out: the principal of any of its devices is accepted,
  in any state with the invariant and at any time, and is shown the identity with all its devices.
\<close>

theorem device_owner_accepted:
  assumes "identities_ok cr c" and "reads c n = Some (Inr a)" and "d \<in> set (a_devices a)"
    and "caller = cr_sa cr (dev_pubkey d)"
  shows "\<exists>c' info. get_anchor_info_method cr now caller n c = Some (c', Inr info)
    \<and> set (map dev_pubkey (iai_devices info)) = set (map dev_pubkey (a_devices a))"
proof -
  obtain c1 domain b where "check_authz_and_record_activity cr now caller n c = Some (c1, Inr domain)"
    and "state_anchor n c1 = Some b" and "set (map dev_pubkey (a_devices b)) = set (map dev_pubkey (a_devices a))"
    by (rule owner_activity_recorded [OF assms, of now]) (simp add: state_anchor_iff)
  moreover obtain t r where "get_tentative_registration now n (cn_tentative c1) = (t, r)" by fastforce
  ultimately show ?thesis
    by (simp add: get_anchor_info_method_def op_bind_def trap_on_error_def management_get_anchor_info_def)
qed

section \<open>A removed device\<close>

lemma check_authorization_key:
  "check_authorization cr now caller n c = Some (c', Inr (a, DeviceKey k)) \<Longrightarrow>
   reads c n = Some (Inr a) \<and> k \<in> set (map dev_pubkey (a_devices a))"
  by (auto simp: check_authorization_def state_anchor_iff split: option.splits prod.splits dest: authorizing_device_SomeD)

lemma anchor_operation_success:
  assumes "anchor_operation_with_authz_check cr now caller conv n f c = Some (c', Inr x)"
  obtains c1 a key a1 activity c2 operation b d
  where "check_authorization cr now caller n c = Some (c1, Inr (a, key))"
    and "activity_bookkeeping now a key (cn_activity c1) = Some (a1, activity)"
    and "f a1 (c1\<lparr>cn_activity := activity\<rparr>) = Some (c2, Inr (x, operation, b))"
    and "write_anchor cr b c2 = Some (d, Inr ())"
    and "post_operation_bookkeeping cr now caller n operation d = Some c'"
  using assms
  by (auto simp: anchor_operation_with_authz_check_def op_bind_Some op_map_err_Inr split: option.splits)

lemma written_anchor_reads:
  assumes "write_anchor cr b c = Some (d, Inr ())" and "post_operation_bookkeeping cr now caller n operation d = Some c'"
    and "reads c (a_number b) = Some (Inr a)" and "aaguids_ok b"
  shows "reads c' (a_number b) = Some (Inr (anchor_after_storage b))"
proof -
  obtain s where "write_anchor cr b c = Some (c\<lparr>cn_storage := s\<rparr>, Inr ())"
    and "storage_read s (a_number b) = Some (Inr (anchor_after_storage b))"
    by (rule write_anchor_readable [OF assms(3,4)])
  with assms(1) have "reads d (a_number b) = Some (Inr (anchor_after_storage b))" by (auto simp: reads_def)
  moreover have "reads c' = reads d" using post_operation_keeps [OF assms(2)] by (intro reads_cong) simp
  ultimately show ?thesis by simp
qed

lemma temp_keys_write: "write_anchor cr b c = Some (d, r) \<Longrightarrow> cn_temp_keys d = cn_temp_keys c"
  by (auto simp: write_anchor_def split: sum.splits)

lemma temp_keys_post: "post_operation_bookkeeping cr now caller n operation d = Some c' \<Longrightarrow> cn_temp_keys c' = cn_temp_keys d"
  by (auto simp: post_operation_bookkeeping_def split: option.splits)

lemma removed_device_written:
  assumes ok: "identities_ok cr c" and run: "remove_method cr now caller n k c = Some (c', Inr ())"
  obtains b where "reads c' n = Some (Inr (anchor_after_storage b))" and "k \<notin> set (map dev_pubkey (a_devices b))"
    and "om_get (tks_keys (cn_temp_keys c')) (n, k) = None"
proof -
  obtain c1 a key a1 activity c2 operation b d
    where auth: "check_authorization cr now caller n c = Some (c1, Inr (a, key))"
      and act: "activity_bookkeeping now a key (cn_activity c1) = Some (a1, activity)"
      and op': "(case management_remove_device (cr_sa cr) caller n a1 k (cn_temp_keys (c1\<lparr>cn_activity := activity\<rparr>)) of
          None \<Rightarrow> None
        | Some (operation, anchor, keys) \<Rightarrow>
            Some (c1\<lparr>cn_activity := activity, cn_temp_keys := keys\<rparr>, Inr ((), operation, anchor)))
        = Some (c2, Inr ((), operation, b) :: unit + unit \<times> operation \<times> anchor)"
      and w: "write_anchor cr b c2 = Some (d, Inr ())"
      and post: "post_operation_bookkeeping cr now caller n operation d = Some c'"
    using run unfolding remove_method_def trap_on_error_Some by (auto elim!: anchor_operation_success)
  from op' have op: "management_remove_device (cr_sa cr) caller n a1 k (cn_temp_keys c1) = Some (operation, b, cn_temp_keys c2)"
    "cn_storage c2 = cn_storage c1" by (auto split: option.splits)
  note c1 = check_authorization_Inr [OF auth]
  have a1: "identity_ok a1" "a_number a1 = n"
    using activity_bookkeeping_identity [OF act] c1(6) [OF ok] c1(4) by (simp_all add: keeps_identity_ok_def)
  have rem: "remove_device (cr_sa cr) caller a1 k = Inr b" and keys: "cn_temp_keys c2 = remove_temp_key (n, k) (cn_temp_keys c1)"
    using op(1) by (auto simp: management_remove_device_def split: sum.splits)
  have b: "identity_ok b" "a_number b = n"
    using remove_device_identity [OF rem] a1 by (simp_all add: keeps_identity_ok_def)
  have "reads c2 n = Some (Inr a)" using c1(1,2) op(2) by (simp add: reads_def)
  with written_anchor_reads [OF w post] b have "reads c' n = Some (Inr (anchor_after_storage b))"
    by (simp add: identity_ok_aaguids)
  moreover have "k \<notin> set (map dev_pubkey (a_devices b))"
    using rem a1(1) remove_nth_notin [of "map dev_pubkey (a_devices a1)"]
    by (auto simp: remove_device_Inr identity_ok_def map_remove_nth dest!: device_index_Inr simp del: set_map)
  moreover have "om_get (tks_keys (cn_temp_keys c')) (n, k) = None"
    by (simp add: temp_keys_post [OF post] temp_keys_write [OF w] keys remove_temp_key_def)
  ultimately show thesis by (rule that)
qed

text \<open>
  Property C5. A removed device is rejected at once: after \<open>remove\<close> has succeeded no later caller is
  authorized by its key, neither by its own principal nor by a temporary key.
\<close>

theorem removed_device_rejected:
  assumes "identities_ok cr c" and "remove_method cr now caller n k c = Some (c', r)"
    and "check_authorization cr later p n c' = Some (c'', Inr (a, key))"
  shows "key \<noteq> DeviceKey k \<and> k \<notin> set (map dev_pubkey (a_devices a))
    \<and> om_get (tks_keys (cn_temp_keys c')) (n, k) = None"
proof -
  have "r = Inr ()" using assms(2) by (auto simp: remove_method_def trap_on_error_Some)
  with assms(2) obtain b where b: "reads c' n = Some (Inr (anchor_after_storage b))" "k \<notin> set (map dev_pubkey (a_devices b))"
    "om_get (tks_keys (cn_temp_keys c')) (n, k) = None"
    by (auto elim!: removed_device_written [OF assms(1)] simp del: set_map)
  have "a = anchor_after_storage b" using check_authorization_Inr(1) [OF assms(3)] b(1) by simp
  then have "k \<notin> set (map dev_pubkey (a_devices a))" using b(2) by (simp only: set_after_storage not_False_eq_True)
  then show ?thesis using assms(3) b(3) by (auto dest: check_authorization_key)
qed

section \<open>A canister with one identity\<close>

definition sample_crates :: "(string, nat, unit) crates" where
  "sample_crates =
     \<lparr>cr_sa = (\<lambda>k. k), cr_sha = (\<lambda>b. b), cr_der = (\<lambda>b. b), cr_encode = (\<lambda>_. []), cr_fits = (\<lambda>_. True),
      cr_fits_discrepancy = (\<lambda>_. True), cr_next_u32 = (\<lambda>b. (0, b)), cr_create_captcha = (\<lambda>_. ([], [])),
      cr_jose = sample_jose\<rparr>"

definition sample_canister :: "nat canister" where
  "sample_canister =
     \<lparr>cn_storage = sample_storage, cn_rates = new_registration_rates [] [], cn_temp_keys = new_temp_keys,
      cn_flows = new_flow_states, cn_challenges = om_empty, cn_tentative = no_registrations, cn_rate_limit = None,
      cn_anchor_operation_counter = 0, cn_archive_state = NotConfigured,
      cn_rate_limit_config = \<lparr>rlc_time_per_token_ns = 1000, rlc_max_tokens = 10\<rparr>,
      cn_captcha_config = \<lparr>cc_max_unsolved_captchas = 500, cc_captcha_trigger = StaticTrigger CaptchaDisabled\<rparr>,
      cn_activity = new_anchor_activity 0, cn_openid = sample_openid_state\<rparr>"

definition sample_identity :: "nat canister" where
  "sample_identity = sample_canister\<lparr>cn_storage := sample_stored\<rparr>"

lemma sample_identity_read: "reads sample_identity 10000 = Some (Inr (anchor_after_storage sample_anchor))"
  by (simp add: reads_def sample_identity_def sample_stored_read)

lemma sample_identity_anchor:
  "anchor_after_storage sample_anchor = (anchor_new 10000 7)\<lparr>a_devices :=
     [sample_passkey, sample_phrase\<lparr>dev_alias := ''Recovery Key''\<rparr>]\<rparr>"
  by (simp add: anchor_after_storage_def sample_anchor_def storage_order_def stored_as_recovery_device_def
      stored_as_passkey_def stored_as_recovery_key_iff sample_phrase_def sample_passkey_def device_after_storage_eq
      anchor_new_def complete_passkey_def passkey_key_type_def)

lemma identity_ok_sample: "identity_ok sample_anchor"
  by (simp add: identity_ok_def sample_anchor_def anchor_new_def MAX_DEVICES_PER_ANCHOR_def sample_device_simps
      aaguid_ok_def opt_len_def)

lemma sample_identities_ok: "identities_ok sample_crates sample_identity"
proof -
  have "n = 10000" if "storage_read sample_stored n = Some (Inr a)" for n a
  proof -
    from that obtain r where r: "anchor_number_to_record_number sample_stored n = Inr r" "r < 1"
      by (auto simp: storage_read_def sample_stored_header not_le split: sum.splits if_splits)
    have "range_ok sample_stored" using sample_stored_ok by (simp add: storage_ok_def header_ok_def)
    with r show ?thesis by (auto simp: record_number_Inr sample_stored_header unat64_eqI)
  qed
  then have "identity_ok a" if "storage_read sample_stored n = Some (Inr a)" for n a
    using that sample_stored_read identity_ok_after_storage [OF identity_ok_sample] by fastforce
  then show ?thesis
    using sample_stored_ok
    by (auto simp: identities_ok_def reads_def sample_identity_def sample_crates_def sample_canister_def
        tentative_typed_def no_registrations_def)
qed

lemma sample_state_anchor: "state_anchor 10000 sample_identity = Some (anchor_after_storage sample_anchor)"
  by (simp add: state_anchor_iff sample_identity_read)

definition sample_remaining :: anchor where
  "sample_remaining = (anchor_new 10000 7)\<lparr>a_devices := [sample_phrase\<lparr>dev_alias := ''Recovery Key''\<rparr>]\<rparr>"

lemma sample_projections:
  "cr_sa sample_crates = (\<lambda>k. k)" "cn_storage sample_identity = sample_stored"
  "cn_archive_state sample_identity = NotConfigured"
  by (simp_all add: sample_crates_def sample_identity_def sample_canister_def)

lemma sample_removed:
  obtains c' where "remove_method sample_crates 9 [4, 5] 10000 [4, 5] sample_identity = Some (c', Inr ())"
    and "reads c' 10000 = Some (Inr (anchor_after_storage sample_remaining))"
proof -
  let ?a = "anchor_after_storage sample_anchor"
  have k: "dev_pubkey sample_passkey = [4, 5]" "dev_pubkey sample_phrase = [1, 2, 3]"
    by (simp_all add: sample_passkey_def sample_phrase_def)
  have auth: "check_authorization sample_crates 9 [4, 5] 10000 sample_identity
      = Some (sample_identity, Inr (?a, DeviceKey [4, 5]))"
    by (simp add: check_authorization_def sample_state_anchor sample_identity_anchor k sample_projections)
  let ?b = "(anchor_new 10000 7)\<lparr>a_devices := [sample_passkey\<lparr>dev_last_usage := Some 9\<rparr>,
      sample_phrase\<lparr>dev_alias := ''Recovery Key''\<rparr>]\<rparr>"
  have set: "set_device_usage_timestamp ?a [4, 5] 9 = Inr ?b"
    by (simp add: set_device_usage_timestamp_def device_index_def position.simps k sample_identity_anchor anchor_new_def)
  have rem: "remove_device (\<lambda>k. k) [4, 5] ?b [4, 5] = Inr sample_remaining"
    by (simp add: remove_device_def device_index_def position.simps k check_mutation_allowed_def sample_passkey_def
        sample_remaining_def anchor_new_def remove_nth_def)
  obtain s where w: "storage_write (\<lambda>k. k) sample_stored sample_remaining = Inr s"
    using storage_write_Inr [of "\<lambda>k. k" sample_stored sample_remaining]
    by (auto simp: sample_remaining_def sample_record_number)
  have n: "a_number sample_remaining = 10000" by (simp add: sample_remaining_def)
  have "aaguids_ok sample_remaining"
    by (simp add: aaguids_ok_def sample_remaining_def sample_phrase_def aaguid_ok_def)
  from anchor_round_trip [OF this] have rd: "storage_read s 10000 = Some (Inr (anchor_after_storage sample_remaining))"
    using storage_read_after_write [OF w, of 10000] by (simp add: n sample_stored_read)
  define c' where "c' = sample_identity
    \<lparr>cn_activity := update_activity_stats 9 ?a (DeviceKey [4, 5]) (cn_activity sample_identity),
     cn_temp_keys := remove_temp_key (10000, [4, 5]) (cn_temp_keys sample_identity), cn_storage := s,
     cn_archive_state := NotConfigured, cn_anchor_operation_counter := cn_anchor_operation_counter sample_identity + 1\<rparr>"
  have "remove_method sample_crates 9 [4, 5] 10000 [4, 5] sample_identity = Some (c', Inr ())"
    by (simp add: remove_method_def trap_on_error_def anchor_operation_with_authz_check_def auth op_bind_def op_map_err_def
        activity_bookkeeping_def set management_remove_device_def rem write_anchor_def sample_projections
        w post_operation_bookkeeping_def archive_operation_def c'_def)
  moreover have "cn_storage c' = s" unfolding c'_def by simp
  with rd have "reads c' 10000 = Some (Inr (anchor_after_storage sample_remaining))" by (simp add: reads_def)
  ultimately show thesis by (rule that)
qed

theorem removed_device_rejected_witness:
  "\<exists>c' c'' a key. remove_method sample_crates 9 [4, 5] 10000 [4, 5] sample_identity = Some (c', Inr ())
     \<and> check_authorization sample_crates 10 [1, 2, 3] 10000 c' = Some (c'', Inr (a, key)) \<and> key \<noteq> DeviceKey [4, 5]"
proof (rule sample_removed)
  fix c'
  assume rem: "remove_method sample_crates 9 [4, 5] 10000 [4, 5] sample_identity = Some (c', Inr ())"
    and rd: "reads c' 10000 = Some (Inr (anchor_after_storage sample_remaining))"
  have "[1, 2, 3] \<in> set (map dev_pubkey (a_devices (anchor_after_storage sample_remaining)))"
    unfolding set_after_storage by (simp add: sample_remaining_def sample_phrase_def)
  then obtain d where "d \<in> set (a_devices (anchor_after_storage sample_remaining))" "dev_pubkey d = [1, 2, 3]" by auto
  then obtain keys k where "check_authorization sample_crates 10 [1, 2, 3] 10000 c'
      = Some (c'\<lparr>cn_temp_keys := keys\<rparr>, Inr (anchor_after_storage sample_remaining, DeviceKey k))"
    by (elim owner_accepted [OF rd, of d "[1, 2, 3]" sample_crates 10]) (simp add: sample_projections)
  with removed_device_rejected [OF sample_identities_ok rem this] rem show ?thesis by blast
qed

theorem device_owner_accepted_witness:
  "\<exists>c' info. get_anchor_info_method sample_crates 9 [4, 5] 10000 sample_identity = Some (c', Inr info)
     \<and> set (map dev_pubkey (iai_devices info)) = {[4, 5], [1, 2, 3]}"
proof -
  have "sample_passkey \<in> set (a_devices (anchor_after_storage sample_anchor))" by (simp add: sample_identity_anchor)
  from device_owner_accepted [OF sample_identities_ok sample_identity_read this, of "[4, 5]" 9] show ?thesis
    by (simp add: sample_projections sample_identity_anchor) (simp add: sample_passkey_def sample_phrase_def)
qed

end
