(* ===== verification/Session_Provenance.thy ===== *)
theory Session_Provenance
  imports Canister_Properties
begin

text \<open>
  Where the sessions of the registration mode come from. \<open>sessions\<close> are the sessions that wait for their
  confirmation, with its code, or that have it. \<open>keeps_sessions\<close> is the judgment about a message that adds none.
  \<open>system_run\<close> records the messages the canister has executed; in every run a session was asked for by its own
  principal and confirmed by an authorized caller with its code.
\<close>

section \<open>The sessions of a state\<close>

fun session_of :: "registration_state \<Rightarrow> (principal \<times> confirmation_code option) option" where
  "session_of (SessionTentativelyAdded p code _) = Some (p, Some code)"
| "session_of (SessionTentativelyConfirmed p) = Some (p, None)"
| "session_of _ = None"

definition sessions :: "tentative_state \<Rightarrow> (anchor_number \<times> principal \<times> confirmation_code option) set" where
  "sessions s = {(n, x). \<exists>r. om_get (td_registrations s) n = Some r \<and> session_of (tr_state r) = Some x}"

lemma sessions_empty [simp]: "sessions no_registrations = {}"
  by (simp add: sessions_def no_registrations_def)

lemma sessions_prune: "sessions (prune_registrations now s) \<subseteq> sessions s"
  by (auto simp: sessions_def split: option.splits if_splits)

lemma sessions_remove: "sessions (remove_registration n s) \<subseteq> sessions s"
  by (auto simp: sessions_def remove_registration_def split: if_splits)

lemma sessions_set:
  "sessions (set_registration_state n st r s) \<subseteq> sessions s \<union> {(m, x). m = n \<and> session_of st = Some x}"
  by (auto simp: sessions_def set_registration_state_def split: if_splits)

lemma sessions_exit: "sessions (exit_device_registration_mode now n s) \<subseteq> sessions s"
  unfolding exit_device_registration_mode_def using sessions_remove sessions_prune by (rule subset_trans)

lemma sessions_enter: "enter_device_registration_mode now n i s = (t, r) \<Longrightarrow> sessions t \<subseteq> sessions s"
  using sessions_prune [of now s]
  by (auto simp: enter_device_registration_mode_def Let_def split: if_splits option.splits)
    (auto simp: sessions_def split: if_splits)

lemma sessions_get:
  "get_tentative_registration now n s = (t, r) \<Longrightarrow> sessions t \<subseteq> sessions s"
  "get_confirmed_session now n s = (t, p) \<Longrightarrow> sessions t \<subseteq> sessions s"
  using sessions_prune [of now s] by (auto simp: get_tentative_registration_def get_confirmed_session_def Let_def)

lemma sessions_add_device: "add_tentative_device sa st now code n d s = (t, r) \<Longrightarrow> sessions t \<subseteq> sessions s"
  using sessions_prune [of now s] sessions_set [of n _ _ "prune_registrations now s"]
  by (fastforce simp: add_tentative_device_def Let_def split: option.splits if_splits)

lemma sessions_add_session:
  "add_tentative_session now code n p s = (t, r) \<Longrightarrow> sessions t \<subseteq> insert (n, p, Some code) (sessions s)"
  using sessions_prune [of now s] sessions_set [of n _ _ "prune_registrations now s"]
  by (fastforce simp: add_tentative_session_def Let_def split: option.splits if_splits)

text \<open>A confirmation with the code of the session; a wrong code confirms none.\<close>

lemma sessions_failed:
  assumes "failed_confirmation n f failed r s = (t, res)" and "om_get (td_registrations s) n = Some r"
    and "session_of (f (failed + 1)) = session_of (tr_state r)"
  shows "sessions t \<subseteq> sessions s"
proof -
  have "{(m, x). m = n \<and> session_of (f (failed + 1)) = Some x} \<subseteq> sessions s"
    using assms(2,3) by (auto simp: sessions_def)
  then show ?thesis
    using assms(1) sessions_set [of n "f (failed + 1)" r s]
      sessions_remove [of n "set_registration_state n (f (failed + 1)) r s"]
    by (auto simp: failed_confirmation_def Let_def split: if_splits)
qed

lemma sessions_confirm:
  assumes "confirm_tentative_device_or_session now n code s = (t, r)"
  shows "sessions t \<subseteq> sessions s \<union> {(m, p, c). m = n \<and> c = None \<and> (n, p, Some code) \<in> sessions s}"
proof -
  let ?s = "prune_registrations now s"
  have sub: "sessions ?s \<subseteq> sessions s" by (rule sessions_prune)
  show ?thesis
  proof (cases "om_get (td_registrations ?s) n")
    case None
    with assms sub show ?thesis
      by (auto simp: confirm_tentative_device_or_session_def Let_def simp del: prune_registrations_get)
  next
    case (Some q)
    have wait: "(n, p, Some c) \<in> sessions s" if "tr_state q = SessionTentativelyAdded p c f" for p c f
      using sub Some that by (force simp: sessions_def simp del: prune_registrations_get)
    have upd: "sessions (set_registration_state n (SessionTentativelyConfirmed p) q ?s)
        \<subseteq> sessions s \<union> {(m, p, c). m = n \<and> c = None \<and> (n, p, Some code) \<in> sessions s}"
      if "tr_state q = SessionTentativelyAdded p code f" for p f
      using sessions_set [of n "SessionTentativelyConfirmed p" q ?s] sub wait [OF that] by auto
    have rem: "sessions (remove_registration n ?s) \<subseteq> sessions s"
      using sessions_remove sub by (rule subset_trans)
    have failed: "sessions t \<subseteq> sessions s"
      if "failed_confirmation n f k q ?s = (t, r)" "session_of (f (k + 1)) = session_of (tr_state q)" for f k
      using sessions_failed [OF that(1) Some that(2)] sub by (rule subset_trans)
    note step = assms [unfolded confirm_tentative_device_or_session_def Let_def Some option.case]
    show ?thesis
    proof (cases "tr_state q")
      case (SessionTentativelyAdded p c f)
      show ?thesis
      proof (cases "code = c")
        case True
        with step SessionTentativelyAdded upd show ?thesis by auto
      next
        case False
        with step have "failed_confirmation n (SessionTentativelyAdded p c) f q ?s = (t, r)"
          by (simp add: SessionTentativelyAdded)
        from failed [OF this] show ?thesis by (auto simp: SessionTentativelyAdded)
      qed
    next
      case (DeviceTentativelyAdded d c f)
      show ?thesis
      proof (cases "code = c")
        case True
        with step DeviceTentativelyAdded rem show ?thesis by auto
      next
        case False
        with step have "failed_confirmation n (DeviceTentativelyAdded d c) f q ?s = (t, r)"
          by (simp add: DeviceTentativelyAdded)
        from failed [OF this] show ?thesis by (auto simp: DeviceTentativelyAdded)
      qed
    qed (use step sub in auto)
  qed
qed

lemma confirmed_session_in:
  "get_confirmed_session now n s = (t, Some p) \<Longrightarrow> (n, p, None) \<in> sessions s"
  by (auto simp: get_confirmed_session_def Let_def sessions_def split: option.splits if_splits registration_state.splits)

section \<open>Messages that add no session\<close>

definition keeps_sessions :: "'k canister \<Rightarrow> ('k, 'e, 'a) message \<Rightarrow> bool" where
  "keeps_sessions c f \<longleftrightarrow> (\<forall>c' r. f c = Some (c', r) \<longrightarrow> sessions (cn_tentative c') \<subseteq> sessions (cn_tentative c))"

named_theorems session_free \<open>the messages that add no session\<close>

lemma keeps_sessionsI:
  "(\<And>c' r. f c = Some (c', r) \<Longrightarrow> sessions (cn_tentative c') \<subseteq> sessions (cn_tentative c)) \<Longrightarrow> keeps_sessions c f"
  by (simp add: keeps_sessions_def)

lemma keeps_sessions_same:
  "(\<And>c' r. f c = Some (c', r) \<Longrightarrow> cn_tentative c' = cn_tentative c) \<Longrightarrow> keeps_sessions c f"
  by (simp add: keeps_sessions_def)

lemma keeps_sessionsD: "keeps_sessions c f \<Longrightarrow> f c = Some (c', r) \<Longrightarrow> sessions (cn_tentative c') \<subseteq> sessions (cn_tentative c)"
  by (simp add: keeps_sessions_def)

lemma keeps_sessions_bind [session_free]:
  assumes "keeps_sessions c f" and "\<And>x c1. f c = Some (c1, Inr x) \<Longrightarrow> keeps_sessions c1 (g x)"
  shows "keeps_sessions c (\<lambda>c. op_bind (f c) g)"
proof (rule keeps_sessionsI)
  fix c' r
  assume "op_bind (f c) g = Some (c', r)"
  then consider e where "f c = Some (c', Inl e)" | c1 x where "f c = Some (c1, Inr x)" "g x c1 = Some (c', r)"
    by (auto simp: op_bind_Some)
  then show "sessions (cn_tentative c') \<subseteq> sessions (cn_tentative c)"
    by cases (use assms in \<open>(unfold keeps_sessions_def, blast)+\<close>)
qed

lemma keeps_sessions_map_err [session_free]: "keeps_sessions c f \<Longrightarrow> keeps_sessions c (\<lambda>c. op_map_err g (f c))"
  by (auto simp: keeps_sessions_def op_map_err_Some)

lemma keeps_sessions_trap [session_free]: "keeps_sessions c f \<Longrightarrow> keeps_sessions c (\<lambda>c. trap_on_error (f c))"
  by (auto simp: keeps_sessions_def trap_on_error_Some)

lemma keeps_sessions_lift [session_free]: "keeps_sessions c f \<Longrightarrow> keeps_sessions c (\<lambda>c. lift_unit (f c))"
  unfolding lift_unit_def by (rule keeps_sessions_trap)

lemma keeps_sessions_case [session_free]:
  "(v = None \<Longrightarrow> keeps_sessions c f) \<Longrightarrow> (\<And>y. v = Some y \<Longrightarrow> keeps_sessions c (g y)) \<Longrightarrow>
   keeps_sessions c (\<lambda>c. case v of None \<Rightarrow> f c | Some y \<Rightarrow> g y c)"
  "(\<And>e. w = Inl e \<Longrightarrow> keeps_sessions c (h e)) \<Longrightarrow> (\<And>y. w = Inr y \<Longrightarrow> keeps_sessions c (i y)) \<Longrightarrow>
   keeps_sessions c (\<lambda>c. case w of Inl e \<Rightarrow> h e c | Inr y \<Rightarrow> i y c)"
  by (cases v; simp) (cases w; simp)

lemma keeps_sessions_return [session_free]: "keeps_sessions c (\<lambda>c. Some (c, r))"
  by (simp add: keeps_sessions_def)

lemma write_anchor_session_free [session_free]: "keeps_sessions c (write_anchor cr a)"
  by (rule keeps_sessions_same) (auto simp: write_anchor_def split: sum.splits)

lemma check_authorization_session_free [session_free]: "keeps_sessions c (check_authorization cr now caller n)"
  by (rule keeps_sessions_same) (auto elim: check_authorization_cases)

lemma bookkeeping_session_free:
  "keeps_sessions c (\<lambda>c. case post_operation_bookkeeping cr now caller n operation c of None \<Rightarrow> None | Some c \<Rightarrow> Some (c, Inr x))"
  by (rule keeps_sessions_same) (auto split: option.splits dest!: post_operation_keeps)

lemma record_activity_session_free [session_free]:
  "keeps_sessions c (check_authz_and_record_activity cr now caller n)"
  unfolding check_authz_and_record_activity_def [abs_def]
proof (intro session_free)
  fix x and c1 :: "'a canister"
  show "keeps_sessions c1 ((\<lambda>(anchor, key) c.
          case (case key of
                  DeviceKey device_key \<Rightarrow> map_option device_ii_domain (anchor_device anchor device_key)
                | OpenIdCredentialKey _ _ \<Rightarrow> Some None) of
            None \<Rightarrow> None
          | Some maybe_domain \<Rightarrow>
              (case activity_bookkeeping now anchor key (cn_activity c) of
                 None \<Rightarrow> None
               | Some (anchor, activity) \<Rightarrow>
                   op_bind (op_map_err (IdentityStorageError n)
                              (write_anchor cr anchor (c\<lparr>cn_activity := activity\<rparr>)))
                     (\<lambda>_ c. Some (c, Inr maybe_domain)))) x)"
    by (rule keeps_sessions_same)
      (auto simp: op_bind_Some op_map_err_Some write_anchor_def split: option.splits prod.splits sum.splits)
qed

lemma anchor_operation_session_free [session_free]:
  assumes "\<And>a c c' r. f a c = Some (c', r) \<Longrightarrow> cn_tentative c' = cn_tentative c"
  shows "keeps_sessions c (anchor_operation_with_authz_check cr now caller conv n f)"
  unfolding anchor_operation_with_authz_check_def [abs_def]
proof (intro session_free)
  fix x :: "anchor \<times> authorization_key" and c1 :: "'a canister"
  obtain a key where x: "x = (a, key)" by (cases x)
  have "keeps_sessions c1 (\<lambda>c1. op_bind (f a' (c1\<lparr>cn_activity := activity\<rparr>)) (\<lambda>(ret, operation, anchor) c.
      op_bind (op_map_err (\<lambda>e. conv (IdentityStorageError n e)) (write_anchor cr anchor c))
        (\<lambda>_ c. case post_operation_bookkeeping cr now caller n operation c of
                 None \<Rightarrow> None | Some c \<Rightarrow> Some (c, Inr ret))))" for a' activity
  proof (rule keeps_sessions_bind)
    show "keeps_sessions c1 (\<lambda>c. f a' (c\<lparr>cn_activity := activity\<rparr>))"
      by (rule keeps_sessions_same) (use assms in fastforce)
    show "keeps_sessions c2 ((\<lambda>(ret, operation, anchor) c.
      op_bind (op_map_err (\<lambda>e. conv (IdentityStorageError n e)) (write_anchor cr anchor c))
        (\<lambda>_ c. case post_operation_bookkeeping cr now caller n operation c of
                 None \<Rightarrow> None | Some c \<Rightarrow> Some (c, Inr ret))) y)" for y and c2 :: "'a canister"
      by (cases y) (auto intro!: keeps_sessions_bind keeps_sessions_map_err write_anchor_session_free bookkeeping_session_free)
  qed
  then show "keeps_sessions c1 ((\<lambda>(anchor, key) c.
          case activity_bookkeeping now anchor key (cn_activity c) of
            None \<Rightarrow> None
          | Some (anchor, activity) \<Rightarrow>
              op_bind (f anchor (c\<lparr>cn_activity := activity\<rparr>))
                (\<lambda>(ret, operation, anchor) c.
                   op_bind (op_map_err (\<lambda>e. conv (IdentityStorageError n e)) (write_anchor cr anchor c))
                     (\<lambda>_ c. case post_operation_bookkeeping cr now caller n operation c of
                              None \<Rightarrow> None | Some c \<Rightarrow> Some (c, Inr ret)))) x)"
    unfolding x prod.case by (auto simp: keeps_sessions_def split: option.splits prod.splits)
qed

section \<open>The methods\<close>

lemma device_methods_session_free [session_free]:
  "keeps_sessions c (add_method cr now caller n data)"
  "keeps_sessions c (update_method cr now caller n k data)"
  "keeps_sessions c (replace_method cr now caller n k data)"
  "keeps_sessions c (remove_method cr now caller n k)"
  unfolding add_method_def [abs_def] update_method_def [abs_def] replace_method_def [abs_def] remove_method_def [abs_def]
  by (intro keeps_sessions_trap anchor_operation_session_free; auto split: if_splits option.splits)+

lemma get_anchor_info_session_free [session_free]:
  "keeps_sessions c (get_anchor_info_method cr now caller n)"
  unfolding get_anchor_info_method_def [abs_def]
  by (intro keeps_sessions_bind keeps_sessions_trap record_activity_session_free, rule keeps_sessionsI)
    (auto simp: management_get_anchor_info_def split: option.splits prod.splits dest: subsetD [OF sessions_get(1)])

lemma identity_info_session_free [session_free]:
  "keeps_sessions c (identity_info_method cr now caller n)"
  unfolding identity_info_method_def [abs_def]
  by (intro keeps_sessions_bind record_activity_session_free, rule keeps_sessionsI)
    (auto simp: management_get_anchor_info_def Let_def split: option.splits prod.splits dest: subsetD [OF sessions_get(1)])

lemma authn_methods_session_free [session_free]:
  "keeps_sessions c (authn_method_add cr now caller n m)"
  "keeps_sessions c (authn_method_replace cr now caller n k m)"
  "keeps_sessions c (authn_method_metadata_replace cr now caller n k md)"
  "keeps_sessions c (authn_method_security_settings_replace cr now caller n k settings)"
  unfolding authn_method_add_def [abs_def] authn_method_replace_def [abs_def]
    authn_method_metadata_replace_def [abs_def] authn_method_security_settings_replace_def [abs_def]
  by (intro session_free)+

lemma properties_session_free [session_free]:
  "keeps_sessions c (identity_metadata_replace cr now caller n md)"
  "keeps_sessions c (identity_properties_replace cr now caller n nm)"
  "keeps_sessions c (openid_credential_add cr now caller n jwt salt)"
  "keeps_sessions c (openid_credential_remove cr now caller n key)"
  "keeps_sessions c (set_default_account_method cr now caller n origin k)"
  unfolding identity_metadata_replace_def identity_properties_replace_def openid_credential_add_def
    openid_credential_remove_def set_default_account_method_def
  by (intro anchor_operation_session_free; auto simp: anchor_only_def split: option.splits sum.splits)+

lemma enter_mode_session_free [session_free]:
  "keeps_sessions c (enter_device_registration_mode_method cr now caller n)"
  unfolding enter_device_registration_mode_method_def [abs_def]
  by (intro keeps_sessions_bind keeps_sessions_trap record_activity_session_free keeps_sessionsI)
    (auto split: prod.splits sum.splits dest: subsetD [OF sessions_enter])

lemma exit_mode_session_free [session_free]:
  "keeps_sessions c (exit_device_registration_mode_method cr now caller n)"
  unfolding exit_device_registration_mode_method_def [abs_def]
  by (intro keeps_sessions_bind keeps_sessions_trap record_activity_session_free keeps_sessionsI)
    (auto dest: subsetD [OF sessions_exit])

lemma mode_enter_session_free [session_free]:
  "keeps_sessions c (authn_method_registration_mode_enter cr now caller n i)"
  unfolding authn_method_registration_mode_enter_def [abs_def]
  by (intro keeps_sessions_bind keeps_sessions_map_err record_activity_session_free, rule keeps_sessionsI)
    (auto split: prod.splits option.splits dest: subsetD [OF sessions_enter])

lemma account_operation_session_free:
  "keeps_sessions c (account_operation cr now caller n f)"
  by (rule keeps_sessions_same)
    (auto simp: account_operation_def split: option.splits sum.splits prod.splits dest!: post_operations_keep)

lemma account_methods_session_free [session_free]:
  "keeps_sessions c (create_account_method cr now caller n origin nm)"
  "keeps_sessions c (update_account_method cr now caller n origin k name_change)"
  unfolding create_account_method_def [abs_def] update_account_method_def [abs_def]
  by (intro session_free account_operation_session_free)+

lemma start_methods_session_free [session_free]:
  "keeps_sessions c (prepare_delegation_start cr now caller n)"
  "keeps_sessions c (prepare_id_alias_start cr now caller n)"
  unfolding prepare_delegation_start_def [abs_def] prepare_id_alias_start_def [abs_def]
  by (intro session_free)+

lemma attribute_methods_session_free [session_free]:
  "keeps_sessions c (prepare_attributes_start cr now caller r)"
  "keeps_sessions c (prepare_icrc3_attributes_start cr now caller q)"
proof -
  have account: "keeps_sessions d (authorized_account cr now caller n origin k)" for d :: "'a canister" and n origin k
    unfolding authorized_account_def [abs_def]
    by (intro session_free) (auto intro!: keeps_sessions_same split: option.splits prod.splits sum.splits)
  show "keeps_sessions c (prepare_attributes_start cr now caller r)"
    unfolding prepare_attributes_start_def [abs_def]
    by (intro session_free account) (auto intro!: keeps_sessions_same)
  show "keeps_sessions c (prepare_icrc3_attributes_start cr now caller q)"
    unfolding prepare_icrc3_attributes_start_def [abs_def]
    by (intro session_free account) (auto intro!: keeps_sessions_same)
qed

lemma create_identity_tentative:
  "create_identity cr now caller arg c = Some (c', r) \<Longrightarrow> cn_tentative c' = cn_tentative c"
  by (auto simp: create_identity_def split: if_splits sum.splits option.splits prod.splits dest!: post_operation_keeps)

lemma registration_finish_tentative:
  "identity_registration_finish cr now caller arg c = Some (c', r) \<Longrightarrow> cn_tentative c' = cn_tentative c"
  by (auto simp: identity_registration_finish_def op_bind_Some dest: create_identity_tentative
      split: option.splits registration_flow_state.splits)

lemma registration_finish_session_free [session_free]:
  "keeps_sessions c (identity_registration_finish cr now caller arg)"
  by (rule keeps_sessions_same) (rule registration_finish_tentative)

lemma openid_methods_session_free [session_free]:
  "keeps_sessions c (openid_identity_registration_finish cr now caller jwt salt nm)"
  "keeps_sessions c (openid_prepare_delegation cr now caller jwt salt)"
proof -
  show "keeps_sessions c (openid_identity_registration_finish cr now caller jwt salt nm)"
    by (rule keeps_sessions_same)
      (auto simp: openid_identity_registration_finish_def split: sum.splits dest: registration_finish_tentative)
  show "keeps_sessions c (openid_prepare_delegation cr now caller jwt salt)"
    by (rule keeps_sessions_same)
      (auto simp: openid_prepare_delegation_def op_bind_Some op_map_err_Some write_anchor_def
        split: sum.splits option.splits)
qed

lemma register_keeps_tentative:
  assumes "register cr now caller data key chars temp_key c = Some (c', r)"
  shows "cn_tentative c' = cn_tentative c"
proof -
  have device: "cn_tentative d' = cn_tentative d"
    if "register_device cr now caller data temp_key d = Some (d', q)" for d d' :: "'a canister" and q
    using that by (auto simp: register_device_def Let_def split: if_splits sum.splits option.splits prod.splits
        dest!: post_operation_keeps)
  from assms show ?thesis
    by (auto simp: register_def Let_def split: option.splits bool.splits if_splits prod.splits dest!: device)
qed

text \<open>The end of the registration mode and the confirmations.\<close>

lemma add_device_of_session_free [session_free]:
  "keeps_sessions c (add_device_of_session cr now caller n m p)"
  by (rule keeps_sessions_same)
    (auto simp: add_device_of_session_def Let_def op_bind_Some op_map_err_Some write_anchor_def
      split: if_splits sum.splits option.splits dest!: post_operation_keeps)

lemma mode_exit_session_free [session_free]:
  "keeps_sessions c (authn_method_registration_mode_exit cr now caller n m)"
proof (rule keeps_sessionsI)
  fix c' r
  assume run: "authn_method_registration_mode_exit cr now caller n m c = Some (c', r)"
  obtain t p where conf: "get_confirmed_session now n (cn_tentative c) = (t, p)" by fastforce
  let ?c = "c\<lparr>cn_tentative := t\<rparr>"
  have "keeps_sessions ?c (\<lambda>c. op_bind
      (case m of None \<Rightarrow> op_bind (op_map_err ExitUpdateError (check_authz_and_record_activity cr now caller n c)) (\<lambda>_ c. Some (c, Inr ()))
       | Some m \<Rightarrow> (case p of None \<Rightarrow> op_bind (op_map_err ExitUpdateError (check_authz_and_record_activity cr now caller n c)) (\<lambda>_ c. Some (c, Inr ()))
          | Some p \<Rightarrow> add_device_of_session cr now caller n m p c))
      (\<lambda>_ c. Some (c\<lparr>cn_tentative := exit_device_registration_mode now n (cn_tentative c)\<rparr>, Inr ())))"
    by (intro session_free keeps_sessionsI) (auto dest: subsetD [OF sessions_exit])
  moreover have "op_bind
      (case m of None \<Rightarrow> op_bind (op_map_err ExitUpdateError (check_authz_and_record_activity cr now caller n ?c)) (\<lambda>_ c. Some (c, Inr ()))
       | Some m \<Rightarrow> (case p of None \<Rightarrow> op_bind (op_map_err ExitUpdateError (check_authz_and_record_activity cr now caller n ?c)) (\<lambda>_ c. Some (c, Inr ()))
          | Some p \<Rightarrow> add_device_of_session cr now caller n m p ?c))
      (\<lambda>_ c. Some (c\<lparr>cn_tentative := exit_device_registration_mode now n (cn_tentative c)\<rparr>, Inr ())) = Some (c', r)"
    using run by (cases m; cases p) (simp_all add: authn_method_registration_mode_exit_def conf Let_def)
  ultimately have "sessions (cn_tentative c') \<subseteq> sessions (cn_tentative ?c)" by (rule keeps_sessionsD)
  with sessions_get(2) [OF conf] show "sessions (cn_tentative c') \<subseteq> sessions (cn_tentative c)" by simp
qed

definition admits_session ::
  "('w, 'k, 'r) crates \<Rightarrow> timestamp \<Rightarrow> principal \<Rightarrow> anchor_number \<Rightarrow> confirmation_code \<Rightarrow> 'k canister
     \<Rightarrow> anchor_number \<times> principal \<times> confirmation_code option \<Rightarrow> bool" where
  "admits_session cr now caller n code c x \<longleftrightarrow>
     (\<exists>p. x = (n, p, None) \<and> (n, p, Some code) \<in> sessions (cn_tentative c) \<and> authorized cr now caller n c)"

lemma confirm_sessions:
  assumes run: "authn_method_confirm cr now caller n code c = Some (c', r)"
    and x: "x \<in> sessions (cn_tentative c')" "x \<notin> sessions (cn_tentative c)"
  shows "admits_session cr now caller n code c x"
proof -
  obtain c1 y where ck: "check_authorization cr now caller n c = Some (c1, y)"
    using run by (auto simp: authn_method_confirm_def op_bind_Some op_map_err_Some)
  from ck show ?thesis
  proof (cases rule: check_authorization_cases)
    case (refused keys)
    with run x ck show ?thesis by (auto simp: authn_method_confirm_def op_bind_def op_map_err_def)
  next
    case (accepted keys a key)
    obtain t res where conf: "confirm_tentative_device_or_session now n code (cn_tentative c) = (t, res)" by fastforce
    have "cn_tentative c' = t"
      using run ck accepted(1,2)
      by (auto simp: authn_method_confirm_def op_bind_Some op_map_err_Some conf write_anchor_def
          split: sum.splits option.splits dest!: post_operation_keeps)
    with sessions_confirm [OF conf] x accepted(4) show ?thesis by (auto simp: admits_session_def)
  qed
qed

lemma verify_sessions:
  assumes "verify_tentative_device cr now caller n code c = Some (c', r)"
    and "x \<in> sessions (cn_tentative c')" and "x \<notin> sessions (cn_tentative c)"
  shows "admits_session cr now caller n code c x"
proof -
  obtain q where "authn_method_confirm cr now caller n code c = Some (c', q)"
    using assms(1) by (auto simp: verify_tentative_device_def split: option.splits sum.splits confirmation_method_error.splits)
  from confirm_sessions [OF this assms(2,3)] show ?thesis .
qed

section \<open>One step of the system\<close>

fun confirmation_call :: "call \<Rightarrow> (anchor_number \<times> confirmation_code) option" where
  "confirmation_call (CallConfirm n code) = Some (n, code)"
| "confirmation_call (CallVerifyTentativeDevice n code) = Some (n, code)"
| "confirmation_call _ = None"

lemma after_session_free:
  "after (f c) = Some (c', ks) \<Longrightarrow> keeps_sessions c f \<Longrightarrow> sessions (cn_tentative c') \<subseteq> sessions (cn_tentative c)"
  by (auto simp: after_def keeps_sessions_def)

lemmas session_free_methods = device_methods_session_free get_anchor_info_session_free identity_info_session_free
  authn_methods_session_free properties_session_free enter_mode_session_free exit_mode_session_free
  mode_enter_session_free account_methods_session_free start_methods_session_free attribute_methods_session_free
  registration_finish_session_free openid_methods_session_free mode_exit_session_free

lemmas executed_session_free = session_free_methods [THEN after_session_free [rotated]]

lemma prepare_delegation_sessions:
  assumes "execute cr now caller (CallPrepareDelegation n origin k session_key max_ttl) c = Some (c', ks)"
  shows "sessions (cn_tentative c') \<subseteq> sessions (cn_tentative c)"
proof -
  obtain r where "prepare_delegation_start cr now caller n c = Some (c', r)"
    using assms by (auto split: option.splits sum.splits)
  then show ?thesis by (rule keeps_sessionsD [OF start_methods_session_free(1)])
qed

lemma execute_sessions:
  assumes run: "execute cr now caller call c = Some (c', ks)"
    and x: "x \<in> sessions (cn_tentative c')" "x \<notin> sessions (cn_tentative c)"
  shows "\<exists>n code. confirmation_call call = Some (n, code) \<and> admits_session cr now caller n code c x"
proof -
  have new: "\<not> sessions (cn_tentative c') \<subseteq> sessions (cn_tentative c)" using x by blast
  show ?thesis
  proof (cases call)
    case (CallConfirm n code)
    with run x show ?thesis by (auto simp: after_def dest: confirm_sessions)
  next
    case (CallVerifyTentativeDevice n code)
    with run x show ?thesis by (auto simp: after_def dest: verify_sessions)
  next
    case (CallRegister data key chars temp_key)
    with run new show ?thesis by (auto dest: register_keeps_tentative)
  next
    case (CallPrepareDelegation n origin k session_key max_ttl)
    with run new prepare_delegation_sessions show ?thesis by blast
  next
    case (CallAcknowledge q)
    with run new show ?thesis by (auto dest: acknowledge_keeps)
  next
    case CallRegistrationStart
    with run new show ?thesis
      by (auto split: option.splits start_outcome.splits dest: registration_start_keeps)
  next
    case (CallCheckCaptcha solution)
    with run new show ?thesis
      by (auto split: prod.splits check_outcome.splits dest: check_captcha_keeps)
  next
    case CallInitSalt
    with run new show ?thesis by (auto split: if_splits)
  qed (use run new in \<open>auto dest: executed_session_free\<close>)
qed

lemma execute_registering:
  assumes "execute cr now caller call c = Some (c', ks)" and "RegisteringSession p n \<in> set ks"
  shows "p = caller \<and> call = CallSessionRegister n"
  using assms
  by (cases call) (auto simp: after_def split: option.splits sum.splits start_outcome.splits check_outcome.splits prod.splits if_splits)

lemma resume_sessions:
  assumes "resume cr now seed k c = Some c'"
    and "x \<in> sessions (cn_tentative c')" "x \<notin> sessions (cn_tentative c)"
  shows "\<exists>p n code. k = RegisteringSession p n \<and> x = (n, p, Some code)"
proof -
  have new: "\<not> sessions (cn_tentative c') \<subseteq> sessions (cn_tentative c)" using assms(2,3) by blast
  show ?thesis
  proof (cases k)
    case (RegisteringSession p n)
    with assms show ?thesis
      by (auto simp: authn_method_session_register_def split: if_splits option.splits prod.splits
          dest!: subsetD [OF sessions_add_session])
  next
    case (AddingTentativeDevice n data)
    with assms show ?thesis
      by (auto simp: add_tentative_device_method_def split: option.splits prod.splits
          dest!: subsetD [OF sessions_add_device])
  next
    case (RegisteringAuthnMethod n m)
    with assms show ?thesis
      by (auto simp: authn_method_register_def add_tentative_device_method_def op_map_err_Some
          split: option.splits prod.splits sum.splits dest!: subsetD [OF sessions_add_device])
  qed (use assms(1) new in \<open>auto simp: create_challenge_method_def registration_start_captcha_ready_def
      check_captcha_captcha_ready_def captcha_flow_state_def store_new_flow_def init_salt_def prepare_delegation_finish_def
      split: option.splits prod.splits if_splits\<close>)
qed

section \<open>Runs with their messages\<close>

text \<open>A message that has been executed, with the time, the caller and the state it was executed in.\<close>

record 'k executed_message =
  em_time :: timestamp
  em_caller :: principal
  em_call :: call
  em_before :: "'k canister"

text \<open>The steps of \<open>system_step\<close> from a state on, with the messages executed so far.\<close>

inductive system_run ::
  "('w, 'k, 'r) crates \<Rightarrow> 'k canister \<Rightarrow> 'k executed_message list \<Rightarrow> 'k canister \<Rightarrow> continuation list \<Rightarrow> bool"
  for cr c0 where
  run_start: "system_run cr c0 [] c0 []"
| run_call: "system_run cr c0 h c waits \<Longrightarrow> execute cr now caller call c = Some (c', awaiting) \<Longrightarrow> call_typed call
    \<Longrightarrow> system_run cr c0 (h @ [\<lparr>em_time = now, em_caller = caller, em_call = call, em_before = c\<rparr>]) c' (waits @ awaiting)"
| run_resume: "system_run cr c0 h c (before @ k # behind) \<Longrightarrow> resume cr now seed k c = Some c'
    \<Longrightarrow> system_run cr c0 h c' (before @ behind)"
| run_lost: "system_run cr c0 h c (before @ k # behind) \<Longrightarrow> system_run cr c0 h c (before @ behind)"
| run_migration: "system_run cr c0 h c waits \<Longrightarrow> system_run cr c0 h (run_oidc_key_migration_batch c) waits"
| run_archive: "system_run cr c0 h c waits \<Longrightarrow> system_run cr c0 h (c\<lparr>cn_archive_state := ar\<rparr>) waits"
| run_openid: "system_run cr c0 h c waits \<Longrightarrow> system_run cr c0 h (c\<lparr>cn_openid := os\<rparr>) waits"

text \<open>The history only records: the states of the runs are those of \<open>system_reachable\<close>.\<close>

lemma system_run_reachable: "system_run cr c0 h c waits \<Longrightarrow> \<exists>starts. system_reachable cr (c0, [], 0) (c, waits, starts)"
  unfolding system_reachable_def
  by (induction rule: system_run.induct) (blast intro: system_step.intros rtranclp.intros)+

lemma system_reachable_run:
  "system_reachable cr (c0, [], 0) (c, waits, starts) \<Longrightarrow> \<exists>h. system_run cr c0 h c waits"
  unfolding system_reachable_def
proof (induction "(c, waits, starts)" arbitrary: c waits starts rule: rtranclp_induct)
  case base
  then show ?case by (auto intro: run_start)
next
  case (step y)
  obtain d ws st where y: "y = (d, ws, st)" by (cases y)
  from step(3) [OF y] obtain h where run: "system_run cr c0 h d ws" by blast
  from step(2) [unfolded y] show ?case
    by (cases rule: system_step.cases) (use run in \<open>blast intro: system_run.intros\<close>)+
qed

text \<open>Asked for by its own principal, and after that confirmed with its code by an authorized caller.\<close>

definition session_asked :: "'k executed_message list \<Rightarrow> principal \<Rightarrow> anchor_number \<Rightarrow> bool" where
  "session_asked h p n \<longleftrightarrow> (\<exists>e \<in> set h. em_caller e = p \<and> em_call e = CallSessionRegister n)"

definition confirms_session ::
  "('w, 'k, 'r) crates \<Rightarrow> 'k executed_message \<Rightarrow> principal \<Rightarrow> anchor_number \<Rightarrow> bool" where
  "confirms_session cr e p n \<longleftrightarrow>
     authorized cr (em_time e) (em_caller e) n (em_before e)
     \<and> (\<exists>code failed r. em_call e \<in> {CallConfirm n code, CallVerifyTentativeDevice n code}
          \<and> om_get (td_registrations (cn_tentative (em_before e))) n = Some r
          \<and> tr_state r = SessionTentativelyAdded p code failed)"

definition session_confirmed ::
  "('w, 'k, 'r) crates \<Rightarrow> 'k executed_message list \<Rightarrow> principal \<Rightarrow> anchor_number \<Rightarrow> bool" where
  "session_confirmed cr h p n \<longleftrightarrow>
     (\<exists>earlier e later. h = earlier @ e # later \<and> session_asked earlier p n \<and> confirms_session cr e p n)"

definition session_grounds ::
  "('w, 'k, 'r) crates \<Rightarrow> 'k executed_message list \<Rightarrow> anchor_number \<times> principal \<times> confirmation_code option \<Rightarrow> bool" where
  "session_grounds cr h x \<longleftrightarrow>
     (case x of (n, p, Some code) \<Rightarrow> session_asked h p n | (n, p, None) \<Rightarrow> session_confirmed cr h p n)"

lemma session_asked_append [simp]: "session_asked h p n \<Longrightarrow> session_asked (h @ es) p n"
  by (auto simp: session_asked_def)

lemma session_grounds_append: "session_grounds cr h x \<Longrightarrow> session_grounds cr (h @ es) x"
  by (auto simp: session_grounds_def session_confirmed_def split: prod.splits option.splits) (metis append_assoc append_Cons)

definition waits_asked :: "'k executed_message list \<Rightarrow> continuation list \<Rightarrow> bool" where
  "waits_asked h waits \<longleftrightarrow> (\<forall>p n. RegisteringSession p n \<in> set waits \<longrightarrow> session_asked h p n)"

lemma system_run_sessions:
  assumes "system_run cr c0 h c waits" and "cn_tentative c0 = no_registrations"
  shows "(\<forall>x \<in> sessions (cn_tentative c). session_grounds cr h x) \<and> waits_asked h waits"
  using assms(1)
proof (induction rule: system_run.induct)
  case run_start
  then show ?case by (simp add: assms(2) waits_asked_def)
next
  case (run_call h c waits now caller call c' awaiting)
  let ?e = "\<lparr>em_time = now, em_caller = caller, em_call = call, em_before = c\<rparr>"
  have "session_grounds cr (h @ [?e]) x" if x: "x \<in> sessions (cn_tentative c')" for x
  proof (cases "x \<in> sessions (cn_tentative c)")
    case True
    with run_call.IH show ?thesis by (auto intro: session_grounds_append)
  next
    case False
    from execute_sessions [OF run_call.hyps(2) x False] obtain n code p
      where call: "confirmation_call call = Some (n, code)" and x: "x = (n, p, None)"
        and wait: "(n, p, Some code) \<in> sessions (cn_tentative c)" and ok: "authorized cr now caller n c"
      by (auto simp: admits_session_def)
    from wait run_call.IH have "session_asked h p n" by (auto simp: session_grounds_def dest!: bspec)
    moreover have "call = CallConfirm n code \<or> call = CallVerifyTentativeDevice n code"
      using call by (cases call) auto
    then have "confirms_session cr ?e p n"
      using wait ok by (auto simp: confirms_session_def sessions_def elim!: session_of.elims)
    ultimately show ?thesis by (auto simp: x session_grounds_def session_confirmed_def)
  qed
  moreover have "waits_asked (h @ [?e]) (waits @ awaiting)"
    using run_call.IH execute_registering [OF run_call.hyps(2)]
    by (fastforce simp: waits_asked_def session_asked_def)
  ultimately show ?case by blast
next
  case (run_resume h c before k behind now seed c')
  have "session_grounds cr h x" if x: "x \<in> sessions (cn_tentative c')" for x
  proof (cases "x \<in> sessions (cn_tentative c)")
    case False
    from resume_sessions [OF run_resume.hyps(2) x False] run_resume.IH show ?thesis
      by (auto simp: waits_asked_def session_grounds_def)
  qed (use run_resume.IH in blast)
  with run_resume.IH show ?case by (auto simp: waits_asked_def)
next
  case (run_lost h c before k behind)
  then show ?case by (auto simp: waits_asked_def)
next
  case (run_migration h c waits)
  then show ?case by (simp add: run_oidc_key_migration_batch_def)
qed simp_all

text \<open>A confirmed session has been asked for and confirmed, in this order.\<close>

lemma session_authorized_confirmed:
  assumes "system_run cr c0 h c waits" and "cn_tentative c0 = no_registrations"
    and "session_authorized now p n c"
  shows "session_confirmed cr h p n"
proof -
  obtain t where "get_confirmed_session now n (cn_tentative c) = (t, Some p)"
    using assms(3) by (cases "get_confirmed_session now n (cn_tentative c)") (auto simp: session_authorized_def)
  from confirmed_session_in [OF this] system_run_sessions [OF assms(1,2)] show ?thesis
    by (auto simp: session_grounds_def dest!: bspec)
qed

end
