(* ===== verification/Canister_Safety.thy ===== *)
theory Canister_Safety
  imports Canister_Properties Device_Access Session_Provenance
begin

text \<open>
  The properties of every reachable state of the canister: each identity within its limits, one
  identity at most for each registration the rate limit let pass, and who changes an identity.
\<close>

section \<open>Open registration flows\<close>

declare prune_expired_flows_fields [simp del]

definition open_flows :: "flow_states \<Rightarrow> nat" where
  "open_flows s = om_len (fls_flows s)"

lemma om_len_mono: "(\<And>k. om_contains m k \<Longrightarrow> om_contains m' k) \<Longrightarrow> om_len m \<le> om_len m'"
  unfolding om_len_card by (rule card_mono) auto

lemma prune_flows_contains:
  "om_contains (fls_flows (prune_expired_flows now s)) p \<Longrightarrow> om_contains (fls_flows s) p"
  using prune_loop_drops [of MAX_TO_PRUNE now "fls_expirations s" "fls_flows s"]
  by (auto simp: om_contains_def prune_expired_flows_fields split: if_splits)

lemma open_flows_new: "new_registration_flow now p f s = (s', ok) \<Longrightarrow> open_flows s' \<le> open_flows s + 1"
proof -
  let ?s = "prune_expired_flows now s"
  assume "new_registration_flow now p f s = (s', ok)"
  then have "om_contains (fls_flows s') k \<Longrightarrow> k = p \<or> om_contains (fls_flows ?s) k" for k
    by (auto simp: new_registration_flow_def Let_def put_flow_def split: if_splits)
  then have "{k. om_contains (fls_flows s') k} \<subseteq> insert p {k. om_contains (fls_flows s) k}"
    by (auto dest: prune_flows_contains)
  then have "card {k. om_contains (fls_flows s') k} \<le> card (insert p {k. om_contains (fls_flows s) k})"
    by (rule card_mono [rotated]) simp
  also have "\<dots> \<le> card {k. om_contains (fls_flows s) k} + 1" by (simp add: card_insert_if)
  finally show ?thesis by (simp add: open_flows_def om_len_card)
qed

lemma open_flows_update: "update_registration_flow now p f s = (s', ok) \<Longrightarrow> open_flows s' \<le> open_flows s"
  unfolding open_flows_def
proof (rule om_len_mono)
  fix k
  assume "update_registration_flow now p f s = (s', ok)" and "om_contains (fls_flows s') k"
  then have "om_contains (fls_flows (prune_expired_flows now s)) k"
    by (auto simp: update_registration_flow_def Let_def om_contains_def split: if_splits)
  then show "om_contains (fls_flows s) k" by (rule prune_flows_contains)
qed

lemma open_flows_remove:
  assumes "lookup_registration_flow now p s = Some f"
  shows "open_flows (remove_registration_flow now p s) + 1 \<le> open_flows s"
proof -
  let ?new = "{k. om_contains (fls_flows (remove_registration_flow now p s)) k}"
  have "om_contains (fls_flows s) p"
    using assms by (auto simp: lookup_registration_flow_def om_contains_def split: option.splits)
  then have "insert p ?new \<subseteq> {k. om_contains (fls_flows s) k}"
    by (auto simp: remove_registration_flow_def drop_flow_def
        dest: prune_flows_contains)
  then have "card (insert p ?new) \<le> card {k. om_contains (fls_flows s) k}" by (rule card_mono [rotated]) simp
  moreover have "p \<notin> ?new" by (simp add: remove_registration_flow_def drop_flow_def)
  ultimately show ?thesis by (simp add: open_flows_def om_len_card)
qed

section \<open>One step\<close>

text \<open>
  The identities there are or may still be without another start: those created, those of an open
  flow, and those of a start that waits for its captcha.
\<close>

definition identity_claims :: "'k canister \<Rightarrow> continuation list \<Rightarrow> nat" where
  "identity_claims c waits = anchor_count (cn_storage c) + open_flows (cn_flows c) + starting waits"

definition step_keeps ::
  "('w, 'k, 'r) crates \<Rightarrow> 'k canister \<Rightarrow> 'k canister \<Rightarrow> continuation list \<Rightarrow> nat \<Rightarrow> bool" where
  "step_keeps cr c c' awaiting n \<longleftrightarrow>
     identities_ok cr c' \<and> list_all continuation_typed awaiting
     \<and> identity_claims c' awaiting \<le> identity_claims c [] + n"

lemma start_executed:
  assumes run: "execute cr now caller CallRegistrationStart c = Some (c', ks)" and ok: "identities_ok cr c"
  shows "step_keeps cr c c' ks (lets_pass now c CallRegistrationStart)" and "reads c' = reads c"
proof -
  obtain out where st: "identity_registration_start now caller c = Some (c', out)"
    and ks: "ks = (case out of StartAnswered _ \<Rightarrow> [] | StartAwaitsCaptcha t \<Rightarrow> [StartingRegistration caller t])"
    using run by (auto split: option.splits start_outcome.splits)
  note keep = registration_start_keeps [OF st]
  then show "reads c' = reads c" by (simp add: reads_def)
  have "identities_ok cr c'" using ok keep by (simp add: identities_ok_def reads_def)
  moreover have "list_all continuation_typed ks" by (auto simp: ks split: start_outcome.splits)
  moreover have "open_flows (cn_flows c') + starting ks \<le> open_flows (cn_flows c) + lets_pass now c CallRegistrationStart"
    using st unfolding ks identity_registration_start_def
    by (auto simp: lets_pass_def Let_def store_new_flow_def split: option.splits if_splits prod.splits bool.splits
        dest: open_flows_new)
  ultimately show "step_keeps cr c c' ks (lets_pass now c CallRegistrationStart)"
    using keep by (simp add: step_keeps_def identity_claims_def)
qed

lemma check_executed:
  assumes run: "execute cr now caller (CallCheckCaptcha solution) c = Some (c', ks)" and ok: "identities_ok cr c"
  shows "step_keeps cr c c' ks 0" and "reads c' = reads c"
proof -
  obtain out where ch: "check_captcha now caller solution c = (c', out)"
    and ks: "ks = (case out of CheckAnswered _ \<Rightarrow> [] | CheckAwaitsCaptcha t \<Rightarrow> [RetryingCaptcha caller t])"
    using run by (auto split: prod.splits check_outcome.splits)
  note keep = check_captcha_keeps [OF ch]
  then show "reads c' = reads c" by (simp add: reads_def)
  have "identities_ok cr c'" using ok keep by (simp add: identities_ok_def reads_def)
  moreover have "list_all continuation_typed ks" "starting ks = 0" by (auto simp: ks split: check_outcome.splits)
  moreover have "open_flows (cn_flows c') \<le> open_flows (cn_flows c)"
    using ch by (auto simp: check_captcha_def split: option.splits registration_flow_state.splits if_splits prod.splits
        dest: open_flows_update)
  ultimately show "step_keeps cr c c' ks 0" using keep by (simp add: step_keeps_def identity_claims_def)
qed

lemma step_keepsI:
  assumes "identities_ok cr c'" and "list_all continuation_typed ks" and "starting ks = 0"
    and "anchor_count (cn_storage c') + open_flows (cn_flows c')
      \<le> anchor_count (cn_storage c) + open_flows (cn_flows c) + n"
  shows "step_keeps cr c c' ks n"
  using assms by (simp add: step_keeps_def identity_claims_def)

lemma finish_executed:
  assumes run: "identity_registration_finish cr now caller arg c = Some (c', r)" and ok: "identities_ok cr c"
  shows "step_keeps cr c c' [] n"
proof (rule step_keepsI)
  show "identities_ok cr c'" by (rule registration_finish_effect(1) [OF run ok])
  show "anchor_count (cn_storage c') + open_flows (cn_flows c')
      \<le> anchor_count (cn_storage c) + open_flows (cn_flows c) + n"
  proof (cases r)
    case (Inl e)
    with registration_finish_effect(2,3) [OF run ok] show ?thesis by (simp add: unchanged_def)
  next
    case (Inr m)
    with registration_finish_effect(2,3) [OF run ok] obtain t
      where "created c c' m" "lookup_registration_flow now caller (cn_flows c) = Some (FinishRegistrationFlow t)"
        "cn_flows c' = remove_registration_flow now caller (cn_flows c)" by auto
    then show ?thesis using open_flows_remove [of now caller "cn_flows c"] by (simp add: created_def)
  qed
qed simp_all

lemma created_keeps_read: "created c c' m \<Longrightarrow> reads c n = Some (Inr a) \<Longrightarrow> reads c' n = reads c n"
  unfolding created_def by (cases "n = m") auto

lemma register_executed:
  assumes run: "execute cr now caller (CallRegister data key chars temp_key) c = Some (c', ks)"
    and typed: "aaguid_ok (dev_aaguid data)" and ok: "identities_ok cr c"
  shows "step_keeps cr c c' ks (lets_pass now c (CallRegister data key chars temp_key))"
    and "reads c n = Some (Inr a) \<Longrightarrow> reads c' n = reads c n"
proof -
  obtain r where reg: "register cr now caller data key chars temp_key c = Some (c', r)" and ks: "ks = []"
    using run by auto
  note eff = register_effect [OF reg ok typed]
  show "reads c n = Some (Inr a) \<Longrightarrow> reads c' n = reads c n"
    using eff(3) by (auto simp: unchanged_def split: register_response.splits dest: created_keeps_read)
  have "lets_pass now c (CallRegister data key chars temp_key) = 1"
    using reg by (auto simp: register_def lets_pass_def split: option.splits bool.splits)
  moreover have "anchor_count (cn_storage c') \<le> anchor_count (cn_storage c) + 1"
    using eff(3) by (auto simp: created_def unchanged_def split: register_response.splits)
  ultimately show "step_keeps cr c c' ks (lets_pass now c (CallRegister data key chars temp_key))"
    using eff(1,2) by (intro step_keepsI) (simp_all add: ks)
qed

lemma execute_keeps:
  assumes run: "execute cr now caller call c = Some (c', ks)" and typed: "call_typed call"
    and ok: "identities_ok cr c"
  shows "step_keeps cr c c' ks (lets_pass now c call)"
proof (cases "ordinary call")
  case True
  from ordinary_executed [OF run typed this] ok show ?thesis
    by (intro step_keepsI) (auto simp: only_authorized_def registration_part_def)
next
  case False
  then show ?thesis
  proof (cases call)
    case (CallRegister data key chars temp_key)
    with register_executed(1) [of cr now caller data key chars temp_key c c' ks] run typed ok show ?thesis by simp
  next
    case (CallModeExit n m)
    with run obtain r where "authn_method_registration_mode_exit cr now caller n m c = Some (c', r)" "ks = []"
      by (auto simp: after_def)
    with mode_exit_effect(2,4) [of cr now caller n m c c' r] ok show ?thesis
      by (intro step_keepsI) (auto simp: registration_part_def)
  next
    case (CallOpenidPrepareDelegation jwt salt)
    with run obtain r where "openid_prepare_delegation cr now caller jwt salt c = Some (c', r)" "ks = []"
      by (auto simp: after_def)
    with openid_prepare_effect(1,2) [of cr now caller jwt salt c c' r] ok show ?thesis
      by (intro step_keepsI) (auto simp: registration_part_def)
  next
    case (CallRegistrationFinish arg)
    with run obtain r where "identity_registration_finish cr now caller arg c = Some (c', r)" "ks = []"
      by (auto simp: after_def)
    with ok show ?thesis by (auto intro: finish_executed)
  next
    case (CallOpenidRegistrationFinish jwt salt nm)
    with run obtain r where fin: "openid_identity_registration_finish cr now caller jwt salt nm c = Some (c', r)"
      and ks: "ks = []" by (auto simp: after_def)
    from fin show ?thesis
    proof (cases rule: openid_registration_finish_cases)
      case 1
      with ok show ?thesis by (intro step_keepsI) (simp_all add: ks)
    next
      case 2
      with ok show ?thesis by (simp add: ks finish_executed)
    qed
  next
    case CallRegistrationStart
    with run ok start_executed(1) show ?thesis by blast
  next
    case (CallCheckCaptcha solution)
    with run ok check_executed(1) [of cr now caller solution c c' ks] show ?thesis by (simp add: lets_pass_def)
  qed simp_all
qed

lemma resume_flows:
  assumes "resume cr now seed k c = Some c'"
  shows "open_flows (cn_flows c') \<le> open_flows (cn_flows c) + (if is_starting k then 1 else 0)"
proof (cases k)
  case (StartingRegistration p t)
  with assms show ?thesis
    by (auto simp: registration_start_captcha_ready_def store_new_flow_def split: prod.splits dest: open_flows_new)
next
  case (RetryingCaptcha p t)
  with assms show ?thesis
    by (auto simp: check_captcha_captcha_ready_def split: prod.splits dest: open_flows_update)
next
  case InitializingSalt
  with assms init_salt_effect(3) [of seed c c'] show ?thesis by simp
qed (use assms in \<open>auto simp: create_challenge_method_def add_tentative_device_method_def
    authn_method_register_def op_map_err_Some authn_method_session_register_def prepare_delegation_finish_def
    split: option.splits prod.splits sum.splits if_splits\<close>)

section \<open>Who changes an identity\<close>

text \<open>Registrations keep every identity there is.\<close>

lemma registration_keeps_read:
  assumes run: "execute cr now caller call c = Some (c', ks)" and typed: "call_typed call"
    and ok: "identities_ok cr c" and old: "reads c n = Some (Inr a)" and "\<not> ordinary call"
  obtains k m where "call = CallModeExit k m"
  | jwt salt where "call = CallOpenidPrepareDelegation jwt salt"
  | "reads c' n = reads c n"
proof -
  have fin: "reads c' n = reads c n" if "identity_registration_finish cr now caller arg c = Some (c', r)" for arg r
    using registration_finish_effect(2) [OF that ok] created_keeps_read [OF _ old]
    by (cases r) (auto simp: unchanged_def)
  show thesis
  proof (cases call)
    case (CallRegister data key chars temp_key)
    with register_executed(2) [of cr now caller data key chars temp_key c c' ks n a] run typed ok old
    show ?thesis by (simp add: that(3))
  next
    case (CallRegistrationFinish arg)
    with run fin show ?thesis by (auto simp: after_def intro: that(3))
  next
    case (CallOpenidRegistrationFinish jwt salt nm)
    with run fin show ?thesis
      by (auto simp: after_def intro!: that(3) elim!: openid_registration_finish_cases)
  next
    case CallRegistrationStart
    with run start_executed(2) [of cr now caller c c' ks] ok show ?thesis by (intro that(3)) simp
  next
    case (CallCheckCaptcha solution)
    with run check_executed(2) [of cr now caller solution c c' ks] ok show ?thesis by (intro that(3)) simp
  qed (use assms(5) that(1,2) in simp_all)
qed

text \<open>One message: the three grounds on which an identity may read differently afterwards.\<close>

lemma message_changes_authorized:
  assumes "identities_ok cr c" and "execute cr now caller call c = Some (c', ks)" and "call_typed call"
    and "reads c n = Some (Inr a)" and "reads c' n \<noteq> reads c n"
  shows "authorized cr now caller n c
    \<or> (\<exists>m. call = CallModeExit n (Some m) \<and> session_authorized now caller n c)
    \<or> (\<exists>jwt salt cred. call = CallOpenidPrepareDelegation jwt salt
          \<and> verify_jwt (cr_jose cr) (cn_openid c) now caller jwt salt = Inr cred
          \<and> oc_key cred \<in> oc_key ` set (a_openid_credentials a))"
proof (cases "ordinary call")
  case True
  with ordinary_executed [OF assms(2,3)] assms(5) show ?thesis by (auto simp: only_authorized_def)
next
  case False
  with assms(2,3,1,4) show ?thesis
  proof (cases rule: registration_keeps_read)
    case (1 k m)
    with assms(2) obtain r where ex: "authn_method_registration_mode_exit cr now caller k m c = Some (c', r)"
      by (auto simp: after_def)
    have "k = n" using mode_exit_effect(1) [OF ex, of n] assms(5) by blast
    with mode_exit_effect(3) [OF ex] assms(5) 1 show ?thesis by (cases m) auto
  next
    case (2 jwt salt)
    with assms(2) obtain r where "openid_prepare_delegation cr now caller jwt salt c = Some (c', r)"
      by (auto simp: after_def)
    from openid_prepare_effect(3) [OF this, of n] assms(4,5) obtain cred a'
      where v: "verify_jwt (cr_jose cr) (cn_openid c) now caller jwt salt = Inr cred"
        and "update_openid_credential a cred = Inr a'" by auto
    then have "oc_key cred \<in> oc_key ` set (a_openid_credentials a)"
      by (auto simp: update_openid_credential_def split: sum.splits dest!: openid_credential_index_Inr)
         (metis image_eqI nth_mem)
    with v 2 show ?thesis by blast
  qed (use assms(5) in simp)
qed

section \<open>Reachable states\<close>

lemma migration_reads:
  "reads (run_oidc_key_migration_batch c) = reads c"
  "anchor_count (cn_storage (run_oidc_key_migration_batch c)) = anchor_count (cn_storage c)"
proof -
  obtain s out where m: "migrate_openid_credential_keys_batch (cn_storage c) OIDC_KEY_MIGRATION_BATCH_SIZE = (s, out)"
    by fastforce
  have "st_anchors s = st_anchors (cn_storage c) \<and> st_header s = st_header (cn_storage c)"
    using m by (auto simp: migrate_openid_credential_keys_batch_def Let_def split: if_splits prod.splits
        dest: migrate_fold_header)
  then show "reads (run_oidc_key_migration_batch c) = reads c"
    and "anchor_count (cn_storage (run_oidc_key_migration_batch c)) = anchor_count (cn_storage c)"
    by (simp_all add: run_oidc_key_migration_batch_def m reads_def fun_eq_iff storage_read_def
        anchor_number_to_record_number_def assigned_anchor_number_range_def anchor_count_def)
qed

lemma migration_ok:
  assumes "identities_ok cr c"
  shows "identities_ok cr (run_oidc_key_migration_batch c)"
proof -
  have "storage_ok (cr_sa cr) (cn_storage (run_oidc_key_migration_batch c))"
    using assms migrate_batch_ok [of "cn_storage c" OIDC_KEY_MIGRATION_BATCH_SIZE]
    by (auto simp: identities_ok_def run_oidc_key_migration_batch_def intro: prod.collapse [symmetric])
  then show ?thesis
    using assms migration_reads(1) [of c] by (simp add: identities_ok_def run_oidc_key_migration_batch_def)
qed

lemma system_step_keeps:
  assumes "system_step cr (c, waits, starts) (c', waits', starts')"
    and "identities_ok cr c" and "list_all continuation_typed waits"
  shows "identities_ok cr c' \<and> list_all continuation_typed waits'
    \<and> identity_claims c' waits' + starts \<le> identity_claims c waits + starts'"
  using assms(1)
proof (cases rule: system_step.cases)
  case (step_call now caller call awaiting)
  from execute_keeps [OF step_call(3,4) assms(2)] assms(3) step_call(1,2) show ?thesis
    by (auto simp: step_keeps_def identity_claims_def)
next
  case (step_resume now seed k before behind)
  from step_resume(1) assms(3) have k: "continuation_typed k" by simp
  from resume_effect [OF step_resume(4) k] resume_flows [OF step_resume(4)] assms(2,3) step_resume(1-3)
  show ?thesis by (auto simp: identity_claims_def unchanged_def)
next
  case step_lost
  with assms(2,3) show ?thesis by (auto simp: identity_claims_def)
next
  case step_migration
  with assms(2,3) migration_ok migration_reads(2) [of c] show ?thesis
    by (auto simp: identity_claims_def run_oidc_key_migration_batch_def)
next
  case (step_archive ar)
  with assms(2,3) show ?thesis by (auto simp: identity_claims_def identities_ok_def reads_def)
next
  case (step_openid os)
  with assms(2,3) show ?thesis by (auto simp: identity_claims_def identities_ok_def reads_def)
qed

lemma system_reachable_keeps:
  assumes "system_reachable cr (c, waits, starts) (c', waits', starts')"
    and "identities_ok cr c" and "list_all continuation_typed waits"
  shows "identities_ok cr c' \<and> list_all continuation_typed waits'
    \<and> identity_claims c' waits' + starts \<le> identity_claims c waits + starts'"
  using assms(1) unfolding system_reachable_def
proof (induction "(c', waits', starts')" arbitrary: c' waits' starts' rule: rtranclp_induct)
  case base
  then show ?case using assms(2,3) by simp
next
  case (step y)
  obtain d ws st where y: "y = (d, ws, st)" by (cases y)
  from step(3) [OF y] system_step_keeps [of cr d ws st c' waits' starts'] step(2) show ?case
    by (auto simp: y)
qed

text \<open>
  Property C1. In every run, an identity reads differently after a step only if a message did it whose caller was
  authorized for it (a device, temporary key or OpenID credential), or was a session that asked to join and that an
  authorized caller then confirmed, or held a valid token of one of its OpenID credentials. The run starts in any
  state with the invariant and without registrations, as after an installation or an upgrade. Continuations, the
  migration and the housekeeping change no identity. The confirmation is one of the messages of the run: it
  was executed by a caller authorized in its state, with the code of the session, after the session's own
  principal had called \<open>authn_method_session_register\<close>; the session acts in \<open>authn_method_registration_mode_exit\<close>. A
  token changes its credential in \<open>openid_prepare_delegation\<close>.
\<close>

theorem anchor_changes_authorized:
  assumes "identities_ok cr c0" and "cn_tentative c0 = no_registrations" and "system_run cr c0 h c waits"
    and "system_step cr (c, waits, starts) (c', waits', starts')"
    and "reads c n = Some (Inr a)" and "reads c' n \<noteq> reads c n"
  shows "(\<exists>now caller call awaiting. execute cr now caller call c = Some (c', awaiting) \<and> call_typed call)
    \<and> (\<forall>now caller call awaiting. execute cr now caller call c = Some (c', awaiting) \<and> call_typed call \<longrightarrow>
        authorized cr now caller n c
        \<or> (\<exists>m. call = CallModeExit n (Some m) \<and> session_authorized now caller n c \<and> session_confirmed cr h caller n)
        \<or> (\<exists>jwt salt cred. call = CallOpenidPrepareDelegation jwt salt
              \<and> verify_jwt (cr_jose cr) (cn_openid c) now caller jwt salt = Inr cred
              \<and> oc_key cred \<in> oc_key ` set (a_openid_credentials a)))"
proof -
  obtain k where "system_reachable cr (c0, [], 0) (c, waits, k)" using system_run_reachable [OF assms(3)] by blast
  from system_reachable_keeps [OF this assms(1)] have ok: "identities_ok cr c" "list_all continuation_typed waits"
    by simp_all
  from assms(4) have "\<exists>now caller call awaiting. execute cr now caller call c = Some (c', awaiting) \<and> call_typed call"
  proof (cases rule: system_step.cases)
    case (step_resume now seed k before behind)
    with ok(2) resume_effect(2) [OF step_resume(4)] assms(6) show ?thesis by (simp add: unchanged_def)
  qed (use assms(6) migration_reads(1) [of c] in \<open>auto simp: reads_def\<close>)
  moreover have "authorized cr now caller n c
      \<or> (\<exists>m. call = CallModeExit n (Some m) \<and> session_authorized now caller n c \<and> session_confirmed cr h caller n)
      \<or> (\<exists>jwt salt cred. call = CallOpenidPrepareDelegation jwt salt
            \<and> verify_jwt (cr_jose cr) (cn_openid c) now caller jwt salt = Inr cred
            \<and> oc_key cred \<in> oc_key ` set (a_openid_credentials a))"
    if "execute cr now caller call c = Some (c', awaiting)" "call_typed call" for now caller call awaiting
    using message_changes_authorized [OF ok(1) that assms(5,6)] session_authorized_confirmed [OF assms(3,2)] by blast
  ultimately show ?thesis by blast
qed

lemma fresh_identities_ok:
  assumes "storage_new bounds empty_storage = Some (cn_storage c)" and "cn_tentative c = no_registrations"
  shows "identities_ok cr c" and "anchor_count (cn_storage c) = 0"
proof -
  show "anchor_count (cn_storage c) = 0"
    using assms(1) by (auto simp: storage_new_def init_with_header_def flush_def anchor_count_def
        split: prod.splits if_splits dest!: sym [of _ "cn_storage c"])
  then have "reads c n \<noteq> Some (Inr a)" for n a
    by (auto simp: reads_def storage_read_def anchor_count_def unat_eq_zero split: sum.splits option.splits if_splits)
  then show "identities_ok cr c"
    using storage_new_ok [OF assms(1)] assms(2)
    by (auto simp: identities_ok_def tentative_typed_def no_registrations_def)
qed

text \<open>
  Property C2. In every state the canister reaches from its installation, whatever messages it executes,
  whatever continuations run or are lost, and through every batch of the migration: each
  identity has at most 20 devices with distinct keys that satisfy the limits and an AAGUID of
  16 bytes, at most one recovery phrase, and at most 100 OpenID credentials with distinct keys;
  and the indices of the storage are sound.
\<close>

theorem reachable_identities_within_limits:
  assumes "storage_new bounds empty_storage = Some (cn_storage c)" and "cn_tentative c = no_registrations"
    and "system_reachable cr (c, [], 0) (c', waits, starts)" and "reads c' n = Some (Inr a)"
  shows "length (a_devices a) \<le> 20 \<and> distinct (map dev_pubkey (a_devices a))
    \<and> list_all (\<lambda>d. check_device_invariants d = Inr () \<and> aaguid_ok (dev_aaguid d)) (a_devices a)
    \<and> length (filter (\<lambda>d. dev_key_type d = SeedPhrase) (a_devices a)) \<le> 1
    \<and> length (a_openid_credentials a) \<le> 100 \<and> distinct (map oc_key (a_openid_credentials a))
    \<and> storage_ok (cr_sa cr) (cn_storage c')"
proof -
  have "identities_ok cr c'"
    using system_reachable_keeps [OF assms(3) fresh_identities_ok(1) [OF assms(1,2)]] by simp
  with assms(4) have "identity_ok a" "storage_ok (cr_sa cr) (cn_storage c')" by (auto simp: identities_ok_def)
  then show ?thesis by (simp add: identity_ok_def MAX_DEVICES_PER_ANCHOR_def MAX_LINKED_CREDENTIALS_def)
qed

text \<open>
  Property C3. Identities need starts that the rate limit let pass: in every state the canister reaches, the
  identities created, the registrations in progress and those that wait for their captcha are
  together at most as many as the calls of \<open>register\<close> and \<open>identity_registration_start\<close> the rate
  limit accepted. No interleaving of asynchronous calls gets two identities out of one start.
\<close>

theorem identities_need_starts:
  assumes "storage_new bounds empty_storage = Some (cn_storage c)" and "cn_tentative c = no_registrations"
    and "cn_flows c = new_flow_states" and "system_reachable cr (c, [], 0) (c', waits, starts)"
  shows "anchor_count (cn_storage c') + open_flows (cn_flows c') + starting waits \<le> starts"
  using system_reachable_keeps [OF assms(4) fresh_identities_ok(1) [OF assms(1,2)]]
    fresh_identities_ok(2) [OF assms(1,2)] assms(3)
  by (simp add: identity_claims_def open_flows_def new_flow_states_def)

section \<open>A registration\<close>

lemma sample_allocated: "allocate_anchor sample_storage 9 = (bump_num_anchors sample_storage, Some (anchor_new 10000 9))"
  by (simp add: allocate_anchor_def sample_storage_header bump_num_anchors_def flush_def Let_def)

definition sample_registered_anchor where
  "sample_registered_anchor = (anchor_new 10000 9)\<lparr>a_devices := [sample_passkey\<lparr>dev_last_usage := Some 9\<rparr>]\<rparr>"

lemma sample_added: "add_device (anchor_new 10000 9) (device_from_data (device_data_from sample_passkey))
   = Inr ((anchor_new 10000 9)\<lparr>a_devices := [sample_passkey\<lparr>dev_last_usage := None\<rparr>]\<rparr>)"
  by (simp add: add_device_Inr anchor_new_def sample_device_simps device_from_data_def device_data_from_def
    device_data.defs device.defs)

lemma sample_written: "\<exists>s. storage_write (\<lambda>k. k) (bump_num_anchors sample_storage) sample_registered_anchor = Inr s"
  by (simp add: storage_write_Inr sample_registered_anchor_def anchor_number_to_record_number_def bump_num_anchors_def sample_storage_header)

lemma sample_activity:
  "activity_bookkeeping 9 ((anchor_new 10000 9)\<lparr>a_devices := [sample_passkey\<lparr>dev_last_usage := None\<rparr>]\<rparr>) (DeviceKey [4, 5]) act
   = Some (sample_registered_anchor, update_activity_stats 9 ((anchor_new 10000 9)\<lparr>a_devices := [sample_passkey\<lparr>dev_last_usage := None\<rparr>]\<rparr>) (DeviceKey [4,5]) act)"
proof -
  have "set_device_usage_timestamp ((anchor_new 10000 9)\<lparr>a_devices := [sample_passkey\<lparr>dev_last_usage := None\<rparr>]\<rparr>) [4, 5] 9 = Inr sample_registered_anchor"
    by (simp add: set_device_usage_timestamp_def device_index_def position.simps sample_passkey_def sample_registered_anchor_def anchor_new_def)
  then show ?thesis by (simp add: activity_bookkeeping_def)
qed

lemma sample_register: "\<exists>c. register sample_crates 9 [4, 5] (device_data_from sample_passkey) [] [] None sample_canister = Some (c, Registered 10000)"
proof -
  obtain s where s: "storage_write (\<lambda>k. k) (bump_num_anchors sample_storage) sample_registered_anchor = Inr s"
    using sample_written by blast
  have k: "dev_pubkey (device_from_data (device_data_from sample_passkey)) = [4, 5]"
    by (simp add: device_from_data_def device_data_from_def sample_passkey_def device_data.defs device.defs)
  have n: "a_number sample_registered_anchor = 10000" by (simp add: sample_registered_anchor_def)
  show ?thesis
    by (simp add: register_def process_rate_limit_def sample_canister_def captcha_required_def register_device_def
      verify_caller_is_device_or_temp_key_def k sample_crates_def sample_allocated sample_added sample_activity s
      post_operation_bookkeeping_def archive_operation_def n)
qed

lemma sample_fresh:
  "storage_new (10000, 20000) empty_storage = Some (cn_storage sample_canister)"
  "cn_tentative sample_canister = no_registrations"
  by (simp_all add: sample_canister_def sample_storage_new)

lemma sample_flows: "cn_flows sample_canister = new_flow_states" by (simp add: sample_canister_def)

lemma sample_system_run:
  obtains c' a where "system_reachable sample_crates (sample_canister, [], 0) (c', [], 1)"
    and "reads c' 10000 = Some (Inr a)" and "anchor_count (cn_storage c') = 1"
proof -
  obtain c' where reg: "register sample_crates 9 [4, 5] (device_data_from sample_passkey) [] [] None sample_canister
      = Some (c', Registered 10000)" using sample_register by blast
  let ?call = "CallRegister (device_data_from sample_passkey) [] [] None"
  have run: "execute sample_crates 9 [4, 5] ?call sample_canister = Some (c', [])" by (simp add: reg)
  have typed: "call_typed ?call" by (simp add: device_data_from_def sample_passkey_def device_data.defs aaguid_ok_def)
  have "lets_pass 9 sample_canister ?call = 1"
    by (simp add: lets_pass_def process_rate_limit_def sample_canister_def)
  then have step: "system_step sample_crates (sample_canister, [], 0) (c', [], 1)"
    using step_call [OF run typed, of "[]" 0] by simp
  have fresh: "identities_ok sample_crates sample_canister" "anchor_count (cn_storage sample_canister) = 0"
    using fresh_identities_ok [of "(10000, 20000)" sample_canister] sample_storage_new
    by (simp_all add: sample_canister_def)
  have aaguid: "aaguid_ok (dev_aaguid (device_data_from sample_passkey))" using typed by simp
  from register_effect(3) [OF reg fresh(1) aaguid] fresh(2)
  obtain a where "reads c' 10000 = Some (Inr a)" "anchor_count (cn_storage c') = 1"
    by (auto simp: created_def)
  with step show thesis by (intro that [of c']) (simp_all add: system_reachable_def r_into_rtranclp)
qed

theorem reachable_identities_within_limits_witness:
  "\<exists>(c' :: nat canister) a. reads c' 10000 = Some (Inr a) \<and> length (a_devices a) \<le> 20 \<and> storage_ok (cr_sa sample_crates) (cn_storage c')"
proof (rule sample_system_run)
  fix c' a
  assume "system_reachable sample_crates (sample_canister, [], 0) (c', [], 1)" and read: "reads c' 10000 = Some (Inr a)"
  from reachable_identities_within_limits [OF sample_fresh this] read show ?thesis by blast
qed

theorem identities_need_starts_witness:
  "\<exists>c'. system_reachable sample_crates (sample_canister, [], 0) (c', [], 1) \<and> anchor_count (cn_storage c') = 1
     \<and> anchor_count (cn_storage c') + open_flows (cn_flows c') \<le> 1"
proof (rule sample_system_run)
  fix c' a
  assume "system_reachable sample_crates (sample_canister, [], 0) (c', [], 1)" and one: "anchor_count (cn_storage c') = 1"
  moreover from identities_need_starts [OF sample_fresh sample_flows this(1)]
  have "anchor_count (cn_storage c') + open_flows (cn_flows c') \<le> 1" by simp
  ultimately show ?thesis by blast
qed

section \<open>A session joins\<close>

definition sample_session :: principal where
  "sample_session = replicate 28 0 @ [0xef]"

definition sample_joining :: authn_method_data where
  "sample_joining =
     \<lparr>amd_authn_method = WebAuthn [7, 7] [8] None,
      amd_security_settings = \<lparr>ams_protection = AuthnMethodUnprotected, ams_purpose = AuthnMethodAuthentication\<rparr>,
      amd_metadata = [], amd_last_authentication = None\<rparr>"

definition sample_used :: anchor where
  "sample_used = (anchor_new 10000 7)\<lparr>a_devices := [sample_passkey\<lparr>dev_last_usage := Some 9\<rparr>,
      sample_phrase\<lparr>dev_alias := ''Recovery Key''\<rparr>]\<rparr>"

lemma sample_used_storage: "anchor_after_storage sample_used = sample_used"
  by (simp add: anchor_after_storage_def sample_used_def storage_order_def stored_as_recovery_device_def
      stored_as_passkey_def stored_as_recovery_key_iff sample_phrase_def sample_passkey_def device_after_storage_eq
      anchor_new_def complete_passkey_def passkey_key_type_def)

lemma sample_passkeys:
  assumes w: "storage_write (\<lambda>k. k) sample_stored sample_used = Inr s"
  shows "passkey_principals (\<lambda>k. k) s n \<subseteq> {[4, 5]}"
proof (rule sample_stored_state)
  fix s1
  assume s1: "storage_write (\<lambda>k. k) sample_storage sample_anchor = Inr s1"
    and st: "sample_stored = bump_num_anchors s1"
  have none: "om_get (st_anchors sample_storage) n = None" for n
    by (simp add: sample_storage_def storage_new_def MAX_ENTRIES_value init_with_header_def flush_def empty_storage_def)
  have parts: "pk_pubkey ` set (fst (snd (previous_parts (Some (snd (anchor_to_storable a)))))) \<subseteq> {[4, 5]}"
    if "a \<in> {sample_anchor, sample_used}" for a
    using that by (auto simp: previous_parts_def anchor_to_storable_eq or_default_def sample_anchor_def sample_used_def
        sample_phrase_def sample_passkey_def stored_as_recovery_key_iff stored_as_passkey_def stored_as_recovery_device_def
        storable_passkey_of_def storable_passkey_from_def)
  have "passkey_principals (\<lambda>k. k) sample_storage n = {}" for n
    by (simp add: passkey_principals_def owned_parts_def none previous_parts_def)
  moreover have "passkey_principals (\<lambda>k. k) sample_stored = passkey_principals (\<lambda>k. k) s1"
    by (simp add: fun_eq_iff st bump_num_anchors_def flush_def owned_defs)
  ultimately show ?thesis
    unfolding owned_after_write(2) [OF w] using owned_after_write(2) [OF s1] parts by (auto simp: comp_def)
qed


text \<open>The owner enters the registration mode.\<close>

lemma sample_mode_entered:
  obtains c r where "authn_method_registration_mode_enter sample_crates 9 [4, 5] 10000 None sample_identity = Some (c, r)"
    and "reads c 10000 = Some (Inr sample_used)" and "\<And>n. passkey_principals (\<lambda>k. k) (cn_storage c) n \<subseteq> {[4, 5]}"
    and "phase 9 (cn_tentative c) 10000 = Some DeviceRegistrationModeActive"
    and "cn_archive_state c = NotConfigured" and "cn_temp_keys c = new_temp_keys" and "identities_ok sample_crates c"
proof -
  let ?a = "anchor_after_storage sample_anchor"
  have k: "dev_pubkey sample_passkey = [4, 5]" "dev_pubkey sample_phrase = [1, 2, 3]"
    by (simp_all add: sample_passkey_def sample_phrase_def)
  have auth: "check_authorization sample_crates 9 [4, 5] 10000 sample_identity
      = Some (sample_identity, Inr (?a, DeviceKey [4, 5]))"
    by (simp add: check_authorization_def sample_state_anchor sample_identity_anchor k sample_projections)
  have used: "set_device_usage_timestamp ?a [4, 5] 9 = Inr sample_used"
    by (simp add: set_device_usage_timestamp_def device_index_def position.simps k sample_identity_anchor anchor_new_def
      sample_used_def)
  obtain s where w: "storage_write (\<lambda>k. k) sample_stored sample_used = Inr s"
    using storage_write_Inr [of "\<lambda>k. k" sample_stored sample_used]
    by (auto simp: sample_used_def sample_record_number)
  have n: "a_number sample_used = 10000" by (simp add: sample_used_def)
  have "aaguids_ok sample_used" by (simp add: aaguids_ok_def sample_used_def sample_phrase_def sample_passkey_def aaguid_ok_def)
  from anchor_round_trip [OF this] have rd: "storage_read s 10000 = Some (Inr sample_used)"
    using storage_read_after_write [OF w, of 10000] by (simp add: n sample_stored_read sample_used_storage)
  obtain t q where enter: "enter_device_registration_mode 9 10000 None no_registrations = (t, q)" by fastforce
  have "phase 9 t 10000 = Some DeviceRegistrationModeActive"
    using tentative_phase [of 9 "\<lambda>k. k" empty_storage "EnterMode 10000 None" no_registrations 10000] enter
    by (simp add: REGISTRATION_MODE_DURATION_def secs_to_nanos_def phase_def no_registrations_def registration_room_def
      prune_registrations_def MAX_ANCHORS_IN_REGISTRATION_MODE_def om_len_def om_entries_retain om_empty.rep_eq)
  moreover define c where "c = sample_identity
    \<lparr>cn_activity := update_activity_stats 9 ?a (DeviceKey [4, 5]) (cn_activity sample_identity),
     cn_storage := s, cn_tentative := t\<rparr>"
  have "\<exists>d. anchor_device ?a [4, 5] = Some d"
    by (simp add: anchor_device_def sample_identity_anchor k)
  moreover have "cn_tentative sample_identity = no_registrations" by (simp add: sample_identity_def sample_canister_def)
  ultimately have run: "\<exists>r. authn_method_registration_mode_enter sample_crates 9 [4, 5] 10000 None sample_identity = Some (c, r)"
    and ph: "phase 9 (cn_tentative c) 10000 = Some DeviceRegistrationModeActive"
    by (auto simp: authn_method_registration_mode_enter_def check_authz_and_record_activity_def auth op_bind_def op_map_err_def
        activity_bookkeeping_def used write_anchor_def sample_projections w enter c_def)
  then obtain r where r: "authn_method_registration_mode_enter sample_crates 9 [4, 5] 10000 None sample_identity = Some (c, r)"
    by blast
  have "identities_ok sample_crates c"
    using mode_enter_guarded [of sample_crates 9 "[4, 5]" 10000 sample_identity None] r sample_identities_ok
    unfolding guarded_def touches_def by blast
  with r ph rd sample_passkeys [OF w] show thesis
    by (intro that [of c r]) (simp_all add: c_def reads_def sample_projections sample_identity_def sample_canister_def)
qed


text \<open>The session asks, the owner confirms it with the code, and the session adds its device.\<close>

lemma phase_SomeD:
  "phase now s n = Some st \<Longrightarrow> \<exists>r. om_get (td_registrations s) n = Some r \<and> tr_state r = st \<and> now < tr_expiration r"
  by (auto simp: phase_def split: option.splits if_splits)

lemma sample_session_added:
  assumes "phase 9 (cn_tentative c) 10000 = Some DeviceRegistrationModeActive"
  obtains t code where "resume sample_crates 9 [0, 0, 0, 0] (RegisteringSession sample_session 10000) c = Some (c\<lparr>cn_tentative := t\<rparr>)"
    and "phase 9 t 10000 = Some (SessionTentativelyAdded sample_session code 0)"
proof -
  obtain code where code: "new_confirmation_code [0, 0, 0, 0] = Some code" by (simp add: new_confirmation_code_def Let_def)
  obtain t q where add: "add_tentative_session 9 code 10000 sample_session (cn_tentative c) = (t, q)" by fastforce
  have "phase 9 t 10000 = Some (SessionTentativelyAdded sample_session code 0)"
    using tentative_phase [of 9 "\<lambda>k. k" empty_storage "AddSessionOp 10000 sample_session code" "cn_tentative c" 10000] add assms
    by (simp add: REGISTRATION_MODE_DURATION_def secs_to_nanos_def)
  moreover have "is_self_authenticating (cr_sa sample_crates) sample_session"
    by (simp add: is_self_authenticating_def sample_session_def sample_crates_def)
  ultimately show thesis
    by (intro that [of t code]) (simp_all add: authn_method_session_register_def code add)
qed

lemma sample_session_confirmed:
  assumes rd: "reads c 10000 = Some (Inr sample_used)"
    and ph: "phase 9 (cn_tentative c) 10000 = Some (SessionTentativelyAdded sample_session code 0)"
  obtains t where "authn_method_confirm sample_crates 9 [4, 5] 10000 code c = Some (c\<lparr>cn_tentative := t\<rparr>, Inr ())"
    and "phase 9 t 10000 = Some (SessionTentativelyConfirmed sample_session)"
proof -
  have auth: "check_authorization sample_crates 9 [4, 5] 10000 c = Some (c, Inr (sample_used, DeviceKey [4, 5]))"
    using rd [folded state_anchor_iff]
    by (simp add: check_authorization_def sample_used_def sample_projections) (simp add: sample_passkey_def)
  obtain r where r: "om_get (td_registrations (cn_tentative c)) 10000 = Some r"
    "tr_state r = SessionTentativelyAdded sample_session code 0" "9 < tr_expiration r" using phase_SomeD [OF ph] by blast
  obtain t q where conf: "confirm_tentative_device_or_session 9 10000 code (cn_tentative c) = (t, q)" by fastforce
  then have "q = Inr None" using r by (auto simp: confirm_tentative_device_or_session_def Let_def)
  moreover have "phase 9 t 10000 = Some (SessionTentativelyConfirmed sample_session)"
    using tentative_phase [of 9 "\<lambda>k. k" empty_storage "ConfirmOp 10000 code" "cn_tentative c" 10000] conf ph
    by (simp add: REGISTRATION_MODE_DURATION_def secs_to_nanos_def split: prod.splits sum.splits)
  ultimately show thesis
    using conf by (intro that [of t]) (simp_all add: authn_method_confirm_def auth op_bind_def op_map_err_def)
qed

definition sample_joined :: anchor where
  "sample_joined = sample_used\<lparr>a_devices := a_devices sample_used @
     [\<lparr>dev_pubkey = [7, 7], dev_alias = [], dev_credential_id = Some [8], dev_aaguid = None,
       dev_purpose = Authentication, dev_key_type = Unknown, dev_protection = Unprotected,
       dev_origin = None, dev_metadata = Some [], dev_last_usage = None\<rparr>]\<rparr>"

lemma sample_session_joins:
  assumes rd: "reads c 10000 = Some (Inr sample_used)"
    and keys: "\<And>n. passkey_principals (\<lambda>k. k) (cn_storage c) n \<subseteq> {[4, 5]}"
    and ok: "identities_ok sample_crates c" and ar: "cn_archive_state c = NotConfigured"
    and ph: "phase 9 (cn_tentative c) 10000 = Some (SessionTentativelyConfirmed sample_session)"
  obtains c' where "authn_method_registration_mode_exit sample_crates 9 sample_session 10000 (Some sample_joining) c = Some (c', Inr ())"
    and "reads c' 10000 = Some (Inr (anchor_after_storage sample_joined))"
proof -
  obtain r where r: "om_get (td_registrations (cn_tentative c)) 10000 = Some r"
    "tr_state r = SessionTentativelyConfirmed sample_session" "9 < tr_expiration r" using phase_SomeD [OF ph] by blast
  then have conf: "get_confirmed_session 9 10000 (cn_tentative c) = (prune_registrations 9 (cn_tentative c), Some sample_session)"
    by (simp add: get_confirmed_session_def Let_def)
  define d where "d = c\<lparr>cn_tentative := prune_registrations 9 (cn_tentative c)\<rparr>"
  obtain device where dev: "device_from_authn_method sample_joining = Inr device"
    and data: "device_from_data (device_data_from device) = last (a_devices sample_joined)"
    and key: "dev_pubkey (device_data_from device) = [7, 7]"
    by (simp add: device_from_authn_method_def sample_joining_def remove_metadata_string_def remove_key_type_def
      check_aaguid_def device_from_data_def device_data_from_def device_data.defs device.defs sample_joined_def
      attachment_key_type_def usage_key_type_def metadata_from_v2_def)
  have sound: "indices_sound (\<lambda>k. k) (cn_storage c)"
    using ok by (simp add: identities_ok_def storage_ok_def sample_projections)
  have free: "check_passkey_pubkey_is_not_used (\<lambda>k. k) (cn_storage c) [7, 7]"
  proof (rule ccontr)
    assume "\<not> check_passkey_pubkey_is_not_used (\<lambda>k. k) (cn_storage c) [7, 7]"
    then obtain m where "om_get (st_by_passkey_principal (cn_storage c)) [7, 7] = Some m"
      by (auto simp: check_passkey_pubkey_is_not_used_def lookup_anchor_with_passkey_pubkey_def)
    with sound have "[7, 7] \<in> passkey_principals (\<lambda>k. k) (cn_storage c) m" unfolding indices_sound_def by blast
    with keys [of m] show False by auto
  qed
  have "add_device sample_used (last (a_devices sample_joined)) = Inr sample_joined"
    by (simp add: add_device_Inr sample_joined_def sample_used_def anchor_new_def sample_device_simps find_None_iff metadata_len_def)
  then obtain operation where add: "management_add_device sample_used (device_data_from device) = Some (operation, sample_joined)"
    by (simp add: management_add_device_def data)
  have n: "a_number sample_joined = 10000" by (simp add: sample_joined_def sample_used_def)
  have typed: "aaguids_ok sample_joined"
    by (simp add: aaguids_ok_def sample_joined_def sample_used_def sample_phrase_def sample_passkey_def aaguid_ok_def)
  have rdd: "reads d (a_number sample_joined) = Some (Inr sample_used)" using rd by (simp add: d_def n reads_def)
  obtain s where w: "write_anchor sample_crates sample_joined d = Some (d\<lparr>cn_storage := s\<rparr>, Inr ())"
    and rds: "storage_read s 10000 = Some (Inr (anchor_after_storage sample_joined))"
    using write_anchor_readable [OF rdd typed, of sample_crates] unfolding n by blast
  have st: "state_anchor 10000 d = Some sample_used" using rdd by (simp add: state_anchor_iff n)
  have "\<exists>e. post_operation_bookkeeping sample_crates 9 sample_session 10000 operation (d\<lparr>cn_storage := s\<rparr>) = Some e
      \<and> cn_storage e = s"
    by (simp add: post_operation_bookkeeping_def archive_operation_def d_def ar)
  then obtain e where e: "post_operation_bookkeeping sample_crates 9 sample_session 10000 operation (d\<lparr>cn_storage := s\<rparr>) = Some e"
    "cn_storage e = s" by blast
  have "\<exists>c'. authn_method_registration_mode_exit sample_crates 9 sample_session 10000 (Some sample_joining) c = Some (c', Inr ())
      \<and> cn_storage c' = s"
    using free e
    by (simp add: authn_method_registration_mode_exit_def conf Let_def d_def [symmetric] add_device_of_session_def dev key
      sample_projections st add w op_bind_def op_map_err_def) (simp add: d_def)
  with rds show thesis by (auto simp: reads_def intro: that)
qed


text \<open>The whole run, up to the last message.\<close>

lemma sample_session_run:
  obtains h c c' where "system_run sample_crates sample_identity h c []"
    and "execute sample_crates 9 sample_session (CallModeExit 10000 (Some sample_joining)) c = Some (c', [])"
    and "reads c 10000 = Some (Inr sample_used)" and "reads c' 10000 = Some (Inr (anchor_after_storage sample_joined))"
    and "\<not> authorized sample_crates 9 sample_session 10000 c"
proof (rule sample_mode_entered)
  fix c1 r
  assume enter: "authn_method_registration_mode_enter sample_crates 9 [4, 5] 10000 None sample_identity = Some (c1, r)"
    and rd: "reads c1 10000 = Some (Inr sample_used)" and keys: "\<And>n. passkey_principals (\<lambda>k. k) (cn_storage c1) n \<subseteq> {[4, 5]}"
    and ph: "phase 9 (cn_tentative c1) 10000 = Some DeviceRegistrationModeActive"
    and ar: "cn_archive_state c1 = NotConfigured" and tk: "cn_temp_keys c1 = new_temp_keys"
  obtain t code where add: "resume sample_crates 9 [0, 0, 0, 0] (RegisteringSession sample_session 10000) c1 = Some (c1\<lparr>cn_tentative := t\<rparr>)"
    and ph2: "phase 9 t 10000 = Some (SessionTentativelyAdded sample_session code 0)" by (rule sample_session_added [OF ph])
  let ?c2 = "c1\<lparr>cn_tentative := t\<rparr>"
  have rd2: "reads ?c2 10000 = Some (Inr sample_used)" using rd by (simp add: reads_def)
  obtain t3 where conf: "authn_method_confirm sample_crates 9 [4, 5] 10000 code ?c2 = Some (?c2\<lparr>cn_tentative := t3\<rparr>, Inr ())"
    and ph3: "phase 9 t3 10000 = Some (SessionTentativelyConfirmed sample_session)"
    by (rule sample_session_confirmed [OF rd2]) (use ph2 in simp_all)
  let ?c3 = "?c2\<lparr>cn_tentative := t3\<rparr>"
  have run1: "\<exists>h. system_run sample_crates sample_identity h c1 []"
    using run_call [OF run_start, of sample_crates 9 "[4, 5]" "CallModeEnter 10000 None" sample_identity c1 "[]"] enter
    by (auto simp: after_def)
  then have "\<exists>h. system_run sample_crates sample_identity h c1 [RegisteringSession sample_session 10000]"
    using run_call [of sample_crates sample_identity _ c1 "[]" 9 sample_session "CallSessionRegister 10000" c1
      "[RegisteringSession sample_session 10000]"] by fastforce
  then have "\<exists>h. system_run sample_crates sample_identity h ?c2 []"
    using run_resume [of sample_crates sample_identity _ c1 "[]" "RegisteringSession sample_session 10000" "[]", OF _ add]
    by auto
  then obtain h where run3: "system_run sample_crates sample_identity h ?c3 []"
    using run_call [of sample_crates sample_identity _ ?c2 "[]" 9 "[4, 5]" "CallConfirm 10000 code" ?c3 "[]"] conf
    by (auto simp: after_def)
  have ok3: "identities_ok sample_crates ?c3"
    using system_run_reachable [OF run3] system_reachable_keeps [OF _ sample_identities_ok] by fastforce
  have rd3: "reads ?c3 10000 = Some (Inr sample_used)" using rd by (simp add: reads_def)
  obtain c' where exit: "authn_method_registration_mode_exit sample_crates 9 sample_session 10000 (Some sample_joining) ?c3 = Some (c', Inr ())"
    and rd': "reads c' 10000 = Some (Inr (anchor_after_storage sample_joined))"
    by (rule sample_session_joins [OF rd3 _ ok3]) (use keys ar ph3 in simp_all)
  have "\<not> authorized sample_crates 9 sample_session 10000 ?c3"
    using rd3 [folded state_anchor_iff] tk
    by (simp add: anchor_new_def new_temp_keys_def authorized_def sample_used_def device_authorizes_def sample_projections sample_session_def sample_passkey_def sample_phrase_def)
  with run3 exit rd3 rd' show thesis by (intro that [of h ?c3 c']) (simp_all add: after_def)
qed


theorem anchor_changes_authorized_witness:
  "\<exists>h c c'. system_run sample_crates sample_identity h c []
     \<and> execute sample_crates 9 sample_session (CallModeExit 10000 (Some sample_joining)) c = Some (c', [])
     \<and> reads c' 10000 \<noteq> reads c 10000 \<and> \<not> authorized sample_crates 9 sample_session 10000 c
     \<and> session_confirmed sample_crates h sample_session 10000"
proof (rule sample_session_run)
  fix h c c'
  assume run: "system_run sample_crates sample_identity h c []"
    and exit: "execute sample_crates 9 sample_session (CallModeExit 10000 (Some sample_joining)) c = Some (c', [])"
    and rd: "reads c 10000 = Some (Inr sample_used)" and rd': "reads c' 10000 = Some (Inr (anchor_after_storage sample_joined))"
    and no: "\<not> authorized sample_crates 9 sample_session 10000 c"
  have "[7, 7] \<in> set (map dev_pubkey (a_devices (anchor_after_storage sample_joined)))"
    "[7, 7] \<notin> set (map dev_pubkey (a_devices sample_used))"
    unfolding set_after_storage by (simp_all add: sample_joined_def sample_used_def sample_phrase_def sample_passkey_def)
  then have changed: "reads c' 10000 \<noteq> reads c 10000" unfolding rd rd' by auto
  have typed: "call_typed (CallModeExit 10000 (Some sample_joining))" by simp
  have start: "cn_tentative sample_identity = no_registrations" by (simp add: sample_identity_def sample_canister_def)
  from anchor_changes_authorized [OF sample_identities_ok start run step_call [OF exit typed] rd changed] exit typed no
  have "session_confirmed sample_crates h sample_session 10000" by blast
  with run exit changed no show ?thesis by blast
qed

end
