(* ===== verification/Attribute_Properties.thy ===== *)
theory Attribute_Properties
  imports Attribute_Sharing Device_Access
begin

text \<open>
  What attribute sharing promises, in the ICRC-3 flow and in the legacy flow: only stored values of the
  identity's own credentials are certified, each under the scope it belongs to.
\<close>

section \<open>The ICRC-3 flow\<close>

definition certifies ::
  "'k openid_state \<Rightarrow> anchor \<Rightarrow> validated_attribute_spec \<Rightarrow> string \<Rightarrow> bool" where
  "certifies os anchor spec stored \<longleftrightarrow>
     (\<exists>scope cred. fst (vas_key spec) = Some scope \<and> cred \<in> set (a_openid_credentials anchor)
        \<and> matched_attribute_scope os cred = Some scope \<and> stored_attribute os cred (snd (vas_key spec)) = Some stored
        \<and> \<not> (is_sso_scope (Some scope) \<and> snd (vas_key spec) = VerifiedEmailAttribute)
        \<and> (vas_value spec = None \<or> vas_value spec = Some (string_bytes stored)))"

lemma resolve_spec_Inr:
  "resolve_spec os (a_openid_credentials anchor) spec = Inr stored \<Longrightarrow> certifies os anchor spec stored"
  by (auto simp: resolve_spec_def certifies_def split: option.splits if_splits dest!: find_SomeD)

lemma certify_step:
  "certify_spec os creds spec (ps, m) =
     (case resolve_spec os creds spec of
        Inl problem \<Rightarrow> (ps @ [problem], m)
      | Inr stored \<Rightarrow>
          if om_contains m (certified_key spec) then (ps @ [DuplicateCertifiedKey (certified_key spec)], m)
          else (ps, om_insert (certified_key spec) (Icrc3Text stored) m))"
  by (simp add: certify_spec_def)

lemma om_len_insert_new: "\<not> om_contains m k \<Longrightarrow> om_len (om_insert k v m) = Suc (om_len m)"
proof -
  have "{j. om_contains (om_insert k v m) j} = insert k {j. om_contains m j}" by auto
  then show "\<not> om_contains m k \<Longrightarrow> ?thesis" by (simp add: om_len_card)
qed

lemma certify_fold:
  assumes "fold (certify_spec os (a_openid_credentials anchor)) specs (ps, m) = ([], pairs)"
  shows "ps = [] \<and> om_len pairs = om_len m + length specs
    \<and> (\<forall>key v. om_get pairs key = Some v \<longrightarrow> om_get m key = Some v
         \<or> (\<exists>spec stored. spec \<in> set specs \<and> certified_key spec = key \<and> v = Icrc3Text stored \<and> certifies os anchor spec stored))
    \<and> (\<forall>spec \<in> set specs. om_contains pairs (certified_key spec))
    \<and> (\<forall>key. om_contains m key \<longrightarrow> om_contains pairs key)"
  using assms
proof (induction specs arbitrary: ps m)
  case (Cons spec specs)
  have none: "ps' = []" if "fold (certify_spec os (a_openid_credentials anchor)) specs (ps', m') = ([], pairs)" for ps' m'
    using Cons.IH [OF that] by blast
  obtain stored where st: "resolve_spec os (a_openid_credentials anchor) spec = Inr stored"
    and new: "\<not> om_contains m (certified_key spec)" and "ps = []"
    and rest: "fold (certify_spec os (a_openid_credentials anchor)) specs
        ([], om_insert (certified_key spec) (Icrc3Text stored) m) = ([], pairs)"
    using Cons.prems by (auto simp: certify_step split: sum.splits if_splits dest: none)
  have len: "om_len (om_insert (certified_key spec) (Icrc3Text stored) m) = Suc (om_len m)"
    using new by (rule om_len_insert_new)
  note ih = Cons.IH [OF rest]
  have "om_get m key = Some v \<or> (\<exists>spec' stored'. spec' \<in> set (spec # specs) \<and> certified_key spec' = key
        \<and> v = Icrc3Text stored' \<and> certifies os anchor spec' stored')" if "om_get pairs key = Some v" for key v
  proof (cases "om_get (om_insert (certified_key spec) (Icrc3Text stored) m) key = Some v")
    case True
    then show ?thesis using resolve_spec_Inr [OF st] by (auto split: if_splits)
  next
    case False
    then show ?thesis using ih that by auto
  qed
  moreover have "om_contains pairs key" if "om_contains m key" for key
    using ih that by simp
  moreover have "om_contains pairs (certified_key spec)" using ih by simp
  ultimately show ?case using ih len \<open>ps = []\<close> by simp
qed simp

lemma certified_key_explicit:
  assumes "certifies os anchor spec stored"
  shows "certified_key spec \<noteq> CHR ''i'' # u"
proof -
  obtain scope name where key: "vas_key spec = (Some scope, name)"
    using assms by (cases "vas_key spec") (auto simp: certifies_def)
  show ?thesis by (cases scope; cases name) (simp_all add: certified_key_def key)
qed

lemma parse_step:
  "parse_attribute_spec x (ps, specs) = (ps', specs') \<Longrightarrow>
     (\<exists>p. ps' = ps @ [p] \<and> specs' = specs)
     \<or> ps' = ps \<and> (\<exists>spec. specs' = specs @ [spec] \<and> key_ok (vas_key spec))"
  by (auto simp: parse_attribute_spec_def Let_def split: sum.splits if_splits dest: attribute_key_from_Inr)

lemma parse_fold:
  "fold parse_attribute_spec xs (ps, specs) = ([], out) \<Longrightarrow>
     ps = [] \<and> length out = length specs + length xs
     \<and> (list_all (key_ok \<circ> vas_key) specs \<longrightarrow> list_all (key_ok \<circ> vas_key) out)"
proof (induction xs arbitrary: ps specs)
  case (Cons x xs)
  obtain ps' specs' where st: "parse_attribute_spec x (ps, specs) = (ps', specs')" by fastforce
  with Cons.prems have "fold parse_attribute_spec xs (ps', specs') = ([], out)" by simp
  from Cons.IH [OF this] parse_step [OF st] show ?case by auto
qed simp

lemma validate_icrc3_Inr:
  assumes "validate_prepare_icrc3_request r = Inr specs"
  shows "length specs = length (pir_attributes r)" and "list_all (key_ok \<circ> vas_key) specs"
    and "\<And>o'. pir_unmapped_origin r = Some o' \<Longrightarrow> remap_to_legacy_domain o' = pir_origin r"
proof -
  obtain ps where "fold parse_attribute_spec (pir_attributes r) (ps, []) = ([], specs)"
    and "check_unmapped_origin (pir_origin r) (pir_unmapped_origin r) = [] \<or> ps \<noteq> []"
    using assms by (auto simp: validate_prepare_icrc3_request_def split: prod.splits list.splits)
  with parse_fold [OF this(1)] show "length specs = length (pir_attributes r)" "list_all (key_ok \<circ> vas_key) specs"
    "\<And>o'. pir_unmapped_origin r = Some o' \<Longrightarrow> remap_to_legacy_domain o' = pir_origin r"
    by (auto simp: check_unmapped_origin_def split: if_splits)
qed

lemma certified_icrc3_pairs_sound:
  assumes "certified_icrc3_pairs os anchor specs nonce origin unmapped now = Inr pairs"
  shows "om_get pairs ''implicit:nonce'' = Some (Icrc3Blob nonce)"
    and "om_get pairs ''implicit:issued_at_timestamp_ns'' = Some (Icrc3Nat (unat now))"
    and "om_get pairs ''implicit:origin'' = Some (Icrc3Text (case unmapped of Some o' \<Rightarrow> o' | None \<Rightarrow> origin))"
    and "om_len pairs = length specs + 3"
    and "om_get pairs key = Some v \<Longrightarrow> (\<exists>u. key = ''implicit:'' @ u)
      \<or> (\<exists>spec stored. spec \<in> set specs \<and> certified_key spec = key \<and> v = Icrc3Text stored \<and> certifies os anchor spec stored)"
proof -
  obtain m where m: "fold (certify_spec os (a_openid_credentials anchor)) specs ([], om_empty) = ([], m)"
    and pairs: "pairs = implicit_pairs nonce origin unmapped now m"
    using assms by (auto simp: certified_icrc3_pairs_def split: prod.splits list.splits)
  note cf = certify_fold [OF m]
  have explicit: "\<not> om_contains m (CHR ''i'' # u)" for u
    using cf certified_key_explicit by (fastforce simp: om_contains_def)
  show "om_get pairs ''implicit:nonce'' = Some (Icrc3Blob nonce)"
    "om_get pairs ''implicit:issued_at_timestamp_ns'' = Some (Icrc3Nat (unat now))"
    "om_get pairs ''implicit:origin'' = Some (Icrc3Text (case unmapped of Some o' \<Rightarrow> o' | None \<Rightarrow> origin))"
    by (simp_all add: pairs implicit_pairs_def)
  show "om_len pairs = length specs + 3"
    using cf explicit by (simp add: pairs implicit_pairs_def om_len_insert_new)
  show "om_get pairs key = Some v \<Longrightarrow> (\<exists>u. key = ''implicit:'' @ u)
      \<or> (\<exists>spec stored. spec \<in> set specs \<and> certified_key spec = key \<and> v = Icrc3Text stored \<and> certifies os anchor spec stored)"
    using cf by (auto simp: pairs implicit_pairs_def split: if_splits)
qed

lemma authorized_account_Inr:
  assumes "authorized_account cr now caller n origin k c = Some (c', Inr (anchor, account))"
  shows "authorized cr now caller n c" and "reads c n = Some (Inr anchor)"
proof -
  obtain c1 a key where ch: "check_authorization cr now caller n c = Some (c1, Inr (a, key))"
    and acc: "(case get_account_for_origin (cr_sha cr) (cn_storage c1) (a_number a) origin k of
        None \<Rightarrow> None
      | Some (Inl e) \<Rightarrow> Some (c1, Inl (AttributeAccountError e))
      | Some (Inr account) \<Rightarrow> Some (c1, Inr (a, account))) = Some (c', Inr (anchor, account))"
    using assms by (force simp: authorized_account_def op_bind_Some op_map_err_Inr)
  from acc have "a = anchor" by (auto split: option.splits sum.splits)
  with ch have ch: "check_authorization cr now caller n c = Some (c1, Inr (anchor, key))" by simp
  then show "authorized cr now caller n c" and "reads c n = Some (Inr anchor)"
    by (cases rule: check_authorization_cases; simp)+
qed

text \<open>
  Property C40. An ICRC-3 message states only what the identity has: the canister signs one only for a caller
  it has authorized for the identity, the message carries the nonce of the request, the time of
  signing and the origin the account belongs to (or one that maps to it), and besides these exactly
  one entry for each requested attribute; each entry is the value stored with a credential of the
  identity itself, under a scope that is the scope of this credential, the same as the value
  the request expected if it named one, and never an SSO credential's verified email.
\<close>

theorem icrc3_message_sound:
  assumes "prepare_icrc3_attributes_start cr t caller r c = Some (c1, Inr start)"
    and "prepare_icrc3_attributes_finish cr ac now r start c2 sigs = Some (Inr message, sigs')"
  shows "authorized cr t caller (pir_identity_number r) c
    \<and> (\<exists>anchor pairs origin specs.
        reads c (pir_identity_number r) = Some (Inr anchor) \<and> message = icrc3_attribute_message ac pairs
        \<and> om_get pairs ''implicit:nonce'' = Some (Icrc3Blob (pir_nonce r))
        \<and> om_get pairs ''implicit:issued_at_timestamp_ns'' = Some (Icrc3Nat (unat now))
        \<and> om_get pairs ''implicit:origin'' = Some (Icrc3Text origin)
        \<and> (origin = pir_origin r \<or> remap_to_legacy_domain origin = pir_origin r)
        \<and> om_len pairs = length (pir_attributes r) + 3
        \<and> validate_prepare_icrc3_request r = Inr specs
        \<and> (\<forall>key v. om_get pairs key = Some v \<longrightarrow> (\<exists>u. key = ''implicit:'' @ u)
             \<or> (\<exists>spec stored. spec \<in> set specs \<and> key_ok (vas_key spec) \<and> certified_key spec = key
                  \<and> v = Icrc3Text stored \<and> certifies (cn_openid c2) anchor spec stored)))"
proof -
  obtain anchor account specs where start: "start = (anchor, account, specs)" by (cases start)
  with assms(1) have val: "validate_prepare_icrc3_request r = Inr specs"
    and acc: "authorized_account cr t caller (pir_identity_number r) (pir_origin r) (pir_account_number r) c
        = Some (c1, Inr (anchor, account))"
    by (auto simp: prepare_icrc3_attributes_start_def op_bind_Some split: sum.splits)
  obtain pairs where pairs: "certified_icrc3_pairs (cn_openid c2) anchor specs (pir_nonce r) (pir_origin r)
        (pir_unmapped_origin r) now = Inr pairs" and msg: "message = icrc3_attribute_message ac pairs"
    using assms(2)
    by (cases "certified_icrc3_pairs (cn_openid c2) anchor specs (pir_nonce r) (pir_origin r) (pir_unmapped_origin r) now")
      (auto simp: start prepare_icrc3_attributes_finish_def anchor_prepare_icrc3_attributes_def Let_def)
  note sound = certified_icrc3_pairs_sound [OF pairs]
  have "(case pir_unmapped_origin r of Some o' \<Rightarrow> o' | None \<Rightarrow> pir_origin r) = pir_origin r
      \<or> remap_to_legacy_domain (case pir_unmapped_origin r of Some o' \<Rightarrow> o' | None \<Rightarrow> pir_origin r) = pir_origin r"
    using validate_icrc3_Inr(3) [OF val] by (cases "pir_unmapped_origin r") auto
  moreover have "\<forall>key v. om_get pairs key = Some v \<longrightarrow> (\<exists>u. key = ''implicit:'' @ u)
      \<or> (\<exists>spec stored. spec \<in> set specs \<and> key_ok (vas_key spec) \<and> certified_key spec = key
           \<and> v = Icrc3Text stored \<and> certifies (cn_openid c2) anchor spec stored)"
  proof (intro allI impI)
    fix key v
    assume "om_get pairs key = Some v"
    from sound(5) [OF this] validate_icrc3_Inr(2) [OF val]
    show "(\<exists>u. key = ''implicit:'' @ u)
      \<or> (\<exists>spec stored. spec \<in> set specs \<and> key_ok (vas_key spec) \<and> certified_key spec = key
           \<and> v = Icrc3Text stored \<and> certifies (cn_openid c2) anchor spec stored)"
      unfolding list_all_iff comp_def by blast
  qed
  ultimately show ?thesis
    using authorized_account_Inr [OF acc] sound(1-4) validate_icrc3_Inr(1) [OF val] msg val
    by (intro conjI exI) (assumption | simp only:)+
qed


text \<open>The sample canister with an OpenID credential beside the passkey.\<close>

definition sample_linked_credential :: openid_credential where
  "sample_linked_credential =
     \<lparr>oc_iss = ''https://i'', oc_sub = ''s'', oc_aud = ''b'', oc_last_usage = None,
      oc_metadata = [(''email'', StringV2 ''e'')]\<rparr>"

definition sample_linked :: anchor where
  "sample_linked = (anchor_new 10000 7)\<lparr>a_devices := [sample_passkey], a_openid_credentials := [sample_linked_credential]\<rparr>"

definition sample_attribute_crates :: "bytes list attribute_crates" where
  "sample_attribute_crates =
     \<lparr>ac_hash = (\<lambda>_. []), ac_encode = (\<lambda>_. [1]), ac_add = (\<lambda>_ _ m sigs. m # sigs),
      ac_get = (\<lambda>_ _ m sigs. if m \<in> set sigs then Some [2] else None)\<rparr>"

definition sample_icrc3_request :: prepare_icrc3_request where
  "sample_icrc3_request =
     \<lparr>pir_identity_number = 10000, pir_origin = ''o'', pir_unmapped_origin = None, pir_account_number = None,
      pir_attributes = [\<lparr>as_key = ''openid:https://i:email'', as_value = None, as_omit_scope = False\<rparr>],
      pir_nonce = replicate 32 0\<rparr>"

lemma sample_key: "attribute_key_from ''openid:https://i:email'' = Inr (Some (OpenIdScope ''https://i''), EmailAttribute)"
  by code_simp

lemma sample_request_valid:
  "validate_prepare_icrc3_request sample_icrc3_request =
     Inr [\<lparr>vas_key = (Some (OpenIdScope ''https://i''), EmailAttribute), vas_value = None, vas_omit_scope = False\<rparr>]"
  by (simp add: validate_prepare_icrc3_request_def sample_icrc3_request_def parse_attribute_spec_def sample_key
      check_hostname_def check_unmapped_origin_def check_attribute_count_def ICRC3_NONCE_BYTES_def
      FRONTEND_HOSTNAME_MAX_BYTES_def MAX_ATTRIBUTES_PER_REQUEST_def)

lemma sample_scope: "matched_attribute_scope sample_openid_state sample_linked_credential = Some (OpenIdScope ''https://i'')"
  by (simp add: matched_attribute_scope_def credential_provider_def credential_matches_provider_def
      sample_openid_state_def sample_linked_credential_def sample_placeholders replace_issuer_placeholders_def)

lemma sample_resolve:
  "resolve_spec sample_openid_state [sample_linked_credential]
     \<lparr>vas_key = (Some (OpenIdScope ''https://i''), EmailAttribute), vas_value = None, vas_omit_scope = False\<rparr> = Inr ''e''"
  by (simp add: resolve_spec_def sample_scope) (simp add: get_email_def read_attribute_as_string_def sample_linked_credential_def)

lemma sample_linked_start:
  obtains c keys a where "prepare_icrc3_attributes_start sample_crates 9 [4, 5] sample_icrc3_request c
      = Some (c\<lparr>cn_temp_keys := keys\<rparr>, Inr (a, account_synthetic 10000 ''o'',
          [\<lparr>vas_key = (Some (OpenIdScope ''https://i''), EmailAttribute), vas_value = None, vas_omit_scope = False\<rparr>]))"
    and "cn_openid c = sample_openid_state" and "a_openid_credentials a = [sample_linked_credential]"
proof -
  obtain s where w: "storage_write (\<lambda>k. k) sample_stored sample_linked = Inr s"
    using storage_write_Inr [of "\<lambda>k. k" sample_stored sample_linked]
    by (auto simp: sample_linked_def sample_record_number)
  have n: "a_number sample_linked = 10000" by (simp add: sample_linked_def)
  have "aaguids_ok sample_linked" by (simp add: aaguids_ok_def sample_linked_def sample_passkey_def aaguid_ok_def)
  from anchor_round_trip [OF this] have rd: "storage_read s 10000 = Some (Inr (anchor_after_storage sample_linked))"
    using storage_read_after_write [OF w, of 10000] by (simp add: n sample_stored_read)
  define c where "c = sample_canister\<lparr>cn_storage := s\<rparr>"
  from rd have reads: "reads c 10000 = Some (Inr (anchor_after_storage sample_linked))" by (simp add: reads_def c_def)
  have "[4, 5] \<in> set (map dev_pubkey (a_devices (anchor_after_storage sample_linked)))"
    unfolding set_after_storage by (simp add: sample_linked_def sample_passkey_def)
  then obtain d where "d \<in> set (a_devices (anchor_after_storage sample_linked))" "dev_pubkey d = [4, 5]" by auto
  then obtain keys k where ch: "check_authorization sample_crates 9 [4, 5] 10000 c
      = Some (c\<lparr>cn_temp_keys := keys\<rparr>, Inr (anchor_after_storage sample_linked, DeviceKey k))"
    by (elim owner_accepted [OF reads, of d "[4, 5]" sample_crates 9]) (simp add: sample_projections)
  have r: "pir_identity_number sample_icrc3_request = 10000" "pir_origin sample_icrc3_request = ''o''"
    "pir_account_number sample_icrc3_request = None" by (simp_all add: sample_icrc3_request_def)
  have a: "a_number (anchor_after_storage sample_linked) = 10000"
    "a_openid_credentials (anchor_after_storage sample_linked) = [sample_linked_credential]"
    by (simp_all add: anchor_after_storage_def sample_linked_def)
  have "prepare_icrc3_attributes_start sample_crates 9 [4, 5] sample_icrc3_request c
      = Some (c\<lparr>cn_temp_keys := keys\<rparr>, Inr (anchor_after_storage sample_linked, account_synthetic 10000 ''o'',
          [\<lparr>vas_key = (Some (OpenIdScope ''https://i''), EmailAttribute), vas_value = None, vas_omit_scope = False\<rparr>]))"
    by (simp add: prepare_icrc3_attributes_start_def sample_request_valid authorized_account_def ch r a op_map_err_def
        op_bind_def get_account_for_origin_def)
  moreover have "cn_openid c = sample_openid_state" by (simp add: c_def sample_canister_def)
  ultimately show thesis using a(2) by (rule that)
qed

theorem icrc3_message_sound_witness:
  "\<exists>c c1 a anchor pairs c2 message sigs. prepare_icrc3_attributes_start sample_crates 9 [4, 5] sample_icrc3_request c = Some (c1, Inr a)
     \<and> prepare_icrc3_attributes_finish sample_crates sample_attribute_crates 11 sample_icrc3_request a c2 [] = Some (Inr message, sigs)
     \<and> message = icrc3_attribute_message sample_attribute_crates pairs \<and> om_len pairs = 4
     \<and> reads c 10000 = Some (Inr anchor)"
proof (rule sample_linked_start)
  fix c keys and a :: anchor
  let ?spec = "\<lparr>vas_key = (Some (OpenIdScope ''https://i''), EmailAttribute), vas_value = None, vas_omit_scope = False\<rparr>"
  let ?start = "(a, account_synthetic 10000 ''o'', [?spec])"
  assume st: "prepare_icrc3_attributes_start sample_crates 9 [4, 5] sample_icrc3_request c = Some (c\<lparr>cn_temp_keys := keys\<rparr>, Inr ?start)"
    and os: "cn_openid c = sample_openid_state" and creds: "a_openid_credentials a = [sample_linked_credential]"
  define c2 :: "nat canister" where
    "c2 = c\<lparr>cn_storage := (cn_storage c)\<lparr>st_header := (st_header (cn_storage c))\<lparr>h_salt := replicate 32 1\<rparr>\<rparr>\<rparr>"
  have "storage_salt (cn_storage c2) = Some (replicate 32 1)"
    by (simp add: storage_salt_def c2_def EMPTY_SALT_def numeral_eq_Suc)
  moreover have "cn_openid c2 = sample_openid_state" by (simp add: c2_def os)
  moreover have "certified_icrc3_pairs sample_openid_state a [?spec] nonce origin unmapped now
      = Inr (implicit_pairs nonce origin unmapped now (om_insert (certified_key ?spec) (Icrc3Text ''e'') om_empty))"
    for nonce origin unmapped now
    by (simp add: certified_icrc3_pairs_def creds certify_step sample_resolve om_contains_def)
  ultimately obtain message sigs where fin: "prepare_icrc3_attributes_finish sample_crates sample_attribute_crates 11
      sample_icrc3_request ?start c2 [] = Some (Inr message, sigs)"
    by (auto simp: prepare_icrc3_attributes_finish_def seed_of_account_def calculate_seed_def account_blob_def account_synthetic_def account_new_full_def
        anchor_prepare_icrc3_attributes_def Let_def)
  have "pir_identity_number sample_icrc3_request = 10000" "length (pir_attributes sample_icrc3_request) = 1"
    by (simp_all add: sample_icrc3_request_def)
  with icrc3_message_sound [OF st fin] obtain anchor pairs where
    "message = icrc3_attribute_message sample_attribute_crates pairs" "om_len pairs = 4" "reads c 10000 = Some (Inr anchor)"
    by auto
  with st fin show ?thesis by blast
qed

section \<open>The legacy flow\<close>

definition legacy_sound :: "'k openid_state \<Rightarrow> openid_credential list \<Rightarrow> certifiable_attribute \<Rightarrow> bool" where
  "legacy_sound os creds attribute \<longleftrightarrow>
     (\<exists>cred issuer stored. cred \<in> set creds \<and> matched_attribute_scope os cred = Some (OpenIdScope issuer)
        \<and> fst (fst attribute) = Some (OpenIdScope issuer)
        \<and> stored_attribute os cred (snd (fst attribute)) = Some stored \<and> snd attribute = string_bytes stored)"

lemma available_attributes_sound:
  "attribute \<in> set (available_attributes os cred (Some (OpenIdScope issuer)) names) \<Longrightarrow> cred \<in> set creds
   \<Longrightarrow> matched_attribute_scope os cred = Some (OpenIdScope issuer) \<Longrightarrow> legacy_sound os creds attribute"
  by (auto simp: available_attributes_def legacy_sound_def List.map_filter_def)

lemma prepare_openid_attributes_sound:
  "(key, attributes) \<in> set (prepare_openid_attributes os creds requested) \<Longrightarrow> set creds \<subseteq> set creds'
   \<Longrightarrow> attribute \<in> set attributes \<Longrightarrow> legacy_sound os creds' attribute"
proof (induction os creds requested rule: prepare_openid_attributes.induct)
  case (2 os cred creds requested)
  show ?case
  proof (cases "matched_attribute_scope os cred")
    case (Some scope)
    with 2 show ?thesis
      by (cases scope) (auto split: option.splits dest: available_attributes_sound)
  qed (use 2 in auto)
qed simp

lemma fold_insert_get:
  "om_get (fold (\<lambda>(k, v). om_insert k v) xs m) key = Some v \<Longrightarrow> (key, v) \<in> set xs \<or> om_get m key = Some v"
proof (induction xs arbitrary: m)
  case (Cons e xs)
  obtain a b where e: "e = (a, b)" by fastforce
  with Cons.prems have "om_get (fold (\<lambda>(k, v). om_insert k v) xs (om_insert a b m)) key = Some v" by simp
  from Cons.IH [OF this] show ?case by (auto simp: e split: if_splits)
qed simp

lemma sign_prepared_attributes_from:
  "sign_prepared_attributes ac seed now creds prepared sigs = Some (out, sigs') \<Longrightarrow> attribute \<in> set out
   \<Longrightarrow> \<exists>key attributes. om_get prepared key = Some attributes \<and> attribute \<in> set attributes"
proof (induction ac seed now creds prepared sigs arbitrary: out sigs' rule: sign_prepared_attributes.induct)
  case (2 ac seed now cred creds prepared sigs)
  show ?case
  proof (cases "om_get prepared (oc_key cred)")
    case None
    with 2 show ?thesis by auto
  next
    case (Some new)
    with 2(3) obtain account_seed rest where seed: "seed = Some account_seed"
      and rest: "sign_prepared_attributes ac seed now creds (om_remove (oc_key cred) prepared)
        (prepare_attributes_no_root_hash_update ac account_seed new now sigs) = Some (rest, sigs')"
      and out: "out = new @ rest"
      by (auto simp: bind_eq_Some_conv)
    have "attribute \<in> set new \<or> attribute \<in> set rest" using 2(4) out by auto
    moreover have "\<exists>key attributes. om_get prepared key = Some attributes \<and> attribute \<in> set attributes"
      if "attribute \<in> set rest"
      using 2(2) [OF Some seed rest that] by (auto split: if_splits)
    ultimately show ?thesis using Some by blast
  qed
qed simp

text \<open>
  What the legacy flow signs are stored values of the identity's own credentials, under the issuer
  of their provider; nothing of an SSO provider is signed.
\<close>

lemma prepared_attributes_sound:
  "anchor_prepare_attributes ac os anchor seed requested now sigs = Some (out, sigs') \<Longrightarrow> attribute \<in> set out
   \<Longrightarrow> legacy_sound os (a_openid_credentials anchor) attribute"
  unfolding anchor_prepare_attributes_def collect_map_def
  by (drule (1) sign_prepared_attributes_from)
    (auto dest!: fold_insert_get intro: prepare_openid_attributes_sound)

end
