(* ===== verification/Spec2Isabelle.thy ===== *)
theory Spec2Isabelle
  imports Storage_Promises Storage_Migration Account_Isolation Expiring_Store Registration_Guards
    Tentative_Registration Activity_Stats Openid Archive_Pages Archive_Protocol Registration_Rates Authn_Methods
    Canister_Safety Attribute_Properties
begin

text \<open>
  A model of Internet Identity: the canister \<open>src/internet_identity\<close>, which keeps identities (anchors with their
  devices and OpenID credentials) and signs delegations for them, and the canister \<open>src/archive\<close>, to which it hands
  the log of changes. Paths below are relative to \<open>src/internet_identity/src\<close> where nothing else is said.

  \<^bold>\<open>The program and its parts.\<close>
  A message names an identity and comes from a caller. \<open>authz_utils.rs\<close> accepts the caller when a device or an OpenID
  credential of the identity, or a temporary key of one of its devices, stands for it. The operation then changes the
  in-memory anchor, \<open>storage.rs\<close> checks its limits, writes it with its lookup indices to stable memory, and the change
  is appended to the buffer of the archive. A new identity goes through a token bucket, a captcha when the rate of
  registrations is high, and a registration flow that is bound to a temporary principal. A new device can also join
  through the registration mode, after an accepted caller has entered the code that the device displays. Accounts give
  an identity several principals at one application. OpenID providers authenticate by tokens, whose verified claims
  become credentials and certified attributes.

  \<^bold>\<open>Conventions.\<close>
  Rust structs are records, enums are datatypes, and integers are words of their width: arithmetic wraps, as in the
  release build, or saturates or fails where the code asks for that. A \<open>Result\<close> is a sum with the error on the left; a
  trap is \<open>None\<close>, which undoes all changes of the message, whereas a returned error keeps the changes made before it. A
  \<open>String\<close> is the list of its UTF-8 bytes as characters. Stable and heap maps are the finite maps of \<open>Ordered_Map\<close>. Time,
  caller, own principal and randomness are arguments. Functions of crates (SHA-256, the DER and Candid encodings, JWT
  and RSA, the captcha generator) are arguments too, collected in records where there are many (\<open>crates\<close>, \<open>jose\<close>,
  \<open>attribute_crates\<close>); what a theorem assumes of them is a hypothesis of it, and its witness gives concrete ones. An
  asynchronous method is split at its awaits, and what waits is an explicit continuation. Texts of errors and logging are
  not modelled.

  \<^bold>\<open>Foundation.\<close>
  \<^item> \<open>Prelude\<close>: widths, results, arithmetic of 64-bit times. \<open>Ordered_Map\<close>: finite maps in the order of their keys with
    the laws of the locale \<open>finite_map\<close>. \<open>Interface_Types\<close>: the types of the crate \<open>internet_identity_interface\<close> that
    the components share.

  \<^bold>\<open>Identities in memory and in storage.\<close>
  \<^item> \<open>Anchor\<close> (\<open>storage/anchor.rs\<close>): the anchor, its operations and checks; every run of operations stays within the
    limits, and a locked recovery phrase cannot be changed by another caller.
  \<^item> \<open>Storable_Anchor\<close> (\<open>storage/storable/*.rs\<close>): the conversion to the stored structures and back, and what it keeps.
  \<^item> \<open>Storage_State\<close>, \<open>Storage\<close> (\<open>storage.rs\<close>): header, maps, allocation, reading and writing, the four lookup indices and
    their synchronisation. \<open>Storage_Index\<close> states the contract of the indices as the locale \<open>owner_index\<close>, interpreted on
    the three maps by one owner; \<open>Storage_Invariant\<close> is the invariant, kept by every operation; \<open>Storage_Properties\<close>,
    \<open>Storage_Promises\<close> and \<open>Storage_Migration\<close> are its consequences for all states reached from installation:
    soundness of the lookups, write then read, atomic allocation, the salt, upgrades, the migration of the index keys.

  \<^bold>\<open>Seeds and accounts.\<close>
  \<^item> \<open>Delegation\<close> (\<open>delegation.rs\<close>): seed blobs and lifetimes of delegations; blobs of different origins or kinds differ.
  \<^item> \<open>Accounts\<close>, \<open>Account_Management\<close> (\<open>storage/account.rs\<close>, the account operations of \<open>storage.rs\<close>,
    \<open>account_management.rs\<close>): all operations with their half-done error paths. \<open>Accounts_Invariant\<close>, \<open>Account_Properties\<close>,
    \<open>Account_Frame\<close> and \<open>Account_Isolation\<close> prove their invariant, the limit of accounts, distinct seeds for distinct
    accounts, and that the calls of one identity do not change what another one reads.

  \<^bold>\<open>Authentication.\<close>
  \<^item> \<open>Expiring_Store\<close> (\<open>state/temp_keys.rs\<close>, \<open>state/flow_states.rs\<close>): the map with a queue of expirations that both stores
    are, as the locale \<open>expiring_store\<close> with two interpretations; when a key authenticates and how long a flow is kept.
  \<^item> \<open>Tentative_Registration\<close> (\<open>anchor_management/tentative_device_registration.rs\<close>): the registration mode; it refines a
    machine of phases, allows three guesses of a code, and its lookup by registration id is sound.
  \<^item> \<open>Registration_Guards\<close> (\<open>registration/rate_limit.rs\<close>, \<open>captcha.rs\<close>), \<open>Registration_Rates\<close>
    (\<open>storage/registration_rates.rs\<close>): token bucket, challenges, and the rates that switch the captcha on.
  \<^item> \<open>Openid\<close> (\<open>openid.rs\<close>, \<open>openid/generic.rs\<close>): providers, tokens, credentials and their seeds; what an accepted token
    proves about its signature, audience, nonce and time.
  \<^item> \<open>Authn_Methods\<close> (\<open>conversions.rs\<close>, \<open>authn_method.rs\<close> of the interface crate): devices and authentication methods.
  \<^item> \<open>Attributes\<close>, \<open>Attribute_Sharing\<close>, \<open>Attribute_Properties\<close> (\<open>attributes.rs\<close> of both crates): keys of attributes and their
    text, the certification of attributes in two flows, and what a signed message guarantees.
  \<^item> \<open>Activity_Stats\<close> (\<open>stats/activity_stats\<close>): the windows of daily and monthly activity and the three counters, which
    interpret the locale \<open>activity_counter\<close>.

  \<^bold>\<open>The archive.\<close>
  \<^item> \<open>Archive_Client\<close> (\<open>archive.rs\<close>): the buffer, its reading and acknowledgement, and the deployment of the archive with
    other messages between its calls. \<open>Archive_Canister\<close> and \<open>Archive_Pages\<close> (\<open>src/archive\<close>): fetching, writing, indexing and
    serving the log page by page. \<open>Archive_Protocol\<close>: both canisters with calls and answers that get lost, fail and overtake
    each other; the archive holds a prefix of the log without gaps or repetitions, and can always catch up.

  \<^bold>\<open>The canister.\<close>
  \<^item> \<open>Canister\<close> (\<open>state.rs\<close>, \<open>authz_utils.rs\<close>), \<open>Registration\<close> (\<open>anchor_management/registration*\<close>), \<open>Canister_Methods\<close>
    (\<open>main.rs\<close>): the state with all the components above, the check of callers, and the methods.
  \<^item> \<open>Identity_Invariant\<close>, \<open>Authorization\<close>, \<open>Guarded_Methods\<close>, \<open>Registration_Effects\<close>: judgments that are closed under
    the combinators of methods: a method keeps the limits, changes only the identity it names, and only for an authorized
    caller.
  \<^item> \<open>Canister_Calls\<close>: the messages (\<open>call\<close>), \<open>execute\<close> and \<open>resume\<close>, and the step relation \<open>system_step\<close> of the
    canister with its continuations, in any order, next to the migration batches, the deployment of the archive and the
    refresh of provider keys. \<open>Canister_Properties\<close> lifts the judgments to messages.
  \<^item> \<open>Session_Provenance\<close>: \<open>system_run\<close>, the runs with the history of executed messages; a confirmed session was asked for
    by its own principal and confirmed with its code by a caller who was authorized at that time.
  \<^item> \<open>Device_Access\<close>, \<open>Canister_Safety\<close>: the device owner is accepted and a removed device is rejected; every identity
    stays within its limits, needs a registration the rate limit let pass, and is changed by nobody but an authorized
    caller, a session confirmed in the history, or the holder of a token of one of its credentials.

  \<^bold>\<open>Bounds.\<close>
  No definition uses fuel. Loops over lists and maps are structural or terminate by a measure; the loop that prunes a queue
  takes the number of entries the code removes at most in one message (\<open>MAX_TO_PRUNE\<close>), which is part of the behaviour and
  not a bound of the model. Theorems over time speak about 64-bit times in nanoseconds and say which sums must not overflow.

  \<^bold>\<open>Where the model is wider than the code.\<close>
  The calls to the management canister and the refresh of provider keys may change the archive state and the providers of
  \<open>system_step\<close> arbitrarily; \<open>Archive_Client\<close> and \<open>Openid\<close> treat them in detail. \<open>ensure_salt_set\<close> is the
  message \<open>CallInitSalt\<close>, which anyone may send at any time. A continuation may be resumed at any time or never. A lock
  on the creation of an archive may run out while the management canister still works on it; the statement about creations
  counts the locks that ran out.

  \<^bold>\<open>Not modelled.\<close>
  Certified signatures, usage metrics and event statistics are written next to the state and are read by no modelled
  operation; the continuations that only add signatures leave nothing behind. The encodings of stable structures (minicbor,
  Candid) are crates: a stable map holds the values. Stable memory is assumed not to be exhausted, an archive to be installed
  for this canister. The rates of registrations are real numbers, where the code rounds as \<open>f64\<close>. The HTTP interface,
  metrics, assets, the hooks that copy the configuration, the verifiable credentials beyond the authorization of
  \<open>prepare_id_alias\<close>, the frontends and the demos are left out: they keep no identity state, or belong to crates.
\<close>

end
